(* ===== verification/Prelude.thy ===== *)
theory Prelude
  imports Main "HOL-Library.Sublist" "HOL-Library.Multiset"
begin

text \<open>
  What every component of the model shares: the pieces of the JavaScript library the
  sources under web/src call (trimming, joining, decimal printing, the order-keeping
  removal of duplicates that \<open>[...new Set(xs)]\<close> is, \<open>findIndex\<close>), and the generic
  lemmas about them.  Strings are lists of 8-bit characters, so a UTF-16 code unit above
  255 is not represented; where a source function distinguishes such a unit, the theory
  that models it says so.
\<close>

named_theorems js_simps \<open>evaluation rules for the JavaScript library functions\<close>

section \<open>Strings\<close>

text \<open>\<open>String.prototype.trim\<close>: the white space of the Latin-1 range.\<close>

definition is_space :: "char \<Rightarrow> bool" where
  "is_space c \<longleftrightarrow> (let n = (of_char c :: nat) in (9 \<le> n \<and> n \<le> 13) \<or> n = 32 \<or> n = 160)"

definition trim :: "string \<Rightarrow> string" where
  "trim s = rev (dropWhile is_space (rev (dropWhile is_space s)))"

definition digit_char :: "nat \<Rightarrow> char" where
  "digit_char n = char_of (48 + n)"

fun show_nat :: "nat \<Rightarrow> string" where
  "show_nat n = (if n < 10 then [digit_char n] else show_nat (n div 10) @ [digit_char (n mod 10)])"

declare show_nat.simps [simp del]

definition show_int :: "int \<Rightarrow> string" where
  "show_int i = (if i < 0 then ''-'' @ show_nat (nat (- i)) else show_nat (nat i))"

text \<open>\<open>Array.prototype.join\<close>.\<close>

fun join_with :: "string \<Rightarrow> string list \<Rightarrow> string" where
  "join_with sep [] = ''''"
| "join_with sep [x] = x"
| "join_with sep (x # y # ys) = x @ sep @ join_with sep (y # ys)"

text \<open>\<open>String.prototype.split\<close> at a one-character separator.\<close>

fun split_at :: "char \<Rightarrow> string \<Rightarrow> string list" where
  "split_at c [] = [[]]"
| "split_at c (x # xs) =
     (if x = c then [] # split_at c xs
      else (case split_at c xs of [] \<Rightarrow> [[x]] | y # ys \<Rightarrow> (x # y) # ys))"

text \<open>\<open>split\<close> at a separator of several characters.\<close>

function split_on :: "string \<Rightarrow> string \<Rightarrow> string list" where
  "split_on sep s =
     (if sep = [] then [s] else if s = [] then [[]]
      else if take (length sep) s = sep then [] # split_on sep (drop (length sep) s)
      else (case split_on sep (tl s) of [] \<Rightarrow> [s] | y # ys \<Rightarrow> (hd s # y) # ys))"
  by pat_completeness auto
termination
  by (relation "measure (\<lambda>(sep, s). length s)") (auto simp: neq_Nil_conv)

declare split_on.simps [simp del]

definition lower_char :: "char \<Rightarrow> char" where
  "lower_char c = (let n = (of_char c :: nat) in
     if (65 \<le> n \<and> n \<le> 90) \<or> (192 \<le> n \<and> n \<le> 222 \<and> n \<noteq> 215) then char_of (n + 32) else c)"

definition upper_char :: "char \<Rightarrow> char" where
  "upper_char c = (let n = (of_char c :: nat) in
     if (97 \<le> n \<and> n \<le> 122) \<or> (224 \<le> n \<and> n \<le> 254 \<and> n \<noteq> 247) then char_of (n - 32) else c)"

definition to_upper :: "string \<Rightarrow> string" where
  "to_upper s = map upper_char s"

definition to_lower :: "string \<Rightarrow> string" where
  "to_lower s = map lower_char s"

text \<open>\<open>replace\<close> of a string replaces its first occurrence.\<close>

fun replace_once :: "char \<Rightarrow> char \<Rightarrow> string \<Rightarrow> string" where
  "replace_once x y [] = []"
| "replace_once x y (c # cs) = (if c = x then y # cs else c # replace_once x y cs)"

lemma trim_Nil [simp, js_simps]: "trim [] = []"
  by (simp add: trim_def)

text \<open>What is trimmed begins and ends with no white space.\<close>

lemma trim_ends: "dropWhile is_space (trim s) = trim s" "dropWhile is_space (rev (trim s)) = rev (trim s)"
proof -
  define t where "t = dropWhile is_space s"
  define u where "u = rev (dropWhile is_space (rev t))"
  have "u @ rev (takeWhile is_space (rev t)) = t"
    unfolding u_def by (metis rev_append rev_rev_ident takeWhile_dropWhile_id)
  then have "u = [] \<or> hd u = hd t \<and> t \<noteq> []" by (metis append_is_Nil_conv hd_append2)
  then have "dropWhile is_space u = u"
    using hd_dropWhile [of is_space s] by (cases u) (auto simp: t_def)
  moreover have "dropWhile is_space (rev u) = rev u" by (simp add: u_def)
  moreover have "trim s = u" by (simp add: trim_def t_def u_def)
  ultimately show "dropWhile is_space (trim s) = trim s" "dropWhile is_space (rev (trim s)) = rev (trim s)" by simp_all
qed

lemma trim_trim [simp]: "trim (trim s) = trim s"
  unfolding trim_def [of "trim s"] trim_ends by simp

lemma hd_trim: "trim s = c # cs \<Longrightarrow> \<not> is_space c"
  using trim_ends(1) [of s] hd_dropWhile [of is_space "trim s"] by simp

lemma filter_trim: "filter (\<lambda>c. \<not> is_space c) (trim s) = filter (\<lambda>c. \<not> is_space c) s"
proof -
  have d: "filter (\<lambda>c. \<not> is_space c) (dropWhile is_space t) = filter (\<lambda>c. \<not> is_space c) t" for t by (induction t) auto
  have "filter (\<lambda>c. \<not> is_space c) (rev (dropWhile is_space (rev t))) = filter (\<lambda>c. \<not> is_space c) t" for t
    using d [of "rev t"] by (metis rev_filter rev_rev_ident)
  with d show ?thesis by (simp add: trim_def)
qed

lemma split_at_not_Nil [simp]: "split_at c s \<noteq> []"
  by (induction s) (auto split: list.splits)

lemma join_split [simp]: "join_with [c] (split_at c s) = s"
proof (induction s)
  case Nil
  then show ?case by simp
next
  case (Cons x s)
  then show ?case
    by (cases "split_at c s" rule: list.exhaust; cases "tl (split_at c s)") auto
qed

lemma split_at_no_sep: "c \<notin> set s \<Longrightarrow> split_at c s = [s]"
  by (induction s) auto

lemma split_at_pieces: "p \<in> set (split_at c s) \<Longrightarrow> c \<notin> set p"
  by (induction s arbitrary: p) (auto split: if_splits list.splits)

lemma split_at_append: "c \<notin> set s \<Longrightarrow> split_at c (s @ c # t) = s # split_at c t"
  by (induction s) auto

lemma split_join: "(\<And>p. p \<in> set ps \<Longrightarrow> c \<notin> set p) \<Longrightarrow> ps \<noteq> [] \<Longrightarrow> split_at c (join_with [c] ps) = ps"
proof (induction "[c]" ps rule: join_with.induct)
  case 1
  then show ?case by simp
next
  case (2 x)
  then show ?case by (simp add: split_at_no_sep)
next
  case (3 x y ys)
  then show ?case by (simp add: split_at_append)
qed

section \<open>Lists\<close>

text \<open>\<open>[...new Set(xs)]\<close>: the first occurrence of each element, in order.\<close>

fun uniq :: "'a list \<Rightarrow> 'a list" where
  "uniq [] = []"
| "uniq (x # xs) = x # filter (\<lambda>y. y \<noteq> x) (uniq xs)"

lemma set_uniq [simp]: "set (uniq xs) = set xs"
  by (induction xs) auto

lemma distinct_uniq [simp]: "distinct (uniq xs)"
  by (induction xs) auto

lemma uniq_distinct: "distinct xs \<Longrightarrow> uniq xs = xs"
proof (induction xs)
  case Nil
  then show ?case by simp
next
  case (Cons x xs)
  then have "filter (\<lambda>y. y \<noteq> x) xs = xs" by (auto simp: filter_id_conv)
  with Cons show ?case by simp
qed

lemma length_uniq_le: "length (uniq xs) \<le> length xs"
proof (induction xs)
  case (Cons x xs)
  have "length (filter (\<lambda>y. y \<noteq> x) (uniq xs)) \<le> length (uniq xs)"
    by (rule length_filter_le)
  with Cons show ?case by (simp del: length_filter_le)
qed simp

lemma length_uniq_eq: "length (uniq xs) = length xs \<longleftrightarrow> distinct xs"
proof
  assume "length (uniq xs) = length xs"
  then have "card (set xs) = length xs"
    using distinct_card [OF distinct_uniq, of xs] by simp
  then show "distinct xs" by (rule card_distinct)
next
  assume "distinct xs"
  then show "length (uniq xs) = length xs" by (simp add: uniq_distinct)
qed

text \<open>\<open>Array.prototype.findIndex\<close>, with \<open>None\<close> for -1.\<close>

fun find_index :: "('a \<Rightarrow> bool) \<Rightarrow> 'a list \<Rightarrow> nat option" where
  "find_index P [] = None"
| "find_index P (x # xs) = (if P x then Some 0 else map_option Suc (find_index P xs))"

lemma find_index_None: "find_index P xs = None \<longleftrightarrow> (\<forall>x\<in>set xs. \<not> P x)"
  by (induction xs) auto

lemma find_indexI: "i < length xs \<Longrightarrow> P (xs ! i) \<Longrightarrow> (\<And>j. j < i \<Longrightarrow> \<not> P (xs ! j)) \<Longrightarrow> find_index P xs = Some i"
proof (induction xs arbitrary: i)
  case (Cons x xs)
  show ?case
  proof (cases i)
    case (Suc k)
    have "\<not> P x" using Cons.prems(3) [of 0] Suc by simp
    moreover have "find_index P xs = Some k"
      using Cons.prems Suc by (intro Cons.IH) (auto, metis Suc_less_eq nth_Cons_Suc)
    ultimately show ?thesis using Suc by simp
  qed (use Cons.prems in simp)
qed simp

lemma find_index_Some:
  "find_index P xs = Some i \<Longrightarrow> i < length xs \<and> P (xs ! i) \<and> (\<forall>j<i. \<not> P (xs ! j))"
proof (induction xs arbitrary: i)
  case Nil
  then show ?case by simp
next
  case (Cons x xs)
  show ?case
  proof (cases "P x")
    case True
    with Cons.prems show ?thesis by simp
  next
    case False
    with Cons.prems obtain k where k: "find_index P xs = Some k" "i = Suc k" by auto
    from Cons.IH [OF k(1)] False k(2) show ?thesis
      by (auto simp: nth_Cons split: nat.splits)
  qed
qed

text \<open>Replacing the first element that satisfies a test: \<open>xs[i] = y\<close> at its \<open>findIndex\<close>.\<close>

definition put_first :: "('a \<Rightarrow> bool) \<Rightarrow> 'a \<Rightarrow> 'a list \<Rightarrow> 'a list" where
  "put_first P y xs = (case find_index P xs of None \<Rightarrow> xs | Some i \<Rightarrow> xs[i := y])"

lemma put_first_Nil [simp]: "put_first P y [] = []"
  by (simp add: put_first_def)

lemma put_first_Cons [simp]:
  "put_first P y (x # xs) = (if P x then y # xs else x # put_first P y xs)"
  by (auto simp: put_first_def split: option.splits)

lemma length_put_first [simp]: "length (put_first P y xs) = length xs"
  by (simp add: put_first_def split: option.splits)

lemma map_put_first: "(\<And>x. P x \<Longrightarrow> f x = f y) \<Longrightarrow> map f (put_first P y xs) = map f xs"
  by (induction xs) auto

lemma put_first_none: "(\<And>x. x \<in> set xs \<Longrightarrow> \<not> P x) \<Longrightarrow> put_first P y xs = xs"
  by (induction xs) auto

text \<open>\<open>Array.prototype.find\<close> is the library's \<open>List.find\<close>; \<open>xs.slice(i, j)\<close> within range.\<close>

definition slice :: "nat \<Rightarrow> nat \<Rightarrow> 'a list \<Rightarrow> 'a list" where
  "slice i j xs = take (j - i) (drop i xs)"

lemma find_Some_mem: "List.find P xs = Some x \<Longrightarrow> x \<in> set xs \<and> P x"
  by (induction xs) (auto split: if_splits)

lemma find_None: "List.find P xs = None \<longleftrightarrow> (\<forall>x\<in>set xs. \<not> P x)"
  by (auto simp: find_None_iff)

lemma filter_mem_map:
  "distinct (map f xs) \<Longrightarrow> x \<in> set xs \<Longrightarrow> filter (\<lambda>y. f y = f x) xs = [x]"
proof (induction xs)
  case (Cons z zs)
  show ?case
  proof (cases "x = z")
    case True
    with Cons.prems have "filter (\<lambda>y. f y = f x) zs = []"
      by (auto simp: filter_empty_conv) (metis image_eqI)
    with True show ?thesis by simp
  next
    case False
    with Cons show ?thesis by (auto simp: image_iff)
  qed
qed simp

text \<open>Batches of at most \<open>n\<close>: the loops \<open>for (at = 0; at < xs.length; at += n)\<close> over slices.\<close>

function batches :: "nat \<Rightarrow> 'a list \<Rightarrow> 'a list list" where
  "batches n xs = (if xs = [] \<or> n = 0 then [] else take n xs # batches n (drop n xs))"
  by pat_completeness auto
termination
  by (relation "measure (\<lambda>(n, xs). length xs)") auto

declare batches.simps [simp del]

lemma batches_Nil [simp]: "batches n [] = []"
  by (simp add: batches.simps)

lemma concat_batches: "0 < n \<Longrightarrow> concat (batches n xs) = xs"
proof (induction n xs rule: batches.induct)
  case (1 n xs)
  then show ?case by (cases "xs = []") (simp_all add: batches.simps [of n xs])
qed

lemma batches_bounded: "b \<in> set (batches n xs) \<Longrightarrow> b \<noteq> [] \<and> length b \<le> n"
proof (induction n xs rule: batches.induct)
  case (1 n xs)
  show ?case
  proof (cases "xs = [] \<or> n = 0")
    case True
    with 1 show ?thesis by (simp add: batches.simps [of n xs])
  next
    case False
    with 1 show ?thesis by (auto simp: batches.simps [of n xs])
  qed
qed

lemma length_batches: "0 < n \<Longrightarrow> length (batches n xs) = (length xs + n - 1) div n"
proof (induction n xs rule: batches.induct)
  case (1 n xs)
  show ?case
  proof (cases "xs = []")
    case True
    with 1 show ?thesis by simp
  next
    case False
    have step: "length (batches n xs) = Suc (length (batches n (drop n xs)))"
      using 1 False by (simp add: batches.simps [of n xs])
    show ?thesis
    proof (cases "length xs \<le> n")
      case True
      have "(length xs + n - 1) div n = 1"
        using 1 False True by (intro div_nat_eqI) (cases xs; simp)+
      with step True show ?thesis by simp
    next
      case F: False
      with 1 False have "length (batches n (drop n xs)) = (length xs - n + n - 1) div n" by simp
      moreover have "length xs + n - 1 = (length xs - n + n - 1) + n" using F by simp
      ultimately show ?thesis using step 1
        by (metis div_add_self2 less_numeral_extra(3) add_Suc_right add.right_neutral One_nat_def)
    qed
  qed
qed

section \<open>Sorting\<close>

text \<open>
  \<open>Array.prototype.sort\<close> with a comparison: stable, so for a comparison that orders its
  arguments consistently every implementation gives the list that insertion gives.
\<close>

fun insert_by :: "('a \<Rightarrow> 'a \<Rightarrow> int) \<Rightarrow> 'a \<Rightarrow> 'a list \<Rightarrow> 'a list" where
  "insert_by cmp x [] = [x]"
| "insert_by cmp x (y # ys) = (if cmp x y \<le> 0 then x # y # ys else y # insert_by cmp x ys)"

definition sort_by :: "('a \<Rightarrow> 'a \<Rightarrow> int) \<Rightarrow> 'a list \<Rightarrow> 'a list" where
  "sort_by cmp xs = foldr (insert_by cmp) xs []"

text \<open>A comparison that orders: total, and transitive in \<open>\<le>\<close>.\<close>

definition orders :: "('a \<Rightarrow> 'a \<Rightarrow> int) \<Rightarrow> bool" where
  "orders cmp \<longleftrightarrow> (\<forall>a b. cmp a b \<le> 0 \<or> cmp b a \<le> 0) \<and> (\<forall>a b c. cmp a b \<le> 0 \<longrightarrow> cmp b c \<le> 0 \<longrightarrow> cmp a c \<le> 0)"

lemma mset_insert_by [simp]: "mset (insert_by cmp x xs) = add_mset x (mset xs)"
  by (induction xs) auto

lemma sort_by_simps [simp]: "sort_by cmp [] = []" "sort_by cmp (x # xs) = insert_by cmp x (sort_by cmp xs)"
  by (simp_all add: sort_by_def)

lemma mset_sort_by [simp]: "mset (sort_by cmp xs) = mset xs"
  by (induction xs) auto

lemma set_sort_by [simp]: "set (sort_by cmp xs) = set xs"
  using mset_sort_by [of cmp xs] by (metis set_mset_mset)

lemma set_insert_by [simp]: "set (insert_by cmp x xs) = insert x (set xs)"
  by (induction xs) auto

lemma length_sort_by [simp]: "length (sort_by cmp xs) = length xs"
  using mset_sort_by [of cmp xs] by (metis size_mset)

lemma distinct_sort_by [simp]: "distinct (sort_by cmp xs) \<longleftrightarrow> distinct xs"
  using mset_sort_by [of cmp xs] by (rule mset_eq_imp_distinct_iff)

lemma sorted_insert_by:
  "orders cmp \<Longrightarrow> sorted_wrt (\<lambda>a b. cmp a b \<le> 0) xs \<Longrightarrow> sorted_wrt (\<lambda>a b. cmp a b \<le> 0) (insert_by cmp x xs)"
  by (induction xs) (auto simp: orders_def)

lemma sorted_sort_by: "orders cmp \<Longrightarrow> sorted_wrt (\<lambda>a b. cmp a b \<le> 0) (sort_by cmp xs)"
  by (induction xs) (auto simp: sorted_insert_by)

lemma map_insert_by: "map f (insert_by (\<lambda>a b. cmp (f a) (f b)) x xs) = insert_by cmp (f x) (map f xs)"
  by (induction xs) auto

lemma map_sort_by: "map f (sort_by (\<lambda>a b. cmp (f a) (f b)) xs) = sort_by cmp (map f xs)"
  by (induction xs) (auto simp: map_insert_by)

section \<open>Insertion-ordered maps\<close>

text \<open>A JavaScript \<open>Map\<close> as its entries in insertion order: \<open>set\<close> keeps the place of a key.\<close>

fun map_set :: "'k \<Rightarrow> 'v \<Rightarrow> ('k \<times> 'v) list \<Rightarrow> ('k \<times> 'v) list" where
  "map_set k v [] = [(k, v)]"
| "map_set k v ((k', v') # m) = (if k = k' then (k, v) # m else (k', v') # map_set k v m)"

definition map_from :: "('k \<times> 'v) list \<Rightarrow> ('k \<times> 'v) list" where
  "map_from kvs = foldl (\<lambda>m (k, v). map_set k v m) [] kvs"

lemma map_of_map_set [simp]: "map_of (map_set k v m) = (map_of m)(k \<mapsto> v)"
  by (induction m) (auto simp: fun_upd_twist)

lemma keys_map_set: "map fst (map_set k v m) = (if k \<in> fst ` set m then map fst m else map fst m @ [k])"
proof (induction m)
  case (Cons e m)
  then show ?case by (cases e) (auto simp: image_iff)
qed simp

lemma distinct_map_set: "distinct (map fst m) \<Longrightarrow> distinct (map fst (map_set k v m))"
  by (auto simp: keys_map_set)

lemma map_set_snoc: "k \<notin> fst ` set m \<Longrightarrow> map_set k v m = m @ [(k, v)]"
  by (induction m) auto

lemma foldl_map_set_distinct: "distinct (map fst m) \<Longrightarrow> distinct (map fst (foldl (\<lambda>m (k, v). map_set k v m) m kvs))"
  by (induction kvs arbitrary: m) (auto simp: distinct_map_set)

lemma distinct_map_from [simp]: "distinct (map fst (map_from kvs))"
  by (simp add: map_from_def foldl_map_set_distinct)

lemma foldl_map_set_keys: "fst ` set (foldl (\<lambda>m (k, v). map_set k v m) m kvs) = fst ` set m \<union> fst ` set kvs"
proof (induction kvs arbitrary: m)
  case (Cons kv kvs)
  have "fst ` set (map_set k v m) = insert k (fst ` set m)" for k v and m :: "('a \<times> 'b) list"
    using arg_cong [OF keys_map_set [of k v m], of set] by (auto split: if_splits)
  with Cons show ?case by (cases kv) auto
qed simp

lemma keys_map_from: "fst ` set (map_from kvs) = fst ` set kvs"
  by (simp add: map_from_def foldl_map_set_keys)

lemma foldl_map_set_append:
  "distinct (map fst (m @ kvs)) \<Longrightarrow> foldl (\<lambda>m (k, v). map_set k v m) m kvs = m @ kvs"
proof (induction kvs arbitrary: m)
  case (Cons kv kvs)
  obtain k v where "kv = (k, v)" by fastforce
  with Cons.prems have "map_set k v m = m @ [(k, v)]" by (intro map_set_snoc) auto
  with Cons \<open>kv = (k, v)\<close> show ?case by simp
qed simp

lemma map_from_distinct: "distinct (map fst kvs) \<Longrightarrow> map_from kvs = kvs"
  by (simp add: map_from_def foldl_map_set_append)

lemma map_from_values:
  fixes kvs :: "('k \<times> 'v) list"
  shows "snd ` set (map_from kvs) \<subseteq> snd ` set kvs"
proof -
  have set_ms: "set (map_set k v m) \<subseteq> insert (k, v) (set m)" for k :: 'k and v :: 'v and m
    by (induction m) (auto split: if_splits)
  have "set (foldl (\<lambda>m (k, v). map_set k v m) m kvs) \<subseteq> set m \<union> set kvs" for m
  proof (induction kvs arbitrary: m)
    case (Cons kv kvs)
    obtain k v where "kv = (k, v)" by fastforce
    with Cons.IH [of "map_set k v m"] set_ms [of k v m] show ?case by auto
  qed simp
  from this [of "[]"] show ?thesis by (auto simp: map_from_def)
qed

section \<open>Truthiness\<close>

text \<open>A string that JavaScript takes for true: there, and not empty.\<close>

definition given :: "string option \<Rightarrow> string option" where
  "given v = (case v of None \<Rightarrow> None | Some s \<Rightarrow> if s = '''' then None else Some s)"

end
