(* ===== verification/Json.thy ===== *)
theory Json
  imports Prelude
begin

text \<open>
  JSON values, as the bodies of requests, the data of items and the attributes of notes
  carry them, and \<open>JSON.stringify\<close> on them.  Objects keep their properties in order,
  because \<open>JSON.stringify\<close> writes them in that order.  Numbers are the integers the
  program sends (ids, versions, counts, booleans of the wire).
\<close>

datatype json =
    JNull
  | JBool bool
  | JNum int
  | JStr string
  | JArr "json list"
  | JObj "(string \<times> json) list"

type_synonym object = "(string \<times> json) list"

text \<open>Reading a property: \<open>undefined\<close> is \<open>None\<close>.\<close>

definition get_prop :: "object \<Rightarrow> string \<Rightarrow> json option" where
  "get_prop obj name = map_of obj name"

definition as_string :: "json \<Rightarrow> string option" where
  "as_string j = (case j of JStr s \<Rightarrow> Some s | _ \<Rightarrow> None)"

text \<open>JavaScript's truth of a value that may be \<open>undefined\<close>.\<close>

fun truthy :: "json option \<Rightarrow> bool" where
  "truthy None = False"
| "truthy (Some JNull) = False"
| "truthy (Some (JBool b)) = b"
| "truthy (Some (JNum n)) = (n \<noteq> 0)"
| "truthy (Some (JStr s)) = (s \<noteq> '''')"
| "truthy (Some (JArr _)) = True"
| "truthy (Some (JObj _)) = True"

section \<open>JSON.stringify\<close>

definition hex_char :: "nat \<Rightarrow> char" where
  "hex_char n = (if n < 10 then char_of (48 + n) else char_of (87 + n))"

definition escape_char :: "char \<Rightarrow> string" where
  "escape_char c = (let n = (of_char c :: nat) in
     if n = 34 then [CHR 0x5C, CHR 0x22]
     else if n = 92 then [CHR 0x5C, CHR 0x5C]
     else if n = 8 then [CHR 0x5C, CHR ''b'']
     else if n = 12 then [CHR 0x5C, CHR ''f'']
     else if n = 10 then [CHR 0x5C, CHR ''n'']
     else if n = 13 then [CHR 0x5C, CHR ''r'']
     else if n = 9 then [CHR 0x5C, CHR ''t'']
     else if n < 32 then [CHR 0x5C, CHR ''u'', CHR ''0'', CHR ''0'', hex_char (n div 16), hex_char (n mod 16)]
     else [c])"

definition quote_string :: "string \<Rightarrow> string" where
  "quote_string s = [CHR 0x22] @ concat (map escape_char s) @ [CHR 0x22]"

fun stringify :: "json \<Rightarrow> string" where
  "stringify JNull = ''null''"
| "stringify (JBool b) = (if b then ''true'' else ''false'')"
| "stringify (JNum n) = show_int n"
| "stringify (JStr s) = quote_string s"
| "stringify (JArr xs) = ''['' @ join_with '','' (map stringify xs) @ '']''"
| "stringify (JObj kvs) =
     [CHR ''{''] @ join_with '','' (map (\<lambda>(k, v). quote_string k @ '':'' @ stringify v) kvs) @ [CHR ''}'']"


section \<open>JSON.stringify tells values apart\<close>

text \<open>
  The program compares two values by comparing what \<open>JSON.stringify\<close> makes of them.  That
  is equality of the values: the text can be read back in one way only.  \<open>delimited r\<close> says
  that \<open>r\<close> does not continue a number.
\<close>

definition delimited :: "string \<Rightarrow> bool" where
  "delimited r \<longleftrightarrow> r = [] \<or> hd r \<in> {CHR '','', CHR '']'', CHR ''}''}"

definition reads_back :: "('a \<Rightarrow> string) \<Rightarrow> 'a \<Rightarrow> bool" where
  "reads_back enc x \<longleftrightarrow> (\<forall>y r r'. delimited r \<longrightarrow> delimited r' \<longrightarrow> enc x @ r = enc y @ r' \<longrightarrow> x = y \<and> r = r')"

definition unhex_char :: "char \<Rightarrow> nat" where
  "unhex_char c = (let n = of_char c in if n < 58 then n - 48 else n - 87)"

definition unescape_letter :: "char \<Rightarrow> char" where
  "unescape_letter c = (if c = CHR ''b'' then CHR 0x08 else if c = CHR ''f'' then CHR 0x0C
     else if c = CHR ''n'' then CHR 0x0A else if c = CHR ''r'' then CHR 0x0D
     else if c = CHR ''t'' then CHR 0x09 else c)"

fun unescape :: "string \<Rightarrow> (char \<times> string) option" where
  "unescape [] = None"
| "unescape [x] = (if x = CHR 0x5C then None else Some (x, []))"
| "unescape (x # y # ys) =
     (if x \<noteq> CHR 0x5C then Some (x, y # ys)
      else if y \<noteq> CHR ''u'' then Some (unescape_letter y, ys)
      else (case ys of a # b # p # q # zs \<Rightarrow> Some (char_of (16 * unhex_char p + unhex_char q), zs) | _ \<Rightarrow> None))"

lemma unescape_append: "unescape xs = Some (c, ys) \<Longrightarrow> unescape (xs @ r) = Some (c, ys @ r)"
proof (induction xs rule: unescape.induct)
  case (2 x)
  then show ?case by (cases r) (auto split: if_splits)
qed (auto split: if_splits list.splits)

lemma char_code_cases:
  obtains (low) n :: nat where "c = char_of n" "n < 32" | (high) n :: nat where "c = char_of n" "32 \<le> n" "n < 256"
proof -
  have c: "c = char_of (of_char c :: nat)" and b: "(of_char c :: nat) < 256"
    by (simp_all only: char_of_char nat_of_char_less_256)
  show thesis
  proof (cases "(of_char c :: nat) < 32")
    case True
    with c low show thesis by blast
  next
    case False
    show thesis by (rule high [OF c _ b]) (use False in simp)
  qed
qed

lemma less_32_cases: "n < (32::nat) \<Longrightarrow> n \<in> {0,1,2,3,4,5,6,7,8,9,10,11,12,13,14,15,16,17,18,19,20,21,22,23,24,25,26,27,28,29,30,31}"
  unfolding insert_iff empty_iff by presburger

lemma control_chars:
  "CHR 0x08 = char_of (8::nat)" "CHR 0x09 = char_of (9::nat)" "CHR 0x0A = char_of (10::nat)"
  "CHR 0x0C = char_of (12::nat)" "CHR 0x0D = char_of (13::nat)"
  "CHR 0x5C = char_of (92::nat)" "CHR 0x22 = char_of (34::nat)"
  by (simp_all add: char_of_def bit_Suc_0_iff)

lemma unescape_escape_nil: "unescape (escape_char c) = Some (c, [])"
proof (cases c rule: char_code_cases)
  case (low n)
  from less_32_cases [OF low(2)] show ?thesis unfolding low(1)
    by (auto simp: escape_char_def hex_char_def unhex_char_def unescape_letter_def control_chars)
next
  case (high n)
  consider "n = 34" | "n = 92" | "n \<noteq> 34" "n \<noteq> 92" by blast
  then show ?thesis
  proof cases
    case 3
    with high have "escape_char c = [c]" by (simp add: escape_char_def Let_def)
    moreover from 3 high have "c \<noteq> CHR 0x5C" by (simp add: control_chars)
    ultimately show ?thesis by simp
  qed (simp_all add: high(1) control_chars [symmetric] escape_char_def unescape_letter_def)
qed

lemma unescape_escape: "unescape (escape_char c @ r) = Some (c, r)"
  using unescape_append [OF unescape_escape_nil, of c r] by simp

lemma escape_not_quote: "hd (escape_char c) \<noteq> CHR 0x22 \<and> escape_char c \<noteq> []"
  by (auto simp: escape_char_def Let_def)

lemma escape_reads_back:
  "concat (map escape_char s) @ CHR 0x22 # r = concat (map escape_char t) @ CHR 0x22 # r' \<Longrightarrow>
   s = t \<and> r = r'"
proof (induction s arbitrary: t)
  case Nil
  show ?case
  proof (cases t)
    case Nil
    with Nil.prems show ?thesis by simp
  next
    case (Cons d t')
    have "hd (escape_char d) \<noteq> CHR 0x22" "escape_char d \<noteq> []"
      using escape_not_quote by auto
    with Nil.prems Cons show ?thesis by (cases "escape_char d") auto
  qed
next
  case (Cons c s)
  show ?case
  proof (cases t)
    case Nil
    have "hd (escape_char c) \<noteq> CHR 0x22" "escape_char c \<noteq> []"
      using escape_not_quote by auto
    with Cons.prems Nil show ?thesis by (cases "escape_char c") auto
  next
    case t: (Cons d t')
    from arg_cong [OF Cons.prems [unfolded t], of unescape]
    have "c = d" and "concat (map escape_char s) @ CHR 0x22 # r
        = concat (map escape_char t') @ CHR 0x22 # r'"
      by (simp_all add: unescape_escape)
    with Cons.IH t show ?thesis by simp
  qed
qed

lemma quote_reads_back: "quote_string s @ r = quote_string t @ r' \<Longrightarrow> s = t \<and> r = r'"
  using escape_reads_back [of s r t r'] by (simp add: quote_string_def)

text \<open>Decimal numbers: the value of the digits.\<close>

definition digits_value :: "string \<Rightarrow> nat" where
  "digits_value s = foldl (\<lambda>v c. 10 * v + (of_char c - 48)) 0 s"

definition is_digit :: "char \<Rightarrow> bool" where
  "is_digit c \<longleftrightarrow> (let n = (of_char c :: nat) in 48 \<le> n \<and> n \<le> 57)"

lemma of_digit_char: "n < 10 \<Longrightarrow> of_char (digit_char n) = 48 + n"
  by (simp add: digit_char_def take_bit_nat_def)

lemma show_nat_digits: "show_nat n \<noteq> [] \<and> (\<forall>c\<in>set (show_nat n). is_digit c)"
proof (induction n rule: show_nat.induct)
  case (1 n)
  then show ?case
    by (auto simp: show_nat.simps [of n] is_digit_def Let_def of_digit_char)
qed

lemma digits_value_show: "digits_value (show_nat n) = n"
proof (induction n rule: show_nat.induct)
  case (1 n)
  then show ?case
    by (simp add: show_nat.simps [of n] digits_value_def of_digit_char)
qed

lemma show_nat_inj: "show_nat m = show_nat n \<longleftrightarrow> m = n"
  by (metis digits_value_show)

lemma hd_show_nat: "is_digit (hd (show_nat n))"
  using show_nat_digits [of n] by (simp add: hd_in_set)

lemma is_digit_codes: "is_digit c \<Longrightarrow> c \<noteq> CHR ''-'' \<and> c \<notin> {CHR '','', CHR '']'', CHR ''}''}"
  by (auto simp: is_digit_def Let_def)

lemma show_nat_reads_back:
  assumes "delimited r" "delimited r'" "show_nat m @ r = show_nat n @ r'"
  shows "m = n \<and> r = r'"
proof -
  have tw: "takeWhile is_digit (show_nat k @ x) = show_nat k" if "delimited x" for k x
    using show_nat_digits [of k] that is_digit_codes
    by (cases x) (auto simp: delimited_def takeWhile_append2)
  from assms have "show_nat m = show_nat n" by (metis tw)
  with assms(3) show ?thesis by (simp add: show_nat_inj)
qed

lemma show_int_reads_back:
  assumes "delimited r" "delimited r'" "show_int i @ r = show_int j @ r'"
  shows "i = j \<and> r = r'"
proof -
  have d: "hd (show_nat k @ x) \<noteq> CHR ''-''" for k x
    using hd_show_nat [of k] show_nat_digits [of k] is_digit_codes by auto
  have c: "show_nat k @ x \<noteq> CHR ''-'' # y" for k x y
    using d [of k x] by auto
  consider "i < 0" "j < 0" | "0 \<le> i" "0 \<le> j" | "i < 0" "0 \<le> j" | "0 \<le> i" "j < 0" by linarith
  then show ?thesis
  proof cases
    case 1
    with assms have "show_nat (nat (- i)) @ r = show_nat (nat (- j)) @ r'"
      by (simp add: show_int_def)
    from show_nat_reads_back [OF assms(1,2) this] 1 show ?thesis by (auto simp: eq_nat_nat_iff)
  next
    case 2
    with assms have "show_nat (nat i) @ r = show_nat (nat j) @ r'"
      by (simp add: show_int_def)
    from show_nat_reads_back [OF assms(1,2) this] 2 show ?thesis by (auto simp: eq_nat_nat_iff)
  next
    case 3
    with assms c show ?thesis by (simp add: show_int_def) metis
  next
    case 4
    with assms c show ?thesis by (simp add: show_int_def)
  qed
qed

text \<open>Every JSON text starts with a character that tells its kind, never a closing one.\<close>

lemma stringify_head:
  "stringify j \<noteq> [] \<and> hd (stringify j) \<notin> {CHR '','', CHR '']'', CHR ''}''}"
proof (cases j)
  case (JNum n)
  then show ?thesis
    using hd_show_nat is_digit_codes show_nat_digits by (auto simp: show_int_def)
qed (auto simp: quote_string_def)

lemma list_reads_back:
  assumes enc: "\<And>y. enc y \<noteq> [] \<and> hd (enc y) \<notin> {CHR '','', CHR '']'', CHR ''}''}"
    and elems: "\<forall>x\<in>set xs. reads_back enc x"
    and stop: "c \<in> {CHR '']'', CHR ''}''}"
  shows "join_with '','' (map enc xs) @ c # r = join_with '','' (map enc ys) @ c # r' \<Longrightarrow> xs = ys \<and> r = r'"
  using elems
proof (induction xs arbitrary: ys)
  case base: Nil
  show ?case
  proof (cases ys)
    case (Cons y ys')
    have "hd (join_with '','' (map enc ys) @ c # r') = hd (enc y)"
      using enc [of y] Cons by (cases ys') auto
    moreover have "hd (join_with '','' (map enc ys) @ c # r') = c"
      using base.prems(1) by (metis append_Nil join_with.simps(1) list.sel(1) list.simps(8))
    ultimately show ?thesis using enc [of y] stop by auto
  next
    case Nil
    with base.prems show ?thesis by simp
  qed
next
  case (Cons x xs)
  show ?case
  proof (cases ys)
    case Nil
    have "hd (join_with '','' (map enc (x # xs)) @ c # r) = hd (enc x)"
      using enc [of x] by (cases xs) auto
    moreover have "hd (join_with '','' (map enc (x # xs)) @ c # r) = c"
      using Cons.prems(1) Nil by (metis append_Nil join_with.simps(1) list.sel(1) list.simps(8))
    ultimately show ?thesis using enc [of x] stop by auto
  next
    case ys: (Cons y ys')
    define u where "u = (if xs = [] then c # r else CHR '','' # join_with '','' (map enc xs) @ c # r)"
    define v where "v = (if ys' = [] then c # r' else CHR '','' # join_with '','' (map enc ys') @ c # r')"
    have "enc x @ u = enc y @ v"
      using Cons.prems(1) ys by (cases xs; cases ys') (auto simp: u_def v_def)
    moreover have "delimited u" "delimited v"
      using stop by (auto simp: u_def v_def delimited_def)
    ultimately have xy: "x = y" and uv: "u = v"
      using Cons.prems(2) by (auto simp: reads_back_def)
    show ?thesis
    proof (cases "xs = [] \<or> ys' = []")
      case True
      with uv stop xy ys show ?thesis by (auto simp: u_def v_def split: if_splits)
    next
      case False
      with uv have "join_with '','' (map enc xs) @ c # r = join_with '','' (map enc ys') @ c # r'"
        by (simp add: u_def v_def)
      with Cons.IH [of ys'] Cons.prems(2) xy ys show ?thesis by simp
    qed
  qed
qed

definition enc_pair :: "string \<times> json \<Rightarrow> string" where
  "enc_pair kv = (case kv of (k, v) \<Rightarrow> quote_string k @ '':'' @ stringify v)"

lemma enc_pair_head: "enc_pair kv \<noteq> [] \<and> hd (enc_pair kv) \<notin> {CHR '','', CHR '']'', CHR ''}''}"
  by (cases kv) (auto simp: enc_pair_def quote_string_def)

lemma enc_pair_reads_back: "reads_back stringify (snd kv) \<Longrightarrow> reads_back enc_pair kv"
  unfolding reads_back_def
proof (intro allI impI)
  fix y r r'
  assume vb: "\<forall>y r r'. delimited r \<longrightarrow> delimited r' \<longrightarrow>
      stringify (snd kv) @ r = stringify y @ r' \<longrightarrow> snd kv = y \<and> r = r'"
    and d: "delimited r" "delimited r'" and eq: "enc_pair kv @ r = enc_pair y @ r'"
  obtain k v k' v' where p: "kv = (k, v)" "y = (k', v')" by fastforce
  from eq p have "quote_string k @ CHR '':'' # stringify v @ r = quote_string k' @ CHR '':'' # stringify v' @ r'"
    by (simp add: enc_pair_def)
  then have "k = k'" "CHR '':'' # stringify v @ r = CHR '':'' # stringify v' @ r'"
    using quote_reads_back by blast+
  with vb d p show "kv = y \<and> r = r'" by simp
qed

lemma stringify_JObj:
  "stringify (JObj kvs) = [CHR ''{''] @ join_with '','' (map enc_pair kvs) @ [CHR ''}'']"
proof -
  have "(\<lambda>(k, v). quote_string k @ '':'' @ stringify v) = enc_pair"
    by (rule ext) (simp add: enc_pair_def)
  then show ?thesis by simp
qed

declare stringify.simps(6) [simp del]

text \<open>The kind of a value, read off the first character of its text.\<close>

fun kind_char :: "json \<Rightarrow> char \<Rightarrow> bool" where
  "kind_char JNull c = (c = CHR ''n'')"
| "kind_char (JBool b) c = (c = (if b then CHR ''t'' else CHR ''f''))"
| "kind_char (JNum n) c = (c = CHR ''-'' \<or> is_digit c)"
| "kind_char (JStr s) c = (c = CHR 0x22)"
| "kind_char (JArr xs) c = (c = CHR ''['')"
| "kind_char (JObj xs) c = (c = CHR ''{'')"

lemma stringify_kind: "kind_char j (hd (stringify j @ r))"
  using hd_show_nat show_nat_digits
  by (cases j) (auto simp: quote_string_def show_int_def stringify_JObj)

lemma reads_backI:
  "(\<And>y r r'. delimited r \<Longrightarrow> delimited r' \<Longrightarrow> enc x @ r = enc y @ r' \<Longrightarrow> x = y \<and> r = r') \<Longrightarrow> reads_back enc x"
  by (auto simp: reads_back_def)

lemma stringify_reads_back: "reads_back stringify j"
proof (induction j)
  case JNull
  show ?case
  proof (rule reads_backI)
    fix y r r'
    assume "stringify JNull @ r = stringify y @ r'"
    moreover from this have "kind_char JNull (hd (stringify y @ r'))"
      using stringify_kind [of JNull r] by simp
    with stringify_kind [of y r'] have "y = JNull"
      by (cases y) (auto simp: is_digit_def split: if_splits)
    ultimately show "JNull = y \<and> r = r'" by simp
  qed
next
  case (JBool b)
  show ?case
  proof (rule reads_backI)
    fix y r r'
    assume "stringify (JBool b) @ r = stringify y @ r'"
    moreover from this have "kind_char (JBool b) (hd (stringify y @ r'))"
      using stringify_kind [of "JBool b" r] by simp
    with stringify_kind [of y r'] have "y = JBool b"
      by (cases y) (auto simp: is_digit_def split: if_splits)
    ultimately show "JBool b = y \<and> r = r'" by simp
  qed
next
  case (JNum n)
  show ?case
  proof (rule reads_backI)
    fix y r r'
    assume d: "delimited r" "delimited r'" and eq: "stringify (JNum n) @ r = stringify y @ r'"
    have "kind_char (JNum n) (hd (stringify y @ r'))" using stringify_kind [of "JNum n" r] eq by simp
    with stringify_kind [of y r'] obtain m where "y = JNum m"
      by (cases y) (auto simp: is_digit_def split: if_splits)
    with eq show_int_reads_back [OF d] show "JNum n = y \<and> r = r'" by auto
  qed
next
  case (JStr s)
  show ?case
  proof (rule reads_backI)
    fix y r r'
    assume eq: "stringify (JStr s) @ r = stringify y @ r'"
    have "kind_char (JStr s) (hd (stringify y @ r'))" using stringify_kind [of "JStr s" r] eq by simp
    with stringify_kind [of y r'] obtain t where "y = JStr t"
      by (cases y) (auto simp: is_digit_def split: if_splits)
    with eq quote_reads_back [of s r t r'] show "JStr s = y \<and> r = r'" by simp
  qed
next
  case (JArr xs)
  show ?case
  proof (rule reads_backI)
    fix y r r'
    assume eq: "stringify (JArr xs) @ r = stringify y @ r'"
    have "kind_char (JArr xs) (hd (stringify y @ r'))" using stringify_kind [of "JArr xs" r] unfolding eq .
    with stringify_kind [of y r'] obtain ys where y: "y = JArr ys"
      by (cases y) (auto simp: is_digit_def split: if_splits)
    from eq y have "join_with '','' (map stringify xs) @ CHR '']'' # r = join_with '','' (map stringify ys) @ CHR '']'' # r'"
      by simp
    from list_reads_back [OF stringify_head _ _ this] JArr y show "JArr xs = y \<and> r = r'" by auto
  qed
next
  case (JObj kvs)
  have pairs: "\<forall>kv\<in>set kvs. reads_back enc_pair kv"
    using JObj by (auto intro!: enc_pair_reads_back)
  show ?case
  proof (rule reads_backI)
    fix y r r'
    assume eq: "stringify (JObj kvs) @ r = stringify y @ r'"
    have "kind_char (JObj kvs) (hd (stringify y @ r'))" using stringify_kind [of "JObj kvs" r] unfolding eq .
    with stringify_kind [of y r'] obtain kvs' where y: "y = JObj kvs'"
      by (cases y) (auto simp: is_digit_def split: if_splits)
    from eq y have "join_with '','' (map enc_pair kvs) @ CHR ''}'' # r
        = join_with '','' (map enc_pair kvs') @ CHR ''}'' # r'"
      by (simp add: stringify_JObj)
    from list_reads_back [OF enc_pair_head pairs _ this] y show "JObj kvs = y \<and> r = r'" by auto
  qed
qed

theorem stringify_eq_iff [simp]: "stringify i = stringify j \<longleftrightarrow> i = j"
proof
  assume "stringify i = stringify j"
  then have "stringify i @ [] = stringify j @ []" by simp
  with stringify_reads_back [of i] show "i = j" by (auto simp: reads_back_def delimited_def)
qed simp

end
