(* ===== verification/LibraryData.thy ===== *)
theory LibraryData
  imports Json
begin

text \<open>
  The data of the library store, web/src/stores/library.ts: libraries, items and collections
  as the server sends them, what an edit carries, when an edit stands clear of another
  (\<open>untouched\<close>), which items an item names as related, and the tree of collections with
  the two walks over it (\<open>pathTo\<close>, and \<open>placesFor\<close> of web/src/collectionplaces.ts).
  Comparing two names in the reader's language (\<open>localeCompare\<close>) is an argument.
\<close>

section \<open>Libraries and items\<close>

datatype LibraryPermission = Inherit | Add | Own

record LibrarySummary =
  libId :: int
  libType :: string
  libOwner :: int
  libName :: string
  libVersion :: int
  libWritable :: bool
  libPermission :: LibraryPermission
  libFilesEditable :: bool
  maxUploadBytes :: nat

record item_meta =
  numChildren :: nat
  createdByUser :: "int option"

text \<open>The data of an item is the JSON object the server sends, in the order it sends it.\<close>

record ItemEnvelope =
  itemKey :: string
  itemVersion :: int
  data :: object
  meta :: item_meta

text \<open>One edit: a part that is left out is \<open>None\<close>; creators, tags and relations are JSON.\<close>

record ItemChanges =
  chFields :: "(string \<times> string) list option"
  chCreators :: "json option"
  chTags :: "json option"
  chRelations :: "json option"
  chNote :: "string option"
  chItemType :: "string option"
  chDiscard :: "string list option"

definition no_changes :: ItemChanges where
  "no_changes = \<lparr>chFields = None, chCreators = None, chTags = None, chRelations = None, chNote = None,
     chItemType = None, chDiscard = None\<rparr>"

definition item_type :: "ItemEnvelope \<Rightarrow> string" where
  "item_type item = (case get_prop (data item) ''itemType'' of Some (JStr t) \<Rightarrow> t | _ \<Rightarrow> '''')"

text \<open>The body of a save: the changes and the version they replace, undefined parts left out.\<close>

definition prop_json :: "string \<Rightarrow> ('a \<Rightarrow> json) \<Rightarrow> 'a option \<Rightarrow> object" where
  "prop_json name enc v = (case v of None \<Rightarrow> [] | Some x \<Rightarrow> [(name, enc x)])"

definition save_body :: "ItemChanges \<Rightarrow> int option \<Rightarrow> json" where
  "save_body ch version = JObj
     (prop_json ''fields'' (\<lambda>fs. JObj (map (\<lambda>(k, v). (k, JStr v)) fs)) (chFields ch) @
      prop_json ''creators'' id (chCreators ch) @ prop_json ''tags'' id (chTags ch) @
      prop_json ''relations'' id (chRelations ch) @ prop_json ''note'' JStr (chNote ch) @
      prop_json ''itemType'' JStr (chItemType ch) @
      prop_json ''discard'' (\<lambda>xs. JArr (map JStr xs)) (chDiscard ch) @
      prop_json ''version'' JNum version)"

section \<open>untouched\<close>

definition text_of :: "json option \<Rightarrow> string" where
  "text_of v = (case v of Some (JStr t) \<Rightarrow> t | _ \<Rightarrow> '''')"

text \<open>\<open>a ?? null\<close>, on a value that may be undefined or null.\<close>

definition or_else :: "json option \<Rightarrow> json \<Rightarrow> json" where
  "or_else v d = (case v of None \<Rightarrow> d | Some JNull \<Rightarrow> d | Some x \<Rightarrow> x)"

definition same_json :: "json option \<Rightarrow> json option \<Rightarrow> bool" where
  "same_json a b \<longleftrightarrow> stringify (or_else a JNull) = stringify (or_else b JNull)"

fun each_field_same :: "ItemEnvelope \<Rightarrow> ItemEnvelope \<Rightarrow> string list \<Rightarrow> bool" where
  "each_field_same before after [] = True"
| "each_field_same before after (name # names) =
     (if text_of (get_prop (data before) name) \<noteq> text_of (get_prop (data after) name) then False
      else each_field_same before after names)"

definition untouched :: "ItemEnvelope \<Rightarrow> ItemEnvelope \<Rightarrow> ItemChanges \<Rightarrow> bool" where
  "untouched before after changes =
     (let b = get_prop (data before); a = get_prop (data after) in
      if \<not> each_field_same before after (map fst (case chFields changes of None \<Rightarrow> [] | Some fs \<Rightarrow> fs)) then False
      else if chCreators changes \<noteq> None
        \<and> \<not> same_json (Some (or_else (b ''creators'') (JArr []))) (Some (or_else (a ''creators'') (JArr []))) then False
      else if chTags changes \<noteq> None
        \<and> \<not> same_json (Some (or_else (b ''tags'') (JArr []))) (Some (or_else (a ''tags'') (JArr []))) then False
      else if chRelations changes \<noteq> None
        \<and> \<not> same_json (Some (or_else (b ''relations'') (JObj []))) (Some (or_else (a ''relations'') (JObj []))) then False
      else if chNote changes \<noteq> None \<and> text_of (b ''note'') \<noteq> text_of (a ''note'') then False
      else if chItemType changes \<noteq> None \<and> chItemType changes \<noteq> Some '''' \<and> item_type before \<noteq> item_type after then False
      else True)"

lemma each_field_same_iff:
  "each_field_same before after names \<longleftrightarrow>
     (\<forall>name\<in>set names. text_of (get_prop (data before) name) = text_of (get_prop (data after) name))"
  by (induction names) auto

lemma same_json_iff [simp]: "same_json (Some a) (Some b) \<longleftrightarrow> a = b"
  by (simp add: same_json_def or_else_def split: json.splits)

text \<open>An edit stands clear of what happened meanwhile exactly when every part the edit writes
  reads the same in the item before and in the item as it now is; what the edit does not write
  may differ in any way.  In particular \<open>JSON.stringify\<close> tells any two values apart.\<close>

theorem untouched_iff:
  "untouched before after changes \<longleftrightarrow>
     (\<forall>fs. chFields changes = Some fs \<longrightarrow> (\<forall>name\<in>fst ` set fs. text_of (get_prop (data before) name) = text_of (get_prop (data after) name))) \<and>
     (chCreators changes \<noteq> None \<longrightarrow> or_else (get_prop (data before) ''creators'') (JArr []) = or_else (get_prop (data after) ''creators'') (JArr [])) \<and>
     (chTags changes \<noteq> None \<longrightarrow> or_else (get_prop (data before) ''tags'') (JArr []) = or_else (get_prop (data after) ''tags'') (JArr [])) \<and>
     (chRelations changes \<noteq> None \<longrightarrow> or_else (get_prop (data before) ''relations'') (JObj []) = or_else (get_prop (data after) ''relations'') (JObj [])) \<and>
     (chNote changes \<noteq> None \<longrightarrow> text_of (get_prop (data before) ''note'') = text_of (get_prop (data after) ''note'')) \<and>
     (chItemType changes \<noteq> None \<longrightarrow> chItemType changes \<noteq> Some '''' \<longrightarrow> item_type before = item_type after)"
proof -
  have "each_field_same before after (map fst (case chFields changes of None \<Rightarrow> [] | Some fs \<Rightarrow> fs)) \<longleftrightarrow>
      (\<forall>fs. chFields changes = Some fs \<longrightarrow> (\<forall>name\<in>fst ` set fs. text_of (get_prop (data before) name) = text_of (get_prop (data after) name)))"
    by (cases "chFields changes") (simp_all add: each_field_same_iff)
  then show ?thesis by (simp add: untouched_def Let_def)
qed

theorem untouched_iff_witness:
  "let old = \<lparr>itemKey = ''AAAABBBB'', itemVersion = 3, data = [(''title'', JStr ''A''), (''place'', JStr ''X'')],
        meta = \<lparr>numChildren = 0, createdByUser = None\<rparr>\<rparr>;
      new = old\<lparr>itemVersion := 5, data := [(''title'', JStr ''A''), (''place'', JStr ''Y'')]\<rparr>
   in untouched old new (no_changes\<lparr>chFields := Some [(''title'', ''B'')]\<rparr>) \<and>
      \<not> untouched old new (no_changes\<lparr>chFields := Some [(''place'', ''B'')]\<rparr>)"
  unfolding untouched_iff by (simp add: no_changes_def get_prop_def text_of_def)

section \<open>Related items\<close>

definition is_key_char :: "char \<Rightarrow> bool" where
  "is_key_char c \<longleftrightarrow> (let n = (of_char c :: nat) in (65 \<le> n \<and> n \<le> 90) \<or> (48 \<le> n \<and> n \<le> 57))"

text \<open>The group of \<open>/\/items\/([A-Z0-9]{8})$/\<close>.\<close>

definition uri_key :: "string \<Rightarrow> string option" where
  "uri_key uri =
     (let n = length uri; key = drop (n - 8) uri
      in if 15 \<le> n \<and> slice (n - 15) (n - 8) uri = ''/items/'' \<and> list_all is_key_char key then Some key else None)"

definition relation_uris :: "ItemEnvelope \<Rightarrow> string list" where
  "relation_uris item =
     (case get_prop (data item) ''relations'' of
        Some (JObj rels) \<Rightarrow>
          (case get_prop rels ''dc:relation'' of
             Some (JArr uris) \<Rightarrow> List.map_filter as_string uris
           | Some (JStr uri) \<Rightarrow> if uri \<noteq> '''' then [uri] else []
           | _ \<Rightarrow> [])
      | _ \<Rightarrow> [])"

definition relatedKeys :: "ItemEnvelope \<Rightarrow> string list" where
  "relatedKeys item =
     uniq (filter (\<lambda>key. key \<noteq> '''' \<and> key \<noteq> itemKey item) (List.map_filter uri_key (relation_uris item)))"

lemma set_map_filter_iff: "y \<in> set (List.map_filter f xs) \<longleftrightarrow> (\<exists>x\<in>set xs. f x = Some y)"
  by (induction xs) (auto simp: List.map_filter_simps split: option.splits)

lemma uri_key_length: "uri_key uri = Some key \<Longrightarrow> length key = 8 \<and> list_all is_key_char key"
  by (auto simp: uri_key_def Let_def split: if_splits)

lemma uri_key_suffix:
  assumes "length key = 8" "list_all is_key_char key"
  shows "uri_key (base @ ''/items/'' @ key) = Some key"
  using assms by (simp add: uri_key_def Let_def slice_def)

text \<open>The related items of an item: eight characters each, none of them the item itself, each
  named once, and all of those its relations name by an item address, whatever library the
  address is in.\<close>

theorem relatedKeys_spec:
  "distinct (relatedKeys item) \<and>
   set (relatedKeys item) = {key. key \<noteq> itemKey item \<and> (\<exists>uri\<in>set (relation_uris item). uri_key uri = Some key)} \<and>
   (\<forall>key\<in>set (relatedKeys item). length key = 8)"
proof -
  have "set (relatedKeys item) = {key. key \<noteq> itemKey item \<and> (\<exists>uri\<in>set (relation_uris item). uri_key uri = Some key)}"
    using uri_key_length by (fastforce simp: relatedKeys_def set_map_filter_iff)
  then show ?thesis using uri_key_length by (auto simp: relatedKeys_def)
qed

theorem relatedKeys_spec_witness:
  "relatedKeys \<lparr>itemKey = ''AAAABBBB'', itemVersion = 3,
      data = [(''relations'', JObj [(''dc:relation'', JArr [JStr ''http://zotero.org/users/1/items/CCCC2222'',
        JStr ''http://zotero.org/users/1/items/AAAABBBB'', JStr ''http://zotero.org/groups/7/items/CCCC2222''])])],
      meta = \<lparr>numChildren = 0, createdByUser = None\<rparr>\<rparr> = [''CCCC2222'']"
  (is "relatedKeys ?item = _")
proof -
  have "set (relatedKeys ?item) = {''CCCC2222''}" "distinct (relatedKeys ?item)"
    unfolding relatedKeys_spec [THEN conjunct2, THEN conjunct1]
    using relatedKeys_spec [of ?item]
    by (auto simp: relation_uris_def get_prop_def List.map_filter_def as_string_def uri_key_def slice_def is_key_char_def)
  then show ?thesis
    by (cases "relatedKeys ?item" rule: list.exhaust; cases "tl (relatedKeys ?item)") auto
qed

end
