(* ===== verification/Collections.thy ===== *)
theory Collections
  imports LibraryData
begin

text \<open>
  The collections of a library as the sidebar draws them: \<open>tree\<close> and \<open>pathTo\<close> of
  web/src/stores/library.ts and \<open>placesFor\<close> of web/src/collectionplaces.ts.  The nodes of
  the source are objects that push themselves into the children of their parent; here a node
  is built with the children the loop over all nodes gives it.  As many levels are built as
  there are collections, which is as deep as a chain of parents can be.
\<close>

section \<open>The tree\<close>

record CollectionEnvelope =
  colKey :: string
  colVersion :: int
  colName :: string
  parentCollection :: "string option"
  numItems :: nat

datatype CollectionNode = Node (entry: CollectionEnvelope) (children: "CollectionNode list")

text \<open>The map from keys to nodes: the last collection of a key, at the place of the first.\<close>

definition nodes_of :: "CollectionEnvelope list \<Rightarrow> CollectionEnvelope list" where
  "nodes_of cs = map snd (map_from (map (\<lambda>e. (colKey e, e)) cs))"

text \<open>The parent of a collection, if it names one that is there.\<close>

definition parent_key :: "CollectionEnvelope list \<Rightarrow> CollectionEnvelope \<Rightarrow> string option" where
  "parent_key es e =
     (case parentCollection e of
        None \<Rightarrow> None
      | Some p \<Rightarrow> if p \<noteq> '''' \<and> p \<in> colKey ` set es then Some p else None)"

definition by_name :: "(string \<Rightarrow> string \<Rightarrow> int) \<Rightarrow> CollectionEnvelope \<Rightarrow> CollectionEnvelope \<Rightarrow> int" where
  "by_name cmp a b = cmp (colName a) (colName b)"

fun grow :: "nat \<Rightarrow> (string \<Rightarrow> string \<Rightarrow> int) \<Rightarrow> CollectionEnvelope list \<Rightarrow> string option \<Rightarrow> CollectionNode list" where
  "grow 0 cmp es p = []"
| "grow (Suc n) cmp es p =
     map (\<lambda>e. Node e (grow n cmp es (Some (colKey e))))
       (sort_by (by_name cmp) (filter (\<lambda>e. parent_key es e = p) es))"

definition tree :: "(string \<Rightarrow> string \<Rightarrow> int) \<Rightarrow> CollectionEnvelope list \<Rightarrow> CollectionNode list" where
  "tree cmp cs = (let es = nodes_of cs in grow (length es) cmp es None)"

section \<open>Walks over the tree\<close>

definition node_key :: "CollectionNode \<Rightarrow> string" where
  "node_key n = colKey (entry n)"

fun walk_to :: "string \<Rightarrow> CollectionNode list \<Rightarrow> CollectionNode list \<Rightarrow> CollectionNode list option" where
  "walk_to key [] trail = None"
| "walk_to key (Node e ch # ns) trail =
     (let here = trail @ [Node e ch]
      in if colKey e = key then Some here
         else (case walk_to key ch here of Some found \<Rightarrow> Some found | None \<Rightarrow> walk_to key ns trail))"

definition pathTo :: "CollectionNode list \<Rightarrow> string option \<Rightarrow> CollectionNode list" where
  "pathTo ns key =
     (case key of
        None \<Rightarrow> []
      | Some k \<Rightarrow> if k = '''' then [] else (case walk_to k ns [] of None \<Rightarrow> [] | Some path \<Rightarrow> path))"

record Place =
  placeKey :: "string option"
  placeLabel :: string
  placeDepth :: nat

fun place_walk :: "string option \<Rightarrow> CollectionNode list \<Rightarrow> nat \<Rightarrow> Place list" where
  "place_walk moving [] depth = []"
| "place_walk moving (Node e ch # ns) depth =
     (if Some (colKey e) = moving then place_walk moving ns depth
      else \<lparr>placeKey = Some (colKey e), placeLabel = colName e, placeDepth = depth\<rparr>
           # place_walk moving ch (depth + 1) @ place_walk moving ns depth)"

definition placesFor :: "CollectionNode list \<Rightarrow> string \<Rightarrow> string option \<Rightarrow> Place list" where
  "placesFor cs library moving =
     \<lparr>placeKey = None, placeLabel = library, placeDepth = 0\<rparr> # place_walk moving cs 1"

section \<open>What the tree holds\<close>

fun node_keys :: "CollectionNode \<Rightarrow> string list" where
  "node_keys (Node e ch) = colKey e # concat (map node_keys ch)"

definition tree_keys :: "CollectionNode list \<Rightarrow> string list" where
  "tree_keys ns = concat (map node_keys ns)"

lemma tree_keys_simps [simp]:
  "tree_keys [] = []"
  "tree_keys (Node e ch # ns) = colKey e # tree_keys ch @ tree_keys ns"
  "tree_keys (ms @ ns) = tree_keys ms @ tree_keys ns"
  by (simp_all add: tree_keys_def)

lemma tree_keys_map_Node: "tree_keys (map (\<lambda>e. Node e (g e)) es) = concat (map (\<lambda>e. colKey e # tree_keys (g e)) es)"
  by (induction es) auto

text \<open>The key of the parent, followed from a key; \<open>None\<close> is the top.\<close>

definition par :: "CollectionEnvelope list \<Rightarrow> string option \<Rightarrow> string option" where
  "par es k = (case k of None \<Rightarrow> None
     | Some k \<Rightarrow> (case List.find (\<lambda>e. colKey e = k) es of None \<Rightarrow> None | Some e \<Rightarrow> parent_key es e))"

text \<open>A collection whose parents lead to the top.\<close>

definition rooted :: "CollectionEnvelope list \<Rightarrow> string \<Rightarrow> bool" where
  "rooted es k \<longleftrightarrow> (\<exists>n. (par es ^^ n) (Some k) = None)"

lemma keys_nodes_of: "colKey ` set (nodes_of cs) = colKey ` set cs"
proof -
  let ?m = "map_from (map (\<lambda>e. (colKey e, e)) cs)"
  have v: "colKey v = k" if "(k, v) \<in> set ?m" for k v
  proof -
    have "map_of ?m k = Some v" using that by simp
    moreover have "map_of (foldl (\<lambda>m (k, v). map_set k v m) m (map (\<lambda>e. (colKey e, e)) cs)) k = Some v \<Longrightarrow>
        \<forall>k v. map_of m k = Some v \<longrightarrow> colKey v = k \<Longrightarrow> colKey v = k" for m
      by (induction cs arbitrary: m) (auto split: if_splits)
    ultimately show ?thesis by (simp add: map_from_def)
  qed
  have "colKey ` set (nodes_of cs) = fst ` set ?m"
    using v by (force simp: nodes_of_def)
  also have "\<dots> = colKey ` set cs" by (simp add: keys_map_from image_image)
  finally show ?thesis .
qed

lemma distinct_nodes_of: "distinct (map colKey (nodes_of cs))"
proof -
  let ?m = "map_from (map (\<lambda>e. (colKey e, e)) cs)"
  have v: "colKey v = k" if "(k, v) \<in> set ?m" for k v
  proof -
    have "map_of ?m k = Some v" using that by simp
    moreover have "map_of (foldl (\<lambda>m (k, v). map_set k v m) m (map (\<lambda>e. (colKey e, e)) cs)) k = Some v \<Longrightarrow>
        \<forall>k v. map_of m k = Some v \<longrightarrow> colKey v = k \<Longrightarrow> colKey v = k" for m
      by (induction cs arbitrary: m) (auto split: if_splits)
    ultimately show ?thesis by (simp add: map_from_def)
  qed
  then have "map colKey (nodes_of cs) = map fst ?m" by (auto simp: nodes_of_def)
  then show ?thesis by simp
qed

text \<open>What the walks rely on: one collection for each key.\<close>

locale collection_map =
  fixes es :: "CollectionEnvelope list"
  assumes dist: "distinct (map colKey es)"
begin

lemma find_self: "e \<in> set es \<Longrightarrow> List.find (\<lambda>e'. colKey e' = colKey e) es = Some e"
  using dist by (induction es) auto

lemma par_self: "e \<in> set es \<Longrightarrow> par es (Some (colKey e)) = parent_key es e"
  by (simp add: par_def find_self)

lemma par_None [simp]: "par es None = None"
  by (simp add: par_def)

lemma par_funpow_None [simp]: "(par es ^^ n) None = None"
  by (induction n) auto

lemma par_in: "par es (Some k) = Some p \<Longrightarrow> k \<in> colKey ` set es \<and> p \<in> colKey ` set es"
  by (auto simp: par_def parent_key_def dest!: find_Some_mem split: option.splits if_splits)

text \<open>The keys below \<open>p\<close> to a depth of \<open>n\<close>.\<close>

lemma set_grow:
  "set (tree_keys (grow n cmp es p)) =
     {k \<in> colKey ` set es. \<exists>i<n. \<exists>c. (par es ^^ i) (Some k) = Some c \<and> c \<in> colKey ` set es \<and> par es (Some c) = p}"
proof (induction n arbitrary: p)
  case (Suc n)
  have "set (tree_keys (grow (Suc n) cmp es p)) =
      (\<Union>e\<in>{e \<in> set es. parent_key es e = p}. insert (colKey e) (set (tree_keys (grow n cmp es (Some (colKey e))))))"
    by (auto simp: tree_keys_map_Node)
  also have "\<dots> = {k \<in> colKey ` set es. \<exists>i<Suc n. \<exists>c. (par es ^^ i) (Some k) = Some c \<and> c \<in> colKey ` set es \<and> par es (Some c) = p}"
    (is "?A = ?B")
  proof (intro equalityI subsetI)
    fix k assume "k \<in> ?A"
    then obtain e where e: "e \<in> set es" "parent_key es e = p"
      and k: "k = colKey e \<or> k \<in> set (tree_keys (grow n cmp es (Some (colKey e))))" by auto
    from k show "k \<in> ?B"
    proof
      assume "k = colKey e"
      with e show ?thesis by (auto intro!: exI [of _ 0] simp: par_self)
    next
      assume "k \<in> set (tree_keys (grow n cmp es (Some (colKey e))))"
      then obtain i c where "k \<in> colKey ` set es" "i < n" "(par es ^^ i) (Some k) = Some c" "par es (Some c) = Some (colKey e)"
        unfolding Suc.IH by auto
      with e show ?thesis by (auto intro!: exI [of _ "Suc i"] simp: par_self)
    qed
  next
    fix k assume "k \<in> ?B"
    then obtain i c where k: "k \<in> colKey ` set es" "i < Suc n" "(par es ^^ i) (Some k) = Some c" "c \<in> colKey ` set es" "par es (Some c) = p"
      by auto
    from k(4) obtain e where e: "e \<in> set es" "c = colKey e" by auto
    show "k \<in> ?A"
    proof (cases i)
      case 0
      with k e show ?thesis by (auto simp: par_self)
    next
      case (Suc j)
      then obtain d where d: "(par es ^^ j) (Some k) = Some d" "par es (Some d) = Some c"
        using k(3) by (cases "(par es ^^ j) (Some k)") auto
      with par_in [OF d(2)] Suc k e show ?thesis
        unfolding Suc.IH by (auto simp: par_self intro!: bexI [of _ e] exI [of _ j])
    qed
  qed
  finally show ?case .
qed simp

lemma cycle_not_rooted: "(par es ^^ Suc i) (Some k) = Some k \<Longrightarrow> \<not> rooted es k"
proof
  assume c: "(par es ^^ Suc i) (Some k) = Some k" and "rooted es k"
  then obtain n where n: "(par es ^^ n) (Some k) = None" by (auto simp: rooted_def)
  have "(par es ^^ (Suc i * m)) (Some k) = Some k" for m
    by (induction m) (simp_all only: mult_Suc_right funpow_add comp_def c mult_0_right funpow_0)
  from this [of "Suc n"] have "(par es ^^ (n + (i * n + i + 1))) (Some k) = Some k"
    by (simp add: algebra_simps)
  then have "(par es ^^ ((i * n + i + 1) + n)) (Some k) = Some k" by (simp only: add.commute)
  with n show False by (metis comp_apply funpow_add option.distinct(1) par_funpow_None)
qed

lemma rooted_up: "(par es ^^ i) (Some k) = Some c \<Longrightarrow> rooted es k \<longleftrightarrow> rooted es c"
proof
  assume c: "(par es ^^ i) (Some k) = Some c"
  { assume "rooted es c"
    then obtain n where "(par es ^^ n) (Some c) = None" by (auto simp: rooted_def)
    with c have "(par es ^^ (n + i)) (Some k) = None" by (simp add: funpow_add)
    then show "rooted es k" by (auto simp: rooted_def) }
  { assume "rooted es k"
    then obtain n where n: "(par es ^^ n) (Some k) = None" by (auto simp: rooted_def)
    have "i \<le> n"
    proof (rule ccontr)
      assume "\<not> i \<le> n"
      then have "i = (i - n) + n" by simp
      with c n show False by (metis comp_apply funpow_add option.distinct(1) par_funpow_None)
    qed
    then have "n = (n - i) + i" by simp
    with c n have "(par es ^^ (n - i)) (Some c) = None" by (metis comp_apply funpow_add)
    then show "rooted es c" by (auto simp: rooted_def) }
qed

text \<open>A chain of parents is no longer than there are collections.\<close>

lemma chain_keys: "(par es ^^ i) (Some k) = Some c \<Longrightarrow> k \<in> colKey ` set es \<Longrightarrow> c \<in> colKey ` set es"
proof (induction i arbitrary: c)
  case (Suc i)
  then show ?case by (cases "(par es ^^ i) (Some k)") (auto dest: par_in)
qed simp

lemma rooted_within:
  assumes "rooted es k" "k \<in> colKey ` set es"
  obtains i c where "i < length es" "(par es ^^ i) (Some k) = Some c" "c \<in> colKey ` set es" "par es (Some c) = None"
proof -
  define m where "m = (LEAST n. (par es ^^ n) (Some k) = None)"
  have m: "(par es ^^ m) (Some k) = None" and least: "\<And>j. j < m \<Longrightarrow> (par es ^^ j) (Some k) \<noteq> None"
    using assms(1) unfolding rooted_def m_def by (auto intro: LeastI dest: not_less_Least)
  then obtain i where i: "m = Suc i" by (cases m) auto
  define f where "f j = the ((par es ^^ j) (Some k))" for j
  have f: "(par es ^^ j) (Some k) = Some (f j)" if "j \<le> i" for j
    using least [of j] that i by (auto simp: f_def)
  have "inj_on f {..i}"
  proof (rule linorder_inj_onI)
    fix x y assume xy: "x < y" "x \<in> {..i}" "y \<in> {..i}"
    show "f x \<noteq> f y"
    proof
      assume "f x = f y"
      define d where "d = y - x - 1"
      have y: "y = Suc d + x" using xy(1) by (simp add: d_def)
      have "(par es ^^ Suc d) (Some (f x)) = (par es ^^ y) (Some k)"
        using f [of x] xy by (simp only: y funpow_add comp_apply atMost_iff)
      also have "\<dots> = Some (f x)" using f [of y] xy \<open>f x = f y\<close> by simp
      finally have "\<not> rooted es (f x)" by (rule cycle_not_rooted)
      with rooted_up [OF f [of x]] assms(1) xy show False by auto
    qed
  qed auto
  then have "card (f ` {..i}) = Suc i" by (simp add: card_image)
  moreover have "f ` {..i} \<subseteq> colKey ` set es"
    using f chain_keys assms(2) by (metis (no_types, lifting) atMost_iff image_subsetI)
  ultimately have "Suc i \<le> card (colKey ` set es)" by (metis List.finite_set card_mono finite_imageI)
  also have "\<dots> \<le> length es" by (metis card_length list.set_map length_map)
  finally have "i < length es" by simp
  moreover have "par es (Some (f i)) = None" using m f [of i] by (simp add: i)
  ultimately show thesis using that [of i "f i"] f [of i] chain_keys assms(2) by blast
qed

lemma set_tree_keys_top: "set (tree_keys (grow (length es) cmp es None)) = {k \<in> colKey ` set es. rooted es k}"
proof (intro equalityI subsetI)
  fix k assume "k \<in> set (tree_keys (grow (length es) cmp es None))"
  then obtain i c where "k \<in> colKey ` set es" "(par es ^^ i) (Some k) = Some c" "par es (Some c) = None"
    unfolding set_grow by auto
  then show "k \<in> {k \<in> colKey ` set es. rooted es k}" by (auto simp: rooted_def intro!: exI [of _ "Suc i"])
next
  fix k assume "k \<in> {k \<in> colKey ` set es. rooted es k}"
  then show "k \<in> set (tree_keys (grow (length es) cmp es None))"
    unfolding set_grow by (auto elim!: rooted_within)
qed

text \<open>No key comes twice.\<close>

lemma distinct_grow:
  "(case p of None \<Rightarrow> True | Some q \<Rightarrow> rooted es q) \<Longrightarrow> distinct (tree_keys (grow n cmp es p))"
proof (induction n arbitrary: p)
  case (Suc n)
  let ?ch = "sort_by (by_name cmp) (filter (\<lambda>e. parent_key es e = p) es)"
  let ?sub = "\<lambda>e. colKey e # tree_keys (grow n cmp es (Some (colKey e)))"
  have root: "rooted es (colKey e)" if "e \<in> set ?ch" for e
    using that Suc.prems rooted_up [of 1 "colKey e"]
    by (cases p) (auto simp: par_self rooted_def intro!: exI [of _ 1])
  have up: "\<exists>i. (par es ^^ i) (Some k) = Some (colKey e)" if "k \<in> set (?sub e)" for k e
  proof (cases "k = colKey e")
    case True
    then show ?thesis by (auto intro!: exI [of _ 0])
  next
    case False
    with that obtain i c where "(par es ^^ i) (Some k) = Some c" "par es (Some c) = Some (colKey e)"
      by (auto simp: set_grow)
    then show ?thesis by (auto intro!: exI [of _ "Suc i"])
  qed
  have one: "distinct (?sub e)" if "e \<in> set ?ch" for e
  proof -
    have "colKey e \<notin> set (tree_keys (grow n cmp es (Some (colKey e))))"
    proof
      assume "colKey e \<in> set (tree_keys (grow n cmp es (Some (colKey e))))"
      then obtain i c where "(par es ^^ i) (Some (colKey e)) = Some c" "par es (Some c) = Some (colKey e)"
        by (auto simp: set_grow)
      then have "(par es ^^ Suc i) (Some (colKey e)) = Some (colKey e)" by simp
      with cycle_not_rooted root [OF that] show False by blast
    qed
    with Suc.IH [of "Some (colKey e)"] root [OF that] show ?thesis by simp
  qed
  have two: "colKey e = colKey e'" if e: "e \<in> set ?ch" and e': "e' \<in> set ?ch" and k: "k \<in> set (?sub e)" "k \<in> set (?sub e')" for e e' k
  proof -
    from up [OF k(1)] up [OF k(2)] obtain i j where
      ij: "(par es ^^ i) (Some k) = Some (colKey e)" "(par es ^^ j) (Some k) = Some (colKey e')" by auto
    have ne: "a = b" if a: "a \<in> set ?ch" and b: "b \<in> set ?ch" and x: "(par es ^^ x) (Some k) = Some (colKey a)"
      and y: "(par es ^^ y) (Some k) = Some (colKey b)" and "x < y" for a b x y
    proof -
      define d where "d = y - x - 1"
      have "y = Suc d + x" using \<open>x < y\<close> by (simp add: d_def)
      with x y have c: "(par es ^^ Suc d) (Some (colKey a)) = Some (colKey b)"
        by (simp only: funpow_add comp_apply)
      then have "(par es ^^ d) p = Some (colKey b)"
        using a by (simp add: funpow_Suc_right par_self del: funpow.simps)
      moreover from this have "par es (Some (colKey b)) = p" using b by (simp add: par_self)
      ultimately have "(par es ^^ Suc d) p = p" by simp
      with Suc.prems cycle_not_rooted [of d] show ?thesis
        by (cases p) (use \<open>(par es ^^ d) p = Some (colKey b)\<close> in auto)
    qed
    show ?thesis
    proof (cases i j rule: linorder_cases)
      case equal
      with ij show ?thesis by simp
    qed (use ne [OF e e' ij] ne [OF e' e ij(2) ij(1)] in auto)
  qed
  have "distinct ?ch" using dist by (simp add: distinct_map)
  moreover have inj: "inj_on colKey (set ?ch)" using dist by (auto simp: distinct_map intro: inj_on_subset)
  ultimately have "distinct (concat (map ?sub ?ch))"
  proof (intro distinct_concat)
    show "distinct (map ?sub ?ch)"
      using \<open>distinct ?ch\<close> inj by (auto simp: distinct_map inj_on_def)
    show "\<And>ys. ys \<in> set (map ?sub ?ch) \<Longrightarrow> distinct ys" using one by auto
    fix ys zs assume yz: "ys \<in> set (map ?sub ?ch)" "zs \<in> set (map ?sub ?ch)" "ys \<noteq> zs"
    then obtain e e' where e: "e \<in> set ?ch" "e' \<in> set ?ch" "ys = ?sub e" "zs = ?sub e'" by auto
    then have "colKey e \<noteq> colKey e'" using yz(3) by auto
    then show "set ys \<inter> set zs = {}" using two [OF e(1,2)] e by blast
  qed
  then show ?case by (simp only: grow.simps tree_keys_map_Node)
qed simp

end

interpretation nodes: collection_map "nodes_of cs" for cs
  by unfold_locales (rule distinct_nodes_of)

section \<open>Properties\<close>

text \<open>The sidebar's tree holds each collection at most once, and it holds exactly those whose
  chain of parents leads to the top; a parent that is not there counts as the top.  (A chain that
  closes on itself is in the tree nowhere.)\<close>

theorem tree_holds:
  "distinct (tree_keys (tree cmp cs)) \<and>
   set (tree_keys (tree cmp cs)) = {k \<in> colKey ` set cs. rooted (nodes_of cs) k}"
  using nodes.distinct_grow [where p = None and n = "length (nodes_of cs)" and cmp = cmp and cs = cs] nodes.set_tree_keys_top [of cs cmp]
  by (simp add: tree_def Let_def keys_nodes_of)

text \<open>A collection whose parents close on themselves is in the tree nowhere, for any order of names.\<close>

theorem tree_drops_cycle:
  "tree cmp [\<lparr>colKey = ''A'', colVersion = 1, colName = ''a'', parentCollection = Some ''B'', numItems = 0\<rparr>,
     \<lparr>colKey = ''B'', colVersion = 1, colName = ''b'', parentCollection = Some ''A'', numItems = 0\<rparr>] = []"
  by (simp add: tree_def nodes_of_def map_from_def parent_key_def Let_def)

text \<open>Children are in the order of their names, and a node stands under the parent it names.\<close>

fun well_grown :: "CollectionEnvelope list \<Rightarrow> string option \<Rightarrow> (string \<Rightarrow> string \<Rightarrow> int) \<Rightarrow> CollectionNode \<Rightarrow> bool" where
  "well_grown es p cmp (Node e ch) \<longleftrightarrow>
     e \<in> set es \<and> parent_key es e = p \<and> sorted_wrt (\<lambda>a b. cmp (colName (entry a)) (colName (entry b)) \<le> 0) ch \<and>
     (\<forall>n\<in>set ch. well_grown es (Some (colKey e)) cmp n)"

lemma grow_sorted:
  assumes "orders cmp"
  shows "sorted_wrt (\<lambda>a b. cmp (colName (entry a)) (colName (entry b)) \<le> 0) (grow n cmp es p)"
proof -
  from assms have "orders (by_name cmp)" unfolding orders_def by_name_def by blast
  from sorted_sort_by [OF this] show ?thesis
    by (cases n) (simp_all add: sorted_wrt_map by_name_def)
qed

lemma grow_well_grown: "orders cmp \<Longrightarrow> n \<in> set (grow m cmp es p) \<Longrightarrow> well_grown es p cmp n"
  by (induction m arbitrary: n p) (auto simp: grow_sorted)

text \<open>Everywhere in the sidebar's tree a collection stands under the parent it names (at the top
  if it names none that is there), and the collections of one parent are in the order of their
  names.\<close>

theorem tree_order:
  assumes "orders cmp"
  shows "sorted_wrt (\<lambda>a b. cmp (colName (entry a)) (colName (entry b)) \<le> 0) (tree cmp cs) \<and>
     (\<forall>n\<in>set (tree cmp cs). well_grown (nodes_of cs) None cmp n)"
  using grow_sorted [OF assms] grow_well_grown [OF assms] by (auto simp: tree_def Let_def)

theorem tree_order_witness:
  "let cs = [\<lparr>colKey = ''A'', colVersion = 1, colName = ''bb'', parentCollection = None, numItems = 0\<rparr>,
             \<lparr>colKey = ''B'', colVersion = 1, colName = ''a'', parentCollection = None, numItems = 0\<rparr>];
       cmp = (\<lambda>a b. int (length a) - int (length b))
   in sorted_wrt (\<lambda>a b. cmp (colName (entry a)) (colName (entry b)) \<le> 0) (tree cmp cs) \<and> map node_key (tree cmp cs) = [''B'', ''A'']"
proof -
  have "orders (\<lambda>a b. int (length a) - int (length b))" by (auto simp: orders_def)
  from tree_order [OF this] show ?thesis
    by (simp add: Let_def tree_def nodes_of_def map_from_def parent_key_def by_name_def node_key_def)
qed

section \<open>Paths and places\<close>

text \<open>A chain of nodes, each among the children of the one before.\<close>

fun descends :: "CollectionNode list \<Rightarrow> CollectionNode list \<Rightarrow> bool" where
  "descends ns [] = True"
| "descends ns (n # path) \<longleftrightarrow> n \<in> set ns \<and> descends (children n) path"

lemma descends_Cons: "descends ns path \<Longrightarrow> descends (n # ns) path"
  by (cases path) auto

lemma node_keys_Node: "node_keys (Node e ch) = colKey e # tree_keys ch"
  by (simp add: tree_keys_def)

lemma walk_to_Some:
  "walk_to key ns trail = Some path \<Longrightarrow>
     \<exists>rest. path = trail @ rest \<and> rest \<noteq> [] \<and> descends ns rest \<and> node_key (last rest) = key"
proof (induction key ns trail arbitrary: path rule: walk_to.induct)
  case (2 key e ch ns trail)
  show ?case
  proof (cases "colKey e = key")
    case True
    with 2(3) show ?thesis by (auto simp: node_key_def)
  next
    case False
    show ?thesis
    proof (cases "walk_to key ch (trail @ [Node e ch])")
      case None
      with 2(2) [OF refl False None, of path] 2(3) False show ?thesis
        by (fastforce simp: Let_def intro: descends_Cons)
    next
      case (Some found)
      with 2(1) [OF refl False Some] 2(3) False show ?thesis by (auto simp: Let_def)
    qed
  qed
qed simp

lemma walk_to_None: "walk_to key ns trail = None \<longleftrightarrow> key \<notin> set (tree_keys ns)"
  by (induction key ns trail rule: walk_to.induct) (auto simp: Let_def split: option.splits)

text \<open>The path shown for a collection runs from a collection at the top down to it, each the
  child of the one before; and there is one exactly for the keys the tree holds.\<close>

theorem pathTo_spec:
  "descends ns (pathTo ns (Some key)) \<and>
   (pathTo ns (Some key) = []) = (\<not> (key \<noteq> '''' \<and> key \<in> set (tree_keys ns))) \<and>
   (pathTo ns (Some key) = [] \<or> node_key (last (pathTo ns (Some key))) = key)"
  using walk_to_None [of key ns "[]"] walk_to_Some [of key ns "[]"]
  by (auto simp: pathTo_def split: option.splits)

text \<open>The keys of a tree without the part under \<open>moving\<close>.\<close>

fun keys_outside :: "string option \<Rightarrow> CollectionNode list \<Rightarrow> string list" where
  "keys_outside moving [] = []"
| "keys_outside moving (Node e ch # ns) =
     (if Some (colKey e) = moving then keys_outside moving ns
      else colKey e # keys_outside moving ch @ keys_outside moving ns)"

lemma place_walk_keys: "map placeKey (place_walk moving ns depth) = map Some (keys_outside moving ns)"
  by (induction moving ns depth rule: place_walk.induct) auto

lemma keys_outside_absent: "key \<notin> set (tree_keys ns) \<Longrightarrow> keys_outside (Some key) ns = tree_keys ns"
  by (induction "Some key" ns rule: keys_outside.induct) auto

lemma keys_outside_walk:
  "walk_to key ns trail = Some path \<Longrightarrow> distinct (tree_keys ns) \<Longrightarrow>
     set (keys_outside (Some key) ns) = set (tree_keys ns) - set (node_keys (last path)) \<and>
     set (node_keys (last path)) \<subseteq> set (tree_keys ns)"
proof (induction key ns trail arbitrary: path rule: walk_to.induct)
  case (2 key e ch ns trail)
  show ?case
  proof (cases "colKey e = key")
    case True
    with 2(3,4) keys_outside_absent [of key ns] show ?thesis
      by (auto simp: node_keys_Node simp del: node_keys.simps)
  next
    case False
    show ?thesis
    proof (cases "walk_to key ch (trail @ [Node e ch])")
      case None
      with 2(2) [OF refl False None, of path] 2(3,4) False keys_outside_absent [of key ch] show ?thesis
        by (auto simp: Let_def walk_to_None)
    next
      case (Some found)
      then have "key \<in> set (tree_keys ch)" using walk_to_None [of key ch "trail @ [Node e ch]"] by auto
      with 2(4) have "key \<notin> set (tree_keys ns)" by auto
      with 2(1) [OF refl False Some] 2(3,4) False Some keys_outside_absent [of key ns] show ?thesis
        by (auto simp: Let_def)
    qed
  qed
qed simp

text \<open>Where a collection may be moved to: the library itself, and every collection that is neither
  it nor anywhere under it; so no choice puts a collection inside itself.\<close>

theorem placesFor_moving:
  assumes "distinct (tree_keys ns)" "key \<noteq> ''''" "key \<in> set (tree_keys ns)"
  shows "set (map placeKey (placesFor ns library (Some key))) =
     insert None (Some ` (set (tree_keys ns) - set (node_keys (last (pathTo ns (Some key))))))"
proof -
  obtain path where "walk_to key ns [] = Some path" using assms(3) walk_to_None [of key ns "[]"] by auto
  with keys_outside_walk [OF this assms(1)] assms(2) place_walk_keys [of "Some key" ns 1] show ?thesis
    by (simp add: placesFor_def pathTo_def)
qed

theorem placesFor_moving_witness:
  "let e = (\<lambda>k p. \<lparr>colKey = k, colVersion = 1, colName = k, parentCollection = p, numItems = 0\<rparr>);
       ns = [Node (e ''A'' None) [Node (e ''B'' (Some ''A'')) []], Node (e ''C'' None) []]
   in set (map placeKey (placesFor ns ''My Library'' (Some ''A''))) = {None, Some ''C''}"
  using placesFor_moving [of "[Node \<lparr>colKey = ''A'', colVersion = 1, colName = ''A'', parentCollection = None, numItems = 0\<rparr>
      [Node \<lparr>colKey = ''B'', colVersion = 1, colName = ''B'', parentCollection = Some ''A'', numItems = 0\<rparr> []],
      Node \<lparr>colKey = ''C'', colVersion = 1, colName = ''C'', parentCollection = None, numItems = 0\<rparr> []]" "''A''" "''My Library''"]
  by (auto simp: Let_def pathTo_def)

end
