(* ===== verification/Attachments.thy ===== *)
theory Attachments
  imports LibraryData
begin

text \<open>
  What the desktop decides about an attachment as it is added, web/src/items/attachments.ts
  (what a new file is called, whether an address typed in is one), and how a number of bytes is
  written, \<open>formatBytes\<close> of web/src/formats.ts.  \<open>new URL\<close> and \<open>Intl.NumberFormat\<close> are the
  browser's and arguments here; a title is the key of its words in the message catalogue.
\<close>

section \<open>Titles\<close>

definition defaultTitle :: "string \<Rightarrow> string option" where
  "defaultTitle contentType =
     (if contentType = '''' then None
      else if contentType = ''application/pdf'' then Some ''PDF''
      else if contentType = ''application/epub+zip'' then Some ''Ebook''
      else if contentType = ''text/html'' then Some ''Webpage''
      else if prefix ''image/'' contentType then Some ''Image''
      else if prefix ''audio/'' contentType then Some ''Audio''
      else if prefix ''video/'' contentType then Some ''Video''
      else None)"

definition isFileAttachment :: "ItemEnvelope \<Rightarrow> bool" where
  "isFileAttachment item \<longleftrightarrow>
     item_type item = ''attachment'' \<and> get_prop (data item) ''linkMode'' \<noteq> Some (JStr ''linked_url'')"

definition holdsStoredFile :: "ItemEnvelope \<Rightarrow> bool" where
  "holdsStoredFile item \<longleftrightarrow>
     item_type item = ''attachment'' \<and>
     (get_prop (data item) ''linkMode'' = Some (JStr ''imported_file'') \<or>
      get_prop (data item) ''linkMode'' = Some (JStr ''imported_url''))"

text \<open>One file after another; \<open>taken\<close> are the content types already there.\<close>

fun title_each :: "string set \<Rightarrow> string list \<Rightarrow> string option list" where
  "title_each taken [] = []"
| "title_each taken (t # ts) =
     (if t \<in> taken then None else defaultTitle t) # title_each (insert t taken) ts"

definition attachmentTitles :: "string list \<Rightarrow> ItemEnvelope list option \<Rightarrow> string option list" where
  "attachmentTitles types siblings =
     (case siblings of
        None \<Rightarrow> map (\<lambda>_. None) types
      | Some kids \<Rightarrow>
          title_each (set (map (\<lambda>child. text_of (get_prop (data child) ''contentType'')) (filter isFileAttachment kids))) types)"

lemma title_each_nth:
  "i < length ts \<Longrightarrow> title_each taken ts ! i =
     (if ts ! i \<in> taken \<or> ts ! i \<in> set (take i ts) then None else defaultTitle (ts ! i))"
  by (induction ts arbitrary: i taken) (auto simp: nth_Cons split: nat.splits)

lemma length_title_each [simp]: "length (title_each taken ts) = length ts"
  by (induction ts arbitrary: taken) auto

lemma length_attachmentTitles [simp]: "length (attachmentTitles types siblings) = length types"
  by (simp add: attachmentTitles_def split: option.splits)

text \<open>A file added under an item is given the word for its content type exactly when it is the
  first file of that type there, counting the file attachments the item has and the files added
  before it; every other file is left to the server's name.\<close>

theorem attachmentTitles_first:
  assumes "i < length types"
  shows "attachmentTitles types (Some kids) ! i =
     (if (\<exists>kid\<in>set kids. isFileAttachment kid \<and> text_of (get_prop (data kid) ''contentType'') = types ! i)
         \<or> (\<exists>j<i. types ! j = types ! i)
      then None else defaultTitle (types ! i))"
proof -
  have "types ! i \<in> set (take i types) \<longleftrightarrow> (\<exists>j<i. types ! j = types ! i)"
    using assms by (auto simp: in_set_conv_nth)
  moreover have "types ! i \<in> set (map (\<lambda>kid. text_of (get_prop (data kid) ''contentType'')) (filter isFileAttachment kids))
      \<longleftrightarrow> (\<exists>kid\<in>set kids. isFileAttachment kid \<and> text_of (get_prop (data kid) ''contentType'') = types ! i)"
    by (auto intro!: rev_image_eqI)
  ultimately show ?thesis unfolding attachmentTitles_def using title_each_nth [OF assms] by simp
qed

theorem attachmentTitles_first_witness:
  "attachmentTitles [''application/pdf'', ''application/pdf''] (Some []) ! 0 = Some ''PDF'' \<and>
   attachmentTitles [''application/pdf'', ''application/pdf''] (Some []) ! 1 = None"
  using attachmentTitles_first [of 0 "[''application/pdf'', ''application/pdf'']" "[]"]
    attachmentTitles_first [of 1 "[''application/pdf'', ''application/pdf'']" "[]"]
  by (auto simp: defaultTitle_def)

section \<open>Web links\<close>

definition UNLINKABLE :: "string list" where
  "UNLINKABLE = [''javascript:'', ''data:'', ''chrome:'', ''resource:'', ''mailto:'']"

datatype CleanedLink = Link string | Unrecognized | IsFile | BadScheme

record url =
  protocol :: string
  href :: string

definition word_char :: "char \<Rightarrow> bool" where
  "word_char c \<longleftrightarrow> (let n = (of_char c :: nat) in
     (48 \<le> n \<and> n \<le> 57) \<or> (65 \<le> n \<and> n \<le> 90) \<or> (97 \<le> n \<and> n \<le> 122) \<or> n = 95)"

text \<open>\<open>/\w\.\w/.test\<close>.\<close>

fun dotted :: "string \<Rightarrow> bool" where
  "dotted (a # b # c # s) \<longleftrightarrow> (word_char a \<and> b = CHR ''.'' \<and> word_char c) \<or> dotted (b # c # s)"
| "dotted _ \<longleftrightarrow> False"

definition cleanLink :: "(string \<Rightarrow> url option) \<Rightarrow> string \<Rightarrow> CleanedLink" where
  "cleanLink parse txt =
     (let trimmed = trim txt in
      if trimmed = '''' then Unrecognized
      else case (case parse trimmed of
                   Some u \<Rightarrow> Some u
                 | None \<Rightarrow> if dotted trimmed then parse (''http://'' @ trimmed) else None) of
             None \<Rightarrow> Unrecognized
           | Some u \<Rightarrow>
               if protocol u = ''file:'' then IsFile
               else if protocol u \<in> set UNLINKABLE then BadScheme
               else Link (href u))"

text \<open>An address is accepted only if the URL parser reads it, as typed or with \<open>http://\<close> in
  front, and never with the scheme of a file, a script or any other the server refuses.\<close>

theorem cleanLink_accepts:
  "cleanLink parse txt = Link address \<longleftrightarrow>
     trim txt \<noteq> '''' \<and>
     (\<exists>u. (parse (trim txt) = Some u \<or> (parse (trim txt) = None \<and> dotted (trim txt) \<and> parse (''http://'' @ trim txt) = Some u))
        \<and> href u = address
        \<and> protocol u \<notin> {''file:'', ''javascript:'', ''data:'', ''chrome:'', ''resource:'', ''mailto:''})"
  by (auto simp: cleanLink_def Let_def UNLINKABLE_def split: option.splits)

section \<open>formatBytes\<close>

definition BYTE_UNITS :: "string list" where
  "BYTE_UNITS = [''byte'', ''kilobyte'', ''megabyte'', ''gigabyte'', ''terabyte'', ''petabyte'']"

text \<open>
  The amount after \<open>step\<close> divisions is \<open>bytes\<close> over \<open>1000 ^ step\<close>, kept as that pair; the
  source divides a floating-point number.
\<close>

function byte_step :: "nat \<Rightarrow> nat \<Rightarrow> nat" where
  "byte_step bytes step =
     (if 1000 * 1000 ^ step \<le> bytes \<and> step < length BYTE_UNITS - 1 then byte_step bytes (step + 1) else step)"
  by pat_completeness auto
termination
  by (relation "measure (\<lambda>(bytes, step). length BYTE_UNITS - step)") auto

declare byte_step.simps [simp del]

text \<open>\<open>Intl\<close> is given the unit, the amount and the most fraction digits; it may throw.\<close>

definition formatBytes :: "(string \<Rightarrow> nat \<times> nat \<Rightarrow> nat \<Rightarrow> string option) \<Rightarrow> int option \<Rightarrow> string" where
  "formatBytes intl v =
     (let bytes = nat (max 0 (case v of None \<Rightarrow> 0 | Some n \<Rightarrow> n));
          step = byte_step bytes 0; d = 1000 ^ step; u = BYTE_UNITS ! step
      in case intl u (bytes, d) (if step = 0 then 0 else 1) of
           Some txt \<Rightarrow> txt
         | None \<Rightarrow> show_nat ((2 * bytes + d) div (2 * d)) @ '' '' @ u)"

lemma byte_step_range:
  "step \<le> 5 \<Longrightarrow> byte_step bytes step \<le> 5 \<and> step \<le> byte_step bytes step \<and>
     (byte_step bytes step < 5 \<longrightarrow> bytes < 1000 * 1000 ^ byte_step bytes step) \<and>
     (step < byte_step bytes step \<longrightarrow> 1000 ^ byte_step bytes step \<le> bytes)"
proof (induction bytes step rule: byte_step.induct)
  case (1 bytes step)
  show ?case
  proof (cases "1000 * 1000 ^ step \<le> bytes \<and> step < length BYTE_UNITS - 1")
    case True
    then have "byte_step bytes step = byte_step bytes (step + 1)" by (simp add: byte_step.simps [of bytes step])
    with True 1 show ?thesis
      by (cases "byte_step bytes (step + 1) = step + 1") (auto simp: BYTE_UNITS_def)
  next
    case False
    then have "byte_step bytes step = step" by (subst byte_step.simps) auto
    with False 1 show ?thesis by (auto simp: BYTE_UNITS_def)
  qed
qed

text \<open>The unit chosen for a number of bytes leaves an amount below a thousand, unless it is the
  largest there is, and of at least one, unless it is the byte; so the loop ends and the table of
  units is never left.\<close>

theorem formatBytes_unit:
  "byte_step bytes 0 < length BYTE_UNITS \<and>
   (byte_step bytes 0 = 5 \<or> bytes < 1000 * 1000 ^ byte_step bytes 0) \<and>
   (byte_step bytes 0 = 0 \<or> 1000 ^ byte_step bytes 0 \<le> bytes)"
  using byte_step_range [of 0 bytes] by (auto simp: BYTE_UNITS_def)
end
