(* ===== verification/Async.thy ===== *)
theory Async
  imports Json
begin

text \<open>
  How an \<open>async\<close> function of the sources is modelled.  Such a function runs on the state of
  its store until it reaches an \<open>await\<close> of a request, then waits; the answer, or the
  rejection, resumes it on whatever the store holds by then.  So a program is a function from
  the store to the store and an outcome: it is done, it has thrown, or it waits for a request
  with what it does next.  Between two waits nothing else runs, as in JavaScript; at a wait
  anything may.  The system of pending programs, with every interleaving of their answers, is
  the step relation at the end of the theory; a property of every stretch of a program between
  two waits is a property of every reachable store.
\<close>

section \<open>Requests and what they throw\<close>

text \<open>One HTTP request as it is sent: the query is what \<open>URLSearchParams\<close> serialises.\<close>

record call =
  verb :: string
  path :: string
  query :: "(string \<times> string) list"
  body :: "json option"
  headers :: "(string \<times> string) list"

definition GET :: "string \<Rightarrow> (string \<times> string) list \<Rightarrow> call" where
  "GET p q = \<lparr>verb = ''GET'', path = p, query = q, body = None, headers = []\<rparr>"

definition send_call :: "string \<Rightarrow> string \<Rightarrow> json option \<Rightarrow> call" where
  "send_call m p b = \<lparr>verb = m, path = p, query = [], body = b, headers = []\<rparr>"

text \<open>
  What a request throws (\<open>ApiError\<close> of api/client.ts, with its status, the data of the
  refusal and whether the person cancelled it), and any other \<open>Error\<close>.
\<close>

datatype thrown =
    ApiError (error_message: string) (error_status: int) (error_data: "json option") (error_cancelled: bool)
  | JsError (error_message: string)

definition has_status :: "thrown \<Rightarrow> int \<Rightarrow> bool" where
  "has_status e n = (case e of ApiError _ st _ _ \<Rightarrow> st = n | JsError _ \<Rightarrow> False)"

lemma has_status_simps [simp]:
  "has_status (ApiError m st d c) n \<longleftrightarrow> st = n"
  "\<not> has_status (JsError m) n"
  by (simp_all add: has_status_def)

section \<open>Programs\<close>

datatype ('s, 'q, 'a, 'e, 'r) outcome =
    Done 'r
  | Fail 'e
  | Wait 'q "'a \<Rightarrow> 's \<Rightarrow> 's \<times> ('s, 'q, 'a, 'e, 'r) outcome"

type_synonym ('s, 'q, 'a, 'e, 'r) async = "'s \<Rightarrow> 's \<times> ('s, 'q, 'a, 'e, 'r) outcome"

definition ret :: "'r \<Rightarrow> ('s, 'q, 'a, 'e, 'r) async" where
  "ret r = (\<lambda>s. (s, Done r))"

definition throw :: "'e \<Rightarrow> ('s, 'q, 'a, 'e, 'r) async" where
  "throw e = (\<lambda>s. (s, Fail e))"

text \<open>
  \<open>await request(q)\<close>: rejected with the error (as \<open>lift\<close> makes it an error of the
  program), or the payload read with \<open>pick\<close>.  The payload of an answer is a record with one
  field for each type a request of the store is made at; a request reads its own.
\<close>

definition await :: "('d \<Rightarrow> 'e) \<Rightarrow> ('p \<Rightarrow> 'r) \<Rightarrow> 'q \<Rightarrow> ('s, 'q, 'd + 'p, 'e, 'r) async" where
  "await lift pick q = (\<lambda>s. (s, Wait q (\<lambda>a s'. (s', case a of Inl e \<Rightarrow> Fail (lift e) | Inr p \<Rightarrow> Done (pick p)))))"

primrec bindO :: "('s, 'q, 'a, 'e, 'r) outcome \<Rightarrow> ('r \<Rightarrow> ('s, 'q, 'a, 'e, 't) async) \<Rightarrow> ('s, 'q, 'a, 'e, 't) async" where
  "bindO (Done r) f = f r"
| "bindO (Fail e) f = (\<lambda>s. (s, Fail e))"
| "bindO (Wait q k) f = (\<lambda>s. (s, Wait q (\<lambda>a s. case map_prod id (\<lambda>u. bindO u f) (k a s) of (s', g) \<Rightarrow> g s')))"

definition bind :: "('s, 'q, 'a, 'e, 'r) async \<Rightarrow> ('r \<Rightarrow> ('s, 'q, 'a, 'e, 't) async) \<Rightarrow> ('s, 'q, 'a, 'e, 't) async" where
  "bind m f = (\<lambda>s. case m s of (s', u) \<Rightarrow> bindO u f s')"

text \<open>\<open>try m catch (e) { h(e) }\<close>.\<close>

primrec catchO :: "('s, 'q, 'a, 'e, 'r) outcome \<Rightarrow> ('e \<Rightarrow> ('s, 'q, 'a, 'd, 'r) async) \<Rightarrow> ('s, 'q, 'a, 'd, 'r) async" where
  "catchO (Done r) h = (\<lambda>s. (s, Done r))"
| "catchO (Fail e) h = h e"
| "catchO (Wait q k) h = (\<lambda>s. (s, Wait q (\<lambda>a s. case map_prod id (\<lambda>u. catchO u h) (k a s) of (s', g) \<Rightarrow> g s')))"

definition try_catch :: "('s, 'q, 'a, 'e, 'r) async \<Rightarrow> ('e \<Rightarrow> ('s, 'q, 'a, 'd, 'r) async) \<Rightarrow> ('s, 'q, 'a, 'd, 'r) async" where
  "try_catch m h = (\<lambda>s. case m s of (s', u) \<Rightarrow> catchO u h s')"

text \<open>\<open>try m finally { f }\<close>, for a clean-up \<open>f\<close> that neither waits nor throws.\<close>

primrec finallyO :: "('s, 'q, 'a, 'e, 'r) outcome \<Rightarrow> ('s \<Rightarrow> 's) \<Rightarrow> ('s, 'q, 'a, 'e, 'r) async" where
  "finallyO (Done r) f = (\<lambda>s. (f s, Done r))"
| "finallyO (Fail e) f = (\<lambda>s. (f s, Fail e))"
| "finallyO (Wait q k) f = (\<lambda>s. (s, Wait q (\<lambda>a s. case map_prod id (\<lambda>u. finallyO u f) (k a s) of (s', g) \<Rightarrow> g s')))"

definition try_finally :: "('s, 'q, 'a, 'e, 'r) async \<Rightarrow> ('s \<Rightarrow> 's) \<Rightarrow> ('s, 'q, 'a, 'e, 'r) async" where
  "try_finally m f = (\<lambda>s. case m s of (s', u) \<Rightarrow> finallyO u f s')"

text \<open>
  \<open>Promise.all\<close> and \<open>Promise.allSettled\<close> of two: both start at once, each up to its first
  wait; here the answers of the first are taken before those of the second, and the rejection
  of the first is passed on when the second has settled.  \<open>join_settled\<close> ignores rejections.
\<close>

primrec joinO :: "('s, 'q, 'a, 'e, 'r) outcome \<Rightarrow> ('s, 'q, 'a, 'e, 't) outcome \<Rightarrow> ('s, 'q, 'a, 'e, 'r \<times> 't) async" where
  "joinO (Done r) v = bindO v (\<lambda>t. ret (r, t))"
| "joinO (Fail e) v = bind (try_catch (bindO v (\<lambda>_. ret ())) (\<lambda>_. ret ())) (\<lambda>_. throw e)"
| "joinO (Wait q k) v = (\<lambda>s. (s, Wait q (\<lambda>a s. case map_prod id (\<lambda>u. joinO u v) (k a s) of (s', g) \<Rightarrow> g s')))"

definition both :: "('s, 'q, 'a, 'e, 'r) async \<Rightarrow> ('s, 'q, 'a, 'e, 't) async \<Rightarrow> ('s, 'q, 'a, 'e, 'r \<times> 't) async" where
  "both m n = (\<lambda>s. case m s of (s1, u) \<Rightarrow> case n s1 of (s2, v) \<Rightarrow> joinO u v s2)"

definition void :: "('s, 'q, 'a, 'e, 'r) async \<Rightarrow> ('s, 'q, 'a, 'e, unit) async" where
  "void m = bind m (\<lambda>_. ret ())"

text \<open>A promise whose rejection is not looked at: an element of \<open>Promise.allSettled\<close>.\<close>

definition settled :: "('s, 'q, 'a, 'e, 'r) async \<Rightarrow> ('s, 'q, 'a, 'e, unit) async" where
  "settled m = try_catch (void m) (\<lambda>_. ret ())"

text \<open>Synchronous code inside a program.\<close>

definition modify :: "('s \<Rightarrow> 's) \<Rightarrow> ('s, 'q, 'a, 'e, unit) async" where
  "modify f = (\<lambda>s. (f s, Done ()))"

definition seq :: "('s, 'q, 'a, 'e, 'r) async \<Rightarrow> ('s, 'q, 'a, 'e, 't) async \<Rightarrow> ('s, 'q, 'a, 'e, 't) async" where
  "seq m n = bind m (\<lambda>_. n)"

text \<open>Reading the store at this point of the program.\<close>

definition asks :: "('s \<Rightarrow> 'x) \<Rightarrow> ('x \<Rightarrow> ('s, 'q, 'a, 'e, 'r) async) \<Rightarrow> ('s, 'q, 'a, 'e, 'r) async" where
  "asks g f = (\<lambda>s. f (g s) s)"

section \<open>Running a program on a list of answers\<close>

text \<open>With nothing else going on meanwhile; it stops early where the answers run out.\<close>

fun feed :: "'a list \<Rightarrow> 's \<times> ('s, 'q, 'a, 'e, 'r) outcome \<Rightarrow> 's \<times> ('s, 'q, 'a, 'e, 'r) outcome" where
  "feed [] su = su"
| "feed (a # as) (s, Wait q k) = feed as (k a s)"
| "feed (a # as) su = su"

text \<open>The requests a program sends on the way.\<close>

fun sent :: "'a list \<Rightarrow> 's \<times> ('s, 'q, 'a, 'e, 'r) outcome \<Rightarrow> 'q list" where
  "sent as (s, Done r) = []"
| "sent as (s, Fail e) = []"
| "sent [] (s, Wait q k) = [q]"
| "sent (a # as) (s, Wait q k) = q # sent as (k a s)"

named_theorems async_simps \<open>unfolding rules of the programs\<close>

lemma bindO_Wait [simp]: "bindO (Wait q k) f s = (s, Wait q (\<lambda>a. bind (k a) f))"
  by (auto simp: bind_def map_prod_def fun_eq_iff split: prod.splits)

lemma catchO_Wait [simp]: "catchO (Wait q k) h s = (s, Wait q (\<lambda>a. try_catch (k a) h))"
  by (auto simp: try_catch_def map_prod_def fun_eq_iff split: prod.splits)

lemma finallyO_Wait [simp]: "finallyO (Wait q k) f s = (s, Wait q (\<lambda>a. try_finally (k a) f))"
  by (auto simp: try_finally_def map_prod_def fun_eq_iff split: prod.splits)

declare bindO.simps(3) [simp del] catchO.simps(3) [simp del] finallyO.simps(3) [simp del]

lemma bind_ret: "bind (ret r) f = f r"
  by (simp add: bind_def ret_def)

lemma bind_eq: "bind m f s = bindO (snd (m s)) f (fst (m s))"
  by (simp add: bind_def split_beta)

lemma try_catch_eq: "try_catch m h s = catchO (snd (m s)) h (fst (m s))"
  by (simp add: try_catch_def split_beta)

lemma try_finally_eq: "try_finally m f s = finallyO (snd (m s)) f (fst (m s))"
  by (simp add: try_finally_def split_beta)

lemma outcome_induct [case_names Done Fail Wait]:
  fixes P :: "('s, 'q, 'a, 'e, 'r) outcome \<Rightarrow> bool"
  assumes "\<And>r. P (Done r)" "\<And>e. P (Fail e)" "\<And>q k. (\<And>a s. P (snd (k a s))) \<Longrightarrow> P (Wait q k)"
  shows "P u"
proof (rule outcome.induct [of P])
  fix q and k :: "'a \<Rightarrow> 's \<Rightarrow> 's \<times> ('s, 'q, 'a, 'e, 'r) outcome"
  assume IH: "\<And>x xa xaa. x \<in> range k \<Longrightarrow> xa \<in> range x \<Longrightarrow> xaa \<in> Basic_BNFs.snds xa \<Longrightarrow> P xaa"
  show "P (Wait q k)"
  proof (rule assms(3))
    fix a s
    show "P (snd (k a s))"
      by (rule IH [of "k a" "k a s"]) (auto simp: prod_set_defs)
  qed
qed (fact assms)+

lemma bindO_ret [simp]: "bindO u ret s = (s, u)"
proof (induction u arbitrary: s rule: outcome_induct)
  case (Wait q k)
  then show ?case by (simp add: bind_eq fun_eq_iff)
qed (simp_all add: ret_def)

lemma bind_ret_right: "bind m ret = m"
  by (simp add: bind_eq fun_eq_iff)

lemma bindO_assoc: "bind (bindO u f) g s = bindO u (\<lambda>r. bind (f r) g) s"
proof (induction u arbitrary: s rule: outcome_induct)
  case (Wait q k)
  then show ?case by (simp add: bind_eq fun_eq_iff)
qed (simp_all add: bind_eq)

lemma bind_assoc: "bind (bind m f) g = bind m (\<lambda>r. bind (f r) g)"
  by (rule ext) (simp add: bind_eq [of m] bindO_assoc [symmetric] bind_eq [of "bindO _ _"] bind_eq [of "bind m f"])

section \<open>Properties of every stretch between two waits\<close>

text \<open>
  \<open>stretches R m\<close>: each stretch of \<open>m\<close> that runs without a wait takes the store from some
  \<open>s\<close> to an \<open>s'\<close> with \<open>R s s'\<close>, whatever the answers are and whatever happened to the store
  at the waits.
\<close>

primrec stretchesO :: "('s \<Rightarrow> 's \<Rightarrow> bool) \<Rightarrow> ('s, 'q, 'a, 'e, 'r) outcome \<Rightarrow> bool" where
  "stretchesO R (Done r) = True"
| "stretchesO R (Fail e) = True"
| "stretchesO R (Wait q k) = (\<forall>a s. case map_prod id (stretchesO R) (k a s) of (s', ok) \<Rightarrow> R s s' \<and> ok)"

definition stretches :: "('s \<Rightarrow> 's \<Rightarrow> bool) \<Rightarrow> ('s, 'q, 'a, 'e, 'r) async \<Rightarrow> bool" where
  "stretches R m \<longleftrightarrow> (\<forall>s. R s (fst (m s)) \<and> stretchesO R (snd (m s)))"

lemma stretchesO_Wait [simp]: "stretchesO R (Wait q k) \<longleftrightarrow> (\<forall>a. stretches R (k a))"
  by (auto simp: stretches_def map_prod_def split_beta)

declare stretchesO.simps(3) [simp del]

text \<open>
  The store may change in ways \<open>R\<close> allows: reflexive and transitive.  The rules below are the
  compositional proof rules for \<open>stretches\<close>; the components use them through the collection
  \<open>stretch_intros\<close>.
\<close>

named_theorems stretch_intros \<open>proof rules for stretches\<close>

definition preorder_rel :: "('s \<Rightarrow> 's \<Rightarrow> bool) \<Rightarrow> bool" where
  "preorder_rel R \<longleftrightarrow> (\<forall>s. R s s) \<and> (\<forall>s t u. R s t \<longrightarrow> R t u \<longrightarrow> R s u)"

text \<open>An invariant as such a relation, and a measure that never decreases.\<close>

definition keeps :: "('s \<Rightarrow> bool) \<Rightarrow> 's \<Rightarrow> 's \<Rightarrow> bool" where
  "keeps I s s' \<longleftrightarrow> (I s \<longrightarrow> I s')"

lemma preorder_keeps [simp]: "preorder_rel (keeps I)"
  by (auto simp: preorder_rel_def keeps_def)

lemma preorder_reflD: "preorder_rel R \<Longrightarrow> R s s"
  by (simp add: preorder_rel_def)

lemma preorder_transD: "preorder_rel R \<Longrightarrow> R s t \<Longrightarrow> R t u \<Longrightarrow> R s u"
  unfolding preorder_rel_def by blast

lemma stretches_ret: "preorder_rel R \<Longrightarrow> stretches R (ret r)"
  by (simp add: stretches_def ret_def preorder_rel_def)

lemma stretches_throw: "preorder_rel R \<Longrightarrow> stretches R (throw e)"
  by (simp add: stretches_def throw_def preorder_rel_def)

lemma stretches_await: "preorder_rel R \<Longrightarrow> stretches R (await lift pick q)"
  by (auto simp: stretches_def await_def preorder_rel_def split: sum.splits)

lemma stretches_modify: "(\<And>s. R s (f s)) \<Longrightarrow> stretches R (modify f)"
  by (simp add: stretches_def modify_def)

lemma stretchesO_bindO:
  assumes "preorder_rel R" "\<And>r. stretches R (f r)"
  shows "stretchesO R u \<Longrightarrow> R t s \<Longrightarrow> R t (fst (bindO u f s)) \<and> stretchesO R (snd (bindO u f s))"
proof (induction u arbitrary: s t rule: outcome_induct)
  case (Done r)
  then show ?case using assms(2) [of r] preorder_transD [OF assms(1)] by (auto simp: stretches_def)
next
  case (Wait q k)
  have "stretches R (bind (k a) f)" for a
    unfolding stretches_def bind_eq using Wait.IH Wait.prems(1) by (fastforce simp: stretches_def)
  with Wait.prems show ?case by simp
qed simp

lemma stretches_bind:
  assumes "preorder_rel R" "stretches R m" "\<And>r. stretches R (f r)"
  shows "stretches R (bind m f)"
  unfolding stretches_def bind_eq
  by (intro allI stretchesO_bindO [OF assms(1,3)]) (use assms(2) in \<open>auto simp: stretches_def\<close>)

lemma stretchesO_catchO:
  assumes "preorder_rel R" "\<And>e. stretches R (h e)"
  shows "stretchesO R u \<Longrightarrow> R t s \<Longrightarrow> R t (fst (catchO u h s)) \<and> stretchesO R (snd (catchO u h s))"
proof (induction u arbitrary: s t rule: outcome_induct)
  case (Fail e)
  then show ?case using assms(2) [of e] preorder_transD [OF assms(1)] by (auto simp: stretches_def)
next
  case (Wait q k)
  have "stretches R (try_catch (k a) h)" for a
    unfolding stretches_def try_catch_eq using Wait.IH Wait.prems(1) by (fastforce simp: stretches_def)
  with Wait.prems show ?case by simp
qed simp

lemma stretches_catch:
  assumes "preorder_rel R" "stretches R m" "\<And>e. stretches R (h e)"
  shows "stretches R (try_catch m h)"
  unfolding stretches_def try_catch_eq
  by (intro allI stretchesO_catchO [OF assms(1,3)]) (use assms(2) in \<open>auto simp: stretches_def\<close>)

lemma stretchesO_finallyO:
  assumes "preorder_rel R" "\<And>s. R s (f s)"
  shows "stretchesO R u \<Longrightarrow> R t s \<Longrightarrow> R t (fst (finallyO u f s)) \<and> stretchesO R (snd (finallyO u f s))"
proof (induction u arbitrary: s t rule: outcome_induct)
  case (Wait q k)
  have "stretches R (try_finally (k a) f)" for a
    unfolding stretches_def try_finally_eq using Wait.IH Wait.prems(1) by (fastforce simp: stretches_def)
  with Wait.prems show ?case by simp
qed (use assms preorder_transD [OF assms(1)] in auto)

lemma stretches_finally:
  assumes "preorder_rel R" "stretches R m" "\<And>s. R s (f s)"
  shows "stretches R (try_finally m f)"
  unfolding stretches_def try_finally_eq
  by (intro allI stretchesO_finallyO [OF assms(1,3)]) (use assms(2) in \<open>auto simp: stretches_def\<close>)

lemma stretches_dep:
  "(\<And>s. stretches R (m s)) \<Longrightarrow> stretches R (\<lambda>s. m s s)"
  by (simp add: stretches_def)

lemma stretches_if:
  "(b \<Longrightarrow> stretches R m) \<Longrightarrow> (\<not> b \<Longrightarrow> stretches R n) \<Longrightarrow> stretches R (if b then m else n)"
  by simp

lemma stretches_if_fun:
  "stretches R m \<Longrightarrow> stretches R n \<Longrightarrow> stretches R (\<lambda>s. if b s then m s else n s)"
  by (auto simp: stretches_def)

lemma stretches_option_fun:
  "stretches R m \<Longrightarrow> (\<And>x. stretches R (n x)) \<Longrightarrow>
   stretches R (\<lambda>s. case g s of None \<Rightarrow> m s | Some x \<Rightarrow> n x s)"
  by (auto simp: stretches_def split: option.splits)

lemma stretches_pre:
  assumes "preorder_rel R" "stretches R m" "\<And>s. R s (f s)"
  shows "stretches R (\<lambda>s. m (f s))"
  using assms preorder_transD [OF assms(1)] unfolding stretches_def by blast

lemma stretches_bindO:
  assumes "preorder_rel R" "stretchesO R u" "\<And>r. stretches R (f r)"
  shows "stretches R (bindO u f)"
  unfolding stretches_def
  by (intro allI stretchesO_bindO [OF assms(1,3,2)] preorder_reflD [OF assms(1)])

lemma joinO_Wait [simp]: "joinO (Wait q k) v s = (s, Wait q (\<lambda>a s. joinO (snd (k a s)) v (fst (k a s))))"
  by (simp add: map_prod_def split_beta)

declare joinO.simps(3) [simp del]

lemma stretches_joinO:
  assumes R: "preorder_rel R" and v: "stretchesO R v"
  shows "stretchesO R u \<Longrightarrow> R t s \<Longrightarrow> R t (fst (joinO u v s)) \<and> stretchesO R (snd (joinO u v s))"
proof (induction u arbitrary: s t rule: outcome_induct)
  case (Done r)
  have "stretches R (bindO v (\<lambda>t. ret (r, t)))"
    using R v by (intro stretches_bindO stretches_ret)
  with Done show ?case using preorder_transD [OF R] by (auto simp: stretches_def)
next
  case (Fail e)
  have "stretches R (bind (try_catch (bindO v (\<lambda>_. ret ())) (\<lambda>_. ret ())) (\<lambda>_. throw e))"
    using R v by (intro stretches_bind stretches_catch stretches_bindO stretches_ret stretches_throw)
  with Fail show ?case using preorder_transD [OF R] by (auto simp: stretches_def)
next
  case (Wait q k)
  have "stretches R (\<lambda>s. joinO (snd (k a s)) v (fst (k a s)))" for a
    unfolding stretches_def using Wait.IH Wait.prems(1) by (fastforce simp: stretches_def)
  with Wait.prems show ?case by simp
qed

lemma stretches_both:
  assumes R: "preorder_rel R" and "stretches R m" "stretches R n"
  shows "stretches R (both m n)"
proof -
  have "R s (fst (both m n s)) \<and> stretchesO R (snd (both m n s))" for s
  proof -
    have m: "R s (fst (m s))" "stretchesO R (snd (m s))"
      and n: "R (fst (m s)) (fst (n (fst (m s))))" "stretchesO R (snd (n (fst (m s))))"
      using assms(2,3) by (simp_all add: stretches_def)
    from stretches_joinO [OF R n(2) m(2) preorder_transD [OF R m(1) n(1)]] show ?thesis
      by (simp add: both_def split_beta)
  qed
  then show ?thesis by (simp add: stretches_def)
qed

lemma stretches_asks: "(\<And>x. stretches R (f x)) \<Longrightarrow> stretches R (asks g f)"
  by (simp add: asks_def stretches_def)

lemma stretches_asks_id: "(\<And>s. stretches R (f s)) \<Longrightarrow> stretches R (asks id f)"
  by (rule stretches_asks)

lemma stretches_seq: "preorder_rel R \<Longrightarrow> stretches R m \<Longrightarrow> stretches R n \<Longrightarrow> stretches R (seq m n)"
  by (simp add: seq_def stretches_bind)

lemma stretches_option:
  "stretches R m \<Longrightarrow> (\<And>x. stretches R (n x)) \<Longrightarrow> stretches R (case y of None \<Rightarrow> m | Some x \<Rightarrow> n x)"
  by (cases y) simp_all

lemma stretches_prod: "(\<And>a b. stretches R (n a b)) \<Longrightarrow> stretches R (case y of (a, b) \<Rightarrow> n a b)"
  by (cases y) simp

lemma stretches_let: "(\<And>x. stretches R (f x)) \<Longrightarrow> stretches R (Let v f)"
  by simp

lemma stretches_void: "preorder_rel R \<Longrightarrow> stretches R m \<Longrightarrow> stretches R (void m)"
  by (simp add: void_def stretches_bind stretches_ret)

lemma stretches_settled: "preorder_rel R \<Longrightarrow> stretches R m \<Longrightarrow> stretches R (settled m)"
  by (simp add: settled_def stretches_catch stretches_void stretches_ret)

lemmas stretch_rules = stretches_ret stretches_throw stretches_await stretches_bind stretches_catch
  stretches_finally stretches_both stretches_void stretches_settled stretches_seq

text \<open>The rules that need no order, and then the steps that change the store are left.\<close>

lemmas stretch_shape = stretches_asks stretches_option stretches_prod stretches_let stretches_if

text \<open>How a program runs, one construct after the other.\<close>

lemma run_simps [async_simps]:
  "ret r s = (s, Done r)" "throw e s = (s, Fail e)" "modify f s = (f s, Done ())"
  "asks g f' s = f' (g s) s" "seq m n s = bind m (\<lambda>_. n) s"
  by (simp_all add: ret_def throw_def modify_def asks_def seq_def)

lemma run_await [async_simps]:
  "await lift pick q s = (s, Wait q (\<lambda>a s'. (s', case a of Inl e \<Rightarrow> Fail (lift e) | Inr p \<Rightarrow> Done (pick p))))"
  by (simp add: await_def)

lemmas [async_simps] = bind_eq try_catch_eq try_finally_eq

text \<open>A run of a bind that ends has a run of its first part at the start.\<close>

lemma feed_Fail [simp]: "feed as (s, Fail e) = (s, Fail e)"
  by (cases as) simp_all

lemma feed_Done [simp]: "feed as (s, Done r) = (s, Done r)"
  by (cases as) simp_all

lemma feed_bindO_Done:
  "snd (feed as (bindO u f s)) = Done r \<Longrightarrow>
     \<exists>n s' r'. n \<le> length as \<and> feed (take n as) (s, u) = (s', Done r') \<and> snd (feed (drop n as) (f r' s')) = Done r"
proof (induction u arbitrary: as s rule: outcome_induct)
  case (Done x)
  then show ?case by (intro exI [of _ 0]) simp
next
  case (Wait q k)
  then obtain a as' where as: "as = a # as'" by (cases as) auto
  with Wait.prems have "snd (feed as' (bindO (snd (k a s)) f (fst (k a s)))) = Done r" by (simp add: bind_eq)
  from Wait.IH [OF this] obtain n s' r' where "n \<le> length as'"
    "feed (take n as') (k a s) = (s', Done r')" "snd (feed (drop n as') (f r' s')) = Done r" by auto
  then show ?case by (intro exI [of _ "Suc n"]) (simp add: as)
qed simp

lemma feed_bind_Done:
  "snd (feed as (bind m f s)) = Done r \<Longrightarrow>
     \<exists>n s' r'. n \<le> length as \<and> feed (take n as) (m s) = (s', Done r') \<and> snd (feed (drop n as) (f r' s')) = Done r"
  using feed_bindO_Done [of as "snd (m s)" f "fst (m s)" r] by (simp add: bind_eq)

section \<open>What a program sends and how it fails\<close>

text \<open>
  \<open>behaves P F m\<close>: whatever the answers and whatever happens to the store at the waits, every
  request \<open>m\<close> sends satisfies \<open>P\<close>, and if it fails, then with an error that satisfies \<open>F\<close>.
\<close>

primrec behavesO :: "('q \<Rightarrow> bool) \<Rightarrow> ('e \<Rightarrow> bool) \<Rightarrow> ('s, 'q, 'a, 'e, 'r) outcome \<Rightarrow> bool" where
  "behavesO P F (Done r) = True"
| "behavesO P F (Fail e) = F e"
| "behavesO P F (Wait q k) = (P q \<and> (\<forall>a s. snd (map_prod id (behavesO P F) (k a s))))"

definition behaves :: "('q \<Rightarrow> bool) \<Rightarrow> ('e \<Rightarrow> bool) \<Rightarrow> ('s, 'q, 'a, 'e, 'r) async \<Rightarrow> bool" where
  "behaves P F m \<longleftrightarrow> (\<forall>s. behavesO P F (snd (m s)))"

lemma behavesO_Wait [simp]: "behavesO P F (Wait q k) \<longleftrightarrow> P q \<and> (\<forall>a. behaves P F (k a))"
  by (simp add: behaves_def map_prod_def split_beta)

declare behavesO.simps(3) [simp del]

lemma behavesO_bindO:
  assumes "\<And>r. behaves P F (f r)"
  shows "behavesO P F u \<Longrightarrow> behavesO P F (snd (bindO u f s))"
proof (induction u arbitrary: s rule: outcome_induct)
  case (Done r)
  with assms [of r] show ?case by (simp add: behaves_def)
next
  case (Wait q k)
  then show ?case by (simp add: behaves_def bind_eq)
qed simp

lemma behavesO_catchO:
  assumes "\<And>e. behaves P F (h e)"
  shows "behavesO P (\<lambda>_. True) u \<Longrightarrow> behavesO P F (snd (catchO u h s))"
proof (induction u arbitrary: s rule: outcome_induct)
  case (Fail e)
  with assms [of e] show ?case by (simp add: behaves_def)
next
  case (Wait q k)
  then show ?case by (simp add: behaves_def try_catch_eq)
qed simp

lemma behavesO_finallyO: "behavesO P F u \<Longrightarrow> behavesO P F (snd (finallyO u f s))"
proof (induction u arbitrary: s rule: outcome_induct)
  case (Wait q k)
  then show ?case by (simp add: behaves_def try_finally_eq)
qed simp_all

lemma behavesO_weaken: "behavesO P F u \<Longrightarrow> behavesO P (\<lambda>_. True) u"
proof (induction u rule: outcome_induct)
  case (Wait q k)
  then show ?case by (simp add: behaves_def)
qed simp_all

lemma behaves_weaken: "behaves P F m \<Longrightarrow> behaves P (\<lambda>_. True) m"
  by (auto simp: behaves_def intro: behavesO_weaken)

lemma behaves_ret: "behaves P F (ret r)"
  by (simp add: behaves_def ret_def)

lemma behaves_throw: "F e \<Longrightarrow> behaves P F (throw e)"
  by (simp add: behaves_def throw_def)

lemma behaves_modify: "behaves P F (modify f)"
  by (simp add: behaves_def modify_def)

lemma behaves_asks: "(\<And>x. behaves P F (f x)) \<Longrightarrow> behaves P F (asks g f)"
  by (simp add: behaves_def asks_def)

lemma behaves_await: "P q \<Longrightarrow> (\<And>e. F (lift e)) \<Longrightarrow> behaves P F (await lift pick q)"
  by (simp add: behaves_def await_def split: sum.splits)

lemma behaves_bind: "behaves P F m \<Longrightarrow> (\<And>r. behaves P F (f r)) \<Longrightarrow> behaves P F (bind m f)"
  unfolding behaves_def [of _ _ "bind m f"] bind_eq
  by (intro allI behavesO_bindO) (simp_all add: behaves_def)

lemma behaves_seq: "behaves P F m \<Longrightarrow> behaves P F n \<Longrightarrow> behaves P F (seq m n)"
  by (simp add: seq_def behaves_bind)

lemma behaves_void: "behaves P F m \<Longrightarrow> behaves P F (void m)"
  by (simp add: void_def behaves_bind behaves_ret)

lemma behaves_catch: "behaves P (\<lambda>_. True) m \<Longrightarrow> (\<And>e. behaves P F (h e)) \<Longrightarrow> behaves P F (try_catch m h)"
  unfolding behaves_def [of _ _ "try_catch m h"] try_catch_eq
  by (intro allI behavesO_catchO) (simp_all add: behaves_def)

lemma behaves_finally: "behaves P F m \<Longrightarrow> behaves P F (try_finally m f)"
  unfolding behaves_def try_finally_eq by (intro allI behavesO_finallyO) simp

lemma behaves_settled: "behaves P (\<lambda>_. True) m \<Longrightarrow> behaves P F (settled m)"
  by (simp add: settled_def behaves_catch behaves_void behaves_ret)

lemma behavesO_joinO:
  assumes v: "behavesO P F v"
  shows "behavesO P F u \<Longrightarrow> behavesO P F (snd (joinO u v s))"
proof (induction u arbitrary: s rule: outcome_induct)
  case (Done r)
  show ?case using behavesO_bindO [of P F "\<lambda>t. ret (r, t)" v s] v by (simp add: behaves_ret)
next
  case (Fail e)
  have "behaves P (\<lambda>_. True) (bindO v (\<lambda>_. ret ()))"
    using behavesO_bindO [of P "\<lambda>_. True" "\<lambda>_. ret ()" v] behavesO_weaken [OF v] by (simp add: behaves_def ret_def)
  then show ?case unfolding joinO.simps using Fail
    by (intro behaves_def [THEN iffD1, rule_format] behaves_bind behaves_catch behaves_ret behaves_throw) simp_all
next
  case (Wait q k)
  then show ?case by (simp add: behaves_def)
qed

lemma behaves_both: "behaves P F m \<Longrightarrow> behaves P F n \<Longrightarrow> behaves P F (both m n)"
  by (simp add: behaves_def both_def split_beta behavesO_joinO)

lemma behaves_option: "behaves P F m \<Longrightarrow> (\<And>x. behaves P F (n x)) \<Longrightarrow> behaves P F (case y of None \<Rightarrow> m | Some x \<Rightarrow> n x)"
  by (cases y) simp_all

lemma behaves_if: "(b \<Longrightarrow> behaves P F m) \<Longrightarrow> (\<not> b \<Longrightarrow> behaves P F n) \<Longrightarrow> behaves P F (if b then m else n)"
  by simp

lemma behaves_prod: "(\<And>a b. behaves P F (n a b)) \<Longrightarrow> behaves P F (case y of (a, b) \<Rightarrow> n a b)"
  by (cases y) simp

lemma behaves_let: "(\<And>x. behaves P F (f x)) \<Longrightarrow> behaves P F (Let v f)"
  by simp

lemmas behaves_rules = behaves_ret behaves_modify behaves_asks behaves_await behaves_bind behaves_seq behaves_void
  behaves_catch behaves_finally behaves_settled behaves_both behaves_option behaves_if behaves_prod behaves_let

lemma sent_behavesO: "behavesO P F u \<Longrightarrow> q \<in> set (sent as (s, u)) \<Longrightarrow> P q"
proof (induction as arbitrary: u s)
  case Nil
  then show ?case by (cases u) auto
next
  case (Cons a as)
  show ?case
  proof (cases u)
    case (Wait q' k)
    then have "behavesO P F (snd (k a s))" using Cons.prems(1) by (simp add: behaves_def)
    with Wait Cons.IH [of "snd (k a s)" "fst (k a s)"] Cons.prems show ?thesis by auto
  qed (use Cons in auto)
qed

lemma feed_behavesO: "behavesO P F u \<Longrightarrow> snd (feed as (s, u)) = Fail e \<Longrightarrow> F e"
proof (induction as arbitrary: u s)
  case (Cons a as)
  show ?case
  proof (cases u)
    case (Wait q' k)
    then have "behavesO P F (snd (k a s))" using Cons.prems(1) by (simp add: behaves_def)
    with Wait Cons.IH [of "snd (k a s)" "fst (k a s)"] Cons.prems show ?thesis by auto
  qed (use Cons in auto)
qed simp

lemma sent_behaves: "behaves P F m \<Longrightarrow> q \<in> set (sent as (m s)) \<Longrightarrow> P q"
  using sent_behavesO [of P F "snd (m s)" q as "fst (m s)"] by (simp add: behaves_def)

lemma feed_behaves: "behaves P F m \<Longrightarrow> snd (feed as (m s)) = Fail e \<Longrightarrow> F e"
  using feed_behavesO [of P F "snd (m s)" as "fst (m s)"] by (simp add: behaves_def)

section \<open>How a program ends\<close>

text \<open>
  \<open>ends Q m\<close>: whatever the answers and whatever happened to the store at the waits, a result
  that \<open>m\<close> returns and the store it returns it in satisfy \<open>Q\<close>.  \<open>within n m\<close>: it waits at most
  \<open>n\<close> times, so \<open>n\<close> answers are enough for it to return or to throw.
\<close>

primrec endsO :: "('r \<Rightarrow> 's \<Rightarrow> bool) \<Rightarrow> ('s, 'q, 'a, 'e, 'r) outcome \<Rightarrow> 's \<Rightarrow> bool" where
  "endsO Q (Done r) = Q r"
| "endsO Q (Fail e) = (\<lambda>s. True)"
| "endsO Q (Wait q k) = (\<lambda>_. \<forall>a s. case map_prod id (endsO Q) (k a s) of (s', ok) \<Rightarrow> ok s')"

definition ends :: "('r \<Rightarrow> 's \<Rightarrow> bool) \<Rightarrow> ('s, 'q, 'a, 'e, 'r) async \<Rightarrow> bool" where
  "ends Q m \<longleftrightarrow> (\<forall>s. endsO Q (snd (m s)) (fst (m s)))"

lemma endsO_Wait [simp]: "endsO Q (Wait q k) s \<longleftrightarrow> (\<forall>a. ends Q (k a))"
  by (simp add: ends_def map_prod_def split_beta)

declare endsO.simps(3) [simp del]

lemma endsO_bindO: "(\<And>r. ends Q (f r)) \<Longrightarrow> endsO Q (snd (bindO u f s)) (fst (bindO u f s))"
proof (induction u arbitrary: s rule: outcome_induct)
  case (Done r)
  then show ?case by (simp add: ends_def)
next
  case (Wait q k)
  then show ?case by (simp add: ends_def [of _ "bind _ _"] bind_eq)
qed simp

lemma ends_bind: "(\<And>r. ends Q (f r)) \<Longrightarrow> ends Q (bind m f)"
  by (simp add: ends_def [of _ "bind _ _"] bind_eq endsO_bindO)

lemma ends_seq: "ends Q n \<Longrightarrow> ends Q (seq m n)"
  by (simp add: seq_def ends_bind)

lemma ends_state: "(\<And>s. endsO Q (snd (m s)) (fst (m s))) \<Longrightarrow> ends Q m"
  by (simp add: ends_def)

lemma ends_feed: "endsO Q u s \<Longrightarrow> feed as (s, u) = (t, Done r) \<Longrightarrow> Q r t"
proof (induction as arbitrary: u s)
  case (Cons a as)
  show ?case
  proof (cases u)
    case (Wait q k)
    then have "endsO Q (snd (k a s)) (fst (k a s))" using Cons.prems(1) by (simp add: ends_def)
    with Wait Cons.IH [of "snd (k a s)" "fst (k a s)"] Cons.prems show ?thesis by simp
  qed (use Cons in auto)
qed auto

primrec withinO :: "('s, 'q, 'a, 'e, 'r) outcome \<Rightarrow> nat \<Rightarrow> bool" where
  "withinO (Done r) = (\<lambda>n. True)"
| "withinO (Fail e) = (\<lambda>n. True)"
| "withinO (Wait q k) = (\<lambda>n. 0 < n \<and> (\<forall>a s. snd (map_prod id withinO (k a s)) (n - 1)))"

definition within :: "nat \<Rightarrow> ('s, 'q, 'a, 'e, 'r) async \<Rightarrow> bool" where
  "within n m \<longleftrightarrow> (\<forall>s. withinO (snd (m s)) n)"

lemma withinO_Wait [simp]: "withinO (Wait q k) n \<longleftrightarrow> 0 < n \<and> (\<forall>a. within (n - 1) (k a))"
  by (simp add: within_def map_prod_def split_beta)

declare withinO.simps(3) [simp del]

lemma withinO_mono: "withinO u i \<Longrightarrow> i \<le> j \<Longrightarrow> withinO u j"
proof (induction u arbitrary: i j rule: outcome_induct)
  case (Wait q k)
  have "withinO (snd (k a s)) (j - 1)" for a s
    by (rule Wait.IH [of a s "i - 1"]) (use Wait.prems in \<open>auto simp: within_def\<close>)
  with Wait.prems show ?case by (simp add: within_def)
qed simp_all

lemma within_mono: "within i m \<Longrightarrow> i \<le> j \<Longrightarrow> within j m"
  by (auto simp: within_def intro: withinO_mono)

lemma withinO_bindO: "withinO u i \<Longrightarrow> (\<And>r. within j (f r)) \<Longrightarrow> withinO (snd (bindO u f s)) (i + j)"
proof (induction u arbitrary: i s rule: outcome_induct)
  case (Done r)
  then show ?case by (auto simp: within_def intro: withinO_mono [of _ j])
next
  case (Wait q k)
  obtain n where n: "i = Suc n" using Wait.prems(1) by (cases i) auto
  have "withinO (snd (bindO (snd (k a t)) f (fst (k a t)))) (n + j)" for a t
    using Wait.prems(1) by (intro Wait.IH [OF _ Wait.prems(2)]) (simp add: within_def n)
  then show ?case by (simp add: within_def [of _ "bind (k _) _"] bind_eq n)
qed simp

lemma withinO_catchO: "withinO u i \<Longrightarrow> (\<And>e. within j (h e)) \<Longrightarrow> withinO (snd (catchO u h s)) (i + j)"
proof (induction u arbitrary: i s rule: outcome_induct)
  case (Fail e)
  then show ?case by (auto simp: within_def intro: withinO_mono [of _ j])
next
  case (Wait q k)
  obtain n where n: "i = Suc n" using Wait.prems(1) by (cases i) auto
  have "withinO (snd (catchO (snd (k a t)) h (fst (k a t)))) (n + j)" for a t
    using Wait.prems(1) by (intro Wait.IH [OF _ Wait.prems(2)]) (simp add: within_def n)
  then show ?case by (simp add: within_def [of _ "try_catch (k _) _"] try_catch_eq n)
qed simp

lemma withinO_finallyO: "withinO u i \<Longrightarrow> withinO (snd (finallyO u f s)) i"
proof (induction u arbitrary: i s rule: outcome_induct)
  case (Wait q k)
  then show ?case by (simp add: within_def [of _ "try_finally _ _"] try_finally_eq) (simp add: within_def)
qed simp_all

lemma within_ret [simp]: "within n (ret r)"
  by (simp add: within_def ret_def)

lemma within_throw [simp]: "within n (throw e)"
  by (simp add: within_def throw_def)

lemma within_modify [simp]: "within n (modify f)"
  by (simp add: within_def modify_def)

lemma within_await: "0 < n \<Longrightarrow> within n (await lift pick q)"
  by (simp add: within_def await_def split: sum.splits)

lemma within_bind: "within i m \<Longrightarrow> (\<And>r. within j (f r)) \<Longrightarrow> within (i + j) (bind m f)"
  unfolding within_def [of _ m] within_def [of _ "bind m f"] bind_eq by (blast intro: withinO_bindO)

lemma within_seq: "within i m \<Longrightarrow> within j n \<Longrightarrow> within (i + j) (seq m n)"
  by (simp add: seq_def within_bind)

lemma within_catch: "within i m \<Longrightarrow> (\<And>e. within j (h e)) \<Longrightarrow> within (i + j) (try_catch m h)"
  unfolding within_def [of _ m] within_def [of _ "try_catch m h"] try_catch_eq by (blast intro: withinO_catchO)

lemma within_finally: "within i m \<Longrightarrow> within i (try_finally m f)"
  unfolding within_def try_finally_eq by (blast intro: withinO_finallyO)

lemma within_asks: "(\<And>x. within n (f x)) \<Longrightarrow> within n (asks g f)"
  by (simp add: within_def asks_def)

lemma within_void: "within n m \<Longrightarrow> within n (void m)"
  using within_bind [of n m 0 "\<lambda>_. ret ()"] by (simp add: void_def)

lemma within_settled: "within n m \<Longrightarrow> within n (settled m)"
  using within_catch [of n "void m" 0 "\<lambda>_. ret ()"] by (simp add: settled_def within_void)

lemma within_feed: "withinO u n \<Longrightarrow> n \<le> length as \<Longrightarrow> \<exists>t. (\<exists>r. feed as (s, u) = (t, Done r)) \<or> (\<exists>e. feed as (s, u) = (t, Fail e))"
proof (induction as arbitrary: u s n)
  case Nil
  then show ?case by (cases u) auto
next
  case (Cons a as)
  show ?case
  proof (cases u)
    case (Wait q k)
    with Cons.prems have "withinO (snd (k a s)) (n - 1)" "n - 1 \<le> length as" by (auto simp: within_def)
    from Cons.IH [OF this, of "fst (k a s)"] Wait show ?thesis by simp
  qed auto
qed

text \<open>A program that never throws and waits at most \<open>n\<close> times has returned after \<open>n\<close> answers.\<close>

lemma returns:
  assumes "within n m" "behaves (\<lambda>_. True) (\<lambda>_. False) m" "n \<le> length as"
  shows "\<exists>t r. feed as (m s) = (t, Done r)"
proof -
  have "withinO (snd (m s)) n" using assms(1) by (simp add: within_def)
  from within_feed [OF this assms(3), of "fst (m s)"] feed_behaves [OF assms(2), of as s] show ?thesis by fastforce
qed

section \<open>All interleavings\<close>

text \<open>
  A system: the shared store and the programs pending at a wait (with those that have ended).
  A step starts a program of \<open>H\<close>, or hands one pending program an answer.
\<close>

type_synonym ('s, 'q, 'a, 'e) system = "'s \<times> ('s, 'q, 'a, 'e, unit) outcome list"

inductive step :: "('s, 'q, 'a, 'e, unit) async set \<Rightarrow> ('s, 'q, 'a, 'e) system \<Rightarrow> ('s, 'q, 'a, 'e) system \<Rightarrow> bool"
  for H where
  start: "m \<in> H \<Longrightarrow> m s = (s', u) \<Longrightarrow> step H (s, ps) (s', ps @ [u])"
| answer: "i < length ps \<Longrightarrow> ps ! i = Wait q k \<Longrightarrow> k a s = (s', u) \<Longrightarrow> step H (s, ps) (s', ps[i := u])"

inductive_cases stepE: "step H (s, ps) (s', ps')"

inductive reachable :: "('s, 'q, 'a, 'e, unit) async set \<Rightarrow> 's \<Rightarrow> ('s, 'q, 'a, 'e) system \<Rightarrow> bool"
  for H s0 where
  init: "reachable H s0 (s0, [])"
| next_step: "reachable H s0 c \<Longrightarrow> step H c c' \<Longrightarrow> reachable H s0 c'"

text \<open>
  The interface of a store: the programs \<open>H\<close> that run on it and the relation \<open>R\<close> all their
  stretches respect.  What a client may rely on then holds in every reachable system.
\<close>

text \<open>A run of one program with nothing else going on is one of the system's.\<close>

lemma reachable_answers: "reachable H s0 (s, [u]) \<Longrightarrow> reachable H s0 (fst (feed as (s, u)), [snd (feed as (s, u))])"
proof (induction as arbitrary: s u)
  case (Cons a as)
  show ?case
  proof (cases u)
    case (Wait q k)
    have "step H (s, [u]) (fst (k a s), [u][0 := snd (k a s)])"
      by (rule step.answer [where k = k and a = a and q = q]) (simp_all add: Wait)
    with Cons.prems have "reachable H s0 (fst (k a s), [snd (k a s)])"
      by (auto intro: reachable.next_step)
    from Cons.IH [OF this] Wait show ?thesis by simp
  qed (use Cons.prems in simp_all)
qed simp

lemma reachable_feed:
  assumes "m \<in> H"
  shows "reachable H s (fst (feed as (m s)), [snd (feed as (m s))])"
proof -
  have "step H (s, []) (fst (m s), [] @ [snd (m s)])"
    by (rule step.start [where m = m]) (simp_all add: assms)
  then have "reachable H s (fst (m s), [snd (m s)])"
    using reachable.next_step [OF reachable.init] by fastforce
  from reachable_answers [OF this, of as] show ?thesis by simp
qed

locale store_programs =
  fixes R :: "'s \<Rightarrow> 's \<Rightarrow> bool" and H :: "('s, 'q, 'a, 'e, unit) async set"
  assumes order: "preorder_rel R"
    and programs: "m \<in> H \<Longrightarrow> stretches R m"
begin

lemma pending_stretches:
  "reachable H s0 c \<Longrightarrow> R s0 (fst c) \<and> (\<forall>u\<in>set (snd c). stretchesO R u)"
proof (induction rule: reachable.induct)
  case init
  show ?case by (simp add: preorder_reflD [OF order])
next
  case (next_step c c')
  from next_step.hyps(2) next_step.IH show ?case
  proof (cases rule: step.cases)
    case (start m s s' u ps)
    then have "R s (fst (m s)) \<and> stretchesO R (snd (m s))"
      using programs [of m] unfolding stretches_def by blast
    with start next_step.IH preorder_transD [OF order] show ?thesis by auto
  next
    case (answer i ps q k a s s' u)
    with next_step.IH have "stretchesO R (Wait q k)" by (metis nth_mem snd_conv)
    with answer have "R s (fst (k a s)) \<and> stretchesO R (snd (k a s))"
      unfolding stretchesO_Wait stretches_def by blast
    with answer next_step.IH preorder_transD [OF order] show ?thesis
      by (auto dest!: set_update_subset_insert [THEN subsetD])
  qed
qed

lemma step_respects: "reachable H s0 c \<Longrightarrow> step H c c' \<Longrightarrow> R (fst c) (fst c')"
proof -
  assume r: "reachable H s0 c" and s: "step H c c'"
  note pending = pending_stretches [OF r, THEN conjunct2]
  from s show ?thesis
  proof (cases rule: step.cases)
    case (start m s s' u ps)
    then show ?thesis using programs [of m] by (auto simp: stretches_def dest!: spec [of _ s])
  next
    case (answer i ps q k a s s' u)
    with pending have "stretchesO R (Wait q k)" by (metis nth_mem snd_conv)
    with answer show ?thesis by (auto simp: stretches_def dest!: spec [of _ a] spec [of _ s])
  qed
qed

lemma later_respects: "(step H)\<^sup>*\<^sup>* c c' \<Longrightarrow> reachable H s0 c \<Longrightarrow> reachable H s0 c' \<and> R (fst c) (fst c')"
proof (induction rule: rtranclp_induct)
  case base
  then show ?case by (simp add: preorder_reflD [OF order])
next
  case (step c1 c2)
  then show ?case using step_respects preorder_transD [OF order] by (blast intro: reachable.next_step)
qed

lemma reachable_respects: "reachable H s0 (s, ps) \<Longrightarrow> R s0 s"
  using pending_stretches by fastforce

end

text \<open>The special case of an invariant.\<close>

locale store_invariant =
  fixes I :: "'s \<Rightarrow> bool" and H :: "('s, 'q, 'a, 'e, unit) async set"
  assumes kept: "m \<in> H \<Longrightarrow> stretches (keeps I) m"
begin

sublocale store_programs "keeps I" H
  by unfold_locales (simp_all add: kept)

lemma always: "reachable H s0 (s, ps) \<Longrightarrow> I s0 \<Longrightarrow> I s"
  using reachable_respects by (auto simp: keeps_def)

end

text \<open>A run respects what each of its stretches respects.\<close>

lemma feed_stretchesO: "preorder_rel R \<Longrightarrow> stretchesO R u \<Longrightarrow> R s (fst (feed as (s, u)))"
proof (induction as arbitrary: s u)
  case Nil
  then show ?case by (simp add: preorder_reflD)
next
  case (Cons a as)
  show ?case
  proof (cases u)
    case (Wait q k)
    with Cons.prems(2) have "R s (fst (k a s))" "stretchesO R (snd (k a s))" by (simp_all add: stretches_def)
    with Cons.IH [OF Cons.prems(1), of "snd (k a s)" "fst (k a s)"] preorder_transD [OF Cons.prems(1)] Wait show ?thesis by auto
  qed (use Cons.prems in \<open>simp_all add: preorder_reflD\<close>)
qed

lemma feed_stretches: "preorder_rel R \<Longrightarrow> stretches R m \<Longrightarrow> R s (fst (feed as (m s)))"
  using feed_stretchesO [of R "snd (m s)" "fst (m s)" as] preorder_transD [of R s "fst (m s)"]
  by (auto simp: stretches_def)

end
