(* ===== verification/Client.thy ===== *)
theory Client
  imports Async
begin

text \<open>
  The one place that talks to the server, web/src/api/client.ts: what a request sends, with
  the CSRF token read from its cookie, and what each kind of answer becomes.  \<open>fetch\<close> and
  \<open>XMLHttpRequest\<close> are the browser's: what they answer is the environment's choice, a value of
  \<open>fetched\<close> or \<open>xhr_event\<close>.  \<open>JSON.parse\<close> and \<open>decodeURIComponent\<close> are arguments.
\<close>

section \<open>Cookies and headers\<close>

definition CSRF_COOKIE :: string where
  "CSRF_COOKIE = ''altero_csrf''"

definition CSRF_HEADER :: string where
  "CSRF_HEADER = ''X-CSRF-Token''"

definition SAFE_METHODS :: "string list" where
  "SAFE_METHODS = [''GET'', ''HEAD'', ''OPTIONS'']"

definition readCookie :: "(string \<Rightarrow> string) \<Rightarrow> string \<Rightarrow> string \<Rightarrow> string option" where
  "readCookie decode jar name =
     (case List.find (\<lambda>pair. hd pair = name) (map (split_at (CHR ''='')) (split_on ''; '' jar)) of
        None \<Rightarrow> None
      | Some pair \<Rightarrow> Some (decode (join_with ''='' (tl pair))))"

text \<open>A \<open>Headers\<close> object: names are compared without regard to case, \<open>set\<close> replaces.\<close>

definition set_header :: "string \<Rightarrow> string \<Rightarrow> (string \<times> string) list \<Rightarrow> (string \<times> string) list" where
  "set_header name v hs = filter (\<lambda>h. to_lower (fst h) \<noteq> to_lower name) hs @ [(name, v)]"

definition get_header :: "string \<Rightarrow> (string \<times> string) list \<Rightarrow> string option" where
  "get_header name hs = map_option snd (List.find (\<lambda>h. to_lower (fst h) = to_lower name) hs)"

section \<open>request\<close>

datatype req_body = NoBody | FormBody | JsonBody json

text \<open>The body on the wire: none, a form or a file as it is, or the JSON text.\<close>

datatype wire_body = Empty | FormData | FileBytes | JsonText string

record request_options =
  optMethod :: string
  optBody :: req_body
  optHeaders :: "(string \<times> string) list"

record fetch_init =
  fetchPath :: string
  fetchMethod :: string
  fetchHeaders :: "(string \<times> string) list"
  fetchBody :: wire_body

text \<open>What the browser makes of a request: no answer, an answer whose body was lost, an answer.\<close>

datatype fetched = Unreachable | BodyLost string | Response int string

definition request_headers :: "(string \<Rightarrow> string) \<Rightarrow> string \<Rightarrow> request_options \<Rightarrow> (string \<times> string) list" where
  "request_headers decode jar opts =
     (let h0 = optHeaders opts;
          h1 = (case optBody opts of JsonBody _ \<Rightarrow> set_header ''Content-Type'' ''application/json'' h0 | _ \<Rightarrow> h0)
      in if to_upper (optMethod opts) \<notin> set SAFE_METHODS
         then (case readCookie decode jar CSRF_COOKIE of
                 Some token \<Rightarrow> if token \<noteq> '''' then set_header CSRF_HEADER token h1 else h1
               | None \<Rightarrow> h1)
         else h1)"

definition isRecord :: "json \<Rightarrow> bool" where
  "isRecord v = (case v of JArr _ \<Rightarrow> True | JObj _ \<Rightarrow> True | _ \<Rightarrow> False)"

definition record_prop :: "json \<Rightarrow> string \<Rightarrow> json option" where
  "record_prop v name = (case v of JObj obj \<Rightarrow> get_prop obj name | _ \<Rightarrow> None)"

text \<open>\<open>readBody\<close>: 204, an empty body and one that is not JSON are all \<open>null\<close>.\<close>

definition readBody :: "(string \<Rightarrow> json option) \<Rightarrow> int \<Rightarrow> string \<Rightarrow> json" where
  "readBody parse status txt =
     (if status = 204 then JNull
      else if txt = '''' then JNull
      else (case parse txt of Some v \<Rightarrow> v | None \<Rightarrow> JNull))"

definition refusal_message :: "json \<Rightarrow> int \<Rightarrow> string" where
  "refusal_message payload status =
     (case record_prop payload ''message'' of
        Some (JStr m) \<Rightarrow> if m \<noteq> '''' then m else ''The server answered '' @ show_int status
      | _ \<Rightarrow> ''The server answered '' @ show_int status)"

definition refusal_data :: "json \<Rightarrow> json option" where
  "refusal_data payload =
     (case record_prop payload ''data'' of Some d \<Rightarrow> if isRecord d then Some d else None | None \<Rightarrow> None)"

definition ok_status :: "int \<Rightarrow> bool" where
  "ok_status status \<longleftrightarrow> 200 \<le> status \<and> status \<le> 299"

definition request_init :: "(string \<Rightarrow> string) \<Rightarrow> string \<Rightarrow> string \<Rightarrow> request_options \<Rightarrow> fetch_init" where
  "request_init decode jar p opts =
     \<lparr>fetchPath = p, fetchMethod = optMethod opts, fetchHeaders = request_headers decode jar opts,
      fetchBody = (case optBody opts of NoBody \<Rightarrow> Empty | FormBody \<Rightarrow> FormData | JsonBody j \<Rightarrow> JsonText (stringify j))\<rparr>"

definition request_answer :: "(string \<Rightarrow> json option) \<Rightarrow> fetched \<Rightarrow> thrown + json" where
  "request_answer parse a =
     (case a of
        Unreachable \<Rightarrow> Inl (ApiError ''Could not reach the server'' 0 None False)
      | BodyLost m \<Rightarrow> Inl (JsError m)
      | Response status txt \<Rightarrow>
          (let payload = readBody parse status txt
           in if \<not> ok_status status
              then Inl (ApiError (refusal_message payload status) status (refusal_data payload) False)
              else Inr payload))"

definition request :: "(string \<Rightarrow> string) \<Rightarrow> (string \<Rightarrow> json option) \<Rightarrow> string \<Rightarrow> request_options \<Rightarrow>
    (string, fetch_init, fetched, thrown, json) async" where
  "request decode parse p opts = (\<lambda>jar.
     (jar, Wait (request_init decode jar p opts)
        (\<lambda>a jar'. (jar', case request_answer parse a of Inl e \<Rightarrow> Fail e | Inr v \<Rightarrow> Done v))))"

section \<open>upload\<close>

datatype xhr_event = XhrLoad int string | XhrError | XhrAbort

record upload_options =
  upMethod :: string
  upHeaders :: "(string \<times> string) list"

definition cancelled_error :: thrown where
  "cancelled_error = ApiError ''Cancelled'' 0 None True"

definition upload_headers :: "(string \<Rightarrow> string) \<Rightarrow> string \<Rightarrow> string \<Rightarrow> upload_options \<Rightarrow> (string \<times> string) list" where
  "upload_headers decode jar fileType opts =
     [(''Content-Type'', if fileType \<noteq> '''' then fileType else ''application/octet-stream'')]
     @ (case readCookie decode jar CSRF_COOKIE of
          Some token \<Rightarrow> if token \<noteq> '''' then [(CSRF_HEADER, token)] else []
        | None \<Rightarrow> [])
     @ upHeaders opts"

definition parse_response :: "(string \<Rightarrow> json option) \<Rightarrow> string \<Rightarrow> json" where
  "parse_response parse txt = (if txt = '''' then JNull else (case parse txt of Some v \<Rightarrow> v | None \<Rightarrow> JNull))"

definition upload_event :: "(string \<Rightarrow> json option) \<Rightarrow> xhr_event \<Rightarrow> thrown + json" where
  "upload_event parse ev =
     (case ev of
        XhrLoad status txt \<Rightarrow>
          (let payload = parse_response parse txt
           in if 200 \<le> status \<and> status < 300 then Inr payload
              else Inl (ApiError (refusal_message payload status) status (refusal_data payload) False))
      | XhrError \<Rightarrow> Inl (ApiError ''Could not reach the server'' 0 None False)
      | XhrAbort \<Rightarrow> Inl cancelled_error)"

text \<open>A signal already aborted rejects before anything is sent.\<close>

definition upload :: "(string \<Rightarrow> string) \<Rightarrow> (string \<Rightarrow> json option) \<Rightarrow> bool \<Rightarrow> string \<Rightarrow> string \<Rightarrow> upload_options \<Rightarrow>
    (string, fetch_init, xhr_event, thrown, json) async" where
  "upload decode parse aborted p fileType opts = (\<lambda>jar.
     if aborted then (jar, Fail cancelled_error)
     else (jar, Wait \<lparr>fetchPath = p, fetchMethod = upMethod opts,
                      fetchHeaders = upload_headers decode jar fileType opts, fetchBody = FileBytes\<rparr>
        (\<lambda>ev jar'. (jar', case upload_event parse ev of Inl e \<Rightarrow> Fail e | Inr v \<Rightarrow> Done v))))"

definition isCancelled :: "thrown \<Rightarrow> bool" where
  "isCancelled e = (case e of ApiError _ _ _ c \<Rightarrow> c | JsError _ \<Rightarrow> False)"

section \<open>Properties\<close>

lemma get_set_header [simp]: "get_header name (set_header name v hs) = Some v"
proof -
  have "List.find (\<lambda>h. to_lower (fst h) = to_lower name) (filter (\<lambda>h. to_lower (fst h) \<noteq> to_lower name) hs @ [(name, v)])
      = Some (name, v)"
    by (induction hs) auto
  then show ?thesis by (simp add: get_header_def set_header_def)
qed

lemma get_set_header_other:
  "to_lower name \<noteq> to_lower other \<Longrightarrow> get_header name (set_header other v hs) = get_header name hs"
proof -
  assume ne: "to_lower name \<noteq> to_lower other"
  have "List.find (\<lambda>h. to_lower (fst h) = to_lower name) (filter (\<lambda>h. to_lower (fst h) \<noteq> to_lower other) hs @ [(other, v)])
      = List.find (\<lambda>h. to_lower (fst h) = to_lower name) hs"
    using ne by (induction hs) auto
  then show ?thesis by (simp add: get_header_def set_header_def)
qed

lemma csrf_not_content_type: "to_lower CSRF_HEADER \<noteq> to_lower ''Content-Type''"
  by (simp add: CSRF_HEADER_def to_lower_def lower_char_def char_of_def)

text \<open>A request carries the CSRF token exactly where the code means it to: a changing method
  sends the token of the cookie, if there is one with a value; a safe method, and a changing one
  without such a cookie, leave the header to what the caller gave.\<close>

theorem request_csrf:
  "get_header CSRF_HEADER (fetchHeaders (request_init decode jar p opts)) =
     (if to_upper (optMethod opts) \<in> {''GET'', ''HEAD'', ''OPTIONS''} then get_header CSRF_HEADER (optHeaders opts)
      else (case readCookie decode jar CSRF_COOKIE of
              Some token \<Rightarrow> if token = '''' then get_header CSRF_HEADER (optHeaders opts) else Some token
            | None \<Rightarrow> get_header CSRF_HEADER (optHeaders opts)))"
  by (auto simp: request_init_def request_headers_def SAFE_METHODS_def Let_def
      get_set_header_other [OF csrf_not_content_type] split: option.splits req_body.splits)

text \<open>How each answer of the network ends a request: a 2xx answer is its payload, any other
  answer an \<open>ApiError\<close> with that very status, no answer an \<open>ApiError\<close> with status 0, a body lost on the way an error that is no \<open>ApiError\<close>; the cookie
  jar is left alone.\<close>

theorem request_outcome:
  "feed [a] (request decode parse p opts jar) =
     (jar, case a of
        Unreachable \<Rightarrow> Fail (ApiError ''Could not reach the server'' 0 None False)
      | BodyLost m \<Rightarrow> Fail (JsError m)
      | Response status txt \<Rightarrow>
          if 200 \<le> status \<and> status \<le> 299 then Done (readBody parse status txt)
          else Fail (ApiError (refusal_message (readBody parse status txt) status) status
                 (refusal_data (readBody parse status txt)) False))"
  by (auto simp: request_def request_answer_def ok_status_def Let_def split: fetched.splits)

text \<open>An upload rejects with an error that counts as cancelled exactly when it was cancelled:
  before it was sent, or by the abort event; and then the status is 0.\<close>

theorem upload_cancelled:
  "(\<exists>e. snd (feed [ev] (upload decode parse aborted p ft opts jar)) = Fail e \<and> isCancelled e \<and> has_status e 0)
     \<longleftrightarrow> aborted \<or> ev = XhrAbort"
  by (auto simp: upload_def upload_event_def cancelled_error_def isCancelled_def Let_def split: xhr_event.splits)

end
