(* ===== verification/Uploads.thy ===== *)
theory Uploads
  imports Client
begin

text \<open>
  The upload store, web/src/stores/uploads.ts: the files on their way to the server.  \<open>track\<close>
  is a program over whatever store holds the uploads, which it reads with \<open>get\<close> and writes
  with \<open>put\<close>, because the library store sends its files through it.  Progress reports and
  cancelling happen while \<open>track\<close> waits, so they are operations of their own.
\<close>

section \<open>State and operations\<close>

record Upload =
  upId :: nat
  upName :: string
  upSent :: nat
  upTotal :: nat
  upError :: "string option"

record uploads =
  uploads :: "Upload list"
  controllers :: "nat set"
  abortedUploads :: "nat set"
  nextUpload :: nat

definition no_uploads :: uploads where
  "no_uploads = \<lparr>uploads = [], controllers = {}, abortedUploads = {}, nextUpload = 1\<rparr>"

definition update_upload :: "nat \<Rightarrow> (Upload \<Rightarrow> Upload) \<Rightarrow> uploads \<Rightarrow> uploads" where
  "update_upload i changes u = u\<lparr>uploads := map (\<lambda>entry. if upId entry = i then changes entry else entry) (uploads u)\<rparr>"

definition dismiss_upload :: "nat \<Rightarrow> uploads \<Rightarrow> uploads" where
  "dismiss_upload i u = u\<lparr>controllers := controllers u - {i}, uploads := filter (\<lambda>entry. upId entry \<noteq> i) (uploads u)\<rparr>"

definition progress :: "nat \<Rightarrow> nat \<Rightarrow> uploads \<Rightarrow> uploads" where
  "progress i n u = update_upload i (\<lambda>entry. entry\<lparr>upSent := n\<rparr>) u"

definition track_begin :: "string \<Rightarrow> nat \<Rightarrow> uploads \<Rightarrow> nat \<times> uploads" where
  "track_begin name bytes u =
     (let i = nextUpload u
      in (i, u\<lparr>nextUpload := Suc i, controllers := insert i (controllers u),
               uploads := uploads u @ [\<lparr>upId = i, upName = name, upSent = 0, upTotal = bytes, upError = None\<rparr>]\<rparr>))"

definition track_failed :: "nat \<Rightarrow> string \<Rightarrow> uploads \<Rightarrow> uploads" where
  "track_failed i msg u =
     update_upload i (\<lambda>entry. entry\<lparr>upError := Some msg\<rparr>) (u\<lparr>controllers := controllers u - {i}\<rparr>)"

text \<open>
  \<open>send\<close> is handed the id it reports progress under and is cancelled by.  A cancellation
  resolves to \<open>null\<close>, here \<open>None\<close>; any other failure is recorded and thrown on.
\<close>

definition track :: "('s \<Rightarrow> uploads) \<Rightarrow> (uploads \<Rightarrow> 's \<Rightarrow> 's) \<Rightarrow> ('e \<Rightarrow> thrown) \<Rightarrow> string \<Rightarrow> nat \<Rightarrow>
    (nat \<Rightarrow> ('s, 'q, 'a, 'e, 'r) async) \<Rightarrow> ('s, 'q, 'a, 'e, 'r option) async" where
  "track get put_uploads plain name bytes send = (\<lambda>s.
     case track_begin name bytes (get s) of (i, u) \<Rightarrow>
       try_catch
         (bind (send i) (\<lambda>answer s. (put_uploads (dismiss_upload i (get s)) s, Done (Some answer))))
         (\<lambda>e s. if isCancelled (plain e) then (put_uploads (dismiss_upload i (get s)) s, Done None)
                else (put_uploads (track_failed i (error_message (plain e)) (get s)) s, Fail e))
         (put_uploads u s))"

definition refuse :: "string \<Rightarrow> string \<Rightarrow> uploads \<Rightarrow> uploads" where
  "refuse name err u =
     u\<lparr>nextUpload := Suc (nextUpload u),
       uploads := uploads u @ [\<lparr>upId = nextUpload u, upName = name, upSent = 0, upTotal = 0, upError = Some err\<rparr>]\<rparr>"

definition cancel_upload :: "nat \<Rightarrow> uploads \<Rightarrow> uploads" where
  "cancel_upload i u = (if i \<in> controllers u then u\<lparr>abortedUploads := insert i (abortedUploads u)\<rparr> else u)"

section \<open>Invariant\<close>

text \<open>
  Ids are distinct and never used again; the uploads with a controller, which are the ones that
  can be cancelled, are among those that have no error.
\<close>

definition uploads_inv :: "uploads \<Rightarrow> bool" where
  "uploads_inv u \<longleftrightarrow>
     distinct (map upId (uploads u)) \<and> (\<forall>e\<in>set (uploads u). upId e < nextUpload u) \<and>
     controllers u \<subseteq> {..<nextUpload u} \<and>
     (\<forall>e\<in>set (uploads u). upId e \<in> controllers u \<longleftrightarrow> upError e = None)"

lemma uploads_inv_init: "uploads_inv no_uploads"
  by (simp add: uploads_inv_def no_uploads_def)

lemma update_ids: "(\<And>e. upId (f e) = upId e) \<Longrightarrow> map upId (uploads (update_upload i f u)) = map upId (uploads u)"
  by (simp add: update_upload_def)

lemma dismiss_upload_inv: "uploads_inv u \<Longrightarrow> uploads_inv (dismiss_upload i u)"
  by (auto simp: uploads_inv_def dismiss_upload_def distinct_map intro: inj_on_subset)

lemma progress_inv: "uploads_inv u \<Longrightarrow> uploads_inv (progress i n u)"
  by (auto simp: uploads_inv_def progress_def update_upload_def comp_def if_distrib cong: if_cong)

lemma track_begin_inv: "uploads_inv u \<Longrightarrow> uploads_inv (snd (track_begin name bytes u))"
  by (fastforce simp: uploads_inv_def track_begin_def Let_def)

lemma track_failed_inv: "uploads_inv u \<Longrightarrow> uploads_inv (track_failed i msg u)"
  by (auto simp: uploads_inv_def track_failed_def update_upload_def comp_def if_distrib cong: if_cong)

lemma refuse_inv: "uploads_inv u \<Longrightarrow> uploads_inv (refuse name err u)"
  by (fastforce simp: uploads_inv_def refuse_def)

lemma cancel_upload_inv: "uploads_inv u \<Longrightarrow> uploads_inv (cancel_upload i u)"
  by (simp add: uploads_inv_def cancel_upload_def)

lemmas uploads_invs = dismiss_upload_inv progress_inv track_begin_inv track_failed_inv refuse_inv cancel_upload_inv

text \<open>\<open>track\<close> respects what its parts respect: used for every store that holds uploads.\<close>

lemma stretches_track:
  assumes R: "preorder_rel R"
    and begun: "\<And>s. R s (put_uploads (snd (track_begin name bytes (get s))) s)"
    and gone: "\<And>s i. R s (put_uploads (dismiss_upload i (get s)) s)"
    and failed: "\<And>s i m. R s (put_uploads (track_failed i m (get s)) s)"
    and send: "\<And>i. stretches R (send i)"
  shows "stretches R (track get put_uploads plain name bytes send)"
proof -
  define M where "M i = try_catch
         (bind (send i) (\<lambda>answer s. (put_uploads (dismiss_upload i (get s)) s, Done (Some answer))))
         (\<lambda>e s. if isCancelled (plain e) then (put_uploads (dismiss_upload i (get s)) s, Done None)
                else (put_uploads (track_failed i (error_message (plain e)) (get s)) s, Fail e))" for i
  have M: "stretches R (M i)" for i
    unfolding M_def using gone failed send
    by (intro stretches_catch [OF R] stretches_bind [OF R]) (auto simp: stretches_def)
  have eq: "track get put_uploads plain name bytes send s
      = M (nextUpload (get s)) (put_uploads (snd (track_begin name bytes (get s))) s)" for s
    by (simp add: track_def track_begin_def Let_def M_def)
  have "R s (fst (M i t)) \<and> stretchesO R (snd (M i t))" if "R s t" for s t i
    using M [of i] preorder_transD [OF R that] unfolding stretches_def by blast
  with begun show ?thesis unfolding stretches_def eq by blast
qed

section \<open>Properties\<close>

text \<open>How a tracked upload ends.  While it waits it is on the list with nothing sent and no
  error and can be cancelled.  Its answer takes it off the list; so does cancelling, which answers
  nothing; any other failure leaves it on the list with its message, no longer cancellable, and is
  thrown on.  The other uploads are untouched in every case.\<close>

theorem track_ends:
  fixes q :: "nat \<Rightarrow> 'q" and plain :: "'e \<Rightarrow> thrown" and name :: string and bytes :: nat and u :: uploads
  assumes "uploads_inv u"
  defines "run \<equiv> \<lambda>as. feed as (track id (\<lambda>x _. x) plain name bytes (\<lambda>i. await id id (q i) :: (uploads, 'q, 'e + 'p, 'e, 'p) async) u)"
  shows "fst (run []) = u\<lparr>nextUpload := Suc (nextUpload u), controllers := insert (nextUpload u) (controllers u),
           uploads := uploads u @ [\<lparr>upId = nextUpload u, upName = name, upSent = 0, upTotal = bytes, upError = None\<rparr>]\<rparr>
     \<and> run [Inr p] = (u\<lparr>nextUpload := Suc (nextUpload u)\<rparr>, Done (Some p))
     \<and> run [Inl e] =
         (if isCancelled (plain e) then (u\<lparr>nextUpload := Suc (nextUpload u)\<rparr>, Done None)
          else (u\<lparr>nextUpload := Suc (nextUpload u),
                  uploads := uploads u @ [\<lparr>upId = nextUpload u, upName = name, upSent = 0, upTotal = bytes,
                    upError = Some (error_message (plain e))\<rparr>]\<rparr>, Fail e))"
proof -
  have fresh: "filter (\<lambda>e. upId e \<noteq> nextUpload u) (uploads u) = uploads u"
    "map (\<lambda>e. if upId e = nextUpload u then f e else e) (uploads u) = uploads u" for f
    using assms(1) by (auto simp: uploads_inv_def filter_id_conv intro!: map_idI)
  have "nextUpload u \<notin> controllers u" using assms(1) by (auto simp: uploads_inv_def)
  with fresh show ?thesis
    by (simp add: run_def track_def track_begin_def await_def Let_def bind_eq try_catch_eq
      dismiss_upload_def track_failed_def update_upload_def)
qed

theorem track_ends_witness:
  "feed [Inl (ApiError ''Too large'' 413 None False)]
     (track id (\<lambda>x _. x) id ''a.pdf'' 7 (\<lambda>i. await id id (GET ''/up'' []) :: (uploads, call, thrown + nat, thrown, nat) async) no_uploads)
   = (no_uploads\<lparr>nextUpload := 2,
        uploads := [\<lparr>upId = 1, upName = ''a.pdf'', upSent = 0, upTotal = 7, upError = Some ''Too large''\<rparr>]\<rparr>,
      Fail (ApiError ''Too large'' 413 None False))"
  using track_ends [OF uploads_inv_init, where plain = id and name = "''a.pdf''" and bytes = 7
      and q = "\<lambda>_. GET ''/up'' []" and e = "ApiError ''Too large'' 413 None False" and p = "0::nat"]
  by (simp add: no_uploads_def isCancelled_def)

end
