(* ===== verification/Toasts.thy ===== *)
theory Toasts
  imports Async
begin

text \<open>
  The toast store, web/src/stores/toasts.ts: short messages that go by themselves unless the
  reader is at them.  A timer is the id in \<open>timers\<close>; that it runs out is the event
  \<open>Expire\<close>.  The closure a toast offers to run is a value of the type \<open>'act\<close>, which the
  store that shows the toast interprets.
\<close>

section \<open>State and operations\<close>

datatype hold = Pointer | Focus

record 'act toast =
  toastId :: nat
  toastMessage :: string
  toastAction :: "(string \<times> 'act) option"

record 'act toasts =
  shown :: "'act toast list"
  timers :: "nat set"
  holds :: "nat \<rightharpoonup> hold set"
  nextToast :: nat

definition MAX_TOASTS :: nat where
  "MAX_TOASTS = 3"

definition no_toasts :: "'act toasts" where
  "no_toasts = \<lparr>shown = [], timers = {}, holds = Map.empty, nextToast = 1\<rparr>"

definition dismiss :: "nat \<Rightarrow> 'act toasts \<Rightarrow> 'act toasts" where
  "dismiss i s = s\<lparr>timers := timers s - {i}, holds := (holds s)(i := None),
     shown := filter (\<lambda>t. toastId t \<noteq> i) (shown s)\<rparr>"

definition schedule :: "nat \<Rightarrow> 'act toasts \<Rightarrow> 'act toasts" where
  "schedule i s = s\<lparr>timers := insert i (timers s)\<rparr>"

text \<open>\<open>while (toasts.length > MAX_TOASTS) dismiss(toasts[0].id)\<close>.\<close>

function drop_oldest :: "'act toasts \<Rightarrow> 'act toasts" where
  "drop_oldest s =
     (if MAX_TOASTS < length (shown s) then drop_oldest (dismiss (toastId (hd (shown s))) s) else s)"
  by pat_completeness auto
termination
proof (relation "measure (\<lambda>s. length (shown s))")
  fix s :: "'act toasts"
  assume "MAX_TOASTS < length (shown s)"
  then obtain t ts where ts: "shown s = t # ts" by (cases "shown s") auto
  have "length (filter (\<lambda>u. toastId u \<noteq> toastId t) ts) \<le> length ts" by (rule length_filter_le)
  with ts show "(dismiss (toastId (hd (shown s))) s, s) \<in> measure (\<lambda>s. length (shown s))"
    by (simp add: dismiss_def less_Suc_eq_le del: length_filter_le)
qed simp

declare drop_oldest.simps [simp del]

definition show_toast :: "string \<Rightarrow> (string \<times> 'act) option \<Rightarrow> 'act toasts \<Rightarrow> 'act toasts \<times> nat" where
  "show_toast message action s =
     (let i = nextToast s;
          s1 = s\<lparr>nextToast := Suc i,
                 shown := shown s @ [\<lparr>toastId = i, toastMessage = message, toastAction = action\<rparr>]\<rparr>
      in (schedule i (drop_oldest s1), i))"

definition hold_toast :: "nat \<Rightarrow> hold \<Rightarrow> 'act toasts \<Rightarrow> 'act toasts" where
  "hold_toast i reason s =
     (let reasons = (case holds s i of None \<Rightarrow> {} | Some R \<Rightarrow> R)
      in s\<lparr>timers := timers s - {i}, holds := (holds s)(i \<mapsto> insert reason reasons)\<rparr>)"

definition release :: "nat \<Rightarrow> hold \<Rightarrow> 'act toasts \<Rightarrow> 'act toasts" where
  "release i reason s =
     (let s1 = s\<lparr>holds := (holds s)(i := map_option (\<lambda>R. R - {reason}) (holds s i))\<rparr>
      in if (case holds s1 i of None \<Rightarrow> True | Some R \<Rightarrow> R = {}) \<and> (\<exists>t\<in>set (shown s1). toastId t = i)
         then schedule i s1 else s1)"

text \<open>What the toast offered is handed back to be run, after the toast is gone.\<close>

definition act :: "nat \<Rightarrow> 'act toasts \<Rightarrow> 'act toasts \<times> 'act option" where
  "act i s =
     (dismiss i s,
      case List.find (\<lambda>t. toastId t = i) (shown s) of None \<Rightarrow> None | Some t \<Rightarrow> map_option snd (toastAction t))"

section \<open>The store as a state machine\<close>

datatype 'act toast_event =
    Show string "(string \<times> 'act) option"
  | Dismiss nat
  | Hold nat hold
  | Release nat hold
  | Act nat
  | Expire nat

text \<open>
  A toast is held only once it has been shown: the reader points at what is on the screen
  (or at one that is just leaving it).  A timer runs out only while it is armed.
\<close>

inductive toast_step :: "'act toasts \<Rightarrow> 'act toast_event \<Rightarrow> 'act toasts \<Rightarrow> bool" where
  displays: "toast_step s (Show m a) (fst (show_toast m a s))"
| dismisses: "toast_step s (Dismiss i) (dismiss i s)"
| holds_on: "i < nextToast s \<Longrightarrow> toast_step s (Hold i r) (hold_toast i r s)"
| releases: "toast_step s (Release i r) (release i r s)"
| acts: "toast_step s (Act i) (fst (act i s))"
| expires: "i \<in> timers s \<Longrightarrow> toast_step s (Expire i) (dismiss i s)"

inductive_cases toast_expireE: "toast_step s (Expire i) s'"

inductive toast_reach :: "'act toasts \<Rightarrow> bool" where
  toast_init: "toast_reach no_toasts"
| toast_next: "toast_reach s \<Longrightarrow> toast_step s e s' \<Longrightarrow> toast_reach s'"

section \<open>Invariant\<close>

definition ids :: "'act toasts \<Rightarrow> nat list" where
  "ids s = map toastId (shown s)"

definition reasons :: "'act toasts \<Rightarrow> nat \<Rightarrow> hold set" where
  "reasons s i = (case holds s i of None \<Rightarrow> {} | Some R \<Rightarrow> R)"

text \<open>
  Ids are fresh and distinct, at most three toasts are shown, only a shown toast has a timer,
  a toast has a timer exactly while nobody is at it, and only a toast once shown was held.
\<close>

definition toast_ids_ok :: "'act toasts \<Rightarrow> bool" where
  "toast_ids_ok s \<longleftrightarrow> distinct (ids s) \<and> (\<forall>i\<in>set (ids s). i < nextToast s) \<and> dom (holds s) \<subseteq> {..<nextToast s}"

definition toast_timers_ok :: "'act toasts \<Rightarrow> bool" where
  "toast_timers_ok s \<longleftrightarrow> timers s = {i \<in> set (ids s). reasons s i = {}}"

definition toast_inv :: "'act toasts \<Rightarrow> bool" where
  "toast_inv s \<longleftrightarrow> toast_ids_ok s \<and> toast_timers_ok s \<and> length (shown s) \<le> MAX_TOASTS"

lemmas toast_inv_defs = toast_inv_def toast_ids_ok_def toast_timers_ok_def ids_def reasons_def

lemma toast_inv_init: "toast_inv no_toasts"
  by (simp add: toast_inv_defs no_toasts_def)

lemma ids_dismiss: "ids (dismiss i s) = filter (\<lambda>j. j \<noteq> i) (ids s)"
  by (simp add: ids_def dismiss_def filter_map comp_def)

lemma reasons_dismiss: "reasons (dismiss i s) j = (if j = i then {} else reasons s j)"
  by (simp add: reasons_def dismiss_def)

lemma dismiss_fields [simp]:
  "nextToast (dismiss i s) = nextToast s" "timers (dismiss i s) = timers s - {i}"
  "holds (dismiss i s) = (holds s)(i := None)"
  by (simp_all add: dismiss_def)

lemma schedule_views [simp]:
  "ids (schedule i s) = ids s" "nextToast (schedule i s) = nextToast s" "shown (schedule i s) = shown s"
  "reasons (schedule i s) = reasons s" "timers (schedule i s) = insert i (timers s)"
  "holds (schedule i s) = holds s"
  by (simp_all add: schedule_def ids_def reasons_def fun_eq_iff)

lemma dismiss_ids_ok: "toast_ids_ok s \<Longrightarrow> toast_ids_ok (dismiss i s)"
  by (auto simp: toast_ids_ok_def ids_dismiss split: if_splits)

lemma dismiss_timers_ok: "toast_timers_ok s \<Longrightarrow> toast_timers_ok (dismiss i s)"
  by (auto simp: toast_timers_ok_def ids_dismiss reasons_dismiss)

lemma length_dismiss: "length (shown (dismiss i s)) \<le> length (shown s)"
  by (simp add: dismiss_def)

lemma dismiss_inv: "toast_inv s \<Longrightarrow> toast_inv (dismiss i s)"
  using length_dismiss [of i s]
  by (simp add: toast_inv_def dismiss_ids_ok dismiss_timers_ok)

text \<open>
  Making room while the newest toast, not yet scheduled, is at the end: the timers of the
  others stay right, and the newest is never the one to go.
\<close>

definition unscheduled :: "nat \<Rightarrow> 'act toasts \<Rightarrow> bool" where
  "unscheduled n s \<longleftrightarrow> shown s \<noteq> [] \<and> toastId (last (shown s)) = n \<and> reasons s n = {} \<and>
     timers s = {i \<in> set (ids s) - {n}. reasons s i = {}}"

lemma dismiss_hd_unscheduled:
  assumes "toast_ids_ok s" "unscheduled n s" "MAX_TOASTS < length (shown s)"
  shows "unscheduled n (dismiss (toastId (hd (shown s))) s)"
proof -
  obtain t ts where ts: "shown s = t # ts" "ts \<noteq> []"
    using assms(3) by (cases "shown s"; cases "tl (shown s)") (auto simp: MAX_TOASTS_def)
  have d: "toastId t \<noteq> toastId u" if "u \<in> set ts" for u
    using assms(1) ts(1) that by (auto simp: toast_ids_ok_def ids_def)
  then have f: "filter (\<lambda>u. toastId u \<noteq> toastId t) ts = ts" by (metis (mono_tags, lifting) filter_True)
  have n: "toastId (last ts) = n" "n \<noteq> toastId t"
    using assms(2) ts d [of "last ts"] by (auto simp: unscheduled_def)
  have sh: "shown (dismiss (toastId t) s) = ts" using ts(1) f by (simp add: dismiss_def)
  have ni: "toastId t \<notin> toastId ` set ts" using d by auto
  show ?thesis
    using assms(2) ni n ts
    by (auto simp: unscheduled_def sh reasons_dismiss ids_def)
qed

lemma drop_oldest_ok:
  "toast_ids_ok s \<Longrightarrow> unscheduled n s \<Longrightarrow>
   toast_ids_ok (drop_oldest s) \<and> unscheduled n (drop_oldest s) \<and> length (shown (drop_oldest s)) \<le> MAX_TOASTS
     \<and> nextToast (drop_oldest s) = nextToast s"
proof (induction s rule: drop_oldest.induct)
  case (1 s)
  show ?case
  proof (cases "MAX_TOASTS < length (shown s)")
    case True
    with 1 dismiss_hd_unscheduled dismiss_ids_ok show ?thesis
      by (auto simp: drop_oldest.simps [of s])
  qed (use 1 in \<open>simp add: drop_oldest.simps [of s]\<close>)
qed

lemma unscheduled_mem: "unscheduled n s \<Longrightarrow> n \<in> set (ids s)"
  by (auto simp: unscheduled_def ids_def)

lemma schedule_unscheduled:
  "toast_ids_ok s \<Longrightarrow> unscheduled n s \<Longrightarrow> length (shown s) \<le> MAX_TOASTS \<Longrightarrow> toast_inv (schedule n s)"
  using unscheduled_mem [of n s]
  by (auto simp: toast_inv_def toast_ids_ok_def toast_timers_ok_def unscheduled_def)

lemma show_inv:
  assumes "toast_inv s"
  shows "toast_inv (fst (show_toast m a s))"
proof -
  let ?n = "nextToast s"
  let ?s1 = "s\<lparr>nextToast := Suc ?n, shown := shown s @ [\<lparr>toastId = ?n, toastMessage = m, toastAction = a\<rparr>]\<rparr>"
  have ids_ok: "toast_ids_ok s" and timers_ok: "timers s = {i \<in> set (ids s). reasons s i = {}}"
    using assms by (simp_all add: toast_inv_def toast_timers_ok_def)
  have fresh: "?n \<notin> set (ids s)" using ids_ok by (auto simp: toast_ids_ok_def)
  have "holds s ?n = None" using ids_ok by (auto simp: toast_ids_ok_def)
  then have free: "reasons s ?n = {}" by (simp add: reasons_def)
  have s1: "ids ?s1 = ids s @ [?n]" "reasons ?s1 = reasons s" "timers ?s1 = timers s" "holds ?s1 = holds s"
    by (simp_all add: ids_def reasons_def fun_eq_iff)
  have "toast_ids_ok ?s1"
    unfolding toast_ids_ok_def s1 using ids_ok fresh
    by (auto simp: toast_ids_ok_def less_Suc_eq)
  moreover have "unscheduled ?n ?s1"
    unfolding unscheduled_def s1 using timers_ok fresh free by auto
  ultimately have d: "toast_ids_ok (drop_oldest ?s1)" "unscheduled ?n (drop_oldest ?s1)"
    "length (shown (drop_oldest ?s1)) \<le> MAX_TOASTS"
    using drop_oldest_ok [of ?s1 ?n] by blast+
  have res: "fst (show_toast m a s) = schedule ?n (drop_oldest ?s1)"
    by (simp add: show_toast_def Let_def)
  show ?thesis
    unfolding res by (rule schedule_unscheduled [OF d])
qed

lemma hold_views [simp]:
  "ids (hold_toast i r s) = ids s" "nextToast (hold_toast i r s) = nextToast s"
  "timers (hold_toast i r s) = timers s - {i}" "shown (hold_toast i r s) = shown s"
  "reasons (hold_toast i r s) j = (if j = i then insert r (reasons s i) else reasons s j)"
  "dom (holds (hold_toast i r s)) = insert i (dom (holds s))"
  by (simp_all add: hold_toast_def ids_def reasons_def Let_def split: option.splits)

lemma hold_inv: "toast_inv s \<Longrightarrow> i < nextToast s \<Longrightarrow> toast_inv (hold_toast i r s)"
  by (auto simp: toast_inv_def toast_ids_ok_def toast_timers_ok_def)

lemma release_views [simp]:
  "ids (release i r s) = ids s" "nextToast (release i r s) = nextToast s" "shown (release i r s) = shown s"
  "reasons (release i r s) j = (if j = i then reasons s i - {r} else reasons s j)"
  "timers (release i r s) = (if reasons s i - {r} = {} \<and> i \<in> set (ids s) then insert i (timers s) else timers s)"
  "dom (holds (release i r s)) = dom (holds s)"
  by (auto simp: release_def ids_def reasons_def schedule_def Let_def image_iff split: option.splits if_splits)

lemma release_inv: "toast_inv s \<Longrightarrow> toast_inv (release i r s)"
  by (auto simp: toast_inv_def toast_ids_ok_def toast_timers_ok_def)

lemma toast_step_inv: "toast_step s e s' \<Longrightarrow> toast_inv s \<Longrightarrow> toast_inv s'"
  by (induction rule: toast_step.induct)
     (simp_all add: show_inv dismiss_inv hold_inv release_inv act_def)

lemma toast_reach_inv: "toast_reach s \<Longrightarrow> toast_inv s"
  by (induction rule: toast_reach.induct) (auto simp: toast_inv_init toast_step_inv)

section \<open>Properties\<close>

text \<open>C16: Whatever is shown, pointed at, focused, left, dismissed, acted on or run out: at most
  three toasts are on the screen, their ids are distinct, and exactly the shown toasts nobody is
  at have a timer running.\<close>

theorem toasts_invariant:
  assumes "toast_reach s"
  shows "length (shown s) \<le> 3 \<and> distinct (map toastId (shown s)) \<and>
    timers s = {i. (\<exists>t\<in>set (shown s). toastId t = i) \<and> (case holds s i of None \<Rightarrow> {} | Some R \<Rightarrow> R) = {}}"
  using toast_reach_inv [OF assms] by (auto simp: toast_inv_defs MAX_TOASTS_def)

theorem toasts_invariant_witness:
  "(let s = hold_toast 1 Focus (fst (show_toast ''Saved'' (None :: (string \<times> nat) option) no_toasts))
    in timers s = {} \<and> shown s \<noteq> [] \<and> timers (release 1 Focus s) = {1})"
proof -
  let ?s0 = "no_toasts :: nat toasts"
  let ?s1 = "fst (show_toast ''Saved'' None ?s0)"
  let ?s2 = "hold_toast 1 Focus ?s1"
  have n: "nextToast ?s1 = 2" "shown ?s1 = [\<lparr>toastId = 1, toastMessage = ''Saved'', toastAction = None\<rparr>]" "holds ?s1 = Map.empty"
    by (simp_all add: show_toast_def no_toasts_def Let_def drop_oldest.simps MAX_TOASTS_def schedule_def)
  have r1: "toast_reach ?s1" by (rule toast_next [OF toast_init displays])
  have r2: "toast_reach ?s2" by (rule toast_next [OF r1 holds_on]) (simp add: n)
  have r3: "toast_reach (release 1 Focus ?s2)" by (rule toast_next [OF r2 releases])
  from toasts_invariant [OF r2] toasts_invariant [OF r3] show ?thesis
    unfolding Let_def by (auto simp: n hold_toast_def release_def schedule_def)
qed

text \<open>A toast never goes by itself while the pointer or the focus is on it: a timer that runs
  out belongs to a shown toast held by nothing, and takes away that toast alone.\<close>

theorem held_toast_stays:
  assumes "toast_reach s" "toast_step s (Expire i) s'"
  shows "i \<in> toastId ` set (shown s) \<and> (case holds s i of None \<Rightarrow> {} | Some R \<Rightarrow> R) = {} \<and>
    shown s' = filter (\<lambda>t. toastId t \<noteq> i) (shown s)"
  using toast_reach_inv [OF assms(1)] assms(2)
  by (auto elim!: toast_expireE simp: toast_inv_defs dismiss_def)

theorem held_toast_stays_witness:
  "shown (dismiss 1 (fst (show_toast ''Saved'' (None :: (string \<times> nat) option) no_toasts))) = []"
proof -
  let ?s1 = "fst (show_toast ''Saved'' (None :: (string \<times> nat) option) no_toasts)"
  have n: "shown ?s1 = [\<lparr>toastId = 1, toastMessage = ''Saved'', toastAction = None\<rparr>]" "timers ?s1 = {1}"
    by (simp_all add: show_toast_def no_toasts_def Let_def drop_oldest.simps MAX_TOASTS_def schedule_def)
  have r1: "toast_reach ?s1" by (rule toast_next [OF toast_init displays])
  have e: "toast_step ?s1 (Expire 1) (dismiss 1 ?s1)" by (rule expires) (simp add: n)
  from held_toast_stays [OF r1 e] show ?thesis by (simp add: n)
qed

end
