(* ===== verification/LibraryStore.thy ===== *)
theory LibraryStore
  imports Collections Attachments Uploads Toasts
begin

text \<open>
  The library store, web/src/stores/library.ts: its state and what is computed from it, the
  queries of the list, and the operations that read: libraries, collections, tags, the list
  itself with its pages, and one item's children.  The toasts and the uploads the store writes
  to are part of its state here, because its programs write them between their waits.

  The browser's parts are the record \<open>env\<close>, the first argument of what uses one.  Messages are
  keys of the message catalogue.
\<close>

section \<open>State\<close>

record env =
  localeCompare :: "string \<Rightarrow> string \<Rightarrow> int"
  encodeURIComponent :: "string \<Rightarrow> string"
  hasEventSource :: bool
  intl :: "string \<Rightarrow> nat \<times> nat \<Rightarrow> nat \<Rightarrow> string option"

datatype Scope = Top | All | Trash | Publications | Unfiled | Duplicates | RecentlyRead

record TagEntry =
  tag :: string
  tagType :: int
  tagItems :: nat

record TagColor =
  colorName :: string
  color :: string

text \<open>What the server says undoes a write, and what is read again when it was undone.\<close>

datatype UndoSnapshot =
    Inverse (undo_version: int) (undo_items: "json list")
  | MergeInverse (undo_version: int)

datatype after_undo = NothingMore | RefreshLibraries

record undo_action =
  undoLibrary :: int
  undoSnapshot :: UndoSnapshot
  afterUndo :: after_undo

record lib =
  libraries :: "LibrarySummary list"
  libraryId :: "int option"
  collections :: "CollectionNode list"
  tags :: "TagEntry list"
  tagColors :: "TagColor list"
  items :: "ItemEnvelope list"
  total_items :: nat
  duplicateGroups :: "string list list"
  totalGroups :: "nat option"
  listingVersion :: "int option"
  start :: nat
  scope :: Scope
  collectionKey :: "string option"
  selectedTags :: "string list"
  search :: string
  sort_field :: string
  ascending :: bool
  selection :: "string list"
  selected :: "ItemEnvelope option"
  kids :: "ItemEnvelope list"
  anchor :: "string option"
  loading :: bool
  failure :: "string option"
  itemsRequest :: "nat option"
  childrenRequest :: "nat option"
  nextController :: nat
  aborted :: "nat set"
  knownVersion :: int
  feedOf :: "int option"
  catchUpTimer :: "int option"
  viewerId :: "int option"
  toastsOf :: "undo_action toasts"
  uploadsOf :: uploads

definition initial :: lib where
  "initial = \<lparr>libraries = [], libraryId = None, collections = [], tags = [], tagColors = [], items = [],
     total_items = 0, duplicateGroups = [], totalGroups = None, listingVersion = None, start = 0,
     scope = Top, collectionKey = None, selectedTags = [], search = '''', sort_field = ''dateModified'',
     ascending = False, selection = [], selected = None, kids = [], anchor = None, loading = False,
     failure = None, itemsRequest = None, childrenRequest = None, nextController = 0, aborted = {},
     knownVersion = 0, feedOf = None, catchUpTimer = None, viewerId = None, toastsOf = no_toasts,
     uploadsOf = no_uploads\<rparr>"

section \<open>Requests and answers\<close>

text \<open>The payload of an answer: one field for each type a request of this store is made at.\<close>

record payload =
  pLibraries :: "LibrarySummary list"
  pCollections :: "CollectionEnvelope list"
  pCollection :: CollectionEnvelope
  pTags :: "TagEntry list"
  pColors :: "TagColor list option"
  pTag :: string
  pItemsChanged :: nat
  pItem :: ItemEnvelope
  pItems :: "ItemEnvelope list"
  pTotal :: nat
  pLibraryVersion :: "int option"
  pGroups :: "string list list option"
  pTotalGroups :: "nat option"
  pUndo :: "UndoSnapshot option"
  pDeleted :: nat

text \<open>What a program of this store throws: an error of a request, or the conflict of a save.\<close>

datatype lib_error = Plain thrown | EditConflict ItemEnvelope ItemChanges

type_synonym answer = "thrown + payload"
type_synonym 'r prog = "(lib, call, answer, lib_error, 'r) async"

definition req :: "(payload \<Rightarrow> 'r) \<Rightarrow> call \<Rightarrow> 'r prog" where
  "req pick q = await Plain pick q"

definition fails_with :: "lib_error \<Rightarrow> int \<Rightarrow> bool" where
  "fails_with e n = (case e of Plain t \<Rightarrow> has_status t n | EditConflict _ _ \<Rightarrow> False)"

definition plain_of :: "lib_error \<Rightarrow> thrown" where
  "plain_of e = (case e of Plain t \<Rightarrow> t
     | EditConflict _ _ \<Rightarrow> JsError ''The item was changed elsewhere while it was being edited'')"

definition lib_path :: "int \<Rightarrow> string \<Rightarrow> string" where
  "lib_path lid rest = ''/web/libraries/'' @ show_int lid @ rest"

section \<open>What is computed\<close>

definition library :: "lib \<Rightarrow> LibrarySummary option" where
  "library s = List.find (\<lambda>e. Some (libId e) = libraryId s) (libraries s)"

definition hasMore :: "lib \<Rightarrow> bool" where
  "hasMore s =
     (case (scope s, totalGroups s) of
        (Duplicates, Some n) \<Rightarrow> length (duplicateGroups s) < n
      | _ \<Rightarrow> length (items s) < total_items s)"

definition writable :: "lib \<Rightarrow> bool" where
  "writable s = (case library s of None \<Rightarrow> False | Some l \<Rightarrow> libWritable l)"

definition permission :: "lib \<Rightarrow> LibraryPermission" where
  "permission s = (case library s of None \<Rightarrow> Inherit | Some l \<Rightarrow> libPermission l)"

definition filesEditable :: "lib \<Rightarrow> bool" where
  "filesEditable s \<longleftrightarrow> writable s \<and> (case library s of None \<Rightarrow> False | Some l \<Rightarrow> libFilesEditable l)"

text \<open>Nobody has added an item without \<open>createdByUser\<close>: \<open>undefined === null\<close> is false.\<close>

definition changeable :: "lib \<Rightarrow> ItemEnvelope \<Rightarrow> bool" where
  "changeable s item =
     (if \<not> writable s then False
      else if permission s \<noteq> Own then True
      else (case createdByUser (meta item) of None \<Rightarrow> False | Some u \<Rightarrow> viewerId s = Some u))"

definition removable :: "lib \<Rightarrow> ItemEnvelope \<Rightarrow> bool" where
  "removable s item = (if permission s = Add then False else changeable s item)"

definition selectedItems :: "lib \<Rightarrow> ItemEnvelope list" where
  "selectedItems s = filter (\<lambda>e. itemKey e \<in> set (selection s)) (items s)"

definition selectionKeys :: "lib \<Rightarrow> string list" where
  "selectionKeys s = map itemKey (selectedItems s)"

definition selectionChangeable :: "lib \<Rightarrow> bool" where
  "selectionChangeable s \<longleftrightarrow> selectedItems s \<noteq> [] \<and> list_all (changeable s) (selectedItems s)"

definition selectionRemovable :: "lib \<Rightarrow> bool" where
  "selectionRemovable s \<longleftrightarrow> selectedItems s \<noteq> [] \<and> list_all (removable s) (selectedItems s)"

definition selectedCollection :: "lib \<Rightarrow> CollectionNode option" where
  "selectedCollection s =
     (let trail = pathTo (collections s) (collectionKey s) in if trail \<noteq> [] then Some (last trail) else None)"

definition collectionName :: "lib \<Rightarrow> string option" where
  "collectionName s = map_option (colName \<circ> entry) (selectedCollection s)"

text \<open>The open item's key; a key is never empty, so \<open>if (!key)\<close> is the case of no open item.\<close>

definition open_key :: "lib \<Rightarrow> string option" where
  "open_key s = (case selected s of None \<Rightarrow> None | Some i \<Rightarrow> if itemKey i = '''' then None else Some (itemKey i))"

definition is_open :: "string \<Rightarrow> lib \<Rightarrow> bool" where
  "is_open key s \<longleftrightarrow> (case selected s of None \<Rightarrow> False | Some i \<Rightarrow> itemKey i = key)"

section \<open>The query of the list\<close>

definition PAGE_SIZE :: nat where
  "PAGE_SIZE = 50"

definition RELATED_BATCH :: nat where
  "RELATED_BATCH = 100"

fun scope_name :: "Scope \<Rightarrow> string" where
  "scope_name Top = ''top''"
| "scope_name All = ''all''"
| "scope_name Trash = ''trash''"
| "scope_name Publications = ''publications''"
| "scope_name Unfiled = ''unfiled''"
| "scope_name Duplicates = ''duplicates''"
| "scope_name RecentlyRead = ''recentlyread''"

type_synonym params = "(string \<times> string) list"

text \<open>\<open>URLSearchParams.set\<close>: the first of the name takes the value, the others go.\<close>

definition set_param :: "string \<Rightarrow> string \<Rightarrow> params \<Rightarrow> params" where
  "set_param k v ps =
     (case find_index (\<lambda>p. fst p = k) ps of
        None \<Rightarrow> ps @ [(k, v)]
      | Some i \<Rightarrow> take i ps @ (k, v) # filter (\<lambda>p. fst p \<noteq> k) (drop (Suc i) ps))"

definition sort_params :: "lib \<Rightarrow> Scope \<Rightarrow> params" where
  "sort_params s sc = [(''scope'', scope_name sc), (''sort'', sort_field s),
     (''direction'', if ascending s then ''asc'' else ''desc'')]"

definition viewParams :: "lib \<Rightarrow> params" where
  "viewParams s =
     (let p0 = sort_params s (scope s);
          p1 = (case given (collectionKey s) of None \<Rightarrow> p0 | Some k \<Rightarrow> set_param ''collection'' k p0);
          p2 = (if trim (search s) \<noteq> '''' then set_param ''q'' (trim (search s)) p1 else p1)
      in p2 @ map (\<lambda>t. (''tag'', t)) (selectedTags s))"

definition itemsUrl :: "lib \<Rightarrow> params" where
  "itemsUrl s =
     (let p0 = viewParams s;
          p1 = (if scope s = Duplicates then set_param ''grouped'' ''true'' p0 else p0)
      in set_param ''start'' (show_nat (start s)) (set_param ''limit'' (show_nat PAGE_SIZE) p1))"

definition exportUrl :: "lib \<Rightarrow> string \<Rightarrow> string list option \<Rightarrow> string option \<Rightarrow> bool \<Rightarrow> params" where
  "exportUrl s format keys name whole =
     (let named = (case keys of None \<Rightarrow> False | Some ks \<Rightarrow> ks \<noteq> []);
          explicitGroupMembers = (scope s = Duplicates \<and> named);
          p0 = (if whole \<or> explicitGroupMembers then sort_params s (if whole then Top else All) else viewParams s);
          p1 = (if scope s = Duplicates \<and> \<not> whole \<and> \<not> named then set_param ''grouped'' ''true'' p0 else p0);
          p2 = set_param ''format'' format p1;
          p3 = (if named then set_param ''itemKey'' (join_with '','' (the keys)) p2 else p2)
      in (case given name of None \<Rightarrow> p3 | Some n \<Rightarrow> set_param ''name'' n p3))"

definition fileUrl :: "lib \<Rightarrow> string \<Rightarrow> bool \<Rightarrow> string" where
  "fileUrl s key download =
     ''/web/libraries/'' @ (case libraryId s of None \<Rightarrow> ''null'' | Some lid \<Rightarrow> show_int lid) @ ''/items/'' @ key
       @ ''/file'' @ (if download then ''?download=true'' else '''')"

section \<open>Steps on the state\<close>

definition seen :: "int option \<Rightarrow> lib \<Rightarrow> lib" where
  "seen version s = (case version of None \<Rightarrow> s | Some v \<Rightarrow> if v > knownVersion s then s\<lparr>knownVersion := v\<rparr> else s)"

text \<open>Every copy of the item the page holds: the open one, the first row and the first child of its key.\<close>

definition put :: "ItemEnvelope \<Rightarrow> lib \<Rightarrow> lib" where
  "put fresh s =
     (let s1 = seen (Some (itemVersion fresh)) s;
          s2 = (if is_open (itemKey fresh) s1 then s1\<lparr>selected := Some fresh\<rparr> else s1);
          s3 = s2\<lparr>items := put_first (\<lambda>e. itemKey e = itemKey fresh) fresh (items s2)\<rparr>
      in s3\<lparr>kids := put_first (\<lambda>e. itemKey e = itemKey fresh) fresh (kids s3)\<rparr>)"

definition say :: "string \<Rightarrow> (string \<times> undo_action) option \<Rightarrow> lib \<Rightarrow> lib" where
  "say message action s = s\<lparr>toastsOf := fst (show_toast message action (toastsOf s))\<rparr>"

section \<open>Reading\<close>

definition refreshLibraries :: "unit prog" where
  "refreshLibraries = bind (req pLibraries (GET ''/web/libraries'' []))
     (\<lambda>ls. modify (\<lambda>s. s\<lparr>libraries := ls\<rparr>))"

definition loadCollections :: "env \<Rightarrow> unit prog" where
  "loadCollections E = asks libraryId (\<lambda>lid. case lid of None \<Rightarrow> ret ()
     | Some lid \<Rightarrow> bind (req pCollections (GET (lib_path lid ''/collections'') []))
         (\<lambda>cs. modify (\<lambda>s. s\<lparr>collections := tree (localeCompare E) cs\<rparr>)))"

definition loadTags :: "unit prog" where
  "loadTags = asks libraryId (\<lambda>lid. case lid of None \<Rightarrow> ret ()
     | Some lid \<Rightarrow> bind (req (\<lambda>p. (pTags p, pColors p)) (GET (lib_path lid ''/tags'') []))
         (\<lambda>p. modify (\<lambda>s. s\<lparr>tags := fst p, tagColors := (case snd p of None \<Rightarrow> [] | Some cs \<Rightarrow> cs)\<rparr>)))"

definition findTags :: "string \<Rightarrow> TagEntry list prog" where
  "findTags txt = asks libraryId (\<lambda>lid. case lid of None \<Rightarrow> ret []
     | Some lid \<Rightarrow> if trim txt = '''' then ret []
         else req pTags (GET (lib_path lid ''/tags'') [(''q'', trim txt), (''limit'', ''50'')]))"

definition childrenOf :: "string \<Rightarrow> ItemEnvelope list prog" where
  "childrenOf key = asks libraryId (\<lambda>lid. case lid of None \<Rightarrow> ret []
     | Some lid \<Rightarrow> req pItems (GET (lib_path lid (''/items/'' @ key @ ''/children'')) []))"

definition reloadChildren :: "unit prog" where
  "reloadChildren = asks open_key (\<lambda>key. case key of None \<Rightarrow> ret ()
     | Some key \<Rightarrow> bind (childrenOf key)
         (\<lambda>fresh. modify (\<lambda>s. if is_open key s then s\<lparr>kids := fresh\<rparr> else s)))"

definition reloadSelected :: "unit prog" where
  "reloadSelected = asks (\<lambda>s. (open_key s, libraryId s)) (\<lambda>p. case p of (key, lid) \<Rightarrow>
     (case key of None \<Rightarrow> ret () | Some key \<Rightarrow>
       (case lid of None \<Rightarrow> ret () | Some lid \<Rightarrow>
          try_catch
            (bind (req pItem (GET (lib_path lid (''/items/'' @ key)) []))
               (\<lambda>fresh. modify (\<lambda>s. s\<lparr>selected := Some fresh,
                  items := put_first (\<lambda>e. itemKey e = key) fresh (items s)\<rparr>)))
            (\<lambda>_. ret ()))))"

subsection \<open>The list\<close>

text \<open>Aborting the request before, and a controller for the new one.\<close>

definition begin_items :: "lib \<Rightarrow> lib" where
  "begin_items s =
     s\<lparr>aborted := (case itemsRequest s of None \<Rightarrow> aborted s | Some c \<Rightarrow> insert c (aborted s)),
       itemsRequest := Some (nextController s), nextController := Suc (nextController s), loading := True\<rparr>"

definition take_page :: "bool \<Rightarrow> payload \<Rightarrow> lib \<Rightarrow> lib" where
  "take_page onto p s =
     (seen (pLibraryVersion p)
       (s\<lparr>items := (if onto then items s @ pItems p else pItems p),
          duplicateGroups := (let gs = (case pGroups p of None \<Rightarrow> [] | Some gs \<Rightarrow> gs)
                              in if onto then duplicateGroups s @ gs else gs),
          totalGroups := pTotalGroups p, listingVersion := pLibraryVersion p, total_items := pTotal p\<rparr>))
     \<lparr>failure := None\<rparr>"

definition end_items :: "nat \<Rightarrow> lib \<Rightarrow> lib" where
  "end_items c s = (if itemsRequest s = Some c then s\<lparr>itemsRequest := None, loading := False\<rparr> else s)"

text \<open>The body of \<open>loadItems\<close>; \<open>again\<close> is the \<open>refresh\<close> it calls when pages do not fit together.\<close>

definition loadItemsWith :: "bool \<Rightarrow> unit prog \<Rightarrow> unit prog" where
  "loadItemsWith onto again = asks libraryId (\<lambda>lid. case lid of None \<Rightarrow> ret ()
     | Some lid \<Rightarrow> asks nextController (\<lambda>c.
         seq (modify begin_items)
         (try_finally
           (try_catch
             (bind (asks itemsUrl (\<lambda>q. req (\<lambda>p. p) (GET (lib_path lid ''/items'') q)))
               (\<lambda>p. asks aborted (\<lambda>ab.
                  if c \<in> ab then ret ()
                  else asks listingVersion (\<lambda>v.
                    if onto \<and> pGroups p \<noteq> None \<and> pLibraryVersion p \<noteq> v then again
                    else modify (take_page onto p)))))
             (\<lambda>e. asks aborted (\<lambda>ab.
                if c \<in> ab then ret ()
                else modify (\<lambda>s. s\<lparr>failure := Some (error_message (plain_of e))\<rparr>))))
           (end_items c))))"

definition refresh :: "unit prog" where
  "refresh = seq (modify (\<lambda>s. s\<lparr>start := 0\<rparr>)) (loadItemsWith False (ret ()))"

definition loadItems :: "bool \<Rightarrow> unit prog" where
  "loadItems onto = loadItemsWith onto refresh"

definition loadMore :: "unit prog" where
  "loadMore = asks (\<lambda>s. \<not> hasMore s \<or> loading s) (\<lambda>stop.
     if stop then ret ()
     else seq (modify (\<lambda>s. s\<lparr>start := (if scope s = Duplicates \<and> totalGroups s \<noteq> None
                                       then length (duplicateGroups s) else length (items s))\<rparr>))
            (loadItems True))"

text \<open>Only a page that is appended can call \<open>refresh\<close>, so \<open>refresh\<close> is the recursion of the source.\<close>

lemma loadItemsWith_False: "loadItemsWith False m = loadItemsWith False n"
  unfolding loadItemsWith_def simp_thms if_False ..

lemma refresh_eq: "refresh = seq (modify (\<lambda>s. s\<lparr>start := 0\<rparr>)) (loadItems False)"
  unfolding refresh_def loadItems_def by (rule arg_cong [OF loadItemsWith_False])

subsection \<open>Libraries\<close>

definition forget_library :: "int \<Rightarrow> lib \<Rightarrow> lib" where
  "forget_library lid s =
     s\<lparr>libraryId := Some lid, items := [], total_items := 0, duplicateGroups := [], totalGroups := None,
       collections := [], tags := [], tagColors := [], collectionKey := None, selectedTags := [],
       scope := Top, search := '''', selection := [], anchor := None, selected := None, kids := [],
       start := 0, knownVersion := 0\<rparr>"

definition openLibrary :: "env \<Rightarrow> int \<Rightarrow> unit prog" where
  "openLibrary E lid = seq (modify (forget_library lid))
     (void (both (loadCollections E) (both loadTags (loadItems False))))"

definition loadLibraries :: "env \<Rightarrow> unit prog" where
  "loadLibraries E = seq refreshLibraries
     (asks (\<lambda>s. (libraries s, libraryId s)) (\<lambda>p. case p of (ls, lid) \<Rightarrow>
        if ls \<noteq> [] \<and> lid = None then openLibrary E (libId (hd ls)) else ret ()))"

end
