(* ===== verification/LibrarySelect.thy ===== *)
theory LibrarySelect
  imports LibraryStore
begin

text \<open>
  The operations of web/src/stores/library.ts that say what is looked at: the scope, the
  collection, the tags, the search and the order of the list, which all read it again from its
  first page, and the selection of rows with the item that is open for it.
\<close>

section \<open>The open item\<close>

definition begin_children :: "lib \<Rightarrow> lib" where
  "begin_children s =
     s\<lparr>aborted := (case childrenRequest s of None \<Rightarrow> aborted s | Some c \<Rightarrow> insert c (aborted s)),
       childrenRequest := Some (nextController s), nextController := Suc (nextController s)\<rparr>"

definition end_children :: "nat \<Rightarrow> lib \<Rightarrow> lib" where
  "end_children c s = (if childrenRequest s = Some c then s\<lparr>childrenRequest := None\<rparr> else s)"

definition openItem :: "ItemEnvelope option \<Rightarrow> unit prog" where
  "openItem item = seq (modify (\<lambda>s. s\<lparr>selected := item, kids := []\<rparr>))
     (case item of None \<Rightarrow> ret ()
      | Some i \<Rightarrow> asks libraryId (\<lambda>lid. case lid of None \<Rightarrow> ret ()
          | Some lid \<Rightarrow> asks nextController (\<lambda>c.
              seq (modify begin_children)
              (try_finally
                (try_catch
                  (bind (req pItems (GET (lib_path lid (''/items/'' @ itemKey i @ ''/children'')) []))
                     (\<lambda>is. modify (\<lambda>s. if is_open (itemKey i) s then s\<lparr>kids := is\<rparr> else s)))
                  (\<lambda>_. ret ()))
                (end_children c)))))"

section \<open>The selection\<close>

definition group_of :: "string \<Rightarrow> lib \<Rightarrow> string list option" where
  "group_of key s = List.find (\<lambda>keys. key \<in> set keys) (duplicateGroups s)"

definition inspectItem :: "ItemEnvelope option \<Rightarrow> unit prog" where
  "inspectItem item =
     seq (modify (\<lambda>s. s\<lparr>selection := (case item of None \<Rightarrow> [] | Some i \<Rightarrow> [itemKey i]),
                        anchor := map_option itemKey item\<rparr>))
         (openItem item)"

definition select :: "ItemEnvelope option \<Rightarrow> unit prog" where
  "select item =
     asks (\<lambda>s. case item of None \<Rightarrow> None
                | Some i \<Rightarrow> if scope s = Duplicates then group_of (itemKey i) s else None)
       (\<lambda>group. case group of
          None \<Rightarrow> inspectItem item
        | Some g \<Rightarrow> seq (modify (\<lambda>s. s\<lparr>selection := g, anchor := map_option itemKey item\<rparr>)) (openItem None))"

text \<open>Open the one row picked out, or close the pane when there is not one.\<close>

definition followSelection :: "unit prog" where
  "followSelection = asks (\<lambda>s. (selectionKeys s, items s, open_key s)) (\<lambda>p. case p of (keys, is, open_now) \<Rightarrow>
     if length keys \<noteq> 1 then openItem None
     else if open_now = Some (hd keys) then ret ()
     else openItem (List.find (\<lambda>e. itemKey e = hd keys) is))"

definition toggle_key :: "string \<Rightarrow> lib \<Rightarrow> lib" where
  "toggle_key key s = s\<lparr>selection := (if key \<in> set (selection s) then filter (\<lambda>k. k \<noteq> key) (selection s)
                                     else selection s @ [key]), anchor := Some key\<rparr>"

definition toggleSelected :: "ItemEnvelope \<Rightarrow> unit prog" where
  "toggleSelected item =
     asks (\<lambda>s. scope s = Duplicates
              \<and> (case group_of (itemKey item) s of None \<Rightarrow> False
                 | Some g \<Rightarrow> \<not> (\<exists>k\<in>set (selection s). k \<in> set g)))
       (\<lambda>whole_group. if whole_group then select (Some item)
          else seq (modify (toggle_key (itemKey item))) followSelection)"

definition extendSelection :: "ItemEnvelope \<Rightarrow> unit prog" where
  "extendSelection item =
     asks (\<lambda>s. (find_index (\<lambda>e. Some (itemKey e) = anchor s) (items s),
               find_index (\<lambda>e. itemKey e = itemKey item) (items s)))
       (\<lambda>p. case p of (from_row, to_row) \<Rightarrow>
          (case to_row of None \<Rightarrow> ret () | Some to_i \<Rightarrow>
             (case from_row of None \<Rightarrow> select (Some item) | Some from_i \<Rightarrow>
                seq (modify (\<lambda>s. s\<lparr>selection := map itemKey (slice (min from_i to_i) (max from_i to_i + 1) (items s))\<rparr>))
                  followSelection)))"

definition first_of :: "string list \<Rightarrow> lib \<Rightarrow> ItemEnvelope option" where
  "first_of g s = (case g of [] \<Rightarrow> None | k # _ \<Rightarrow> List.find (\<lambda>e. itemKey e = k) (items s))"

definition selectAll :: "unit prog" where
  "selectAll = asks id (\<lambda>s.
     if scope s = Duplicates \<and> duplicateGroups s \<noteq> []
     then select (first_of (case List.find (\<lambda>keys. \<exists>k\<in>set (selection s). k \<in> set keys) (duplicateGroups s) of
                              Some g \<Rightarrow> g | None \<Rightarrow> hd (duplicateGroups s)) s)
     else seq (modify (\<lambda>s. s\<lparr>selection := map itemKey (items s),
                           anchor := (case items s of [] \<Rightarrow> None | i # _ \<Rightarrow> Some (itemKey i))\<rparr>))
            followSelection)"

definition clearSelection :: "unit prog" where
  "clearSelection = seq (modify (\<lambda>s. s\<lparr>selection := [], anchor := None\<rparr>)) (openItem None)"

section \<open>What the list shows\<close>

definition selectScope :: "Scope \<Rightarrow> unit prog" where
  "selectScope next_scope = seq (modify (\<lambda>s. s\<lparr>scope := next_scope, collectionKey := None, selection := [],
     anchor := None, selected := None\<rparr>)) refresh"

definition selectCollection :: "string option \<Rightarrow> unit prog" where
  "selectCollection key = seq (modify (\<lambda>s. s\<lparr>collectionKey := key,
     scope := (if given key \<noteq> None then Top else scope s), selection := [], anchor := None, selected := None\<rparr>)) refresh"

definition toggleTag :: "string \<Rightarrow> unit prog" where
  "toggleTag t = seq (modify (\<lambda>s. s\<lparr>selectedTags := (if t \<in> set (selectedTags s)
     then filter (\<lambda>u. u \<noteq> t) (selectedTags s) else selectedTags s @ [t])\<rparr>)) refresh"

definition setSearch :: "string \<Rightarrow> unit prog" where
  "setSearch txt = seq (modify (\<lambda>s. s\<lparr>search := txt\<rparr>)) refresh"

definition sort_column :: "string \<Rightarrow> lib \<Rightarrow> lib" where
  "sort_column fld s = (if sort_field s = fld then s\<lparr>ascending := \<not> ascending s\<rparr>
     else s\<lparr>sort_field := fld, ascending := \<not> prefix ''date'' fld\<rparr>)"

definition sortBy :: "string \<Rightarrow> unit prog" where
  "sortBy fld = seq (modify (sort_column fld)) refresh"

end
