(* ===== verification/LibraryWrite.thy ===== *)
theory LibraryWrite
  imports LibrarySelect
begin

text \<open>
  The operations of web/src/stores/library.ts that write: collections, tags, where items are
  filed, the trash, merging, copying, publishing, one item's edit with its conflict, relations,
  new items and files; and the undo each of them offers in a toast.  The closure a toast
  carries is the value \<open>undo_action\<close>, and pressing it runs \<open>runUndo\<close>.
\<close>

definition changed_elsewhere :: thrown where
  "changed_elsewhere = ApiError ''Changed elsewhere while you were editing.'' 412 None False"

definition strs :: "string list \<Rightarrow> json" where
  "strs xs = JArr (map JStr xs)"

text \<open>\<open>const id = libraryId.value; if (id === null) return d\<close>.\<close>

definition in_library :: "'r \<Rightarrow> (int \<Rightarrow> 'r prog) \<Rightarrow> 'r prog" where
  "in_library d f = asks libraryId (\<lambda>lid. case lid of None \<Rightarrow> ret d | Some lid \<Rightarrow> f lid)"

definition when_in :: "int \<Rightarrow> unit prog \<Rightarrow> unit prog" where
  "when_in lid m = asks libraryId (\<lambda>now. if now = Some lid then m else ret ())"

section \<open>Collections\<close>

definition createCollection :: "env \<Rightarrow> string \<Rightarrow> string option \<Rightarrow> unit prog" where
  "createCollection E name parent = in_library () (\<lambda>lid.
     bind (req pCollection (send_call ''POST'' (lib_path lid ''/collections'')
             (Some (JObj ([(''name'', JStr name)]
                @ (case given parent of None \<Rightarrow> [] | Some p \<Rightarrow> [(''parentCollection'', JStr p)]))))))
       (\<lambda>created. seq (loadCollections E) (selectCollection (Some (colKey created)))))"

text \<open>The parent is left alone (\<open>None\<close>), the top (\<open>null\<close>) or a collection.\<close>

definition updateCollection :: "env \<Rightarrow> string \<Rightarrow> string option \<Rightarrow> string option option \<Rightarrow> unit prog" where
  "updateCollection E key name parent = in_library () (\<lambda>lid.
     seq (req (\<lambda>_. ()) (send_call ''PATCH'' (lib_path lid (''/collections/'' @ key))
           (Some (JObj (prop_json ''name'' JStr name
              @ prop_json ''parentCollection'' (\<lambda>p. case p of None \<Rightarrow> JNull | Some k \<Rightarrow> JStr k) parent)))))
       (loadCollections E))"

definition deleteCollection :: "env \<Rightarrow> string \<Rightarrow> unit prog" where
  "deleteCollection E key = in_library () (\<lambda>lid.
     seq (req (\<lambda>_. ()) (send_call ''DELETE'' (lib_path lid (''/collections/'' @ key)) None))
     (seq (loadCollections E)
       (asks collectionKey (\<lambda>now. if now = Some key then selectCollection None else ret ()))))"

section \<open>Tags\<close>

definition retag :: "string \<Rightarrow> string \<Rightarrow> lib \<Rightarrow> lib" where
  "retag old renamed s =
     (let kept = filter (\<lambda>t. t \<noteq> old) (selectedTags s)
      in s\<lparr>selectedTags := (if renamed \<in> set kept then kept else kept @ [renamed])\<rparr>)"

definition renameTag :: "env \<Rightarrow> string \<Rightarrow> string \<Rightarrow> nat prog" where
  "renameTag E old new_name = in_library 0 (\<lambda>lid.
     bind (req (\<lambda>p. (pTag p, pItemsChanged p))
            (send_call ''PATCH'' (lib_path lid (''/tags/'' @ encodeURIComponent E old)) (Some (JObj [(''tag'', JStr new_name)]))))
       (\<lambda>p. case p of (renamed, n) \<Rightarrow>
          asks (\<lambda>s. old \<in> set (selectedTags s)) (\<lambda>filtering.
            seq (modify (\<lambda>s. if filtering then retag old renamed s else s))
            (seq loadTags
            (seq (if filtering then refresh else reloadSelected)
              (ret n))))))"

section \<open>After a write\<close>

definition drop_gone_rows :: "lib \<Rightarrow> lib" where
  "drop_gone_rows s =
     (let keys = selectionKeys s
      in s\<lparr>selection := keys,
           anchor := (case anchor s of None \<Rightarrow> if '''' \<in> set keys then anchor s else None
                      | Some a \<Rightarrow> if a \<in> set keys then Some a else None)\<rparr>)"

definition afterItemWrite :: "env \<Rightarrow> unit prog" where
  "afterItemWrite E =
     seq (both refresh (loadCollections E))
     (seq (modify drop_gone_rows)
       (asks (\<lambda>s. (open_key s, items s)) (\<lambda>p. case p of (key, is) \<Rightarrow>
          (case key of None \<Rightarrow> ret ()
           | Some key \<Rightarrow> if \<exists>e\<in>set is. itemKey e = key then reloadSelected
                        else modify (\<lambda>s. s\<lparr>selected := None, kids := []\<rparr>)))))"

section \<open>Undo\<close>

definition offerUndo :: "int \<Rightarrow> UndoSnapshot option \<Rightarrow> string \<Rightarrow> after_undo \<Rightarrow> lib \<Rightarrow> lib" where
  "offerUndo lid snapshot message after s =
     (case snapshot of
        None \<Rightarrow> s
      | Some u \<Rightarrow>
          if (case u of Inverse _ is \<Rightarrow> is = [] | MergeInverse _ \<Rightarrow> False) then s
          else say message (Some (''Undo'', \<lparr>undoLibrary = lid, undoSnapshot = u, afterUndo = after\<rparr>)) s)"

definition undo_call :: "int \<Rightarrow> UndoSnapshot \<Rightarrow> call" where
  "undo_call lid u =
     \<lparr>verb = ''POST'',
      path = lib_path lid (''/items/'' @ (case u of MergeInverse _ \<Rightarrow> ''merge/undo'' | Inverse _ _ \<Rightarrow> ''undo'')),
      query = [],
      body = (case u of MergeInverse _ \<Rightarrow> None | Inverse _ is \<Rightarrow> Some (JObj [(''items'', JArr is)])),
      headers = [(''If-Unmodified-Since-Version'', show_int (undo_version u))]\<rparr>"

definition runUndo :: "env \<Rightarrow> undo_action \<Rightarrow> unit prog" where
  "runUndo E a =
     bind (try_catch
            (seq (req (\<lambda>_. ()) (undo_call (undoLibrary a) (undoSnapshot a))) (ret True))
            (\<lambda>e. seq (modify (say (if fails_with e 412
                                   then ''Undo is no longer available because the library changed.''
                                   else ''Could not undo the change.'') None))
                   (ret False)))
       (\<lambda>ok. if \<not> ok then ret ()
          else seq (modify (say ''Change undone.'' None))
            (asks libraryId (\<lambda>now.
               void (both
                 (if now = Some (undoLibrary a)
                  then void (both (settled (afterItemWrite E)) (settled reloadChildren)) else ret ())
                 (case afterUndo a of NothingMore \<Rightarrow> ret () | RefreshLibraries \<Rightarrow> settled refreshLibraries)))))"

text \<open>Pressing the button of a toast: \<open>act\<close> of the toast store, then what it offered.\<close>

definition actOnToast :: "env \<Rightarrow> nat \<Rightarrow> unit prog" where
  "actOnToast E i = asks (\<lambda>s. snd (act i (toastsOf s))) (\<lambda>a.
     seq (modify (\<lambda>s. s\<lparr>toastsOf := fst (act i (toastsOf s))\<rparr>))
       (case a of None \<Rightarrow> ret () | Some a \<Rightarrow> runUndo E a))"

section \<open>Filing, the trash, deleting\<close>

definition patch_items :: "int \<Rightarrow> object \<Rightarrow> call" where
  "patch_items lid b = send_call ''PATCH'' (lib_path lid ''/items'') (Some (JObj b))"

definition list_prop :: "string \<Rightarrow> string list option \<Rightarrow> object" where
  "list_prop name xs = (case xs of None \<Rightarrow> [] | Some xs \<Rightarrow> if xs = [] then [] else [(name, strs xs)])"

definition fileItems :: "env \<Rightarrow> string list \<Rightarrow> string list option \<Rightarrow> string list option \<Rightarrow> unit prog" where
  "fileItems E keys add remove = in_library () (\<lambda>lid.
     if keys = [] then ret ()
     else (let b = [(''items'', strs keys)] @ list_prop ''addCollections'' add @ list_prop ''removeCollections'' remove
           in if length b = 1 then ret ()
              else bind (req pUndo (patch_items lid b))
                (\<lambda>u. seq (modify (offerUndo lid u ''Items filed.'' NothingMore))
                  (when_in lid (settled (afterItemWrite E))))))"

definition trashItems :: "env \<Rightarrow> string list \<Rightarrow> bool \<Rightarrow> unit prog" where
  "trashItems E keys deleted = in_library () (\<lambda>lid.
     if keys = [] then ret ()
     else bind (req pUndo (patch_items lid [(''items'', strs keys), (''deleted'', JBool deleted)]))
       (\<lambda>u. seq (modify (offerUndo lid u (if deleted then ''Items moved to trash.'' else ''Items restored.'') NothingMore))
         (when_in lid (settled (afterItemWrite E)))))"

definition deleteItems :: "env \<Rightarrow> string list \<Rightarrow> unit prog" where
  "deleteItems E keys = in_library () (\<lambda>lid.
     if keys = [] then ret ()
     else seq (req (\<lambda>_. ()) ((send_call ''DELETE'' (lib_path lid ''/items'') None)
                 \<lparr>query := [(''itemKey'', join_with '','' keys)]\<rparr>))
       (afterItemWrite E))"

definition emptyTrash :: "env \<Rightarrow> nat prog" where
  "emptyTrash E = in_library 0 (\<lambda>lid.
     bind (req pDeleted (send_call ''DELETE'' (lib_path lid ''/trash'') None))
       (\<lambda>n. seq (afterItemWrite E) (ret n)))"

section \<open>Merging\<close>

record MergeSnapshot =
  snapLibrary :: int
  snapVersion :: int
  snapItems :: "ItemEnvelope list"

definition safe_integer :: "int \<Rightarrow> bool" where
  "safe_integer n \<longleftrightarrow> \<bar>n\<bar> \<le> 9007199254740991"

text \<open>The loop over the batches: the version of the pages so far, and the items by key.\<close>

fun read_batches :: "int \<Rightarrow> string list list \<Rightarrow> int option \<Rightarrow> (string \<times> ItemEnvelope) list \<Rightarrow>
    (int option \<times> (string \<times> ItemEnvelope) list) prog" where
  "read_batches lid [] version found = ret (version, found)"
| "read_batches lid (batch # rest) version found =
     bind (req (\<lambda>p. (pItems p, pLibraryVersion p))
            (GET (lib_path lid ''/items'')
              [(''scope'', ''all''), (''itemKey'', join_with '','' batch), (''limit'', ''100'')]))
       (\<lambda>page. case page of (is, v) \<Rightarrow> asks libraryId (\<lambda>now.
          if now \<noteq> Some lid \<or> (case v of None \<Rightarrow> True | Some n \<Rightarrow> \<not> safe_integer n) \<or> (version \<noteq> None \<and> version \<noteq> v)
          then throw (Plain changed_elsewhere)
          else read_batches lid rest v (foldl (\<lambda>m i. map_set (itemKey i) i m) found is)))"

definition prepareMerge :: "string list \<Rightarrow> MergeSnapshot prog" where
  "prepareMerge keys = asks libraryId (\<lambda>lid. case lid of
       None \<Rightarrow> throw (Plain (ApiError ''Choose at least two distinct items'' 400 None False))
     | Some lid \<Rightarrow>
         if length (uniq keys) \<noteq> length keys \<or> length keys < 2
         then throw (Plain (ApiError ''Choose at least two distinct items'' 400 None False))
         else bind (read_batches lid (batches RELATED_BATCH keys) None [])
           (\<lambda>r. case r of (version, found) \<Rightarrow>
              if \<exists>k\<in>set keys. map_of found k = None then throw (Plain changed_elsewhere)
              else ret \<lparr>snapLibrary = lid, snapVersion = the version,
                        snapItems = map (\<lambda>k. the (map_of found k)) keys\<rparr>))"

definition merge_call :: "env \<Rightarrow> MergeSnapshot \<Rightarrow> string \<Rightarrow> json \<Rightarrow> string \<Rightarrow> call" where
  "merge_call E snap master vals lang =
     \<lparr>verb = ''POST'', path = lib_path (snapLibrary snap) (''/items/merge?locale='' @ encodeURIComponent E lang), query = [],
      body = Some (JObj [(''master'', JStr master),
        (''others'', strs (map itemKey (filter (\<lambda>i. itemKey i \<noteq> master) (snapItems snap)))), (''fields'', vals)]),
      headers = [(''If-Unmodified-Since-Version'', show_int (snapVersion snap))]\<rparr>"

definition mergeItems :: "env \<Rightarrow> MergeSnapshot \<Rightarrow> string \<Rightarrow> json \<Rightarrow> string \<Rightarrow> unit prog" where
  "mergeItems E snap master vals lang = asks libraryId (\<lambda>now.
     if now \<noteq> Some (snapLibrary snap) then throw (Plain changed_elsewhere)
     else if \<not> (\<exists>i\<in>set (snapItems snap). itemKey i = master)
     then throw (Plain (ApiError ''The master must belong to the reviewed selection'' 400 None False))
     else bind (req (\<lambda>p. (pItems p, pUndo p)) (merge_call E snap master vals lang))
       (\<lambda>answer. seq (modify (offerUndo (snapLibrary snap) (snd answer) ''Items merged.'' NothingMore))
         (when_in (snapLibrary snap)
           (seq (modify (\<lambda>s. foldl (\<lambda>s i. seen (Some (itemVersion i)) s) s (fst answer)))
           (seq (asks (\<lambda>s. let keys = uniq (map itemKey (snapItems snap))
                           in length (selection s) = length keys \<and> set (selection s) \<subseteq> set keys)
                  (\<lambda>same. if same then clearSelection else ret ()))
             (void (both (settled (afterItemWrite E)) (settled loadTags))))))))"

end
