(* ===== verification/LibraryEdit.thy ===== *)
theory LibraryEdit
  imports LibraryWrite
begin

text \<open>
  The rest of web/src/stores/library.ts: one item's edit and the conflict it can end in, related
  items, new items, files going up, publishing and copying, and following the library's feed so
  that what others change reaches the page.
\<close>

section \<open>One item's edit\<close>

definition current_item :: "string \<Rightarrow> lib \<Rightarrow> ItemEnvelope option" where
  "current_item key s =
     (if is_open key s then selected s
      else case List.find (\<lambda>e. itemKey e = key) (items s) of
             Some i \<Rightarrow> Some i
           | None \<Rightarrow> List.find (\<lambda>e. itemKey e = key) (kids s))"

definition item_path :: "int \<Rightarrow> string \<Rightarrow> string" where
  "item_path lid key = lib_path lid (''/items/'' @ key)"

definition send_changes :: "int \<Rightarrow> string \<Rightarrow> ItemChanges \<Rightarrow> int option \<Rightarrow> ItemEnvelope prog" where
  "send_changes lid key ch version =
     bind (req pItem (send_call ''PATCH'' (item_path lid key) (Some (save_body ch version))))
       (\<lambda>answer. seq (modify (put answer)) (ret answer))"

type_synonym rebase = "(ItemEnvelope \<Rightarrow> ItemChanges option) option"

definition saveItem :: "string \<Rightarrow> ItemChanges \<Rightarrow> rebase \<Rightarrow> ItemEnvelope option prog" where
  "saveItem key changes rebase = in_library None (\<lambda>lid. asks (current_item key) (\<lambda>current.
     bind (try_catch
            (bind (send_changes lid key changes (map_option itemVersion current)) (\<lambda>i. ret (Some i)))
            (\<lambda>e. if \<not> fails_with e 412 then throw e else ret None))
       (\<lambda>answer. case answer of
          Some i \<Rightarrow> ret (Some i)
        | None \<Rightarrow>
            bind (req pItem (GET (item_path lid key) []))
              (\<lambda>fresh. seq (modify (put fresh))
                (case rebase of
                   Some f \<Rightarrow> (case f fresh of
                       Some again \<Rightarrow> bind (send_changes lid key again (Some (itemVersion fresh))) (\<lambda>i. ret (Some i))
                     | None \<Rightarrow> ret (Some fresh))
                 | None \<Rightarrow>
                     if (case current of None \<Rightarrow> False | Some c \<Rightarrow> untouched c fresh changes)
                     then bind (send_changes lid key changes (Some (itemVersion fresh))) (\<lambda>i. ret (Some i))
                     else throw (EditConflict fresh changes))))))"

section \<open>Related items\<close>

definition maybe_path :: "int option \<Rightarrow> string \<Rightarrow> string" where
  "maybe_path lid rest = (case lid of None \<Rightarrow> ''/web/libraries/null'' @ rest | Some n \<Rightarrow> lib_path n rest)"

fun related_pages :: "(string list \<times> Scope) list \<Rightarrow> ItemEnvelope list \<Rightarrow> ItemEnvelope list prog" where
  "related_pages [] found = ret found"
| "related_pages ((batch, sc) # rest) found = asks libraryId (\<lambda>now.
     bind (req pItems (GET (maybe_path now ''/items'')
            [(''scope'', scope_name sc), (''itemKey'', join_with '','' batch), (''limit'', show_nat RELATED_BATCH)]))
       (\<lambda>is. related_pages rest (found @ is)))"

definition relatedOf :: "ItemEnvelope \<Rightarrow> ItemEnvelope list prog" where
  "relatedOf item = in_library [] (\<lambda>_.
     let keys = relatedKeys item;
         scopes = (if truthy (get_prop (data item) ''deleted'') then [All, Trash] else [All])
     in if keys = [] then ret []
        else related_pages (concat (map (\<lambda>b. map (\<lambda>sc. (b, sc)) scopes) (batches RELATED_BATCH keys))) [])"

definition findItems :: "string \<Rightarrow> ItemEnvelope list prog" where
  "findItems txt = in_library [] (\<lambda>lid.
     if trim txt = '''' then ret []
     else req pItems (GET (lib_path lid ''/items'')
            [(''scope'', ''all''), (''q'', trim txt), (''sort'', ''title''), (''limit'', ''20'')]))"

definition relateItems :: "string \<Rightarrow> string list \<Rightarrow> unit prog" where
  "relateItems key others = in_library () (\<lambda>lid.
     if others = [] then ret ()
     else bind (req pItems (send_call ''POST'' (item_path lid (key @ ''/related'')) (Some (JObj [(''items'', strs others)]))))
       (\<lambda>is. modify (fold put is)))"

definition unrelateItems :: "string \<Rightarrow> string \<Rightarrow> unit prog" where
  "unrelateItems key other = in_library () (\<lambda>lid.
     bind (req pItems (send_call ''DELETE'' (item_path lid (key @ ''/related/'' @ other)) None))
       (\<lambda>is. modify (fold put is)))"

section \<open>New items and files\<close>

definition new_item_body :: "string \<Rightarrow> string option \<Rightarrow> (string \<times> string) option \<Rightarrow> string option \<Rightarrow> json" where
  "new_item_body itype parent link in_collection = JObj
     ([(''itemType'', JStr itype)]
      @ (case link of None \<Rightarrow> [] | Some (u, ttl) \<Rightarrow>
           [(''linkMode'', JStr ''linked_url''), (''url'', JStr u), (''title'', JStr ttl)])
      @ (case given parent of
           Some p \<Rightarrow> [(''parentItem'', JStr p)]
         | None \<Rightarrow> (case given in_collection of None \<Rightarrow> [] | Some c \<Rightarrow> [(''collections'', strs [c])])))"

definition createItem :: "env \<Rightarrow> string \<Rightarrow> string option \<Rightarrow> (string \<times> string) option \<Rightarrow> ItemEnvelope option prog" where
  "createItem E itype parent link = in_library None (\<lambda>lid. asks collectionKey (\<lambda>in_collection.
     bind (req pItem (send_call ''POST'' (lib_path lid ''/items'') (Some (new_item_body itype parent link in_collection))))
       (\<lambda>fresh. seq (both refresh (loadCollections E))
          (asks items (\<lambda>is. seq
             (select (Some (case List.find (\<lambda>e. itemKey e = itemKey fresh) is of Some i \<Rightarrow> i | None \<Rightarrow> fresh)))
             (ret (Some fresh)))))))"

record File =
  fileName :: string
  fileSize :: nat
  fileType :: string
  lastModified :: int

definition too_large :: "nat option \<Rightarrow> File \<Rightarrow> bool" where
  "too_large limit f = (case limit of None \<Rightarrow> False | Some n \<Rightarrow> n < fileSize f)"

text \<open>The message is the catalogue's, with \<open>{size}\<close> as the reader's own units.\<close>

definition too_large_message :: "env \<Rightarrow> nat option \<Rightarrow> string" where
  "too_large_message E limit = ''Larger than the '' @ formatBytes (intl E) (map_option int limit) @ '' this server accepts''"

definition track_file :: "File \<Rightarrow> 'r prog \<Rightarrow> 'r option prog" where
  "track_file f m = track uploadsOf (\<lambda>u s. s\<lparr>uploadsOf := u\<rparr>) plain_of (fileName f) (fileSize f) (\<lambda>_. m)"

definition refuse_file :: "env \<Rightarrow> nat option \<Rightarrow> File \<Rightarrow> lib \<Rightarrow> lib" where
  "refuse_file E limit f s = s\<lparr>uploadsOf := refuse (fileName f) (too_large_message E limit) (uploadsOf s)\<rparr>"

definition file_params :: "File \<Rightarrow> params" where
  "file_params f = [(''filename'', fileName f), (''mtime'', show_int (lastModified f))]"

definition upload_call :: "int \<Rightarrow> File \<Rightarrow> string option \<Rightarrow> string option \<Rightarrow> string option \<Rightarrow> call" where
  "upload_call lid f ttl parent in_collection =
     \<lparr>verb = ''POST'', path = lib_path lid ''/attachments'',
      query = file_params f
        @ (case given ttl of None \<Rightarrow> [] | Some t \<Rightarrow> [(''title'', t)])
        @ (case given parent of Some p \<Rightarrow> [(''parentItem'', p)]
           | None \<Rightarrow> (case given in_collection of None \<Rightarrow> [] | Some c \<Rightarrow> [(''collections'', c)])),
      body = None, headers = []\<rparr>"

fun upload_each :: "env \<Rightarrow> int \<Rightarrow> nat option \<Rightarrow> string option \<Rightarrow> string option \<Rightarrow> (File \<times> string option) list \<Rightarrow>
    ItemEnvelope list \<Rightarrow> ItemEnvelope list prog" where
  "upload_each E lid limit parent in_collection [] made = ret made"
| "upload_each E lid limit parent in_collection ((f, ttl) # rest) made =
     (if too_large limit f
      then seq (modify (refuse_file E limit f)) (upload_each E lid limit parent in_collection rest made)
      else bind (try_catch (track_file f (req pItem (upload_call lid f ttl parent in_collection))) (\<lambda>_. ret None))
        (\<lambda>answer. case answer of
           None \<Rightarrow> upload_each E lid limit parent in_collection rest made
         | Some i \<Rightarrow> seq (modify (seen (Some (itemVersion i))))
             (upload_each E lid limit parent in_collection rest (made @ [i]))))"

definition uploadFiles :: "env \<Rightarrow> File list \<Rightarrow> string option \<Rightarrow> string option \<Rightarrow> ItemEnvelope list prog" where
  "uploadFiles E files parent in_collection = in_library [] (\<lambda>lid.
     if files = [] then ret []
     else asks (\<lambda>s. map_option maxUploadBytes (library s)) (\<lambda>limit.
       bind (case given parent of
               None \<Rightarrow> ret None
             | Some p \<Rightarrow> asks (is_open p) (\<lambda>op. if op then asks kids (\<lambda>ks. ret (Some ks))
                          else bind (childrenOf p) (\<lambda>ks. ret (Some ks))))
         (\<lambda>siblings.
           bind (upload_each E lid limit parent in_collection
                  (zip files (attachmentTitles (map fileType files) siblings)) [])
             (\<lambda>made. seq
                (if made \<noteq> []
                 then when_in lid (seq (afterItemWrite E)
                   (case given parent of None \<Rightarrow> ret ()
                    | Some p \<Rightarrow> asks (is_open p) (\<lambda>op. if op then reloadChildren else ret ())))
                 else ret ())
                (ret made)))))"

definition replace_call :: "int \<Rightarrow> ItemEnvelope \<Rightarrow> File \<Rightarrow> call" where
  "replace_call lid item f =
     (let md5 = text_of (get_prop (data item) ''md5'')
      in \<lparr>verb = ''PUT'', path = item_path lid (itemKey item @ ''/file''), query = file_params f, body = None,
          headers = (if md5 \<noteq> '''' then [(''If-Match'', md5)] else [(''If-None-Match'', ''*'')])\<rparr>)"

definition replaceFile :: "env \<Rightarrow> ItemEnvelope \<Rightarrow> File \<Rightarrow> ItemEnvelope option prog" where
  "replaceFile E item f = in_library None (\<lambda>lid. asks (\<lambda>s. map_option maxUploadBytes (library s)) (\<lambda>limit.
     if too_large limit f then seq (modify (refuse_file E limit f)) (ret None)
     else try_catch
       (bind (track_file f
               (try_catch (req pItem (replace_call lid item f))
                 (\<lambda>e. if fails_with e 412
                      then bind (req pItem (GET (item_path lid (itemKey item)) []))
                        (\<lambda>now. seq (modify (put now))
                           (throw (Plain (JsError ''The file was replaced elsewhere first. This is the new one.''))))
                      else throw e)))
         (\<lambda>answer. seq (case answer of None \<Rightarrow> ret () | Some i \<Rightarrow> modify (put i)) (ret answer)))
       (\<lambda>_. ret None)))"

section \<open>Publishing and copying\<close>

record terms =
  includeFiles :: bool
  includeNotes :: bool
  license :: "string option"
  keepRights :: bool

definition publishItem :: "env \<Rightarrow> string \<Rightarrow> terms \<Rightarrow> unit prog" where
  "publishItem E key t = in_library () (\<lambda>lid.
     seq (req (\<lambda>_. ()) (send_call ''PUT'' (lib_path lid (''/publications/items/'' @ key))
           (Some (JObj [(''includeFiles'', JBool (includeFiles t)), (''includeNotes'', JBool (includeNotes t)),
              (''license'', case license t of None \<Rightarrow> JNull | Some l \<Rightarrow> JStr l), (''keepRights'', JBool (keepRights t))]))))
       (afterItemWrite E))"

definition unpublishItem :: "env \<Rightarrow> string \<Rightarrow> unit prog" where
  "unpublishItem E key = in_library () (\<lambda>lid.
     seq (req (\<lambda>_. ()) (send_call ''DELETE'' (lib_path lid (''/publications/items/'' @ key)) None))
       (afterItemWrite E))"

definition copyItems :: "env \<Rightarrow> string list \<Rightarrow> int \<Rightarrow> string option \<Rightarrow> unit prog" where
  "copyItems E keys target in_collection = in_library () (\<lambda>source.
     if keys = [] then ret ()
     else bind (req pUndo (send_call ''POST'' (lib_path source ''/items/copy'')
            (Some (JObj ([(''items'', strs keys), (''library'', JNum target)]
               @ (case given in_collection of None \<Rightarrow> [] | Some c \<Rightarrow> [(''collection'', JStr c)]))))))
       (\<lambda>u. seq (modify (\<lambda>s. case u of
                   Some (Inverse v is) \<Rightarrow> if is \<noteq> [] then offerUndo target u ''Copied'' RefreshLibraries s else say ''Copied'' None s
                 | _ \<Rightarrow> say ''Copied'' None s))
         (asks libraryId (\<lambda>now.
            void (both (settled refreshLibraries)
              (if now = Some target then void (both (settled (afterItemWrite E)) (settled reloadChildren)) else ret ()))))))"

section \<open>Following the library\<close>

definition unfollow :: "lib \<Rightarrow> lib" where
  "unfollow s = s\<lparr>catchUpTimer := None, feedOf := None\<rparr>"

definition follow :: "env \<Rightarrow> lib \<Rightarrow> lib" where
  "follow E s =
     (let s1 = unfollow s
      in if libraryId s1 = None \<or> \<not> hasEventSource E then s1 else s1\<lparr>feedOf := libraryId s1\<rparr>)"

text \<open>A version announced on the open feed: later than what is known, it (re)starts the timer.\<close>

definition version_event :: "int \<Rightarrow> lib \<Rightarrow> lib" where
  "version_event v s =
     (case feedOf s of
        None \<Rightarrow> s
      | Some lid \<Rightarrow> if libraryId s \<noteq> Some lid \<or> \<not> v > knownVersion s then s else s\<lparr>catchUpTimer := Some v\<rparr>)"

definition catchUpSelected :: "unit prog" where
  "catchUpSelected = asks (\<lambda>s. (open_key s, libraryId s)) (\<lambda>p. case p of (key, lid) \<Rightarrow>
     (case key of None \<Rightarrow> ret () | Some key \<Rightarrow>
       (case lid of None \<Rightarrow> ret () | Some lid \<Rightarrow>
          try_catch
            (bind (both (req pItem (GET (item_path lid key) [])) (req pItems (GET (item_path lid (key @ ''/children'')) [])))
               (\<lambda>r. modify (\<lambda>s. if is_open key s then (put (fst r) s)\<lparr>kids := snd r\<rparr> else s)))
            (\<lambda>e. modify (\<lambda>s. if fails_with e 404 \<and> is_open key s then s\<lparr>selected := None, kids := []\<rparr> else s)))))"

text \<open>The pages of as many rows as are shown; a short page is the last.\<close>

function catch_up_pages :: "int \<Rightarrow> nat \<Rightarrow> nat \<Rightarrow> ItemEnvelope list \<Rightarrow> nat \<Rightarrow> (ItemEnvelope list \<times> nat) prog" where
  "catch_up_pages lid wanted at rows n_all =
     (if at < wanted
      then asks viewParams (\<lambda>ps.
        bind (req (\<lambda>p. (pItems p, pTotal p)) (GET (lib_path lid ''/items'')
               (set_param ''start'' (show_nat at) (set_param ''limit'' (show_nat (min RELATED_BATCH (wanted - at))) ps))))
          (\<lambda>r. if length (fst r) < RELATED_BATCH then ret (rows @ fst r, snd r)
               else catch_up_pages lid wanted (at + RELATED_BATCH) (rows @ fst r) (snd r)))
      else ret (rows, n_all))"
  by pat_completeness auto
termination
  by (relation "measure (\<lambda>(lid, wanted, at, rows, n_all). wanted - at)") (auto simp: RELATED_BATCH_def)

declare catch_up_pages.simps [simp del]

definition take_rows :: "int \<Rightarrow> ItemEnvelope list \<Rightarrow> nat \<Rightarrow> lib \<Rightarrow> lib" where
  "take_rows version rows n_all s =
     (let s1 = (seen (Some version) s)\<lparr>items := rows, total_items := n_all, start := length rows - PAGE_SIZE\<rparr>
      in s1\<lparr>selection := selectionKeys s1\<rparr>)"

definition catchUp :: "env \<Rightarrow> int \<Rightarrow> unit prog" where
  "catchUp E version = in_library () (\<lambda>lid. asks (\<lambda>s. (viewParams s, max (length (items s)) PAGE_SIZE, total_items s))
     (\<lambda>p. case p of (view, wanted, n_all) \<Rightarrow>
        try_catch
          (bind (catch_up_pages lid wanted 0 [] n_all)
             (\<lambda>r. asks (\<lambda>s. libraryId s \<noteq> Some lid \<or> viewParams s \<noteq> view) (\<lambda>moved_on.
                if moved_on then ret ()
                else seq (modify (take_rows version (fst r) (snd r)))
                  (void (both (loadCollections E) (both loadTags catchUpSelected))))))
          (\<lambda>_. ret ())))"

text \<open>The timer, and what it runs.\<close>

definition catchUpDue :: "env \<Rightarrow> unit prog" where
  "catchUpDue E = asks catchUpTimer (\<lambda>t. case t of None \<Rightarrow> ret ()
     | Some v \<Rightarrow> seq (modify (\<lambda>s. s\<lparr>catchUpTimer := None\<rparr>))
         (asks knownVersion (\<lambda>k. if v > k then catchUp E v else ret ())))"

definition reset :: "lib \<Rightarrow> lib" where
  "reset s = (unfollow s)\<lparr>knownVersion := 0, libraries := [], libraryId := None, collections := [], tags := [],
     tagColors := [], items := [], selection := [], anchor := None, selected := None, kids := [],
     total_items := 0, start := 0, failure := None\<rparr>"

end
