(* ===== verification/LibrarySteps.thy ===== *)
theory LibrarySteps
  imports LibraryEdit
begin

text \<open>
  What every program of the library store does to the store between two waits.  The store's
  control state (\<open>ctl\<close>) is what its parts agree on: the two requests in flight and their
  controllers, the scope with the collection, the toasts and the uploads.  The locale
  \<open>library_steps\<close> states the contract of a relation between stores that every single write of
  the code respects; inside it, once, every program is shown to respect it.  It is interpreted
  with the store's invariant and with the growth of the aborted controllers.
\<close>

section \<open>Control state\<close>

definition ctl where
  "ctl (s :: lib) = ((itemsRequest s, childrenRequest s, loading s, aborted s, nextController s),
     (scope s, collectionKey s), toastsOf s, uploadsOf s)"

definition rescope :: "Scope \<Rightarrow> string option \<Rightarrow> lib \<Rightarrow> lib" where
  "rescope sc k s = s\<lparr>scope := sc, collectionKey := k\<rparr>"

lemma ctl_seen [simp]: "ctl (seen v s) = ctl s"
  by (simp add: seen_def ctl_def split: option.splits)

lemma ctl_put [simp]: "ctl (put i s) = ctl s"
  using ctl_seen [of "Some (itemVersion i)" s] by (auto simp: put_def ctl_def Let_def)

lemma ctl_fold_put [simp]: "ctl (fold put is s) = ctl s"
  by (induction "is" arbitrary: s) simp_all

lemma ctl_foldl_seen [simp]: "ctl (foldl (\<lambda>s i. seen (Some (itemVersion i)) s) s is) = ctl s"
  by (induction "is" arbitrary: s) simp_all

lemma ctl_take_page [simp]: "ctl (take_page onto p s) = ctl s"
proof -
  have "ctl (t\<lparr>failure := x\<rparr>) = ctl t" for t x by (simp add: ctl_def)
  moreover have "ctl (s\<lparr>items := a, duplicateGroups := b, totalGroups := c, listingVersion := d, total_items := e\<rparr>) = ctl s"
    for a b c d e by (simp add: ctl_def)
  ultimately show ?thesis by (simp add: take_page_def)
qed

lemma ctl_take_rows [simp]: "ctl (take_rows v rows n s) = ctl s"
proof -
  have "ctl (t\<lparr>items := a, total_items := b, start := c\<rparr>) = ctl t" "ctl (t\<lparr>selection := x\<rparr>) = ctl t" for t x a b c
    by (simp_all add: ctl_def)
  then show ?thesis by (simp add: take_rows_def Let_def)
qed

lemma ctl_drop_gone_rows [simp]: "ctl (drop_gone_rows s) = ctl s"
  by (simp add: drop_gone_rows_def ctl_def Let_def)

lemma ctl_fields [simp]:
  "ctl (s\<lparr>kids := a1\<rparr>) = ctl s" "ctl (s\<lparr>libraries := a2\<rparr>) = ctl s" "ctl (s\<lparr>collections := a3\<rparr>) = ctl s"
  "ctl (s\<lparr>tags := a4, tagColors := a5\<rparr>) = ctl s" "ctl (s\<lparr>items := a6\<rparr>) = ctl s" "ctl (s\<lparr>start := a7\<rparr>) = ctl s"
  "ctl (s\<lparr>selection := a8\<rparr>) = ctl s" "ctl (s\<lparr>selected := a9\<rparr>) = ctl s" "ctl (s\<lparr>anchor := a10\<rparr>) = ctl s"
  "ctl (s\<lparr>failure := a11\<rparr>) = ctl s" "ctl (s\<lparr>search := a12\<rparr>) = ctl s" "ctl (s\<lparr>selectedTags := a13\<rparr>) = ctl s"
  "ctl (s\<lparr>selected := a9, items := a6\<rparr>) = ctl s" "ctl (s\<lparr>selected := a9, kids := a1\<rparr>) = ctl s"
  "ctl (s\<lparr>selection := a8, anchor := a10\<rparr>) = ctl s" "ctl (s\<lparr>catchUpTimer := a14\<rparr>) = ctl s"
  "ctl (s\<lparr>catchUpTimer := a14, feedOf := a15\<rparr>) = ctl s" "ctl (s\<lparr>viewerId := a16\<rparr>) = ctl s"
  by (simp_all add: ctl_def)

lemma ctl_toggle_key [simp]: "ctl (toggle_key k s) = ctl s"
  by (simp add: toggle_key_def ctl_def)

lemma ctl_sort_column [simp]: "ctl (sort_column f s) = ctl s"
  by (simp add: sort_column_def ctl_def)

lemma ctl_retag [simp]: "ctl (retag a b s) = ctl s"
  by (simp add: retag_def ctl_def Let_def)

section \<open>The contract\<close>

locale library_steps =
  fixes R :: "lib \<Rightarrow> lib \<Rightarrow> bool"
  assumes order: "preorder_rel R"
    and quiet: "ctl t = ctl s \<Longrightarrow> R s t"
    and begins: "R s (begin_items s)" "R s (begin_children s)"
    and ends: "R s (end_items c s)" "R s (end_children c s)"
    and scopes: "given k = None \<or> sc = Top \<Longrightarrow> R s (rescope sc k s)"
    and toasted: "(toast_inv (toastsOf s) \<Longrightarrow> toast_inv T) \<Longrightarrow> R s (s\<lparr>toastsOf := T\<rparr>)"
    and uploaded: "(uploads_inv (uploadsOf s) \<Longrightarrow> uploads_inv U) \<Longrightarrow> R s (s\<lparr>uploadsOf := U\<rparr>)"
begin

lemmas rules = stretches_ret [OF order] stretches_throw [OF order] stretches_await [OF order]
  stretches_bind [OF order] stretches_catch [OF order] stretches_finally [OF order] stretches_both [OF order]
  stretches_void [OF order] stretches_settled [OF order] stretches_seq [OF order] stretch_shape

lemma req_ok: "stretches R (req pick q)"
  by (simp add: req_def rules)

lemma quiet_modify: "(\<And>s. ctl (f s) = ctl s) \<Longrightarrow> stretches R (modify f)"
  by (rule stretches_modify) (rule quiet)

lemma say_step: "R s (say m a s)"
  unfolding say_def by (rule toasted) (rule show_inv)

lemma rescope_step:
  assumes "given k = None \<or> sc = Top" "ctl t = ctl (rescope sc k s)"
  shows "R s t"
  using preorder_transD [OF order scopes [OF assms(1)] quiet [OF assms(2)]] .

lemma begin_items_ok: "stretches R (modify begin_items)"
  by (rule stretches_modify) (rule begins)

lemma begin_children_ok: "stretches R (modify begin_children)"
  by (rule stretches_modify) (rule begins)

lemma say_ok: "stretches R (modify (say m a))"
  by (rule stretches_modify) (rule say_step)

lemma offerUndo_step: "R s (offerUndo lid u m a s)"
  by (auto simp: offerUndo_def say_step preorder_reflD [OF order] split: option.splits UndoSnapshot.splits)

lemma offerUndo_ok: "stretches R (modify (offerUndo lid u m a))"
  by (rule stretches_modify) (rule offerUndo_step)

lemma refuse_ok: "stretches R (modify (refuse_file E limit f))"
  unfolding refuse_file_def by (rule stretches_modify) (rule uploaded, rule refuse_inv)

lemma act_ok: "stretches R (modify (\<lambda>s. s\<lparr>toastsOf := fst (act i (toastsOf s))\<rparr>))"
  by (rule stretches_modify, rule toasted) (simp add: act_def dismiss_inv)

lemma forget_ok: "stretches R (modify (forget_library lid))"
  by (rule stretches_modify, rule rescope_step [of None Top])
     (simp_all add: given_def forget_library_def rescope_def ctl_def)

lemma track_file_ok: "stretches R m \<Longrightarrow> stretches R (track_file f m)"
  unfolding track_file_def
  by (rule stretches_track [OF order]; (rule uploaded)?)
     (simp_all add: track_begin_inv dismiss_upload_inv track_failed_inv)

lemmas control_steps = begin_items_ok begin_children_ok say_ok offerUndo_ok refuse_ok act_ok forget_ok

lemma loadItemsWith_ok: "stretches R again \<Longrightarrow> stretches R (loadItemsWith onto again)"
  unfolding loadItemsWith_def
  by (intro rules req_ok begin_items_ok ends) (assumption | rule quiet_modify, simp)+

section \<open>Reading and selecting\<close>

lemma refresh_ok: "stretches R refresh"
  unfolding refresh_def
  by (intro rules loadItemsWith_ok quiet_modify) simp_all

lemma loadItems_ok: "stretches R (loadItems onto)"
  unfolding loadItems_def by (intro loadItemsWith_ok refresh_ok)

lemma loadMore_ok: "stretches R loadMore"
  unfolding loadMore_def by (intro rules loadItems_ok quiet_modify) simp

lemma refreshLibraries_ok: "stretches R refreshLibraries"
  unfolding refreshLibraries_def by (intro rules req_ok quiet_modify) simp

lemma loadCollections_ok: "stretches R (loadCollections E)"
  unfolding loadCollections_def by (intro rules req_ok quiet_modify) simp

lemma loadTags_ok: "stretches R loadTags"
  unfolding loadTags_def by (intro rules req_ok quiet_modify) simp

lemma findTags_ok: "stretches R (findTags txt)"
  unfolding findTags_def by (intro rules req_ok)

lemma childrenOf_ok: "stretches R (childrenOf key)"
  unfolding childrenOf_def by (intro rules req_ok)

lemma reloadChildren_ok: "stretches R reloadChildren"
  unfolding reloadChildren_def by (intro rules childrenOf_ok quiet_modify) simp

lemma reloadSelected_ok: "stretches R reloadSelected"
  unfolding reloadSelected_def by (intro rules req_ok quiet_modify) simp

lemma openLibrary_ok: "stretches R (openLibrary E lid)"
  unfolding openLibrary_def by (intro rules loadCollections_ok loadTags_ok loadItems_ok forget_ok)

lemma loadLibraries_ok: "stretches R (loadLibraries E)"
  unfolding loadLibraries_def by (intro rules refreshLibraries_ok openLibrary_ok)

lemma openItem_ok: "stretches R (openItem item)"
  unfolding openItem_def by (intro rules req_ok begin_children_ok ends quiet_modify) simp_all

lemma inspectItem_ok: "stretches R (inspectItem item)"
  unfolding inspectItem_def by (intro rules openItem_ok quiet_modify) simp

lemma select_ok: "stretches R (select item)"
  unfolding select_def by (intro rules openItem_ok inspectItem_ok quiet_modify) simp

lemma followSelection_ok: "stretches R followSelection"
  unfolding followSelection_def by (intro rules openItem_ok)

lemma toggleSelected_ok: "stretches R (toggleSelected item)"
  unfolding toggleSelected_def by (intro rules select_ok followSelection_ok quiet_modify) simp

lemma extendSelection_ok: "stretches R (extendSelection item)"
  unfolding extendSelection_def by (intro rules select_ok followSelection_ok quiet_modify) simp

lemma selectAll_ok: "stretches R selectAll"
  unfolding selectAll_def by (intro rules select_ok followSelection_ok quiet_modify) simp

lemma clearSelection_ok: "stretches R clearSelection"
  unfolding clearSelection_def by (intro rules openItem_ok quiet_modify) simp

lemma selectScope_ok: "stretches R (selectScope sc)"
  unfolding selectScope_def
  by (intro rules refresh_ok stretches_modify rescope_step [of None sc]) (simp_all add: given_def rescope_def ctl_def)

lemma selectCollection_ok: "stretches R (selectCollection key)"
  unfolding selectCollection_def
proof (intro rules refresh_ok stretches_modify)
  show "R s (s\<lparr>collectionKey := key, scope := if given key \<noteq> None then Top else scope s, selection := [],
      anchor := None, selected := None\<rparr>)" for s
    by (rule rescope_step [of key "if given key \<noteq> None then Top else scope s"]) (simp_all add: rescope_def ctl_def)
qed

lemma toggleTag_ok: "stretches R (toggleTag t)"
  unfolding toggleTag_def by (intro rules refresh_ok quiet_modify) simp

lemma setSearch_ok: "stretches R (setSearch txt)"
  unfolding setSearch_def by (intro rules refresh_ok quiet_modify) simp

lemma sortBy_ok: "stretches R (sortBy fld)"
  unfolding sortBy_def by (intro rules refresh_ok quiet_modify) simp

lemmas reading = refresh_ok loadItems_ok loadMore_ok refreshLibraries_ok loadCollections_ok loadTags_ok findTags_ok
  childrenOf_ok reloadChildren_ok reloadSelected_ok openLibrary_ok loadLibraries_ok
lemmas selecting = openItem_ok inspectItem_ok select_ok followSelection_ok toggleSelected_ok extendSelection_ok
  selectAll_ok clearSelection_ok selectScope_ok selectCollection_ok toggleTag_ok setSearch_ok sortBy_ok

section \<open>Writing\<close>

lemma in_library_ok: "(\<And>lid. stretches R (f lid)) \<Longrightarrow> stretches R (in_library d f)"
  unfolding in_library_def by (intro rules)

lemma when_in_ok: "stretches R m \<Longrightarrow> stretches R (when_in lid m)"
  unfolding when_in_def by (intro rules)

lemmas wrules = in_library_ok when_in_ok req_ok rules

lemma createCollection_ok: "stretches R (createCollection E name parent)"
  unfolding createCollection_def by (intro wrules reading selecting)

lemma updateCollection_ok: "stretches R (updateCollection E key name parent)"
  unfolding updateCollection_def by (intro wrules reading)

lemma deleteCollection_ok: "stretches R (deleteCollection E key)"
  unfolding deleteCollection_def by (intro wrules reading selecting)

lemma renameTag_ok: "stretches R (renameTag E old new_name)"
  unfolding renameTag_def by (intro wrules reading quiet_modify) simp

lemma afterItemWrite_ok: "stretches R (afterItemWrite E)"
  unfolding afterItemWrite_def by (intro wrules reading quiet_modify) simp_all

lemma runUndo_ok: "stretches R (runUndo E a)"
proof -
  have "stretches R (case afterUndo a of NothingMore \<Rightarrow> ret () | RefreshLibraries \<Rightarrow> settled refreshLibraries)"
    by (cases "afterUndo a") (simp_all add: rules refreshLibraries_ok)
  then show ?thesis unfolding runUndo_def by (intro wrules reading afterItemWrite_ok say_ok)
qed

lemma actOnToast_ok: "stretches R (actOnToast E i)"
  unfolding actOnToast_def by (intro wrules runUndo_ok act_ok)

lemma fileItems_ok: "stretches R (fileItems E keys add remove)"
  unfolding fileItems_def by (intro wrules afterItemWrite_ok offerUndo_ok)

lemma trashItems_ok: "stretches R (trashItems E keys deleted)"
  unfolding trashItems_def by (intro wrules afterItemWrite_ok offerUndo_ok)

lemma deleteItems_ok: "stretches R (deleteItems E keys)"
  unfolding deleteItems_def by (intro wrules afterItemWrite_ok)

lemma emptyTrash_ok: "stretches R (emptyTrash E)"
  unfolding emptyTrash_def by (intro wrules afterItemWrite_ok)

lemma read_batches_ok: "stretches R (read_batches lid bs version found)"
proof (induction bs arbitrary: version found)
  case (Cons b bs)
  then show ?case unfolding read_batches.simps by (intro wrules Cons.IH)
qed (simp add: wrules)

lemma prepareMerge_ok: "stretches R (prepareMerge keys)"
  unfolding prepareMerge_def by (intro wrules read_batches_ok)

lemma mergeItems_ok: "stretches R (mergeItems E snap master vals lang)"
  unfolding mergeItems_def
  by (intro wrules afterItemWrite_ok offerUndo_ok reading selecting quiet_modify) simp

lemma send_changes_ok: "stretches R (send_changes lid key ch version)"
  unfolding send_changes_def by (intro wrules quiet_modify) simp

lemma saveItem_ok: "stretches R (saveItem key changes rebase)"
  unfolding saveItem_def by (intro wrules send_changes_ok quiet_modify) simp

lemma related_pages_ok: "stretches R (related_pages bs found)"
proof (induction bs arbitrary: found)
  case (Cons b bs)
  then show ?case by (cases b) (simp only: related_pages.simps, intro wrules Cons.IH)
qed (simp add: wrules)

lemma relatedOf_ok: "stretches R (relatedOf item)"
  unfolding relatedOf_def by (intro wrules related_pages_ok)

lemma findItems_ok: "stretches R (findItems txt)"
  unfolding findItems_def by (intro wrules)

lemma relateItems_ok: "stretches R (relateItems key others)"
  unfolding relateItems_def by (intro wrules quiet_modify) simp

lemma unrelateItems_ok: "stretches R (unrelateItems key other)"
  unfolding unrelateItems_def by (intro wrules quiet_modify) simp

lemma createItem_ok: "stretches R (createItem E itype parent link)"
  unfolding createItem_def by (intro wrules reading selecting)

lemma upload_each_ok: "stretches R (upload_each E lid limit parent col fs made)"
proof (induction fs arbitrary: made)
  case (Cons f fs)
  then show ?case
    by (cases f) (simp only: upload_each.simps, intro wrules Cons.IH track_file_ok refuse_ok quiet_modify, simp)
qed (simp add: wrules)

lemma uploadFiles_ok: "stretches R (uploadFiles E files parent col)"
  unfolding uploadFiles_def by (intro wrules upload_each_ok reading afterItemWrite_ok)

lemma replaceFile_ok: "stretches R (replaceFile E item f)"
  unfolding replaceFile_def by (intro wrules track_file_ok refuse_ok quiet_modify) simp_all

lemma publishItem_ok: "stretches R (publishItem E key t)"
  unfolding publishItem_def by (intro wrules afterItemWrite_ok)

lemma unpublishItem_ok: "stretches R (unpublishItem E key)"
  unfolding unpublishItem_def by (intro wrules afterItemWrite_ok)

lemma copy_said: "stretches R (modify (\<lambda>s. case u of
    Some (Inverse v is) \<Rightarrow> if is \<noteq> [] then offerUndo lid u m a s else say m None s | _ \<Rightarrow> say m None s))"
  by (rule stretches_modify) (simp add: say_step offerUndo_step split: option.splits UndoSnapshot.splits)

lemma copyItems_ok: "stretches R (copyItems E keys target col)"
  unfolding copyItems_def by (intro wrules copy_said reading afterItemWrite_ok)

lemma catchUpSelected_ok: "stretches R catchUpSelected"
  unfolding catchUpSelected_def by (intro wrules quiet_modify) simp_all

lemma catch_up_pages_ok: "stretches R (catch_up_pages lid wanted at rows n)"
proof (induction lid wanted at rows n rule: catch_up_pages.induct)
  case (1 lid wanted at rows n)
  show ?case
  proof (cases "at < wanted")
    case True
    with 1 show ?thesis by (subst catch_up_pages.simps) (simp only: if_True, intro wrules, simp)
  qed (subst catch_up_pages.simps, simp add: wrules)
qed

lemma catchUp_ok: "stretches R (catchUp E version)"
  unfolding catchUp_def
  by (intro wrules catch_up_pages_ok reading catchUpSelected_ok quiet_modify) simp

lemma catchUpDue_ok: "stretches R (catchUpDue E)"
  unfolding catchUpDue_def by (intro wrules catchUp_ok quiet_modify) simp

lemmas writing = createCollection_ok updateCollection_ok deleteCollection_ok renameTag_ok actOnToast_ok fileItems_ok
  trashItems_ok deleteItems_ok emptyTrash_ok prepareMerge_ok mergeItems_ok saveItem_ok relatedOf_ok findItems_ok
  relateItems_ok unrelateItems_ok createItem_ok uploadFiles_ok replaceFile_ok publishItem_ok unpublishItem_ok
  copyItems_ok catchUpDue_ok catchUp_ok

end

end
