(* ===== verification/LibraryInv.thy ===== *)
theory LibraryInv
  imports LibrarySteps
begin

text \<open>
  The library store as a system: every operation a view can call, with any number of them
  pending at once and their answers coming in any order.  Its invariant, and what holds of the
  list whatever else goes on.
\<close>

section \<open>The programs\<close>

definition toast_op :: "(undo_action toasts \<Rightarrow> undo_action toasts) \<Rightarrow> lib \<Rightarrow> lib" where
  "toast_op f s = s\<lparr>toastsOf := f (toastsOf s)\<rparr>"

definition upload_op :: "(uploads \<Rightarrow> uploads) \<Rightarrow> lib \<Rightarrow> lib" where
  "upload_op f s = s\<lparr>uploadsOf := f (uploadsOf s)\<rparr>"

text \<open>A toast is held only once it has been shown.\<close>

definition hold_shown :: "nat \<Rightarrow> hold \<Rightarrow> undo_action toasts \<Rightarrow> undo_action toasts" where
  "hold_shown i r t = (if i < nextToast t then hold_toast i r t else t)"

inductive library_program :: "env \<Rightarrow> unit prog \<Rightarrow> bool" for E where
  "library_program E (loadLibraries E)"
| "library_program E refreshLibraries"
| "library_program E (openLibrary E lid)"
| "library_program E (loadCollections E)"
| "library_program E (createCollection E name parent)"
| "library_program E (updateCollection E key name' parent')"
| "library_program E (deleteCollection E key)"
| "library_program E loadTags"
| "library_program E (void (findTags txt))"
| "library_program E (void (renameTag E old new_name))"
| "library_program E (loadItems onto)"
| "library_program E refresh"
| "library_program E loadMore"
| "library_program E (fileItems E keys add remove)"
| "library_program E (trashItems E keys deleted)"
| "library_program E (deleteItems E keys)"
| "library_program E (void (emptyTrash E))"
| "library_program E (void (prepareMerge keys))"
| "library_program E (mergeItems E snap master vals lang)"
| "library_program E (copyItems E keys target col)"
| "library_program E (void (childrenOf key))"
| "library_program E (void (saveItem key ch rb))"
| "library_program E (void (createItem E itype parent link))"
| "library_program E (void (uploadFiles E files parent col))"
| "library_program E (void (replaceFile E item f))"
| "library_program E reloadChildren"
| "library_program E (void (relatedOf item))"
| "library_program E (void (findItems txt))"
| "library_program E (relateItems key others)"
| "library_program E (unrelateItems key other)"
| "library_program E (publishItem E key t)"
| "library_program E (unpublishItem E key)"
| "library_program E (selectScope sc)"
| "library_program E (selectCollection ckey)"
| "library_program E (toggleTag tg)"
| "library_program E (setSearch txt)"
| "library_program E (sortBy fld)"
| "library_program E (select mitem)"
| "library_program E (inspectItem mitem)"
| "library_program E (toggleSelected item)"
| "library_program E (extendSelection item)"
| "library_program E selectAll"
| "library_program E clearSelection"
| "library_program E (actOnToast E i)"
| "library_program E (catchUpDue E)"
| "library_program E (modify (follow E))"
| "library_program E (modify unfollow)"
| "library_program E (modify (version_event v))"
| "library_program E (modify (\<lambda>s. s\<lparr>viewerId := viewer\<rparr>))"
| "library_program E (modify reset)"
| "library_program E (modify (toast_op (dismiss i)))"
| "library_program E (modify (toast_op (hold_shown i r)))"
| "library_program E (modify (toast_op (release i r)))"
| "library_program E (modify (upload_op (progress i n)))"
| "library_program E (modify (upload_op (cancel_upload i)))"
| "library_program E (modify (upload_op (dismiss_upload i)))"

abbreviation operations :: "env \<Rightarrow> unit prog set" where
  "operations E \<equiv> Collect (library_program E)"

lemma ctl_follow [simp]: "ctl (follow E s) = ctl s" "ctl (unfollow s) = ctl s" "ctl (version_event v s) = ctl s" "ctl (reset s) = ctl s"
  by (simp_all add: follow_def unfollow_def version_event_def reset_def ctl_def Let_def split: option.splits)

lemma hold_shown_inv: "toast_inv t \<Longrightarrow> toast_inv (hold_shown i r t)"
  by (simp add: hold_shown_def hold_inv)

context library_steps
begin

lemma toast_op_ok: "(\<And>t. toast_inv t \<Longrightarrow> toast_inv (f t)) \<Longrightarrow> stretches R (modify (toast_op f))"
  unfolding toast_op_def by (intro stretches_modify toasted)

lemma upload_op_ok: "(\<And>u. uploads_inv u \<Longrightarrow> uploads_inv (f u)) \<Longrightarrow> stretches R (modify (upload_op f))"
  unfolding upload_op_def by (intro stretches_modify uploaded)

lemma program_ok: "library_program E m \<Longrightarrow> stretches R m"
proof (induction rule: library_program.induct)
qed (intro reading selecting writing rules(8) quiet_modify toast_op_ok upload_op_ok dismiss_inv hold_shown_inv
    release_inv uploads_invs; simp; fail)+

end

section \<open>The invariant\<close>

text \<open>
  The list is loading exactly while its latest request is under way; controllers are fresh and
  the ones of the requests under way are not aborted; a collection is only ever shown in the
  scope of the whole library; the toasts and the uploads keep their own invariants.
\<close>

definition requests_ok :: "lib \<Rightarrow> bool" where
  "requests_ok s \<longleftrightarrow> (loading s \<longleftrightarrow> itemsRequest s \<noteq> None) \<and>
     (\<forall>c. itemsRequest s = Some c \<longrightarrow> c < nextController s \<and> c \<notin> aborted s \<and> childrenRequest s \<noteq> Some c) \<and>
     (\<forall>c. childrenRequest s = Some c \<longrightarrow> c < nextController s \<and> c \<notin> aborted s) \<and>
     aborted s \<subseteq> {..<nextController s}"

definition scope_ok :: "lib \<Rightarrow> bool" where
  "scope_ok s \<longleftrightarrow> given (collectionKey s) = None \<or> scope s = Top"

definition lib_inv :: "lib \<Rightarrow> bool" where
  "lib_inv s \<longleftrightarrow> requests_ok s \<and> scope_ok s \<and> toast_inv (toastsOf s) \<and> uploads_inv (uploadsOf s)"

lemma lib_inv_initial: "lib_inv initial"
  by (simp add: lib_inv_def requests_ok_def scope_ok_def initial_def given_def toast_inv_init uploads_inv_init)

lemma lib_inv_ctl: "ctl t = ctl s \<Longrightarrow> lib_inv t = lib_inv s"
  by (simp add: lib_inv_def requests_ok_def scope_ok_def ctl_def)

lemma begin_items_inv: "lib_inv s \<Longrightarrow> lib_inv (begin_items s)"
  by (auto simp: lib_inv_def requests_ok_def scope_ok_def begin_items_def split: option.splits)

lemma begin_children_inv: "lib_inv s \<Longrightarrow> lib_inv (begin_children s)"
  by (auto simp: lib_inv_def requests_ok_def scope_ok_def begin_children_def split: option.splits)

lemma end_items_inv: "lib_inv s \<Longrightarrow> lib_inv (end_items c s)"
  by (auto simp: lib_inv_def requests_ok_def scope_ok_def end_items_def)

lemma end_children_inv: "lib_inv s \<Longrightarrow> lib_inv (end_children c s)"
  by (auto simp: lib_inv_def requests_ok_def scope_ok_def end_children_def)

lemma lib_inv_toasts: "lib_inv s \<Longrightarrow> (toast_inv (toastsOf s) \<Longrightarrow> toast_inv T) \<Longrightarrow> lib_inv (s\<lparr>toastsOf := T\<rparr>)"
  by (simp add: lib_inv_def requests_ok_def scope_ok_def)

lemma lib_inv_uploads: "lib_inv s \<Longrightarrow> (uploads_inv (uploadsOf s) \<Longrightarrow> uploads_inv U) \<Longrightarrow> lib_inv (s\<lparr>uploadsOf := U\<rparr>)"
  by (simp add: lib_inv_def requests_ok_def scope_ok_def)

lemma lib_inv_rescope: "lib_inv s \<Longrightarrow> given k = None \<or> sc = Top \<Longrightarrow> lib_inv (rescope sc k s)"
  by (simp add: lib_inv_def requests_ok_def scope_ok_def rescope_def)

lemma keepsI: "(I s \<Longrightarrow> I t) \<Longrightarrow> keeps I s t"
  by (simp add: keeps_def)

lemma lib_inv_quiet: "ctl t = ctl s \<Longrightarrow> lib_inv s \<Longrightarrow> lib_inv t"
  using lib_inv_ctl by blast

interpretation inv: library_steps "keeps lib_inv"
  by unfold_locales
    ((rule preorder_keeps)?; (rule keepsI)?;
     (erule begin_items_inv begin_children_inv end_items_inv end_children_inv lib_inv_quiet lib_inv_toasts
       lib_inv_uploads lib_inv_rescope)?; assumption?)+

text \<open>A controller once aborted stays so, and no number is given out twice.\<close>

definition controllers_grow :: "lib \<Rightarrow> lib \<Rightarrow> bool" where
  "controllers_grow s t \<longleftrightarrow> nextController s \<le> nextController t \<and> aborted s \<subseteq> aborted t"

interpretation grow: library_steps controllers_grow
  by unfold_locales
    (auto simp: preorder_rel_def controllers_grow_def ctl_def rescope_def begin_items_def begin_children_def
      end_items_def end_children_def split: option.splits)

interpretation always_inv: store_invariant lib_inv "operations E" for E
  by unfold_locales (simp add: inv.program_ok)

interpretation always_grow: store_programs controllers_grow "operations E" for E
  by unfold_locales (use grow.order grow.program_ok in auto)

lemma later_inv:
  assumes "lib_inv s0" "reachable (operations E) s0 c" "(step (operations E))\<^sup>*\<^sup>* c c'"
  shows "lib_inv (fst c) \<and> lib_inv (fst c')"
proof -
  have "reachable (operations E) s0 (fst c, snd c)" using assms(2) by simp
  then have "lib_inv (fst c)" using always_inv.always assms(1) by blast
  moreover have "keeps lib_inv (fst c) (fst c')" using always_inv.later_respects assms(2,3) by blast
  ultimately show ?thesis by (simp add: keeps_def)
qed

end
