(* ===== verification/LibraryProps.thy ===== *)
theory LibraryProps
  imports LibraryInv
begin

text \<open>
  What the library store promises: its invariant in every reachable system, that an answer
  overtaken by a later request is ignored, when an edit is sent again and when it is a conflict,
  what a merge is prepared from and that a committed write is never reported as failed.
\<close>

section \<open>The store\<close>

text \<open>C1: Whatever operations are started, in whatever order their requests are answered or fail: the
  list says it is loading exactly while its latest request is under way; a collection is shown
  only in the scope of the whole library; no more than three toasts are shown, and those that
  nobody is at have a timer; and no two uploads share an id.\<close>

theorem library_always:
  assumes "reachable (operations E) initial (s, ps)"
  shows "(loading s \<longleftrightarrow> itemsRequest s \<noteq> None) \<and>
    (given (collectionKey s) = None \<or> scope s = Top) \<and>
    length (shown (toastsOf s)) \<le> 3 \<and>
    timers (toastsOf s) = {i \<in> set (ids (toastsOf s)). reasons (toastsOf s) i = {}} \<and>
    distinct (map upId (uploads (uploadsOf s)))"
  using always_inv.always [OF assms lib_inv_initial]
  by (simp add: lib_inv_def requests_ok_def scope_ok_def toast_inv_def toast_timers_ok_def uploads_inv_def MAX_TOASTS_def)

theorem library_always_witness:
  "\<forall>E. let s = fst (openLibrary E 7 initial)
   in loading s \<and> itemsRequest s \<noteq> None \<and> timers (toastsOf s) = {}"
proof -
  have "let s = fst (openLibrary E 7 initial)
   in loading s \<and> itemsRequest s \<noteq> None \<and> timers (toastsOf s) = {}" for E
  proof -
    have "step (operations E) (initial, []) (fst (openLibrary E 7 initial), [] @ [snd (openLibrary E 7 initial)])"
      by (rule step.start [where m = "openLibrary E 7"]) (simp_all add: library_program.intros)
    then have "reachable (operations E) initial (fst (openLibrary E 7 initial), [] @ [snd (openLibrary E 7 initial)])"
      by (rule reachable.next_step [OF reachable.init])
    from library_always [OF this] have "loading (fst (openLibrary E 7 initial)) \<longleftrightarrow> itemsRequest (fst (openLibrary E 7 initial)) \<noteq> None"
      "timers (toastsOf (fst (openLibrary E 7 initial))) = {i \<in> set (ids (toastsOf (fst (openLibrary E 7 initial)))). reasons (toastsOf (fst (openLibrary E 7 initial))) i = {}}"
      by simp_all
    moreover have "toastsOf (fst (openLibrary E 7 initial)) = no_toasts" "loading (fst (openLibrary E 7 initial))"
      by (simp_all add: openLibrary_def async_simps void_def both_def loadCollections_def loadTags_def loadItems_def
          loadItemsWith_def req_def forget_library_def begin_items_def initial_def)
    ultimately show ?thesis by (simp add: ids_def no_toasts_def)
  qed
  then show ?thesis by blast
qed

section \<open>The list\<close>

definition items_answer :: "nat \<Rightarrow> bool \<Rightarrow> answer \<Rightarrow> unit prog" where
  "items_answer c onto a =
     try_finally
       (try_catch
         (bind (\<lambda>s. (s, case a of Inl e \<Rightarrow> Fail (Plain e) | Inr p \<Rightarrow> Done p))
           (\<lambda>p. asks aborted (\<lambda>ab.
              if c \<in> ab then ret ()
              else asks listingVersion (\<lambda>v.
                if onto \<and> pGroups p \<noteq> None \<and> pLibraryVersion p \<noteq> v then refresh
                else modify (take_page onto p)))))
         (\<lambda>e. asks aborted (\<lambda>ab.
            if c \<in> ab then ret ()
            else modify (\<lambda>s. s\<lparr>failure := Some (error_message (plain_of e))\<rparr>))))
       (end_items c)"

lemma loadItems_eq:
  "libraryId s = Some lid \<Longrightarrow> loadItems onto s =
     (begin_items s, Wait (GET (lib_path lid ''/items'') (itemsUrl (begin_items s))) (items_answer (nextController s) onto))"
  by (simp add: loadItems_def loadItemsWith_def async_simps req_def items_answer_def [abs_def])

lemma items_answer_aborted: "c \<in> aborted t \<Longrightarrow> items_answer c onto a t = (end_items c t, Done ())"
  by (cases a) (simp_all add: items_answer_def async_simps)

lemma items_answer_page:
  "c \<notin> aborted t \<Longrightarrow> items_answer c False (Inr p) t = (end_items c (take_page False p t), Done ())"
  by (simp add: items_answer_def async_simps)

lemma items_answer_failed:
  "c \<notin> aborted t \<Longrightarrow> items_answer c onto (Inl e) t = (end_items c (t\<lparr>failure := Some (error_message e)\<rparr>), Done ())"
  by (simp add: items_answer_def async_simps plain_of_def)

lemmas items_answers = loadItems_eq items_answer_aborted items_answer_page items_answer_failed

lemma end_items_other: "itemsRequest t \<noteq> Some c \<Longrightarrow> end_items c t = t"
  by (simp add: end_items_def)

text \<open>C2: An answer that has been overtaken is ignored.  While the list waits for one request, another
  is started; then whatever else happens and whenever the first is answered or fails, the store
  stays exactly as it is.\<close>

theorem superseded_list_ignored:
  assumes first: "loadItems onto s = (s1, Wait q k)" "libraryId s = Some lid"
    and then_second: "lib_inv s0" "reachable (operations E) s0 (t1, ps)" "itemsRequest t1 = Some (nextController s)" "libraryId t1 = Some lid'"
    and later: "(step (operations E))\<^sup>*\<^sup>* (fst (loadItems onto' t1), ps @ [snd (loadItems onto' t1)]) (t, ps')"
  shows "k a t = (t, Done ())"
proof -
  let ?c1 = "(fst (loadItems onto' t1), ps @ [snd (loadItems onto' t1)])"
  have "step (operations E) (t1, ps) ?c1"
    by (rule step.start [where m = "loadItems onto'"]) (simp_all add: library_program.intros)
  with then_second(2) have r: "reachable (operations E) s0 ?c1" by (rule reachable.next_step)
  from always_grow.later_respects [OF later r] have "aborted (fst (loadItems onto' t1)) \<subseteq> aborted t"
    by (simp add: controllers_grow_def)
  moreover have "nextController s \<in> aborted (fst (loadItems onto' t1))"
    using then_second(3,4) by (simp add: loadItems_eq begin_items_def)
  ultimately have ab: "nextController s \<in> aborted t" by blast
  from later_inv [OF then_second(1) r later] have "lib_inv t" by simp
  with ab have "itemsRequest t \<noteq> Some (nextController s)" by (auto simp: lib_inv_def requests_ok_def)
  with first ab show ?thesis by (auto simp: loadItems_eq items_answer_aborted end_items_other)
qed

theorem superseded_list_ignored_witness:
  "\<exists>k s1 s2. loadItems False (initial\<lparr>libraryId := Some 7\<rparr>) = (s1, Wait (GET (lib_path 7 ''/items'') (itemsUrl s1)) k) \<and>
      s2 = fst (loadItems False s1) \<and> itemsRequest s2 = Some 1 \<and> (\<forall>a. k a s2 = (s2, Done ()))"
proof -
  let ?s = "initial\<lparr>libraryId := Some 7\<rparr>"
  let ?s1 = "begin_items ?s"
  have l: "libraryId ?s = Some 7" "libraryId ?s1 = Some 7" "itemsRequest ?s1 = Some (nextController ?s)"
    by (simp_all add: begin_items_def)
  obtain k where k: "loadItems False ?s = (?s1, Wait (GET (lib_path 7 ''/items'') (itemsUrl ?s1)) k)"
    using loadItems_eq [OF l(1)] by blast
  have inv: "lib_inv ?s" using lib_inv_quiet [OF _ lib_inv_initial, of ?s] by (simp add: ctl_def)
  have "step (operations undefined) (?s, []) (?s1, [] @ [Wait (GET (lib_path 7 ''/items'') (itemsUrl ?s1)) k])"
    by (rule step.start [where m = "loadItems False"]) (simp_all add: k library_program.intros)
  then have r: "reachable (operations undefined) ?s (?s1, [] @ [Wait (GET (lib_path 7 ''/items'') (itemsUrl ?s1)) k])"
    by (rule reachable.next_step [OF reachable.init])
  have "k a (fst (loadItems False ?s1)) = (fst (loadItems False ?s1), Done ())" for a
    by (rule superseded_list_ignored [OF k l(1) inv r l(3,2) rtranclp.rtrancl_refl])
  moreover have "itemsRequest (fst (loadItems False ?s1)) = Some 1"
    unfolding loadItems_eq [OF l(2)] by (simp add: begin_items_def initial_def)
  ultimately show ?thesis using k by blast
qed

text \<open>The list answers that are not overtaken: a page is what the list then shows, a failure is its
  message, and either way the list is no longer loading.\<close>

theorem list_answer:
  assumes "libraryId s = Some lid" "lib_inv s"
  shows "(\<forall>p. case feed [Inr p] (loadItems False s) of (t, u) \<Rightarrow>
           u = Done () \<and> items t = pItems p \<and> total_items t = pTotal p \<and> failure t = None \<and> \<not> loading t
             \<and> knownVersion t = (case pLibraryVersion p of None \<Rightarrow> knownVersion s | Some v \<Rightarrow> max v (knownVersion s)))
    \<and> (\<forall>e. case feed [Inl e] (loadItems False s) of (t, u) \<Rightarrow>
           u = Done () \<and> items t = items s \<and> failure t = Some (error_message e) \<and> \<not> loading t)"
proof -
  have fresh: "nextController s \<notin> aborted (begin_items s)"
    using assms(2) by (auto simp: lib_inv_def requests_ok_def begin_items_def split: option.splits)
  from assms(1) fresh show ?thesis
    by (simp add: items_answers) (simp add: end_items_def take_page_def seen_def begin_items_def split: option.splits)
qed

theorem list_answer_witness:
  "failure (fst (feed [Inl (ApiError ''Could not reach the server'' 0 None False)] (loadItems False (initial\<lparr>libraryId := Some 7\<rparr>))))
     = Some ''Could not reach the server''"
proof -
  have "lib_inv (initial\<lparr>libraryId := Some 7\<rparr>)" using lib_inv_quiet [OF _ lib_inv_initial] by (simp add: ctl_def)
  from list_answer [OF _ this, of 7] show ?thesis by (simp add: split_beta)
qed

text \<open>C17: Signing out does not stop the list's request: its answer is taken after \<open>reset\<close> as before,
  and leaves the items of the account that is gone in a store that shows no library.\<close>

theorem late_answer_after_reset:
  assumes "libraryId s = Some lid" "lib_inv s"
  shows "\<exists>s1 q k. loadItems False s = (s1, Wait q k) \<and>
    (\<forall>p. libraryId (fst (k (Inr p) (reset s1))) = None \<and> items (fst (k (Inr p) (reset s1))) = pItems p)"
proof -
  have fresh: "nextController s \<notin> aborted (reset (begin_items s))"
    using assms(2)
    by (auto simp: lib_inv_def requests_ok_def begin_items_def reset_def unfollow_def split: option.splits)
  from assms(1) fresh show ?thesis
    by (simp add: items_answers) (simp add: end_items_def take_page_def seen_def reset_def split: option.splits)
qed

theorem late_answer_after_reset_witness:
  "\<exists>s1 q k. loadItems False (initial\<lparr>libraryId := Some 7\<rparr>) = (s1, Wait q k) \<and>
    (\<forall>p. libraryId (fst (k (Inr p) (reset s1))) = None \<and> items (fst (k (Inr p) (reset s1))) = pItems p)"
  by (rule late_answer_after_reset [of _ 7])
    (use lib_inv_quiet [OF _ lib_inv_initial] in \<open>simp_all add: ctl_def\<close>)

text \<open>C18: The collections of a library are taken whenever they arrive: after another library was opened
  meanwhile, the answer for the first replaces the second's tree.\<close>

theorem stale_collections:
  assumes "libraryId s = Some lid"
  shows "\<exists>k. loadCollections E s = (s, Wait (GET (lib_path lid ''/collections'') []) k) \<and>
    (\<forall>other p. collections (fst (k (Inr p) (forget_library other s))) = tree (localeCompare E) (pCollections p) \<and>
       libraryId (fst (k (Inr p) (forget_library other s))) = Some other)"
  using assms by (simp add: loadCollections_def async_simps req_def forget_library_def)

theorem stale_collections_witness:
  "\<forall>E. \<exists>k. loadCollections E (initial\<lparr>libraryId := Some 1\<rparr>) = (initial\<lparr>libraryId := Some 1\<rparr>, Wait (GET (lib_path 1 ''/collections'') []) k) \<and>
    (\<forall>other p. collections (fst (k (Inr p) (forget_library other (initial\<lparr>libraryId := Some 1\<rparr>)))) = tree (localeCompare E) (pCollections p) \<and>
       libraryId (fst (k (Inr p) (forget_library other (initial\<lparr>libraryId := Some 1\<rparr>)))) = Some other)"
  by (intro allI stale_collections) simp

section \<open>Saving\<close>

text \<open>C3: What becomes of an edit.  It is sent once, on the version of the copy the page holds.  If that
  is taken, the answer is put on the page.  If it is refused with anything but 412, the refusal
  is thrown and nothing changes.  If it is refused with 412, the item is read and put on the
  page; then the edit is sent again, on the new version, if all it writes was untouched
  meanwhile, and otherwise nothing is sent and the conflict is thrown.\<close>

theorem saveItem_outcomes:
  assumes "libraryId s = Some lid" "current_item key s = Some old"
  shows "sent [] (saveItem key ch None s) = [send_call ''PATCH'' (item_path lid key) (Some (save_body ch (Some (itemVersion old))))]
    \<and> feed [Inr p] (saveItem key ch None s) = (put (pItem p) s, Done (Some (pItem p)))
    \<and> (\<not> has_status e 412 \<longrightarrow> feed [Inl e] (saveItem key ch None s) = (s, Fail (Plain e)))
    \<and> sent [Inl (ApiError m 412 d c), Inr p] (saveItem key ch None s)
        = [send_call ''PATCH'' (item_path lid key) (Some (save_body ch (Some (itemVersion old)))), GET (item_path lid key) []]
          @ (if untouched old (pItem p) ch
             then [send_call ''PATCH'' (item_path lid key) (Some (save_body ch (Some (itemVersion (pItem p)))))] else [])
    \<and> fst (feed [Inl (ApiError m 412 d c), Inr p] (saveItem key ch None s)) = put (pItem p) s
    \<and> (snd (feed [Inl (ApiError m 412 d c), Inr p] (saveItem key ch None s)) = Fail (EditConflict (pItem p) ch)
        \<longleftrightarrow> \<not> untouched old (pItem p) ch)"
  using assms
  by (auto simp: saveItem_def in_library_def send_changes_def async_simps req_def fails_with_def)

theorem saveItem_outcomes_witness:
  "\<forall>q. let old = \<lparr>itemKey = ''AAAABBBB'', itemVersion = 3, data = [(''title'', JStr ''A'')], meta = \<lparr>numChildren = 0, createdByUser = None\<rparr>\<rparr>;
       fresh = old\<lparr>itemVersion := 5, data := [(''title'', JStr ''B'')]\<rparr>;
       s = initial\<lparr>libraryId := Some 7, items := [old]\<rparr>;
       ch = no_changes\<lparr>chFields := Some [(''title'', ''C'')]\<rparr>
   in snd (feed [Inl (ApiError ''Conflict'' 412 None False), Inr (q\<lparr>pItem := fresh\<rparr>)] (saveItem ''AAAABBBB'' ch None s))
        = Fail (EditConflict fresh ch)"
proof -
  have "let old = \<lparr>itemKey = ''AAAABBBB'', itemVersion = 3, data = [(''title'', JStr ''A'')], meta = \<lparr>numChildren = 0, createdByUser = None\<rparr>\<rparr>;
       fresh = old\<lparr>itemVersion := 5, data := [(''title'', JStr ''B'')]\<rparr>;
       s = initial\<lparr>libraryId := Some 7, items := [old]\<rparr>;
       ch = no_changes\<lparr>chFields := Some [(''title'', ''C'')]\<rparr>
   in snd (feed [Inl (ApiError ''Conflict'' 412 None False), Inr (q\<lparr>pItem := fresh\<rparr>)] (saveItem ''AAAABBBB'' ch None s))
        = Fail (EditConflict fresh ch)" for q
  proof -
    let ?old = "\<lparr>itemKey = ''AAAABBBB'', itemVersion = 3, data = [(''title'', JStr ''A'')], meta = \<lparr>numChildren = 0, createdByUser = None\<rparr>\<rparr>"
    let ?fresh = "?old\<lparr>itemVersion := 5, data := [(''title'', JStr ''B'')]\<rparr>"
    let ?s = "initial\<lparr>libraryId := Some 7, items := [?old]\<rparr>"
    let ?ch = "no_changes\<lparr>chFields := Some [(''title'', ''C'')]\<rparr>"
    have "current_item ''AAAABBBB'' ?s = Some ?old" by (simp add: current_item_def is_open_def initial_def)
    moreover have "\<not> untouched ?old ?fresh ?ch"
      by (simp add: untouched_def no_changes_def text_of_def get_prop_def Let_def)
    ultimately show ?thesis
      using saveItem_outcomes [of ?s 7 "''AAAABBBB''" ?old ?ch "q\<lparr>pItem := ?fresh\<rparr>" undefined "''Conflict''" None False]
      by (simp add: Let_def)
  qed
  then show ?thesis by blast
qed

section \<open>Committed writes\<close>

definition never :: "'e \<Rightarrow> bool" where
  "never e = False"

definition reads :: "call \<Rightarrow> bool" where
  "reads q \<longleftrightarrow> verb q = ''GET''"

lemma reads_GET [simp]: "reads (GET p q)"
  by (simp add: reads_def GET_def)

lemma req_reads: "P q \<Longrightarrow> (\<And>t. F (Plain t)) \<Longrightarrow> behaves P F (req pick q)"
  by (simp add: req_def behaves_await)

lemma GET_reads: "behaves reads (\<lambda>_. True) (req pick (GET p q))"
  by (simp add: req_reads)

lemma loadItemsWith_reads: "behaves reads F again \<Longrightarrow> behaves reads F (loadItemsWith onto again)"
  unfolding loadItemsWith_def by (intro behaves_rules GET_reads) (rule behaves_weaken)

lemma refresh_reads: "behaves reads F refresh"
  unfolding refresh_def by (intro behaves_rules loadItemsWith_reads)

lemma loadCollections_reads: "behaves reads (\<lambda>_. True) (loadCollections E)"
  unfolding loadCollections_def by (intro behaves_rules GET_reads)

lemma loadTags_reads: "behaves reads (\<lambda>_. True) loadTags"
  unfolding loadTags_def by (intro behaves_rules GET_reads)

lemma reloadSelected_reads: "behaves reads F reloadSelected"
  unfolding reloadSelected_def by (intro behaves_rules GET_reads)

lemma reloadChildren_reads: "behaves reads (\<lambda>_. True) reloadChildren"
  unfolding reloadChildren_def childrenOf_def by (intro behaves_rules GET_reads)

lemma refreshLibraries_reads: "behaves reads (\<lambda>_. True) refreshLibraries"
  unfolding refreshLibraries_def by (intro behaves_rules GET_reads)

lemma afterItemWrite_reads: "behaves reads (\<lambda>_. True) (afterItemWrite E)"
  unfolding afterItemWrite_def by (intro behaves_rules refresh_reads loadCollections_reads reloadSelected_reads)

lemma openItem_reads: "behaves reads F (openItem item)"
  unfolding openItem_def by (intro behaves_rules GET_reads)

lemma clearSelection_reads: "behaves reads F clearSelection"
  unfolding clearSelection_def by (intro behaves_rules openItem_reads)

lemma when_in_reads: "behaves P F m \<Longrightarrow> behaves P F (when_in lid m)"
  unfolding when_in_def by (intro behaves_rules)

lemmas reading_only = behaves_rules when_in_reads refresh_reads loadCollections_reads loadTags_reads reloadSelected_reads
  reloadChildren_reads refreshLibraries_reads afterItemWrite_reads openItem_reads clearSelection_reads

text \<open>A write that has been answered: what follows only reads, and does not fail.\<close>

definition commits :: "unit prog \<Rightarrow> lib \<Rightarrow> bool" where
  "commits m s \<longleftrightarrow> (\<forall>p as. (\<exists>q rest. sent (Inr p # as) (m s) = q # rest \<and> (\<forall>r\<in>set rest. reads r)) \<and>
     (\<forall>e. snd (feed (Inr p # as) (m s)) \<noteq> Fail e))"

lemma commitsI:
  assumes b: "\<And>r. behaves reads never (f r)" and "m s = bind (req pick q) f s"
  shows "commits m s"
  unfolding commits_def
proof (intro allI conjI)
  fix p as e
  have m: "m s = (s, Wait q (\<lambda>a. bind (\<lambda>s'. (s', case a of Inl e \<Rightarrow> Fail (Plain e) | Inr p \<Rightarrow> Done (pick p))) f))"
    using assms(2) by (simp add: req_def async_simps)
  have "sent (Inr p # as) (m s) = q # sent as (f (pick p) s)" by (simp add: m async_simps)
  then show "\<exists>q rest. sent (Inr p # as) (m s) = q # rest \<and> (\<forall>r\<in>set rest. reads r)"
    using sent_behaves [OF b] by blast
  have "feed (Inr p # as) (m s) = feed as (f (pick p) s)" by (simp add: m async_simps)
  then show "snd (feed (Inr p # as) (m s)) \<noteq> Fail e"
    using feed_behaves [OF b [of "pick p"], of as s e] by (auto simp: never_def)
qed

lemma fileItems_commits:
  "libraryId s = Some lid \<Longrightarrow> keys \<noteq> [] \<Longrightarrow> add \<noteq> [] \<Longrightarrow> commits (fileItems E keys (Some add) remove) s"
  by (rule commitsI [where f = "\<lambda>u. seq (modify (offerUndo lid u ''Items filed.'' NothingMore)) (when_in lid (settled (afterItemWrite E)))"])
    (intro reading_only, simp add: fileItems_def in_library_def run_simps(4) list_prop_def)

lemma trashItems_commits: "libraryId s = Some lid \<Longrightarrow> keys \<noteq> [] \<Longrightarrow> commits (trashItems E keys deleted) s"
  by (rule commitsI [where f = "\<lambda>u. seq (modify (offerUndo lid u (if deleted then ''Items moved to trash.'' else ''Items restored.'') NothingMore))
        (when_in lid (settled (afterItemWrite E)))"])
    (intro reading_only, simp add: trashItems_def in_library_def run_simps(4))

lemma copyItems_commits: "libraryId s = Some lid \<Longrightarrow> keys \<noteq> [] \<Longrightarrow> commits (copyItems E keys target col) s"
  unfolding copyItems_def
  by (rule commitsI; (simp add: in_library_def run_simps(4); fail)?) (intro reading_only)

lemma mergeItems_commits:
  "libraryId s = Some (snapLibrary snap) \<Longrightarrow> \<exists>i\<in>set (snapItems snap). itemKey i = master \<Longrightarrow>
     commits (mergeItems E snap master vals lang) s"
  unfolding mergeItems_def
  by (rule commitsI; (simp add: in_library_def run_simps(4); fail)?) (intro reading_only)

lemmas all_commit = fileItems_commits trashItems_commits copyItems_commits mergeItems_commits



section \<open>Preparing a merge\<close>

text \<open>Items filed under their own keys.\<close>

definition keyed :: "(string \<times> ItemEnvelope) list \<Rightarrow> bool" where
  "keyed m \<longleftrightarrow> (\<forall>k i. map_of m k = Some i \<longrightarrow> itemKey i = k)"

lemma keyed_Nil [simp]: "keyed []"
  by (simp add: keyed_def)

lemma keyed_foldl [simp]: "keyed m \<Longrightarrow> keyed (foldl (\<lambda>m i. map_set (itemKey i) i m) m is)"
proof (induction "is" arbitrary: m)
  case (Cons a as)
  have "keyed (map_set (itemKey a) a m)"
    using Cons.prems unfolding keyed_def map_of_map_set by (metis fun_upd_apply option.inject)
  with Cons.IH show ?case by simp
qed simp

lemma keyedD: "keyed m \<Longrightarrow> map_of m k = Some i \<Longrightarrow> itemKey i = k"
  by (simp add: keyed_def)

lemma feed_req:
  "feed (a # as) (bind (req pick q) f s) = (case a of Inl e \<Rightarrow> (s, Fail (Plain e)) | Inr p \<Rightarrow> feed as (f (pick p) s))"
  "snd (bind (req pick q) f s) \<noteq> Done r"
  by (simp_all add: req_def async_simps split: sum.splits)

lemma read_batches_done:
  "snd (feed as (read_batches lid bs version found s)) = Done (v, found') \<Longrightarrow>
    keyed found \<Longrightarrow> keyed found' \<and>
    (if bs = [] then v = version else v \<noteq> None \<and> (version = None \<or> version = v)) \<and>
    (\<forall>j<length bs. \<exists>p. j < length as \<and> as ! j = Inr p \<and> pLibraryVersion p = v)"
proof (induction bs arbitrary: as version found)
  case Nil
  then show ?case by (simp add: async_simps)
next
  case (Cons b bs)
  then obtain p as' where as: "as = Inr p # as'"
    by (cases as; cases "hd as") (auto simp: feed_req)
  let ?found = "foldl (\<lambda>m i. map_set (itemKey i) i m) found (pItems p)"
  have "feed as (read_batches lid (b # bs) version found s) = feed as'
      (if libraryId s \<noteq> Some lid \<or> (case pLibraryVersion p of None \<Rightarrow> True | Some n \<Rightarrow> \<not> safe_integer n) \<or>
          (version \<noteq> None \<and> version \<noteq> pLibraryVersion p)
       then (s, Fail (Plain changed_elsewhere)) else read_batches lid bs (pLibraryVersion p) ?found s)"
    unfolding read_batches.simps as feed_req(1) by (auto simp: run_simps)
  with Cons.prems(1) have ok: "pLibraryVersion p \<noteq> None" "version = None \<or> version = pLibraryVersion p"
    and next_batch: "snd (feed as' (read_batches lid bs (pLibraryVersion p) ?found s)) = Done (v, found')"
    by (auto simp del: read_batches.simps split: if_splits option.splits)
  from Cons.IH [OF next_batch keyed_foldl [OF Cons.prems(2)]] ok show ?case
    by (auto simp: as nth_Cons less_Suc_eq_0_disj split: nat.splits if_splits)
qed

text \<open>What a merge is prepared from: at least two distinct items of the library that was open, in
  the order they were chosen, every one of them read, and all of the reading done at the one
  library version the merge then states.\<close>

theorem prepareMerge_snapshot:
  assumes "snd (feed as (prepareMerge keys s)) = Done snap"
  shows "map itemKey (snapItems snap) = keys \<and> distinct keys \<and> 2 \<le> length keys \<and>
    libraryId s = Some (snapLibrary snap) \<and>
    (\<forall>j<(length keys + 99) div 100. \<exists>p. j < length as \<and> as ! j = Inr p \<and> pLibraryVersion p = Some (snapVersion snap))"
proof -
  from assms obtain lid where lid: "libraryId s = Some lid" by (auto simp: prepareMerge_def async_simps split: option.splits)
  from assms lid have keys: "distinct keys" "2 \<le> length keys"
    by (auto simp: prepareMerge_def async_simps length_uniq_eq split: if_splits)
  define cont :: "int option \<times> (string \<times> ItemEnvelope) list \<Rightarrow> MergeSnapshot prog" where
    "cont = (\<lambda>(version, found). if \<exists>k\<in>set keys. map_of found k = None then throw (Plain changed_elsewhere)
      else ret \<lparr>snapLibrary = lid, snapVersion = the version, snapItems = map (\<lambda>k. the (map_of found k)) keys\<rparr>)"
  from assms lid keys have "snd (feed as (bind (read_batches lid (batches RELATED_BATCH keys) None []) cont s)) = Done snap"
    by (simp add: prepareMerge_def run_simps length_uniq_eq cont_def)
  from feed_bind_Done [OF this] obtain n s' v found where n: "n \<le> length as"
    and run: "feed (take n as) (read_batches lid (batches RELATED_BATCH keys) None [] s) = (s', Done (v, found))"
    and cont: "snd (feed (drop n as) (cont (v, found) s')) = Done snap" by auto
  have ne: "batches RELATED_BATCH keys \<noteq> []" using keys(2) concat_batches [of RELATED_BATCH keys] by (auto simp: RELATED_BATCH_def)
  from read_batches_done [of "take n as" lid "batches RELATED_BATCH keys" None "[]" s v found] run ne
  have found: "keyed found" and v: "v \<noteq> None"
    and pages: "\<forall>j<length (batches RELATED_BATCH keys). \<exists>p. j < n \<and> as ! j = Inr p \<and> pLibraryVersion p = v"
    by auto
  from cont have all: "\<forall>k\<in>set keys. map_of found k \<noteq> None"
    and snap: "snap = \<lparr>snapLibrary = lid, snapVersion = the v, snapItems = map (\<lambda>k. the (map_of found k)) keys\<rparr>"
    by (auto simp: cont_def run_simps split: if_splits)
  have "map itemKey (snapItems snap) = keys"
    using all keyedD [OF found] by (auto simp: snap comp_def intro!: map_idI)
  moreover have "length (batches RELATED_BATCH keys) = (length keys + 99) div 100"
    by (simp add: length_batches RELATED_BATCH_def)
  moreover have "\<forall>j<length (batches RELATED_BATCH keys). \<exists>p. j < length as \<and> as ! j = Inr p \<and> pLibraryVersion p = Some (snapVersion snap)"
    using pages v n by (fastforce simp: snap)
  ultimately show ?thesis using keys lid by (simp add: snap)
qed

theorem prepareMerge_snapshot_witness:
  "\<forall>q. let it = (\<lambda>k. \<lparr>itemKey = k, itemVersion = 3, data = [], meta = \<lparr>numChildren = 0, createdByUser = None\<rparr>\<rparr>)
   in \<exists>snap. snd (feed [Inr (q\<lparr>pItems := [it ''BBBBBBBB'', it ''AAAAAAAA''], pLibraryVersion := Some 9\<rparr>)]
          (prepareMerge [''AAAAAAAA'', ''BBBBBBBB''] (initial\<lparr>libraryId := Some 7\<rparr>))) = Done snap \<and>
        map itemKey (snapItems snap) = [''AAAAAAAA'', ''BBBBBBBB''] \<and> snapVersion snap = 9"
proof -
  have "let it = (\<lambda>k. \<lparr>itemKey = k, itemVersion = 3, data = [], meta = \<lparr>numChildren = 0, createdByUser = None\<rparr>\<rparr>)
   in \<exists>snap. snd (feed [Inr (q\<lparr>pItems := [it ''BBBBBBBB'', it ''AAAAAAAA''], pLibraryVersion := Some 9\<rparr>)]
          (prepareMerge [''AAAAAAAA'', ''BBBBBBBB''] (initial\<lparr>libraryId := Some 7\<rparr>))) = Done snap \<and>
        map itemKey (snapItems snap) = [''AAAAAAAA'', ''BBBBBBBB''] \<and> snapVersion snap = 9" for q
  proof -
    let ?it = "\<lambda>k. \<lparr>itemKey = k, itemVersion = 3, data = [], meta = \<lparr>numChildren = 0, createdByUser = None\<rparr>\<rparr>"
    let ?p = "q\<lparr>pItems := [?it ''BBBBBBBB'', ?it ''AAAAAAAA''], pLibraryVersion := Some 9\<rparr>"
    let ?snap = "\<lparr>snapLibrary = 7, snapVersion = 9, snapItems = [?it ''AAAAAAAA'', ?it ''BBBBBBBB'']\<rparr>"
    have b: "batches RELATED_BATCH [''AAAAAAAA'', ''BBBBBBBB''] = [[''AAAAAAAA'', ''BBBBBBBB'']]"
      by (simp add: batches.simps RELATED_BATCH_def)
    have run: "snd (feed [Inr ?p] (prepareMerge [''AAAAAAAA'', ''BBBBBBBB''] (initial\<lparr>libraryId := Some 7\<rparr>))) = Done ?snap"
      by (simp add: prepareMerge_def run_simps b bind_eq req_def run_await safe_integer_def)
    with prepareMerge_snapshot [OF run] show ?thesis by (simp add: Let_def)
  qed
  then show ?thesis by blast
qed

section \<open>Files\<close>

lemma behaves_track:
  assumes "\<And>i. behaves P (\<lambda>_. True) (send i)"
  shows "behaves P (\<lambda>_. True) (track get put_uploads plain name bytes send)"
proof -
  define M where "M i = try_catch
         (bind (send i) (\<lambda>answer s. (put_uploads (dismiss_upload i (get s)) s, Done (Some answer))))
         (\<lambda>e s. if isCancelled (plain e) then (put_uploads (dismiss_upload i (get s)) s, Done None)
                else (put_uploads (track_failed i (error_message (plain e)) (get s)) s, Fail e))" for i
  have M: "behaves P (\<lambda>_. True) (M i)" for i
    unfolding M_def using assms by (intro behaves_catch behaves_bind) (auto simp: behaves_def)
  have "track get put_uploads plain name bytes send s
      = M (nextUpload (get s)) (put_uploads (snd (track_begin name bytes (get s))) s)" for s
    by (simp add: track_def track_begin_def Let_def M_def)
  with M show ?thesis by (simp add: behaves_def)
qed

definition sends_allowed :: "int \<Rightarrow> nat option \<Rightarrow> File list \<Rightarrow> call \<Rightarrow> bool" where
  "sends_allowed lid limit files q \<longleftrightarrow> reads q \<or>
     (\<exists>f\<in>set files. \<not> too_large limit f \<and> (\<exists>ttl parent col. q = upload_call lid f ttl parent col))"

lemma readsO_allowed: "behavesO reads F u \<Longrightarrow> behavesO (sends_allowed lid limit files) (\<lambda>_. True) u"
  by (induction u rule: outcome_induct) (simp_all add: behaves_def sends_allowed_def)

lemma reads_allowed: "behaves reads F m \<Longrightarrow> behaves (sends_allowed lid limit files) (\<lambda>_. True) m"
  unfolding behaves_def using readsO_allowed by blast

lemma upload_each_allowed:
  "set (map fst fs) \<subseteq> set files \<Longrightarrow>
     behaves (sends_allowed lid limit files) (\<lambda>_. True) (upload_each E lid limit parent col fs made)"
proof (induction fs arbitrary: made)
  case (Cons ft fs)
  obtain f ttl where ft: "ft = (f, ttl)" by fastforce
  have "\<not> too_large limit f \<Longrightarrow> sends_allowed lid limit files (upload_call lid f ttl parent col)"
    using Cons.prems ft unfolding sends_allowed_def by fastforce
  with Cons show ?case unfolding ft upload_each.simps track_file_def
    by (intro behaves_rules behaves_track req_reads) simp_all
qed (simp add: behaves_ret)

lemma uploadFiles_sends:
  assumes "libraryId s = Some lid"
  shows "q \<in> set (sent as (uploadFiles E files parent col s)) \<Longrightarrow>
     sends_allowed lid (map_option maxUploadBytes (library s)) files q"
proof -
  let ?limit = "map_option maxUploadBytes (library s)"
  define rest where "rest = bind (case given parent of
               None \<Rightarrow> ret None
             | Some p \<Rightarrow> asks (is_open p) (\<lambda>op. if op then asks kids (\<lambda>ks. ret (Some ks))
                          else bind (childrenOf p) (\<lambda>ks. ret (Some ks))))
         (\<lambda>siblings.
           bind (upload_each E lid ?limit parent col (zip files (attachmentTitles (map fileType files) siblings)) [])
             (\<lambda>made. seq
                (if made \<noteq> []
                 then when_in lid (seq (afterItemWrite E)
                   (case given parent of None \<Rightarrow> ret ()
                    | Some p \<Rightarrow> asks (is_open p) (\<lambda>op. if op then reloadChildren else ret ())))
                 else ret ())
                (ret made)))"
  have up: "behaves (sends_allowed lid ?limit files) (\<lambda>_. True)
      (upload_each E lid ?limit parent col (zip files (attachmentTitles (map fileType files) siblings)) [])" for siblings
    by (rule upload_each_allowed) (auto dest: set_zip_leftD)
  have "behaves (sends_allowed lid ?limit files) (\<lambda>_. True) rest"
    unfolding rest_def childrenOf_def
    by (intro behaves_rules up when_in_reads reads_allowed [OF afterItemWrite_reads] reads_allowed [OF reloadChildren_reads]
        reads_allowed [OF GET_reads])
  moreover have "uploadFiles E files parent col s = (if files = [] then (s, Done []) else rest s)"
    using assms by (simp add: uploadFiles_def in_library_def run_simps rest_def)
  ultimately show "q \<in> set (sent as (uploadFiles E files parent col s)) \<Longrightarrow> sends_allowed lid ?limit files q"
    using sent_behaves by (auto split: if_splits)
qed

text \<open>A file larger than the server takes is never sent: every request of an upload that is not
  a reading one carries one of the files, and that file is within the limit of the library.\<close>

theorem oversize_never_sent:
  assumes "libraryId s = Some lid" "library s = Some l"
    and "q \<in> set (sent as (uploadFiles E files parent col s))" "verb q \<noteq> ''GET''"
  shows "\<exists>f\<in>set files. fileSize f \<le> maxUploadBytes l \<and> path q = lib_path lid ''/attachments'' \<and>
    hd (query q) = (''filename'', fileName f)"
proof -
  from uploadFiles_sends [OF assms(1,3)] assms(2,4) obtain f ttl p c where
    f: "f \<in> set files" "\<not> too_large (Some (maxUploadBytes l)) f" and q: "q = upload_call lid f ttl p c"
    by (auto simp: sends_allowed_def reads_def)
  show ?thesis by (rule bexI [OF _ f(1)]) (use f(2) in \<open>simp add: q upload_call_def file_params_def too_large_def\<close>)
qed

theorem oversize_never_sent_witness:
  "\<forall>E. let f = \<lparr>fileName = ''a.pdf'', fileSize = 9, fileType = ''application/pdf'', lastModified = 0\<rparr>;
       g = f\<lparr>fileName := ''b.pdf'', fileSize := 11\<rparr>;
       s = initial\<lparr>libraryId := Some 7, libraries := [\<lparr>libId = 7, libType = ''user'', libOwner = 1, libName = ''x'',
             libVersion = 1, libWritable = True, libPermission = Inherit, libFilesEditable = True, maxUploadBytes = 10\<rparr>]\<rparr>
   in hd (query (hd (sent [] (uploadFiles E [g, f] None None s)))) = (''filename'', ''a.pdf'')"
proof -
  have "let f = \<lparr>fileName = ''a.pdf'', fileSize = 9, fileType = ''application/pdf'', lastModified = 0\<rparr>;
       g = f\<lparr>fileName := ''b.pdf'', fileSize := 11\<rparr>;
       s = initial\<lparr>libraryId := Some 7, libraries := [\<lparr>libId = 7, libType = ''user'', libOwner = 1, libName = ''x'',
             libVersion = 1, libWritable = True, libPermission = Inherit, libFilesEditable = True, maxUploadBytes = 10\<rparr>]\<rparr>
   in hd (query (hd (sent [] (uploadFiles E [g, f] None None s)))) = (''filename'', ''a.pdf'')" for E
  proof -
    let ?f = "\<lparr>fileName = ''a.pdf'', fileSize = 9, fileType = ''application/pdf'', lastModified = 0\<rparr>"
    let ?g = "?f\<lparr>fileName := ''b.pdf'', fileSize := 11\<rparr>"
    let ?l = "\<lparr>libId = 7, libType = ''user'', libOwner = 1, libName = ''x'', libVersion = 1, libWritable = True,
        libPermission = Inherit, libFilesEditable = True, maxUploadBytes = 10\<rparr>"
    let ?s = "initial\<lparr>libraryId := Some 7, libraries := [?l]\<rparr>"
    have l: "library ?s = Some ?l" by (simp add: library_def)
    have q: "sent [] (uploadFiles E [?g, ?f] None None ?s) = [upload_call 7 ?f None None None]"
      using l by (simp add: uploadFiles_def in_library_def run_simps given_def bind_eq attachmentTitles_def too_large_def
          track_file_def track_def track_begin_def try_catch_eq req_def run_await Let_def)
    have "verb (upload_call 7 ?f None None None) \<noteq> ''GET''" by (simp add: upload_call_def)
    from oversize_never_sent [OF _ l _ this, of 7 "[]" E "[?g, ?f]" None None] q show ?thesis by (simp add: Let_def)
  qed
  then show ?thesis by blast
qed

end
