(* ===== verification/LibraryView.thy ===== *)
theory LibraryView
  imports LibraryProps
begin

text \<open>
  What the three panes of the library show: the selection and the item open for it, the rows a
  range picks out, the rows read again when the library changed elsewhere, and which controls
  the reader is offered.
\<close>

section \<open>The pane follows the selection\<close>

lemma openItem_view:
  "selected (fst (openItem it s)) = it" "selection (fst (openItem it s)) = selection s"
  "items (fst (openItem it s)) = items s" "anchor (fst (openItem it s)) = anchor s"
  by (simp_all add: openItem_def async_simps req_def begin_children_def split: option.splits)

lemma selectionKeys_openItem [simp]: "selectionKeys (fst (openItem it s)) = selectionKeys s"
  by (simp add: selectionKeys_def selectedItems_def openItem_view)

definition pane_follows :: "lib \<Rightarrow> bool" where
  "pane_follows s \<longleftrightarrow> (\<forall>i. selected s = Some i \<longrightarrow> selectionKeys s = [itemKey i])"

lemma followSelection_pane: "pane_follows (fst (followSelection s))"
proof (cases "selectionKeys s")
  case (Cons k ks)
  show ?thesis
  proof (cases ks)
    case Nil
    then have keys: "selectionKeys s = [k]" using Cons by simp
    have "k \<in> itemKey ` set (items s)"
      using arg_cong [OF keys, of set] by (auto simp: selectionKeys_def selectedItems_def)
    then obtain i where "List.find (\<lambda>e. itemKey e = k) (items s) = Some i" "itemKey i = k"
      by (cases "List.find (\<lambda>e. itemKey e = k) (items s)") (auto dest: find_Some_mem simp: find_None_iff)
    with keys show ?thesis
      by (auto simp: pane_follows_def followSelection_def run_simps openItem_view open_key_def split: if_splits option.splits)
  qed (simp add: Cons followSelection_def run_simps pane_follows_def openItem_view)
qed (simp add: followSelection_def run_simps pane_follows_def openItem_view)

lemma filter_key: "distinct (map itemKey is) \<Longrightarrow> i \<in> set is \<Longrightarrow> filter (\<lambda>e. itemKey e = itemKey i) is = [i]"
proof (induction "is")
  case (Cons a "is")
  show ?case
  proof (cases "a = i")
    case True
    have "\<forall>x\<in>set is. itemKey x \<noteq> itemKey a" using Cons.prems(1) by (metis distinct.simps(2) image_eqI list.set_map list.simps(9))
    with True show ?thesis by (auto simp: filter_empty_conv)
  next
    case False
    then have "itemKey a \<noteq> itemKey i" using Cons.prems by auto
    with False Cons show ?thesis by simp
  qed
qed simp

lemma inspectItem_pane:
  "distinct (map itemKey (items s)) \<Longrightarrow> case it of None \<Rightarrow> True | Some i \<Rightarrow> i \<in> set (items s) \<Longrightarrow> pane_follows (fst (inspectItem it s))"
  by (auto simp: pane_follows_def inspectItem_def async_simps openItem_view selectionKeys_def selectedItems_def filter_key
      split: option.splits)

lemma select_pane:
  "distinct (map itemKey (items s)) \<Longrightarrow> case it of None \<Rightarrow> True | Some i \<Rightarrow> i \<in> set (items s) \<Longrightarrow> pane_follows (fst (select it s))"
  using inspectItem_pane [of s it]
  by (auto simp: select_def run_simps bind_eq pane_follows_def openItem_view split: option.splits)

lemma after_modify: "fst (seq (modify f) m s) = fst (m (f s))"
  by (simp add: run_simps bind_eq)

lemma first_of_mem: "case first_of g s of None \<Rightarrow> True | Some i \<Rightarrow> i \<in> set (items s)"
  by (auto simp: first_of_def dest: find_Some_mem split: list.splits option.splits)

text \<open>C8: Right after any click in the list -- on a row, with the modifier that adds or removes it, with
  the one that extends a range, on select all or on clear -- an item open in the detail pane is
  the one row of the selection.\<close>

theorem pane_shows_the_one_row:
  assumes "distinct (map itemKey (items s))" "item \<in> set (items s)"
    and "m \<in> {select (Some item), inspectItem (Some item), toggleSelected item, extendSelection item, selectAll, clearSelection}"
    and "selected (fst (m s)) = Some i"
  shows "selectionKeys (fst (m s)) = [itemKey i]"
proof -
  have sel: "pane_follows (fst (select (Some item) s))" using select_pane [of s "Some item"] assms(1,2) by simp
  have "pane_follows (fst (toggleSelected item s))"
    using sel followSelection_pane by (simp add: toggleSelected_def run_simps(4) after_modify)
  moreover have "pane_follows (fst (extendSelection item s))"
  proof -
    have "find_index (\<lambda>e. itemKey e = itemKey item) (items s) \<noteq> None" using assms(2) by (auto simp: find_index_None)
    then show ?thesis
      using sel followSelection_pane by (auto simp: extendSelection_def run_simps(4) after_modify split: option.splits)
  qed
  moreover have "pane_follows (fst (selectAll s))"
    using select_pane [OF assms(1) first_of_mem] followSelection_pane
    by (simp add: selectAll_def run_simps(4) after_modify)
  moreover have "pane_follows (fst (clearSelection s))"
    by (simp add: clearSelection_def after_modify pane_follows_def openItem_view)
  ultimately have "pane_follows (fst (m s))"
    using assms(3) sel inspectItem_pane [of s "Some item"] assms(1,2) by auto
  with assms(4) show ?thesis by (simp add: pane_follows_def)
qed

theorem pane_shows_the_one_row_witness:
  "let a = \<lparr>itemKey = ''AAAAAAAA'', itemVersion = 3, data = [], meta = \<lparr>numChildren = 0, createdByUser = None\<rparr>\<rparr>;
       b = a\<lparr>itemKey := ''BBBBBBBB''\<rparr>; s = initial\<lparr>items := [a, b]\<rparr>
   in selected (fst (select (Some b) s)) = Some b \<and> selectionKeys (fst (select (Some b) s)) = [''BBBBBBBB'']"
proof -
  let ?a = "\<lparr>itemKey = ''AAAAAAAA'', itemVersion = 3, data = [], meta = \<lparr>numChildren = 0, createdByUser = None\<rparr>\<rparr>"
  let ?b = "?a\<lparr>itemKey := ''BBBBBBBB''\<rparr>"
  let ?s = "initial\<lparr>items := [?a, ?b]\<rparr>"
  have sel: "selected (fst (select (Some ?b) ?s)) = Some ?b"
    by (simp add: select_def inspectItem_def run_simps bind_eq openItem_view initial_def)
  from pane_shows_the_one_row [of ?s ?b "select (Some ?b)" ?b] sel show ?thesis by (simp add: Let_def)
qed

section \<open>Ranges\<close>

lemma filter_middle:
  assumes d: "distinct (map f (a @ m @ b))"
  shows "filter (\<lambda>x. f x \<in> f ` set m) (a @ m @ b) = m"
proof -
  have "filter (\<lambda>x. f x \<in> f ` set m) a = []" "filter (\<lambda>x. f x \<in> f ` set m) b = []"
    using d by (auto simp: filter_empty_conv)
  moreover have "filter (\<lambda>x. f x \<in> f ` set m) m = m" by (simp add: filter_id_conv)
  ultimately show ?thesis by simp
qed

lemma filter_slice:
  assumes "distinct (map f xs)" "i \<le> j"
  shows "filter (\<lambda>x. f x \<in> set (map f (slice i j xs))) xs = slice i j xs"
proof -
  have "drop i xs = take (j - i) (drop i xs) @ drop j xs"
    using append_take_drop_id [of "j - i" "drop i xs"] assms(2) by simp
  then have xs: "take i xs @ slice i j xs @ drop j xs = xs"
    unfolding slice_def using append_take_drop_id [of i xs] by simp
  from filter_middle [of f "take i xs" "slice i j xs" "drop j xs"] assms(1) show ?thesis by (simp add: xs)
qed

lemma followSelection_rows: "selectedItems (fst (followSelection s)) = selectedItems s"
  by (auto simp: followSelection_def run_simps selectedItems_def openItem_view)

text \<open>Extending the selection picks out exactly the rows from the anchor to the row clicked, both
  of them and everything between, whichever comes first; the anchor stays where it is, so the
  next click measures from the same row.\<close>

theorem extendSelection_range:
  assumes "distinct (map itemKey (items s))" "i < length (items s)" "j < length (items s)"
    and "anchor s = Some (itemKey (items s ! i))"
  shows "selectedItems (fst (extendSelection (items s ! j) s)) = slice (min i j) (max i j + 1) (items s) \<and>
    anchor (fst (extendSelection (items s ! j) s)) = anchor s"
proof -
  have idx: "find_index (\<lambda>e. itemKey e = itemKey (items s ! n)) (items s) = Some n" if "n < length (items s)" for n
  proof (cases "find_index (\<lambda>e. itemKey e = itemKey (items s ! n)) (items s)")
    case None
    with that show ?thesis by (auto simp: find_index_None)
  next
    case (Some m)
    with find_index_Some [OF this] that nth_eq_iff_index_eq [OF assms(1), of m n] show ?thesis by simp
  qed
  let ?t = "s\<lparr>selection := map itemKey (slice (min i j) (max i j + 1) (items s))\<rparr>"
  have e: "fst (extendSelection (items s ! j) s) = fst (followSelection ?t)"
    unfolding extendSelection_def run_simps(4) assms(4) option.inject idx [OF assms(2)] idx [OF assms(3)]
      prod.case option.case after_modify ..
  have "selectedItems ?t = slice (min i j) (max i j + 1) (items s)"
    using filter_slice [OF assms(1), of "min i j" "max i j + 1"] assms(2,3) by (simp add: selectedItems_def)
  moreover have "anchor (fst (followSelection ?t)) = anchor s"
    by (auto simp: followSelection_def run_simps openItem_view)
  ultimately show ?thesis by (simp add: e followSelection_rows)
qed

theorem extendSelection_range_witness:
  "let it = (\<lambda>k. \<lparr>itemKey = k, itemVersion = 3, data = [], meta = \<lparr>numChildren = 0, createdByUser = None\<rparr>\<rparr>);
       s = initial\<lparr>items := [it ''A'', it ''B'', it ''C''], anchor := Some ''C''\<rparr>
   in selectedItems (fst (extendSelection (it ''B'') s)) = [it ''B'', it ''C'']"
proof -
  let ?it = "\<lambda>k. \<lparr>itemKey = k, itemVersion = 3, data = [], meta = \<lparr>numChildren = 0, createdByUser = None\<rparr>\<rparr>"
  let ?s = "initial\<lparr>items := [?it ''A'', ?it ''B'', ?it ''C''], anchor := Some ''C''\<rparr>"
  have s: "distinct (map itemKey (items ?s))" "2 < length (items ?s)" "1 < length (items ?s)"
    "anchor ?s = Some (itemKey (items ?s ! 2))" "items ?s ! 1 = ?it ''B''"
    "slice (min 2 1) (max 2 1 + 1) (items ?s) = [?it ''B'', ?it ''C'']" by (simp_all add: slice_def)
  from extendSelection_range [OF s(1-4), THEN conjunct1] show ?thesis unfolding s(5,6) Let_def .
qed

section \<open>Controls\<close>

text \<open>Who is offered what: nothing is changeable in a library that cannot be written; a member who
  may only add can take nothing away; one restricted to their own items can change and remove
  exactly those they added, so not an item nobody is recorded as having added; everybody else
  who may write can change and remove every item.\<close>

theorem offered_controls:
  "changeable s item = (writable s \<and> (permission s = Own \<longrightarrow> createdByUser (meta item) \<noteq> None \<and> createdByUser (meta item) = viewerId s)) \<and>
   removable s item = (changeable s item \<and> permission s \<noteq> Add) \<and>
   (selectionRemovable s \<longrightarrow> selectionChangeable s)"
  by (auto simp: changeable_def removable_def selectionRemovable_def selectionChangeable_def list_all_iff split: option.splits if_splits)

theorem offered_controls_witness:
  "let s = initial\<lparr>libraryId := Some 7, viewerId := Some 1, libraries := [\<lparr>libId = 7, libType = ''group'', libOwner = 1, libName = ''x'',
             libVersion = 1, libWritable = True, libPermission = Own, libFilesEditable = True, maxUploadBytes = 10\<rparr>]\<rparr>;
       it = \<lparr>itemKey = ''A'', itemVersion = 3, data = [], meta = \<lparr>numChildren = 0, createdByUser = None\<rparr>\<rparr>
   in \<not> changeable s it \<and> removable s (it\<lparr>meta := \<lparr>numChildren = 0, createdByUser = Some 1\<rparr>\<rparr>)"
  unfolding Let_def using offered_controls
  by (simp add: offered_controls writable_def permission_def library_def)

section \<open>Catching up\<close>

text \<open>A server that holds the rows \<open>L\<close> of the view, asked for the page at \<open>at\<close>.\<close>

definition page_of :: "payload \<Rightarrow> ItemEnvelope list \<Rightarrow> nat \<Rightarrow> nat \<Rightarrow> answer" where
  "page_of p L wanted at = Inr (p\<lparr>pItems := take (min RELATED_BATCH (wanted - at)) (drop at L), pTotal := length L\<rparr>)"

lemma catch_up_step:
  "at < wanted \<Longrightarrow> feed (page_of p L wanted at # as) (catch_up_pages lid wanted at rows n s) =
     (let page = take (min RELATED_BATCH (wanted - at)) (drop at L)
      in if length page < RELATED_BATCH then (s, Done (rows @ page, length L))
         else feed as (catch_up_pages lid wanted (at + RELATED_BATCH) (rows @ page) (length L) s))"
  by (subst catch_up_pages.simps) (simp add: run_simps feed_req page_of_def Let_def)

lemma catch_up_rows:
  "at \<le> wanted \<Longrightarrow> (wanted - at + 99) div 100 \<le> k \<Longrightarrow>
   feed (map (\<lambda>i. page_of p L wanted (at + 100 * i)) [0..<k]) (catch_up_pages lid wanted at (take at L) n s)
     = (s, Done (take wanted L, if at < wanted then length L else n))"
proof (induction k arbitrary: at n)
  case 0
  then have "at = wanted" by simp
  then show ?case by (simp add: catch_up_pages.simps run_simps)
next
  case (Suc k)
  show ?case
  proof (cases "at < wanted")
    case False
    with Suc.prems show ?thesis by (simp add: catch_up_pages.simps run_simps)
  next
    case True
    let ?page = "take (min RELATED_BATCH (wanted - at)) (drop at L)"
    have upt: "map f [0..<Suc k] = f 0 # map (\<lambda>i. f (Suc i)) [0..<k]" for f :: "nat \<Rightarrow> answer"
      by (simp add: upt_conv_Cons flip: map_Suc_upt del: upt_Suc)
    have rows: "take at L @ ?page = take (at + min RELATED_BATCH (wanted - at)) L" by (simp add: take_add)
    show ?thesis
    proof (cases "length ?page < RELATED_BATCH")
      case short: True
      have "take at L @ ?page = take wanted L"
      proof (cases "wanted - at < RELATED_BATCH")
        case False
        with short have "length L < at + RELATED_BATCH" by auto
        with False rows \<open>at < wanted\<close> show ?thesis by simp
      qed (use \<open>at < wanted\<close> rows in simp)
      with True short show ?thesis by (simp add: upt catch_up_step del: upt_Suc)
    next
      case long: False
      then have full: "RELATED_BATCH \<le> wanted - at" "RELATED_BATCH \<le> length L - at" by auto
      then have rows: "take at L @ ?page = take (at + RELATED_BATCH) L" using rows by simp
      have "feed (map (\<lambda>i. page_of p L wanted (at + RELATED_BATCH + 100 * i)) [0..<k])
          (catch_up_pages lid wanted (at + RELATED_BATCH) (take (at + RELATED_BATCH) L) (length L) s) = (s, Done (take wanted L, length L))"
        using Suc.IH [of "at + RELATED_BATCH" "length L"] Suc.prems full True by (simp add: RELATED_BATCH_def)
      with True long rows show ?thesis
        by (simp add: upt catch_up_step RELATED_BATCH_def algebra_simps del: upt_Suc)
    qed
  qed
qed

text \<open>When the library changed elsewhere, the rows read again are those shown, not the first page:
  however many pages of a hundred that takes, against a server that holds the rows \<open>L\<close> of the
  view the reading ends with as many of them as were on the screen, and at least one page.\<close>

theorem catch_up_reads_what_is_shown:
  "feed (map (\<lambda>i. page_of p L (max (length (items s)) PAGE_SIZE) (100 * i)) [0..<(max (length (items s)) PAGE_SIZE + 99) div 100])
     (catch_up_pages lid (max (length (items s)) PAGE_SIZE) 0 [] n s)
     = (s, Done (take (max (length (items s)) PAGE_SIZE) L, length L))"
  using catch_up_rows [of 0 "max (length (items s)) PAGE_SIZE" _ p L lid n s] by (simp add: PAGE_SIZE_def)

text \<open>The groups of the duplicates view, which the selection goes by, are not among what is read.\<close>

definition same_groups :: "lib \<Rightarrow> lib \<Rightarrow> bool" where
  "same_groups s t \<longleftrightarrow> duplicateGroups t = duplicateGroups s \<and> totalGroups t = totalGroups s"

lemma groups_order: "preorder_rel same_groups"
  by (auto simp: preorder_rel_def same_groups_def)

lemmas group_rules = stretches_ret [OF groups_order] stretches_await [OF groups_order] stretches_bind [OF groups_order]
  stretches_catch [OF groups_order] stretches_both [OF groups_order] stretches_void [OF groups_order]
  stretches_seq [OF groups_order] stretch_shape stretches_modify

lemma groups_put [simp]: "duplicateGroups (put i s) = duplicateGroups s" "totalGroups (put i s) = totalGroups s"
  by (simp_all add: put_def seen_def Let_def)

lemma catch_up_pages_groups: "stretches same_groups (catch_up_pages lid wanted at rows n)"
proof (induction lid wanted at rows n rule: catch_up_pages.induct)
  case (1 lid wanted at rows n)
  show ?case
    by (subst catch_up_pages.simps) (unfold req_def, intro group_rules, erule (1) 1)
qed

lemma catchUp_groups: "stretches same_groups (catchUp E version)"
  unfolding catchUp_def in_library_def catchUpSelected_def loadTags_def loadCollections_def req_def
  by (intro group_rules catch_up_pages_groups)
    (simp_all add: same_groups_def take_rows_def seen_def Let_def)

text \<open>Catching up while the duplicates are shown replaces the rows but never the groups they were
  in, nor their number, which clicking a row and \<open>hasMore\<close> go by.\<close>

theorem catchUp_keeps_stale_groups:
  "duplicateGroups (fst (feed as (catchUp E version s))) = duplicateGroups s \<and>
   totalGroups (fst (feed as (catchUp E version s))) = totalGroups s"
  using feed_stretches [OF groups_order catchUp_groups, of s as E version] by (simp add: same_groups_def)

end
