(* ===== verification/Passkeys.thy ===== *)
theory Passkeys
  imports Async
begin

text \<open>
  The browser half of a passkey ceremony, web/src/passkeys.ts: base64url and bytes, what is
  decoded for the authenticator and encoded for the server, and the three ceremonies.  The
  browser's \<open>btoa\<close> and \<open>atob\<close> are written out here as the HTML standard has them; the
  authenticator itself is asked through a request of its own, so what it answers is open.
  A byte is a character of the binary string the source builds.
\<close>

section \<open>Base64\<close>

definition B64 :: string where
  "B64 = ''ABCDEFGHIJKLMNOPQRSTUVWXYZabcdefghijklmnopqrstuvwxyz0123456789+/''"

definition b64_char :: "nat \<Rightarrow> char" where
  "b64_char n = B64 ! n"

definition b64_val :: "char \<Rightarrow> nat option" where
  "b64_val c = find_index (\<lambda>d. d = c) B64"

abbreviation byte :: "char \<Rightarrow> nat" where
  "byte c \<equiv> of_char c"

text \<open>\<open>btoa\<close>: three bytes are four characters; one or two at the end are padded.\<close>

fun btoa :: "string \<Rightarrow> string" where
  "btoa [] = []"
| "btoa [a] = [b64_char (byte a div 4), b64_char (byte a mod 4 * 16), CHR ''='', CHR ''='']"
| "btoa [a, b] = [b64_char (byte a div 4), b64_char (byte a mod 4 * 16 + byte b div 16),
     b64_char (byte b mod 16 * 4), CHR ''='']"
| "btoa (a # b # c # s) = b64_char (byte a div 4) # b64_char (byte a mod 4 * 16 + byte b div 16)
     # b64_char (byte b mod 16 * 4 + byte c div 64) # b64_char (byte c mod 64) # btoa s"

text \<open>\<open>atob\<close>, on text without white space: the padding of a full group is dropped, any other
  character outside the alphabet is an error, and so is a single character left over; bits that
  do not make a byte are dropped.\<close>

definition drop_padding :: "string \<Rightarrow> string" where
  "drop_padding s =
     (if length s mod 4 = 0 \<and> s \<noteq> [] \<and> last s = CHR ''=''
      then (let t = butlast s in if t \<noteq> [] \<and> last t = CHR ''='' then butlast t else t)
      else s)"

fun sextets :: "string \<Rightarrow> nat list option" where
  "sextets [] = Some []"
| "sextets (c # s) = (case (b64_val c, sextets s) of (Some n, Some ns) \<Rightarrow> Some (n # ns) | _ \<Rightarrow> None)"

fun bytes_of :: "nat list \<Rightarrow> string option" where
  "bytes_of [] = Some []"
| "bytes_of [w] = None"
| "bytes_of [w, x] = Some [char_of (w * 4 + x div 16)]"
| "bytes_of [w, x, y] = Some [char_of (w * 4 + x div 16), char_of (x mod 16 * 16 + y div 4)]"
| "bytes_of (w # x # y # z # ns) = map_option
     (\<lambda>s. char_of (w * 4 + x div 16) # char_of (x mod 16 * 16 + y div 4) # char_of (y mod 4 * 64 + z) # s) (bytes_of ns)"

definition atob :: "string \<Rightarrow> string option" where
  "atob s = (case sextets (drop_padding s) of None \<Rightarrow> None | Some ns \<Rightarrow> bytes_of ns)"

section \<open>Base64url\<close>

definition replace_char :: "char \<Rightarrow> char \<Rightarrow> string \<Rightarrow> string" where
  "replace_char a b s = map (\<lambda>c. if c = a then b else c) s"

definition toBytes :: "string \<Rightarrow> string option" where
  "toBytes value =
     (let padded = replace_char (CHR ''_'') (CHR ''/'') (replace_char (CHR ''-'') (CHR ''+'') value)
      in atob (padded @ replicate ((4 - length padded mod 4) mod 4) (CHR ''='')))"

definition toBase64Url :: "string \<Rightarrow> string" where
  "toBase64Url bytes =
     rev (dropWhile (\<lambda>c. c = CHR ''='')
       (rev (replace_char (CHR ''/'') (CHR ''_'') (replace_char (CHR ''+'') (CHR ''-'') (btoa bytes)))))"

section \<open>The alphabet\<close>

lemma b64_chars: "\<forall>n<64. b64_val (b64_char n) = Some n \<and> b64_char n \<noteq> CHR ''='' \<and> b64_char n \<noteq> CHR ''-'' \<and> b64_char n \<noteq> CHR ''_''"
proof -
  have "\<forall>n\<in>set [0..<64]. b64_val (b64_char n) = Some n \<and> b64_char n \<noteq> CHR ''='' \<and> b64_char n \<noteq> CHR ''-'' \<and> b64_char n \<noteq> CHR ''_''"
    by code_simp
  then show ?thesis by simp
qed

text \<open>One character of base64url, as \<open>toBase64Url\<close> writes it and \<open>toBytes\<close> reads it.\<close>

definition url_char :: "nat \<Rightarrow> char" where
  "url_char n = (let c = b64_char n in if c = CHR ''+'' then CHR ''-'' else if c = CHR ''/'' then CHR ''_'' else c)"

lemma url_char_props:
  assumes "n < 64"
  shows "url_char n \<noteq> CHR ''=''"
    and "(if (if url_char n = CHR ''-'' then CHR ''+'' else url_char n) = CHR ''_'' then CHR ''/''
          else if url_char n = CHR ''-'' then CHR ''+'' else url_char n) = b64_char n"
  using b64_chars assms by (auto simp: url_char_def Let_def)

lemma url_char_spec:
  "n < 64 \<Longrightarrow> (if (if b64_char n = CHR ''+'' then CHR ''-'' else b64_char n) = CHR ''/'' then CHR ''_''
          else if b64_char n = CHR ''+'' then CHR ''-'' else b64_char n) = url_char n"
  by (simp add: url_char_def Let_def)

text \<open>The sextets of a byte string, without padding.\<close>

fun split_bytes :: "string \<Rightarrow> nat list" where
  "split_bytes [] = []"
| "split_bytes [a] = [byte a div 4, byte a mod 4 * 16]"
| "split_bytes [a, b] = [byte a div 4, byte a mod 4 * 16 + byte b div 16, byte b mod 16 * 4]"
| "split_bytes (a # b # c # s) = byte a div 4 # (byte a mod 4 * 16 + byte b div 16)
     # (byte b mod 16 * 4 + byte c div 64) # byte c mod 64 # split_bytes s"

lemma byte_less [simp]: "byte c < 256"
  using of_char_mod_256 [of c] by (metis mod_less_divisor zero_less_numeral)

lemma split_bytes_less: "n \<in> set (split_bytes s) \<Longrightarrow> n < 64"
proof (induction s rule: split_bytes.induct)
  case (2 a)
  then show ?case using byte_less [of a] by (auto simp del: byte_less)
next
  case (3 a b)
  then show ?case using byte_less [of a] byte_less [of b] by (auto simp del: byte_less)
next
  case (4 a b c s)
  then show ?case using byte_less [of a] byte_less [of b] byte_less [of c] by (auto simp del: byte_less)
qed simp

definition padding :: "string \<Rightarrow> nat" where
  "padding s = (3 - length s mod 3) mod 3"

lemma btoa_split: "btoa s = map b64_char (split_bytes s) @ replicate (padding s) (CHR ''='')"
proof (induction s rule: btoa.induct)
  case (4 a b c s)
  have "padding (a # b # c # s) = padding s" by (simp add: padding_def mod_Suc)
  with 4 show ?case by simp
qed (simp_all add: padding_def numeral_2_eq_2)

lemma char_split: "char_of (byte a div 4 * 4 + byte a mod 4) = a"
  by (metis char_of_char div_mult_mod_eq)

lemma low_digit:
  "(q :: nat) < 16 \<Longrightarrow> (x * 16 + q) div 16 = x" "(q :: nat) < 16 \<Longrightarrow> (x * 16 + q) mod 16 = q"
  "(r :: nat) < 4 \<Longrightarrow> (x * 4 + r) div 4 = x" "(r :: nat) < 4 \<Longrightarrow> (x * 4 + r) mod 4 = r"
  by simp_all

lemma high_digit: "(b :: nat) < 256 \<Longrightarrow> b div 16 < 16" "(b :: nat) < 256 \<Longrightarrow> b div 64 < 4"
  by (simp_all add: less_mult_imp_div_less)

lemma first_byte: "(b :: nat) < 256 \<Longrightarrow> a div 4 * 4 + (a mod 4 * 16 + b div 16) div 16 = a"
  by (simp only: low_digit high_digit div_mult_mod_eq)

lemma second_byte: "(b :: nat) < 256 \<Longrightarrow> c < 256 \<Longrightarrow> (x * 16 + b div 16) mod 16 * 16 + (b mod 16 * 4 + c div 64) div 4 = b"
  by (simp only: low_digit high_digit div_mult_mod_eq)

lemma last_byte: "(b :: nat) < 256 \<Longrightarrow> (x * 16 + b div 16) mod 16 * 16 + (b mod 16 * 4) div 4 = b"
  by (simp only: low_digit high_digit div_mult_mod_eq nonzero_mult_div_cancel_right)

lemma third_byte: "(c :: nat) < 256 \<Longrightarrow> (x * 4 + c div 64) mod 4 * 64 + c mod 64 = c"
  by (simp only: low_digit high_digit div_mult_mod_eq)

lemma bytes_of_split: "bytes_of (split_bytes s) = Some s"
proof (induction s rule: split_bytes.induct)
  case (3 a b)
  show ?case
    by (simp only: split_bytes.simps bytes_of.simps first_byte last_byte byte_less char_of_char)
next
  case (4 a b c s)
  have a: "byte a div 4 * 4 + (byte a mod 4 * 16 + byte b div 16) div 16 = byte a"
    by (rule first_byte) simp
  have b: "(byte a mod 4 * 16 + byte b div 16) mod 16 * 16 + (byte b mod 16 * 4 + byte c div 64) div 4 = byte b"
    by (rule second_byte) simp_all
  have c: "(byte b mod 16 * 4 + byte c div 64) mod 4 * 64 + byte c mod 64 = byte c"
    by (rule third_byte) simp
  from 4 show ?case by (simp only: split_bytes.simps bytes_of.simps a b c option.map char_of_char)
qed simp_all

lemma length_split_bytes: "length (split_bytes s) mod 4 = (if length s mod 3 = 0 then 0 else length s mod 3 + 1)"
  by (induction s rule: split_bytes.induct) (auto simp: mod_Suc)

lemma sextets_map: "(\<And>n. n \<in> set ns \<Longrightarrow> n < 64) \<Longrightarrow> sextets (map b64_char ns) = Some ns"
  by (induction ns) (use b64_chars in auto)

lemma drop_padding_added:
  assumes "(length s + k) mod 4 = 0" "k \<le> 2" "s = [] \<or> last s \<noteq> CHR ''=''"
  shows "drop_padding (s @ replicate k (CHR ''='')) = s"
proof -
  consider "k = 0" | "k = 1" | "k = 2" using assms(2) by linarith
  then show ?thesis using assms by cases (auto simp: drop_padding_def numeral_2_eq_2 butlast_append Let_def)
qed

section \<open>Round trip\<close>

lemma toBase64Url_split: "toBase64Url s = map url_char (split_bytes s)"
proof -
  have "replace_char (CHR ''/'') (CHR ''_'') (replace_char (CHR ''+'') (CHR ''-'') (btoa s))
      = map url_char (split_bytes s) @ replicate (padding s) (CHR ''='')"
    using split_bytes_less [of _ s] by (simp add: btoa_split replace_char_def url_char_def Let_def)
  moreover have "dropWhile (\<lambda>c. c = CHR ''='') (rev (map url_char (split_bytes s))) = rev (map url_char (split_bytes s))"
    using split_bytes_less [of _ s] url_char_props(1) by (auto simp: dropWhile_eq_self_iff hd_rev last_map)
  ultimately show ?thesis by (simp add: toBase64Url_def dropWhile_append)
qed

text \<open>Every byte string the authenticator gives survives the way to the server and back: its
  base64url text is made of letters, digits, \<open>-\<close> and \<open>_\<close> only, has no padding, and decodes to
  the same bytes.\<close>

theorem base64url_roundtrip:
  "toBytes (toBase64Url bytes) = Some bytes \<and>
   set (toBase64Url bytes) \<inter> {CHR ''+'', CHR ''/'', CHR ''=''} = {}"
proof -
  have u: "set (toBase64Url bytes) \<subseteq> url_char ` {..<64}"
    using split_bytes_less by (auto simp: toBase64Url_split)
  have "\<forall>n\<in>set [0..<64]. url_char n \<notin> {CHR ''+'', CHR ''/'', CHR ''=''}" by code_simp
  then have safe: "set (toBase64Url bytes) \<inter> {CHR ''+'', CHR ''/'', CHR ''=''} = {}" using u by fastforce
  let ?b = "map b64_char (split_bytes bytes)"
  have reads_back: "replace_char (CHR ''_'') (CHR ''/'') (replace_char (CHR ''-'') (CHR ''+'') (toBase64Url bytes)) = ?b"
    unfolding toBase64Url_split replace_char_def map_map
  proof (rule map_cong [OF refl])
    fix n assume "n \<in> set (split_bytes bytes)"
    then show "((\<lambda>c. if c = CHR ''_'' then CHR ''/'' else c) \<circ> ((\<lambda>c. if c = CHR ''-'' then CHR ''+'' else c) \<circ> url_char)) n = b64_char n"
      using url_char_props(2) split_bytes_less by (simp only: comp_apply)
  qed
  have m: "length ?b mod 4 = 0 \<or> length ?b mod 4 = 2 \<or> length ?b mod 4 = 3"
  proof -
    have "length bytes mod 3 < 3" by simp
    then consider "length bytes mod 3 = 0" | "length bytes mod 3 = 1" | "length bytes mod 3 = 2" by linarith
    then show ?thesis using length_split_bytes [of bytes] by cases simp_all
  qed
  then have "(4 - length ?b mod 4) mod 4 \<le> 2" by auto
  moreover have "(length ?b + (4 - length ?b mod 4) mod 4) mod 4 = (length ?b mod 4 + (4 - length ?b mod 4) mod 4) mod 4"
    by (simp only: mod_add_left_eq)
  with m have "(length ?b + (4 - length ?b mod 4) mod 4) mod 4 = 0" by auto
  ultimately have len: "(4 - length ?b mod 4) mod 4 \<le> 2" "(length ?b + (4 - length ?b mod 4) mod 4) mod 4 = 0" .
  have "?b = [] \<or> last ?b \<noteq> CHR ''=''"
    using b64_chars split_bytes_less [of "last (split_bytes bytes)" bytes] by (cases "split_bytes bytes = []") (auto simp: last_map)
  from drop_padding_added [OF len(2,1) this] have "atob (?b @ replicate ((4 - length ?b mod 4) mod 4) (CHR ''='')) = Some bytes"
    using sextets_map [of "split_bytes bytes"] split_bytes_less bytes_of_split by (simp add: atob_def)
  then have "toBytes (toBase64Url bytes) = Some bytes" unfolding toBytes_def Let_def reads_back .
  with safe show ?thesis by blast
qed

section \<open>Options and credentials\<close>

text \<open>
  The server's options with the byte-valued fields decoded: the object it sent, and beside it the
  decoded challenge, the decoded id of the user (for a new passkey) and of each credential named.
\<close>

record options =
  optRest :: object
  optChallenge :: string
  optUser :: "(object \<times> string) option"
  optCredentials :: "(object \<times> string) list"

definition bytes_prop :: "object \<Rightarrow> string \<Rightarrow> string option" where
  "bytes_prop obj name = (case get_prop obj name of Some (JStr v) \<Rightarrow> toBytes v | _ \<Rightarrow> None)"

fun decode_credentials :: "json list \<Rightarrow> (object \<times> string) list option" where
  "decode_credentials [] = Some []"
| "decode_credentials (JObj e # es) =
     (case (bytes_prop e ''id'', decode_credentials es) of (Some i, Some ds) \<Rightarrow> Some ((e, i) # ds) | _ \<Rightarrow> None)"
| "decode_credentials (_ # es) = None"

definition credentials_in :: "object \<Rightarrow> string \<Rightarrow> json list" where
  "credentials_in obj name = (case get_prop obj name of Some (JArr es) \<Rightarrow> es | _ \<Rightarrow> [])"

definition decodeCreationOptions :: "object \<Rightarrow> options option" where
  "decodeCreationOptions obj =
     (case (bytes_prop obj ''challenge'', get_prop obj ''user'', decode_credentials (credentials_in obj ''excludeCredentials'')) of
        (Some ch, Some (JObj u), Some cs) \<Rightarrow>
          (case bytes_prop u ''id'' of
             Some i \<Rightarrow> Some \<lparr>optRest = obj, optChallenge = ch, optUser = Some (u, i), optCredentials = cs\<rparr>
           | None \<Rightarrow> None)
      | _ \<Rightarrow> None)"

definition decodeRequestOptions :: "object \<Rightarrow> options option" where
  "decodeRequestOptions obj =
     (case (bytes_prop obj ''challenge'', decode_credentials (credentials_in obj ''allowCredentials'')) of
        (Some ch, Some cs) \<Rightarrow> Some \<lparr>optRest = obj, optChallenge = ch, optUser = None, optCredentials = cs\<rparr>
      | _ \<Rightarrow> None)"

record credential =
  credId :: string
  rawId :: string
  credType :: string
  clientDataJSON :: string
  attestationObject :: string
  transports :: "string list option"
  authenticatorData :: string
  signature :: string
  userHandle :: "string option"
  extensionResults :: json

definition encodeRegistration :: "credential \<Rightarrow> json" where
  "encodeRegistration c = JObj
     [(''id'', JStr (credId c)), (''rawId'', JStr (toBase64Url (rawId c))), (''type'', JStr (credType c)),
      (''response'', JObj
        [(''clientDataJSON'', JStr (toBase64Url (clientDataJSON c))),
         (''attestationObject'', JStr (toBase64Url (attestationObject c))),
         (''transports'', JArr (map JStr (case transports c of None \<Rightarrow> [] | Some ts \<Rightarrow> ts)))]),
      (''clientExtensionResults'', extensionResults c)]"

definition encodeAuthentication :: "credential \<Rightarrow> json" where
  "encodeAuthentication c = JObj
     [(''id'', JStr (credId c)), (''rawId'', JStr (toBase64Url (rawId c))), (''type'', JStr (credType c)),
      (''response'', JObj
        [(''clientDataJSON'', JStr (toBase64Url (clientDataJSON c))),
         (''authenticatorData'', JStr (toBase64Url (authenticatorData c))),
         (''signature'', JStr (toBase64Url (signature c))),
         (''userHandle'', case userHandle c of None \<Rightarrow> JNull | Some h \<Rightarrow> JStr (toBase64Url h))]),
      (''clientExtensionResults'', extensionResults c)]"

section \<open>Ceremonies\<close>

text \<open>What is waited for: the server, the browser's authenticator, or a promise that is shared: one
  somebody else has started and waits for too, under the name of its request.\<close>

datatype web_call = Http call | CreateCredential options | GetCredential options | Shared string

datatype rejected = Rejected thrown | NotAllowedError string

datatype web_error = Failed thrown | Cancelled string

record ceremony_payload =
  pOptions :: object
  pCredential :: "credential option"

type_synonym ('s, 'z, 'r) ceremony = "('s, web_call, rejected + 'z ceremony_payload_scheme, web_error, 'r) async"

definition plain_error :: "rejected \<Rightarrow> web_error" where
  "plain_error e = (case e of Rejected t \<Rightarrow> Failed t | NotAllowedError m \<Rightarrow> Failed (JsError m))"

definition http :: "('z ceremony_payload_scheme \<Rightarrow> 'r) \<Rightarrow> call \<Rightarrow> ('s, 'z, 'r) ceremony" where
  "http pick q = await plain_error pick (Http q)"

definition decode_error :: web_error where
  "decode_error = Failed (JsError ''The string to be decoded is not correctly encoded.'')"

text \<open>\<open>ask\<close>: a refusal of the browser and no credential are both a cancellation.\<close>

definition ask_error :: "rejected \<Rightarrow> web_error" where
  "ask_error e = (case e of Rejected t \<Rightarrow> Failed t | NotAllowedError m \<Rightarrow> Cancelled m)"

definition ask :: "(options \<Rightarrow> web_call) \<Rightarrow> options option \<Rightarrow> ('s, 'z, credential) ceremony" where
  "ask work opts =
     (case opts of
        None \<Rightarrow> throw decode_error
      | Some o' \<Rightarrow> bind (await ask_error pCredential (work o'))
          (\<lambda>c. case c of None \<Rightarrow> throw (Cancelled ''No passkey was produced'') | Some c \<Rightarrow> ret c))"

definition enrol :: "string \<Rightarrow> string \<Rightarrow> ('s, 'z, unit) ceremony" where
  "enrol name currentPassword =
     bind (http pOptions (send_call ''POST'' ''/web/account/passkeys/options'' (Some (JObj [(''currentPassword'', JStr currentPassword)]))))
       (\<lambda>opts. bind (ask CreateCredential (decodeCreationOptions opts))
         (\<lambda>c. http (\<lambda>_. ()) (send_call ''POST'' ''/web/account/passkeys''
                (Some (JObj [(''credential'', encodeRegistration c), (''name'', JStr name)])))))"

definition assertion :: "string \<Rightarrow> ('z ceremony_payload_scheme \<Rightarrow> 'r) \<Rightarrow> ('s, 'z, 'r) ceremony" where
  "assertion endpoint pick =
     bind (http pOptions (send_call ''POST'' ''/web/auth/passkey/options'' None))
       (\<lambda>opts. bind (ask GetCredential (decodeRequestOptions opts))
         (\<lambda>c. http pick (send_call ''POST'' endpoint (Some (JObj [(''credential'', encodeAuthentication c)])))))"

definition signIn :: "('z ceremony_payload_scheme \<Rightarrow> 'r) \<Rightarrow> ('s, 'z, 'r) ceremony" where
  "signIn pick = assertion ''/web/auth/passkey/verify'' pick"

definition satisfyFactor :: "('z ceremony_payload_scheme \<Rightarrow> 'r) \<Rightarrow> ('s, 'z, 'r) ceremony" where
  "satisfyFactor pick = assertion ''/web/auth/passkey/factor'' pick"

lemma feed_http: "feed (a # as) (bind (http pick q) f s) =
    (case a of Inl e \<Rightarrow> (s, Fail (plain_error e)) | Inr p \<Rightarrow> feed as (f (pick p) s))"
  by (simp add: http_def async_simps split: sum.splits)

text \<open>C20: A person who closes the prompt, or has no passkey, ends a sign-in as cancelled and nothing
  of it is sent: after the challenge the authenticator is asked, a refusal of the browser and the
  absence of a credential are \<open>Cancelled\<close>, any other failure is passed on as it is, and only a
  credential that was produced goes to the server, with its bytes as base64url.\<close>

theorem signIn_outcomes:
  assumes "decodeRequestOptions (pOptions p) = Some opts"
  shows "sent [Inr p, a] (signIn pick s) = [Http (send_call ''POST'' ''/web/auth/passkey/options'' None), GetCredential opts]
      @ (case a of Inr r \<Rightarrow> (case pCredential r of
            Some c \<Rightarrow> [Http (send_call ''POST'' ''/web/auth/passkey/verify'' (Some (JObj [(''credential'', encodeAuthentication c)])))]
          | None \<Rightarrow> []) | Inl _ \<Rightarrow> []) \<and>
    ((\<exists>m. snd (feed [Inr p, a] (signIn pick s)) = Fail (Cancelled m)) \<longleftrightarrow>
      (case a of Inl (NotAllowedError _) \<Rightarrow> True | Inl _ \<Rightarrow> False | Inr r \<Rightarrow> pCredential r = None)) \<and>
    (\<forall>t. snd (feed [Inr p, a] (signIn pick s)) = Fail (Failed t) \<longleftrightarrow> a = Inl (Rejected t))"
  using assms
  by (cases a) (auto simp: signIn_def assertion_def http_def ask_def ask_error_def async_simps split: rejected.splits option.splits)

theorem signIn_outcomes_witness:
  "(\<exists>m. snd (feed [Inr \<lparr>pOptions = [(''challenge'', JStr ''AQID'')], pCredential = None\<rparr>, Inl (NotAllowedError ''timed out'')]
     (signIn pOptions ())) = Fail (Cancelled m))"
proof -
  have "decodeRequestOptions (pOptions \<lparr>pOptions = [(''challenge'', JStr ''AQID'')], pCredential = None\<rparr>)
      = Some \<lparr>optRest = [(''challenge'', JStr ''AQID'')], optChallenge = the (toBytes ''AQID''), optUser = None, optCredentials = []\<rparr>"
    by code_simp
  from signIn_outcomes [OF this, of "Inl (NotAllowedError ''timed out'')" pOptions "()"] show ?thesis by simp
qed

end
