(* ===== verification/I18n.thy ===== *)
theory I18n
  imports Async
begin

text \<open>
  The interface's languages, web/src/i18n.ts, and the store of the reader's language and clock,
  web/src/stores/locale.ts.  What the browser decides is an argument: the plural category
  \<open>Intl.PluralRules\<close> selects, the script \<open>Intl.Locale\<close> reads out of a tag, the direction of a
  language.  The catalogues are generated when the program is built, so which are there
  is an argument too.  Property names every object inherits (\<open>constructor\<close>) are not tags and
  are left out of the tables.
\<close>

section \<open>Languages\<close>

definition LOCALES :: "string list" where
  "LOCALES =
    [''en-US'', ''en-GB'', ''de'', ''fr'', ''br'', ''es'', ''pt-BR'', ''pt-PT'', ''ca'', ''eu'', ''gl'',
     ''it'', ''nl'', ''af'', ''sw'', ''ha'', ''yo'', ''ar'', ''fa'', ''he-IL'', ''da'', ''nb'',
     ''nn'', ''sv'', ''is'', ''fi'', ''pl'', ''cs'', ''sk'', ''sl'', ''hr'', ''sr'', ''hu'', ''ro'',
     ''lt'', ''lv'', ''et'', ''ru'', ''uk'', ''bg'', ''el'', ''ka'', ''mn'', ''tr'', ''ur'', ''pa-Arab'', ''hi'', ''bn'', ''ta'', ''ml'', ''ja'', ''ko'', ''th'', ''km'', ''vi'', ''id'', ''tl'',
     ''zh-CN'', ''zh-TW'']"

definition isLocale :: "string \<Rightarrow> bool" where
  "isLocale v \<longleftrightarrow> v \<in> set LOCALES"

definition DEFAULT_VARIANTS :: "(string \<times> string option) list" where
  "DEFAULT_VARIANTS = [(''en'', Some ''en-US''), (''fil'', Some ''tl''), (''he'', Some ''he-IL''), (''no'', Some ''nb''),
     (''pa'', None), (''pt'', Some ''pt-BR''), (''zh'', Some ''zh-CN'')]"

definition VARIANT_SUBTAGS :: "(string \<times> (string \<times> string option) list) list" where
  "VARIANT_SUBTAGS =
    [(''en'', [(''us'', Some ''en-US''), (''au'', Some ''en-GB''), (''gb'', Some ''en-GB''), (''ie'', Some ''en-GB''),
       (''in'', Some ''en-GB''), (''nz'', Some ''en-GB''), (''uk'', Some ''en-GB''), (''za'', Some ''en-GB'')]),
     (''fil'', []), (''he'', []), (''no'', []),
     (''pa'', [(''arab'', Some ''pa-Arab''), (''guru'', None), (''pk'', Some ''pa-Arab'')]),
     (''pt'', [(''br'', Some ''pt-BR''), (''ao'', Some ''pt-PT''), (''cv'', Some ''pt-PT''), (''gw'', Some ''pt-PT''),
       (''mz'', Some ''pt-PT''), (''pt'', Some ''pt-PT''), (''st'', Some ''pt-PT''), (''tl'', Some ''pt-PT'')]),
     (''zh'', [(''cn'', Some ''zh-CN''), (''hans'', Some ''zh-CN''), (''sg'', Some ''zh-CN''), (''hant'', Some ''zh-TW''),
       (''hk'', Some ''zh-TW''), (''mo'', Some ''zh-TW''), (''tw'', Some ''zh-TW'')])]"

text \<open>The subtags of a tag, with underscores read as hyphens.\<close>

definition hyphened :: "string \<Rightarrow> string" where
  "hyphened t = map (\<lambda>c. if c = CHR ''_'' then CHR ''-'' else c) t"

definition subtags_of :: "string \<Rightarrow> string list" where
  "subtags_of t = split_at (CHR ''-'') (hyphened t)"

fun first_variant :: "(string \<times> string option) list \<Rightarrow> string list \<Rightarrow> string option option" where
  "first_variant variants [] = None"
| "first_variant variants (s # ss) =
     (case map_of variants (to_lower s) of Some v \<Rightarrow> Some v | None \<Rightarrow> first_variant variants ss)"

definition matchLocale :: "string \<Rightarrow> string option" where
  "matchLocale t =
     (let subtags = subtags_of t; language = to_lower (hd subtags)
      in if isLocale language then Some language
         else case map_of VARIANT_SUBTAGS language of
                None \<Rightarrow> None
              | Some variants \<Rightarrow> (case first_variant variants (tl subtags) of
                    Some v \<Rightarrow> v
                  | None \<Rightarrow> the (map_of DEFAULT_VARIANTS language)))"

fun first_match :: "string list \<Rightarrow> string" where
  "first_match [] = ''en-US''"
| "first_match (t # ts) = (case matchLocale t of Some l \<Rightarrow> l | None \<Rightarrow> first_match ts)"

definition resolveLocale :: "string option \<Rightarrow> string list \<Rightarrow> string" where
  "resolveLocale preference browser =
     first_match (filter (\<lambda>t. t \<noteq> '''') ((case preference of None \<Rightarrow> [] | Some p \<Rightarrow> [p]) @ browser))"

section \<open>Plural rules\<close>

text \<open>Branches are counted from 0; -1 is no branch, which \<open>indexOf\<close> gives a category not listed.\<close>

definition byLastDigits :: "nat \<Rightarrow> int \<Rightarrow> int" where
  "byLastDigits choice branches =
     (let tens = choice mod 10; hundreds = choice mod 100
      in if tens = 1 \<and> hundreds \<noteq> 11 then 0
         else if 2 \<le> tens \<and> tens \<le> 4 \<and> \<not> (12 \<le> hundreds \<and> hundreds \<le> 14) then min 1 (branches - 1)
         else min 2 (branches - 1))"

definition czechSlovak :: "nat \<Rightarrow> int \<Rightarrow> int" where
  "czechSlovak choice branches =
     (if choice = 1 then 0 else if 2 \<le> choice \<and> choice \<le> 4 then min 1 (branches - 1) else min 2 (branches - 1))"

definition baltic :: "nat \<Rightarrow> int \<Rightarrow> int" where
  "baltic choice branches =
     (let tens = choice mod 10; hundreds = choice mod 100; teen = 11 \<le> hundreds \<and> hundreds \<le> 19
      in if tens = 1 \<and> \<not> teen then 0
         else if 2 \<le> tens \<and> \<not> teen then min 1 (branches - 1)
         else min 2 (branches - 1))"

definition zeroAsOne :: "nat \<Rightarrow> int \<Rightarrow> int" where
  "zeroAsOne choice branches = (if choice \<le> 1 then 0 else min 1 (branches - 1))"

definition byCategory :: "(nat \<Rightarrow> string) \<Rightarrow> string list \<Rightarrow> nat \<Rightarrow> int \<Rightarrow> int" where
  "byCategory select_category categories choice branches =
     min (case find_index (\<lambda>c. c = select_category choice) categories of None \<Rightarrow> -1 | Some i \<Rightarrow> int i) (branches - 1)"

definition polish :: "nat \<Rightarrow> int \<Rightarrow> int" where
  "polish choice branches =
     (let tens = choice mod 10; hundreds = choice mod 100
      in if choice = 1 then 0
         else if 2 \<le> tens \<and> tens \<le> 4 \<and> \<not> (12 \<le> hundreds \<and> hundreds \<le> 14) then min 1 (branches - 1)
         else min 2 (branches - 1))"

definition icelandic :: "nat \<Rightarrow> int \<Rightarrow> int" where
  "icelandic choice branches = (if choice mod 10 = 1 \<and> choice mod 100 \<noteq> 11 then 0 else min 1 (branches - 1))"

definition romanian :: "nat \<Rightarrow> int \<Rightarrow> int" where
  "romanian choice branches =
     (let hundreds = choice mod 100
      in if choice = 1 then 0
         else if choice = 0 \<or> (1 \<le> hundreds \<and> hundreds \<le> 19) then min 1 (branches - 1)
         else min 2 (branches - 1))"

definition breton :: "nat \<Rightarrow> int \<Rightarrow> int" where
  "breton choice branches =
     (let tens = choice mod 10; exempt = choice mod 100 div 10 \<in> {1, 7, 9}
      in if tens = 1 \<and> \<not> exempt then 0
         else if tens = 2 \<and> \<not> exempt then min 1 (branches - 1)
         else if tens \<in> {3, 4, 9} \<and> \<not> exempt then min 2 (branches - 1)
         else if choice \<noteq> 0 \<and> choice mod 1000000 = 0 then min 3 (branches - 1)
         else min 4 (branches - 1))"

definition slovenian :: "nat \<Rightarrow> int \<Rightarrow> int" where
  "slovenian choice branches =
     (let hundreds = choice mod 100
      in if hundreds = 1 then 0
         else if hundreds = 2 then min 1 (branches - 1)
         else if hundreds = 3 \<or> hundreds = 4 then min 2 (branches - 1)
         else min 3 (branches - 1))"

text \<open>\<open>Intl.PluralRules\<close> of a language is the argument.\<close>

definition PLURAL_RULES :: "(string \<Rightarrow> nat \<Rightarrow> string) \<Rightarrow> (string \<times> (nat \<Rightarrow> int \<Rightarrow> int)) list" where
  "PLURAL_RULES intl_select =
     [(''ar'', byCategory (intl_select ''ar'') [''zero'', ''one'', ''two'', ''few'', ''many'', ''other'']),
      (''he-IL'', byCategory (intl_select ''he'') [''one'', ''two'', ''other'']),
      (''fa'', byCategory (intl_select ''fa'') [''one'', ''other'']),
      (''pa-Arab'', byCategory (intl_select ''pa'') [''one'', ''other'']),
      (''pl'', polish), (''cs'', czechSlovak), (''sk'', czechSlovak), (''bn'', zeroAsOne), (''hi'', zeroAsOne),
      (''hr'', byLastDigits), (''sr'', byLastDigits), (''ru'', byLastDigits), (''uk'', byLastDigits),
      (''lt'', baltic), (''lv'', baltic), (''is'', icelandic), (''ro'', romanian), (''br'', breton), (''sl'', slovenian)]"

section \<open>Switching\<close>

record i18n =
  loaded :: "string set"
  requested :: string
  locale_value :: string
  html_lang :: string
  html_dir :: string

definition start_i18n :: i18n where
  "start_i18n = \<lparr>loaded = {''en-US''}, requested = ''en-US'', locale_value = ''en-US'', html_lang = ''en'', html_dir = ''''\<rparr>"

definition RTL_LOCALES :: "string list" where
  "RTL_LOCALES = [''ar'', ''fa'', ''he-IL'', ''ur'', ''pa-Arab'']"

text \<open>\<open>getTextInfo\<close> where the browser has it, else the list.\<close>

definition directionOf :: "(string \<Rightarrow> string option) \<Rightarrow> string \<Rightarrow> string" where
  "directionOf text_info l =
     (case text_info l of Some d \<Rightarrow> d | None \<Rightarrow> if l \<in> set RTL_LOCALES then ''rtl'' else ''ltr'')"

text \<open>A catalogue is fetched by its name; the answer carries nothing the program looks at.\<close>

type_synonym 'r switching = "(i18n, string, thrown + unit, thrown, 'r) async"

definition loadLocale :: "(string \<Rightarrow> bool) \<Rightarrow> string \<Rightarrow> unit switching" where
  "loadLocale has_catalogue l = asks (\<lambda>s. l \<in> loaded s) (\<lambda>there.
     if there then ret ()
     else if \<not> has_catalogue l then ret ()
     else seq (await id id l) (modify (\<lambda>s. s\<lparr>loaded := insert l (loaded s)\<rparr>)))"

definition show_locale :: "(string \<Rightarrow> string option) \<Rightarrow> string \<Rightarrow> i18n \<Rightarrow> i18n" where
  "show_locale text_info l s = s\<lparr>locale_value := l, html_lang := l, html_dir := directionOf text_info l\<rparr>"

definition setLocale :: "(string \<Rightarrow> bool) \<Rightarrow> (string \<Rightarrow> string option) \<Rightarrow> string \<Rightarrow> unit switching" where
  "setLocale has_catalogue text_info l =
     seq (modify (\<lambda>s. s\<lparr>requested := l\<rparr>))
     (seq (loadLocale has_catalogue l)
       (asks requested (\<lambda>now. if now \<noteq> l then ret () else modify (show_locale text_info l))))"

section \<open>The locale store\<close>

record locale_store =
  language :: "string option"
  timeZone :: "string option"
  browserLanguages :: "string list"
  browserTimeZone :: string

definition active :: "locale_store \<Rightarrow> string" where
  "active s = resolveLocale (language s) (browserLanguages s)"

text \<open>\<open>script\<close> is the script a tag names, \<open>full_script\<close> the one it is most likely in.\<close>

definition formatting :: "(string \<Rightarrow> string option) \<Rightarrow> (string \<Rightarrow> string option) \<Rightarrow> locale_store \<Rightarrow> string" where
  "formatting script full_script s =
     (let lang = hd (split_at (CHR ''-'') (active s)); sc = script (active s)
      in case List.find (\<lambda>t. to_lower (hd (subtags_of t)) = lang
               \<and> (sc = None \<or> sc = Some '''' \<or> full_script (hyphened t) = sc)) (browserLanguages s) of
           Some preferred \<Rightarrow> preferred
         | None \<Rightarrow> active s)"

definition zone :: "locale_store \<Rightarrow> string" where
  "zone s = (case timeZone s of Some z \<Rightarrow> z | None \<Rightarrow> browserTimeZone s)"

definition languageIsAutomatic :: "locale_store \<Rightarrow> bool" where
  "languageIsAutomatic s \<longleftrightarrow> language s = None"

definition timeZoneIsAutomatic :: "locale_store \<Rightarrow> bool" where
  "timeZoneIsAutomatic s \<longleftrightarrow> timeZone s = None"

text \<open>What the browser reports: its languages, the first of them, and its zone unless it cannot say.
  Both operations end by switching to the language then in force, which they return.\<close>

definition initialise :: "string list \<Rightarrow> string \<Rightarrow> string option \<Rightarrow> locale_store \<Rightarrow> locale_store \<times> string" where
  "initialise languages one zone_now s =
     (let s1 = s\<lparr>browserLanguages := (if languages \<noteq> [] then languages else [one]),
                 browserTimeZone := (case zone_now of None \<Rightarrow> ''UTC'' | Some z \<Rightarrow> if z = '''' then ''UTC'' else z)\<rparr>
      in (s1, active s1))"

definition adopt_locale :: "string option \<Rightarrow> string option \<Rightarrow> locale_store \<Rightarrow> locale_store \<times> string" where
  "adopt_locale lang tz s = (let s1 = s\<lparr>language := lang, timeZone := tz\<rparr> in (s1, active s1))"

section \<open>Choosing a language\<close>

lemma variants_listed:
  "\<forall>e\<in>set VARIANT_SUBTAGS. (\<forall>v\<in>set (snd e). case snd v of None \<Rightarrow> True | Some l \<Rightarrow> isLocale l) \<and>
     (case map_of DEFAULT_VARIANTS (fst e) of None \<Rightarrow> False | Some None \<Rightarrow> True | Some (Some l) \<Rightarrow> isLocale l)"
  by code_simp

lemma first_variant_mem: "first_variant vs ss = Some v \<Longrightarrow> \<exists>k. (k, v) \<in> set vs"
  by (induction ss) (auto split: option.splits dest: map_of_SomeD)

lemma matchLocale_listed: "matchLocale t = Some l \<Longrightarrow> isLocale l"
proof -
  assume m: "matchLocale t = Some l"
  show "isLocale l"
  proof (cases "isLocale (to_lower (hd (subtags_of t)))")
    case False
    with m obtain vs where vs: "(to_lower (hd (subtags_of t)), vs) \<in> set VARIANT_SUBTAGS"
      and l: "(case first_variant vs (tl (subtags_of t)) of Some v \<Rightarrow> v
                 | None \<Rightarrow> the (map_of DEFAULT_VARIANTS (to_lower (hd (subtags_of t))))) = Some l"
      by (auto simp: matchLocale_def Let_def dest: map_of_SomeD split: option.splits)
    from variants_listed vs l first_variant_mem [of vs "tl (subtags_of t)"] show ?thesis
      by (fastforce split: option.splits)
  qed (use m in \<open>simp add: matchLocale_def Let_def\<close>)
qed

lemma first_match_listed: "isLocale (first_match ts)"
proof (induction ts)
  case Nil
  show ?case by (simp add: isLocale_def LOCALES_def)
qed (auto split: option.splits intro: matchLocale_listed)

text \<open>The language chosen always has a catalogue, whatever the account and the browser say; the tag
  of every catalogue leads to that catalogue; and an account's own choice that there is a
  catalogue for wins over everything the browser asks for.\<close>

theorem resolveLocale_listed:
  "resolveLocale preference browser \<in> set LOCALES \<and>
   list_all (\<lambda>l. matchLocale l = Some l \<and> resolveLocale (Some l) browser = l) LOCALES"
proof -
  have "list_all (\<lambda>l. matchLocale l = Some l \<and> l \<noteq> '''') LOCALES" by code_simp
  then have "list_all (\<lambda>l. matchLocale l = Some l \<and> resolveLocale (Some l) browser = l) LOCALES"
    by (auto simp: list_all_iff resolveLocale_def)
  with first_match_listed show ?thesis by (simp add: resolveLocale_def isLocale_def)
qed

section \<open>Counting\<close>

definition branch_of :: "int \<Rightarrow> int \<Rightarrow> bool" where
  "branch_of branches i \<longleftrightarrow> 0 \<le> i \<and> i < branches"

lemma branch_of_rules:
  assumes "1 \<le> branches"
  shows "branch_of branches 0" "0 \<le> i \<Longrightarrow> branch_of branches (min i (branches - 1))"
    and "branch_of branches (if c then i else j) \<longleftrightarrow> (if c then branch_of branches i else branch_of branches j)"
  using assms by (auto simp: branch_of_def min_def)

lemma rules_in_range:
  assumes "1 \<le> branches"
  shows "\<forall>rule\<in>{polish, czechSlovak, zeroAsOne, byLastDigits, baltic, icelandic, romanian, breton, slovenian}.
    branch_of branches (rule choice branches)"
  by (simp only: ball_simps polish_def czechSlovak_def zeroAsOne_def byLastDigits_def baltic_def
      icelandic_def romanian_def breton_def slovenian_def Let_def branch_of_rules [OF assms]
      zero_le_one zero_le_numeral if_cancel simp_thms)

text \<open>Whatever the language and the number, the branch of a plural message that is chosen is one the
  message has, also when a message is reached by fallback and has fewer branches than the rule
  tells apart.\<close>

theorem plural_branch_exists:
  assumes "1 \<le> branches"
    and "\<And>n. intl_select ''ar'' n \<in> {''zero'', ''one'', ''two'', ''few'', ''many'', ''other''}"
    and "\<And>n. intl_select ''he'' n \<in> {''one'', ''two'', ''other''}"
    and "\<And>n. intl_select ''fa'' n \<in> {''one'', ''other''}" "\<And>n. intl_select ''pa'' n \<in> {''one'', ''other''}"
    and "map_of (PLURAL_RULES intl_select) l = Some rule"
  shows "0 \<le> rule choice branches \<and> rule choice branches < branches"
proof -
  have cat: "0 \<le> byCategory sel cs choice branches \<and> byCategory sel cs choice branches < branches"
    if "sel choice \<in> set cs" for sel cs
    using that assms(1) by (auto simp: byCategory_def find_index_None split: option.splits)
  from assms(6) have "rule \<in> {byCategory (intl_select ''ar'') [''zero'', ''one'', ''two'', ''few'', ''many'', ''other''],
      byCategory (intl_select ''he'') [''one'', ''two'', ''other''], byCategory (intl_select ''fa'') [''one'', ''other''],
      byCategory (intl_select ''pa'') [''one'', ''other''], polish, czechSlovak, zeroAsOne, byLastDigits, baltic,
      icelandic, romanian, breton, slovenian}"
    by (auto simp: PLURAL_RULES_def split: if_splits)
  moreover have "0 \<le> byCategory (intl_select ''ar'') [''zero'', ''one'', ''two'', ''few'', ''many'', ''other''] choice branches
      \<and> byCategory (intl_select ''ar'') [''zero'', ''one'', ''two'', ''few'', ''many'', ''other''] choice branches < branches"
    by (rule cat) (use assms(2) [of choice] in simp)
  moreover have "0 \<le> byCategory (intl_select ''he'') [''one'', ''two'', ''other''] choice branches
      \<and> byCategory (intl_select ''he'') [''one'', ''two'', ''other''] choice branches < branches"
    by (rule cat) (use assms(3) [of choice] in simp)
  moreover have "0 \<le> byCategory (intl_select ''fa'') [''one'', ''other''] choice branches
      \<and> byCategory (intl_select ''fa'') [''one'', ''other''] choice branches < branches"
    by (rule cat) (use assms(4) [of choice] in simp)
  moreover have "0 \<le> byCategory (intl_select ''pa'') [''one'', ''other''] choice branches
      \<and> byCategory (intl_select ''pa'') [''one'', ''other''] choice branches < branches"
    by (rule cat) (use assms(5) [of choice] in simp)
  moreover note rules_in_range [OF assms(1), of choice]
  ultimately show ?thesis by (auto simp: branch_of_def)
qed

theorem plural_branch_exists_witness:
  "polish 22 3 = 1 \<and> 0 \<le> polish 25 2 \<and> polish 25 2 < 2"
proof -
  let ?sel = "\<lambda>lang n. ''other''"
  have "map_of (PLURAL_RULES ?sel) ''pl'' = Some polish" by (simp add: PLURAL_RULES_def)
  from plural_branch_exists [of 2 ?sel, OF _ _ _ _ _ this, of 25] show ?thesis
    by (simp add: polish_def)
qed

section \<open>Switching languages\<close>

text \<open>The words on the screen are always ones that have been fetched.\<close>

definition words_there :: "(string \<Rightarrow> bool) \<Rightarrow> i18n \<Rightarrow> bool" where
  "words_there has s \<longleftrightarrow> locale_value s \<in> loaded s \<or> \<not> has (locale_value s)"

definition switched :: "(string \<Rightarrow> string option) \<Rightarrow> string \<Rightarrow> i18n \<Rightarrow> i18n" where
  "switched text_info l s = (if requested s = l then show_locale text_info l s else s)"

lemma setLocale_fetches:
  "has l \<Longrightarrow> l \<notin> loaded s \<Longrightarrow> setLocale has ti l s =
     (s\<lparr>requested := l\<rparr>, Wait l (\<lambda>a t. case a of Inl e \<Rightarrow> (t, Fail e)
        | Inr _ \<Rightarrow> (switched ti l (t\<lparr>loaded := insert l (loaded t)\<rparr>), Done ())))"
  by (auto simp: setLocale_def loadLocale_def async_simps switched_def fun_eq_iff split: sum.splits)

lemma setLocale_at_once:
  "\<not> has l \<or> l \<in> loaded s \<Longrightarrow> setLocale has ti l s = (show_locale ti l (s\<lparr>requested := l\<rparr>), Done ())"
  by (auto simp: setLocale_def loadLocale_def async_simps)

lemma setLocale_keeps_words: "stretches (keeps (words_there has)) (setLocale has ti l)"
proof -
  have "keeps (words_there has) s (fst (setLocale has ti l s)) \<and> stretchesO (keeps (words_there has)) (snd (setLocale has ti l s))" for s
  proof (cases "has l \<and> l \<notin> loaded s")
    case True
    then show ?thesis
      by (auto simp: setLocale_fetches stretches_def keeps_def words_there_def switched_def show_locale_def split: sum.splits)
  qed (auto simp: setLocale_at_once keeps_def words_there_def show_locale_def)
  then show ?thesis by (simp add: stretches_def)
qed

interpretation words: store_invariant "words_there has" "range (setLocale has ti)" for has ti
  by unfold_locales (auto simp: setLocale_keeps_words)

text \<open>Switching languages: whatever switches are asked for and in whatever order their catalogues
  arrive or fail, the words shown are ones that have been fetched; and a switch that has been
  overtaken by another by the time its catalogue arrives leaves the language, its tag and its
  direction alone, while one that has not shows its own.\<close>

theorem language_switch:
  assumes "reachable (range (setLocale has ti)) start_i18n (t, ps)" "has l" "l \<notin> loaded s"
  shows "words_there has t \<and>
    (\<exists>k. setLocale has ti l s = (s\<lparr>requested := l\<rparr>, Wait l k) \<and>
       (let r = fst (k (Inr ()) t) in
          locale_value r = (if requested t = l then l else locale_value t) \<and>
          html_lang r = (if requested t = l then l else html_lang t) \<and>
          html_dir r = (if requested t = l then directionOf ti l else html_dir t)))"
proof -
  have "words_there has t"
    by (rule words.always [OF assms(1)]) (simp add: words_there_def start_i18n_def)
  then show ?thesis
    by (simp add: setLocale_fetches [of has l s ti, OF assms(2,3)] switched_def show_locale_def)
qed

theorem language_switch_witness:
  "locale_value start_i18n \<in> loaded start_i18n \<and>
   (\<exists>k. setLocale (\<lambda>_. True) (\<lambda>_. None) ''ar'' start_i18n = (start_i18n\<lparr>requested := ''ar''\<rparr>, Wait ''ar'' k))"
  using language_switch [OF reachable.init, of "\<lambda>_. True" "''ar''" start_i18n "\<lambda>_. None"]
  by (auto simp: words_there_def start_i18n_def)

end
