(* ===== verification/AuthStore.thy ===== *)
theory AuthStore
  imports Passkeys I18n
begin

text \<open>
  Who is signed in and how far through signing in they are (stores/auth.ts).  A component of the
  store is the locale store the account's language and zone are handed to; the switch of
  language it then starts is the program of \<open>I18n\<close>, which nothing here waits for.  The promise
  of the server's configuration is shared by everybody who asks during one page load:
  \<open>config_held\<close> says that there is one, and waiting for it is a wait of its own.
\<close>

section \<open>Types\<close>

record user =
  user_id :: int
  username :: string
  displayName :: string
  email :: "string option"
  emailVerified :: bool
  user_language :: "string option"
  user_timeZone :: "string option"
  profileVisibility :: string
  administrator :: bool

record auth_response =
  response_user :: "user option"
  response_needsFactor :: "string option"
  response_alternatives :: "string list option"

record provider =
  slug :: string
  provider_kind :: string
  provider_name :: string

record server_config =
  server_version :: string
  apiVersion :: int
  config_registrationOpen :: bool
  config_firstAccount :: bool
  secondFactors :: "string list"
  config_passwordResetOpen :: bool
  config_providers :: "provider list option"
  config_passkeys :: "bool option"

record registration =
  reg_username :: string
  reg_password :: string
  reg_email :: string
  reg_displayName :: "string option"

record auth =
  the_user :: "user option"
  locale_of :: locale_store
  needsFactor :: "string option"
  alternativeFactors :: "string list"
  failure :: "string option"
  busy :: bool
  ready :: bool
  registrationOpen :: bool
  firstAccount :: bool
  passwordResetOpen :: bool
  providers :: "provider list"
  passkeysAvailable :: bool
  config_held :: bool

text \<open>The payload of an answer, read at the type a request is made at.\<close>

record auth_payload = ceremony_payload +
  pUser :: user
  pResponse :: auth_response
  pConfig :: server_config

type_synonym 'r signing = "(auth, web_call, rejected + auth_payload, web_error, 'r) async"

definition start_auth :: "locale_store \<Rightarrow> auth" where
  "start_auth l = \<lparr>the_user = None, locale_of = l, needsFactor = None, alternativeFactors = [], failure = None,
     busy = False, ready = False, registrationOpen = False, firstAccount = False, passwordResetOpen = False,
     providers = [], passkeysAvailable = False, config_held = False\<rparr>"

definition isAuthenticated :: "auth \<Rightarrow> bool" where
  "isAuthenticated s \<longleftrightarrow> the_user s \<noteq> None"

section \<open>Operations\<close>

definition adoptLocale :: "user option \<Rightarrow> auth \<Rightarrow> auth" where
  "adoptLocale account s =
     s\<lparr>locale_of := fst (adopt_locale (Option.bind account user_language) (Option.bind account user_timeZone) (locale_of s))\<rparr>"

definition be_user :: "user option \<Rightarrow> auth \<Rightarrow> auth" where
  "be_user account s = adoptLocale account (s\<lparr>the_user := account\<rparr>)"

definition adopt :: "auth_response \<Rightarrow> auth \<Rightarrow> auth" where
  "adopt r s = (be_user (response_user r) (s\<lparr>config_held := False\<rparr>))
     \<lparr>needsFactor := response_needsFactor r,
      alternativeFactors := (case response_alternatives r of None \<Rightarrow> [] | Some fs \<Rightarrow> fs),
      failure := None\<rparr>"

definition message_of :: "web_error \<Rightarrow> string" where
  "message_of e = (case e of Failed t \<Rightarrow> error_message t | Cancelled m \<Rightarrow> m)"

definition attempt :: "'r signing \<Rightarrow> 'r signing" where
  "attempt work =
     seq (modify (\<lambda>s. s\<lparr>busy := True, failure := None\<rparr>))
       (try_finally
         (try_catch work (\<lambda>e. seq (modify (\<lambda>s. s\<lparr>failure := Some (message_of e)\<rparr>)) (throw e)))
         (\<lambda>s. s\<lparr>busy := False\<rparr>))"

text \<open>A 401 is the ordinary case; any other error of a request is reported.\<close>

definition restore_failed :: "web_error \<Rightarrow> auth \<Rightarrow> auth" where
  "restore_failed e s = (let s1 = be_user None s in
     case e of
       Failed (ApiError m st d c) \<Rightarrow> if st \<noteq> 401 then s1\<lparr>failure := Some m\<rparr> else s1
     | _ \<Rightarrow> s1)"

definition restore :: "unit signing" where
  "restore = try_finally
     (try_catch
       (bind (http pUser (GET ''/web/auth/session'' []))
         (\<lambda>u. modify (\<lambda>s. (be_user (Some u) s)\<lparr>needsFactor := None\<rparr>)))
       (\<lambda>e. modify (restore_failed e)))
     (\<lambda>s. s\<lparr>ready := True\<rparr>)"

definition take_config :: "server_config \<Rightarrow> auth \<Rightarrow> auth" where
  "take_config c s = s\<lparr>registrationOpen := config_registrationOpen c, firstAccount := config_firstAccount c,
     passwordResetOpen := config_passwordResetOpen c,
     providers := (case config_providers c of None \<Rightarrow> [] | Some ps \<Rightarrow> ps),
     passkeysAvailable := (config_passkeys c = Some True)\<rparr>"

definition close_config :: "auth \<Rightarrow> auth" where
  "close_config s = s\<lparr>registrationOpen := False, firstAccount := False, passwordResetOpen := False,
     providers := [], passkeysAvailable := False\<rparr>"

definition fetchConfig :: "unit signing" where
  "fetchConfig = try_catch
     (bind (http pConfig (GET ''/web/config'' [])) (\<lambda>c. modify (take_config c)))
     (\<lambda>_. modify close_config)"

text \<open>The shared promise never rejects, so whoever waits for it goes on whatever became of it.\<close>

definition loadConfig :: "unit signing" where
  "loadConfig = asks config_held (\<lambda>held.
     if held then settled (await plain_error (\<lambda>_. ()) (Shared ''/web/config''))
     else seq (modify (\<lambda>s. s\<lparr>config_held := True\<rparr>)) fetchConfig)"

definition login :: "string \<Rightarrow> string \<Rightarrow> unit signing" where
  "login name password =
     bind (attempt (http pResponse (send_call ''POST'' ''/web/auth/login''
            (Some (JObj [(''username'', JStr name), (''password'', JStr password)])))))
       (\<lambda>r. modify (adopt r))"

text \<open>A display name that is not given is not sent.\<close>

definition registration_body :: "registration \<Rightarrow> json" where
  "registration_body d = JObj ([(''username'', JStr (reg_username d)), (''password'', JStr (reg_password d)),
     (''email'', JStr (reg_email d))] @ (case reg_displayName d of None \<Rightarrow> [] | Some n \<Rightarrow> [(''displayName'', JStr n)]))"

definition register :: "registration \<Rightarrow> unit signing" where
  "register details =
     bind (attempt (http pResponse (send_call ''POST'' ''/web/auth/register'' (Some (registration_body details)))))
       (\<lambda>r. modify (adopt r))"

definition FACTOR_ENDPOINTS :: "(string \<times> string) list" where
  "FACTOR_ENDPOINTS = [(''totp'', ''/web/auth/totp''), (''email'', ''/web/auth/code'')]"

definition factor_endpoint :: "string option \<Rightarrow> string" where
  "factor_endpoint needs =
     (case map_of FACTOR_ENDPOINTS (case needs of None \<Rightarrow> ''totp'' | Some f \<Rightarrow> f) of
        None \<Rightarrow> ''/web/auth/totp''
      | Some e \<Rightarrow> e)"

definition submitFactor :: "string \<Rightarrow> unit signing" where
  "submitFactor code = asks needsFactor (\<lambda>needs.
     bind (attempt (http pResponse (send_call ''POST'' (factor_endpoint needs) (Some (JObj [(''code'', JStr code)])))))
       (\<lambda>r. modify (adopt r)))"

definition chooseFactor :: "string \<Rightarrow> unit signing" where
  "chooseFactor factor =
     bind (attempt (http pResponse (send_call ''POST'' ''/web/auth/factor'' (Some (JObj [(''factor'', JStr factor)])))))
       (\<lambda>r. modify (\<lambda>s. s\<lparr>needsFactor := response_needsFactor r,
          alternativeFactors := (case response_alternatives r of None \<Rightarrow> [] | Some fs \<Rightarrow> fs)\<rparr>))"

definition signInWithPasskey :: "unit signing" where
  "signInWithPasskey = bind (attempt (signIn pResponse)) (\<lambda>r. modify (adopt r))"

definition submitFactorWithPasskey :: "unit signing" where
  "submitFactorWithPasskey = bind (attempt (satisfyFactor pResponse)) (\<lambda>r. modify (adopt r))"

definition resendCode :: "unit signing" where
  "resendCode = attempt (http (\<lambda>_. ()) (send_call ''POST'' ''/web/auth/code/resend'' None))"

definition verifyEmail :: "string \<Rightarrow> unit signing" where
  "verifyEmail token =
     bind (attempt (http pUser (send_call ''POST'' ''/web/auth/verify'' (Some (JObj [(''token'', JStr token)])))))
       (\<lambda>u. modify (\<lambda>s. if the_user s \<noteq> None then be_user (Some u) s else s))"

definition resendVerification :: "unit signing" where
  "resendVerification = http (\<lambda>_. ()) (send_call ''POST'' ''/web/auth/verify/resend'' None)"

definition signed_out :: "auth \<Rightarrow> auth" where
  "signed_out s = (be_user None (s\<lparr>config_held := False\<rparr>))\<lparr>needsFactor := None, failure := None\<rparr>"

definition logout :: "unit signing" where
  "logout = try_finally
     (try_catch (http (\<lambda>_. ()) (send_call ''POST'' ''/web/auth/logout'' None)) (\<lambda>_. ret ()))
     signed_out"

text \<open>Every operation the interface can start.\<close>

inductive auth_program :: "unit signing \<Rightarrow> bool" where
  "auth_program restore"
| "auth_program loadConfig"
| "auth_program (login n p)"
| "auth_program (register d)"
| "auth_program (submitFactor c)"
| "auth_program (chooseFactor f)"
| "auth_program signInWithPasskey"
| "auth_program submitFactorWithPasskey"
| "auth_program resendCode"
| "auth_program (verifyEmail t)"
| "auth_program resendVerification"
| "auth_program logout"

section \<open>The account and its language\<close>

text \<open>The language and the zone in force are the account's, and the browser's when nobody is signed in.\<close>

definition follows_account :: "auth \<Rightarrow> bool" where
  "follows_account s \<longleftrightarrow> language (locale_of s) = Option.bind (the_user s) user_language \<and>
     timeZone (locale_of s) = Option.bind (the_user s) user_timeZone"

lemma be_user_fields [simp]:
  "the_user (be_user u s) = u" "needsFactor (be_user u s) = needsFactor s" "failure (be_user u s) = failure s"
  "busy (be_user u s) = busy s" "ready (be_user u s) = ready s" "config_held (be_user u s) = config_held s"
  "alternativeFactors (be_user u s) = alternativeFactors s"
  "language (locale_of (be_user u s)) = Option.bind u user_language"
  "timeZone (locale_of (be_user u s)) = Option.bind u user_timeZone"
  by (simp_all add: be_user_def adoptLocale_def adopt_locale_def Let_def)

lemma follows_simps [simp]:
  "follows_account (be_user u s)" "follows_account (adopt r s)" "follows_account (restore_failed e s)" "follows_account (signed_out s)"
  by (auto simp: follows_account_def adopt_def restore_failed_def signed_out_def Let_def split: web_error.splits thrown.splits)

named_theorems auth_programs \<open>what the programs of the store are made of\<close>

lemmas [auth_programs] = restore_def loadConfig_def fetchConfig_def login_def register_def submitFactor_def chooseFactor_def
  signInWithPasskey_def submitFactorWithPasskey_def resendCode_def verifyEmail_def resendVerification_def logout_def
  attempt_def http_def signIn_def satisfyFactor_def assertion_def ask_def

text \<open>
  What every write of the store has to respect for the programs to respect it: the account
  changes hands only with its language.
\<close>

locale auth_steps =
  fixes R :: "auth \<Rightarrow> auth \<Rightarrow> bool"
  assumes order: "preorder_rel R"
    and small: "R s (s\<lparr>busy := True, failure := None\<rparr>)" "R s (s\<lparr>busy := False\<rparr>)" "R s (s\<lparr>failure := f\<rparr>)"
      "R s (s\<lparr>ready := True\<rparr>)" "R s (s\<lparr>config_held := True\<rparr>)" "R s (take_config c s)" "R s (close_config s)"
      "R s (s\<lparr>needsFactor := n, alternativeFactors := fs\<rparr>)" "R s (signed_out s)"
begin

lemmas rules = stretches_ret [OF order] stretches_throw [OF order] stretches_await [OF order] stretches_bind [OF order]
  stretches_catch [OF order] stretches_finally [OF order] stretches_seq [OF order] stretches_settled [OF order]

lemma attempt_ok: "stretches R m \<Longrightarrow> stretches R (attempt m)"
  unfolding attempt_def by (intro rules stretches_modify small)

lemma http_ok: "stretches R (http pick q)"
  unfolding http_def by (intro rules)

lemma assertion_ok: "stretches R (assertion e pick)"
  unfolding assertion_def ask_def by (intro rules http_ok stretches_option)

lemma quiet_ok: "stretches R loadConfig" "stretches R (chooseFactor f)" "stretches R resendCode"
  "stretches R resendVerification" "stretches R logout"
  unfolding loadConfig_def fetchConfig_def chooseFactor_def resendCode_def resendVerification_def logout_def
  by (intro rules http_ok attempt_ok stretches_asks stretches_if stretches_modify small)+

end

lemma adopting_keeps: "(\<And>s. I (f s)) \<Longrightarrow> stretches (keeps I) (modify f)"
  by (simp add: stretches_modify keeps_def)

interpretation following: auth_steps "keeps follows_account"
  by unfold_locales (auto simp: keeps_def follows_account_def take_config_def close_config_def
      follows_simps(4) [unfolded follows_account_def])

lemma auth_program_follows: "auth_program m \<Longrightarrow> stretches (keeps follows_account) m"
proof (induction rule: auth_program.induct)
  case 1
  show ?case unfolding restore_def
    by (intro following.rules following.http_ok stretches_modify following.small)
      (simp_all add: keeps_def, simp add: follows_account_def)
next
  case (10 t)
  show ?case unfolding verifyEmail_def
    by (intro following.rules following.http_ok following.attempt_ok stretches_modify) (simp add: keeps_def)
qed (unfold login_def register_def submitFactor_def signInWithPasskey_def submitFactorWithPasskey_def signIn_def satisfyFactor_def,
    (intro following.rules following.http_ok following.attempt_ok following.assertion_ok following.quiet_ok
      stretches_asks adopting_keeps follows_simps; fail)+)

interpretation account: store_invariant follows_account "Collect auth_program"
  by unfold_locales (simp add: auth_program_follows)



section \<open>Who is signed in\<close>

text \<open>Operations that answer for an account already there, and must not sign a browser in.\<close>

inductive passive_program :: "unit signing \<Rightarrow> bool" where
  "passive_program loadConfig"
| "passive_program (chooseFactor f)"
| "passive_program resendCode"
| "passive_program (verifyEmail t)"
| "passive_program resendVerification"
| "passive_program logout"

definition signed_in_before :: "auth \<Rightarrow> auth \<Rightarrow> bool" where
  "signed_in_before s t \<longleftrightarrow> (isAuthenticated t \<longrightarrow> isAuthenticated s)"

interpretation quiet: auth_steps signed_in_before
  by unfold_locales (auto simp: preorder_rel_def signed_in_before_def isAuthenticated_def take_config_def close_config_def signed_out_def)

lemma passive_ok: "passive_program m \<Longrightarrow> stretches signed_in_before m"
proof (induction rule: passive_program.induct)
  case (4 t)
  show ?case unfolding verifyEmail_def
    by (intro quiet.rules quiet.http_ok quiet.attempt_ok stretches_modify)
      (simp add: signed_in_before_def isAuthenticated_def)
qed (rule quiet.quiet_ok)+

interpretation passive_runs: store_programs signed_in_before "Collect passive_program"
  by unfold_locales (simp_all add: quiet.order passive_ok)

text \<open>Confirming an address never signs a browser in: whatever confirmations, choices of factor,
  resent codes and sign-outs run together, a browser that nobody is signed in on stays so.\<close>

theorem confirming_signs_nobody_in:
  assumes "\<not> isAuthenticated s0" "reachable (Collect passive_program) s0 (s, ps)"
  shows "\<not> isAuthenticated s"
  using passive_runs.reachable_respects [OF assms(2)] assms(1) by (simp add: signed_in_before_def)

theorem confirming_signs_nobody_in_witness:
  "\<forall>l u. \<not> isAuthenticated (fst (feed [Inr u] (verifyEmail ''token'' (start_auth l))))"
proof -
  have "\<not> isAuthenticated (fst (feed [Inr u] (verifyEmail ''token'' (start_auth l))))" for l u
    by (rule confirming_signs_nobody_in [OF _ reachable_feed])
      (simp_all add: start_auth_def isAuthenticated_def passive_program.intros)
  then show ?thesis by blast
qed

text \<open>What one answer makes of a store.\<close>

definition answered :: "auth \<Rightarrow> rejected + auth_payload \<Rightarrow> auth \<times> (auth, web_call, rejected + auth_payload, web_error, unit) outcome" where
  "answered s a = (case a of
     Inl e \<Rightarrow> (s\<lparr>busy := False, failure := Some (message_of (plain_error e))\<rparr>, Fail (plain_error e))
   | Inr p \<Rightarrow> (adopt (pResponse p) (s\<lparr>busy := False, failure := None\<rparr>), Done ()))"

text \<open>A sign-in, a registration and a second factor that are refused change nothing but the message
  shown, which is the refusal's, and are reported to the caller; one that is accepted makes
  the account in the answer, and nobody when a factor is still owed, the one signed in.  None of
  them leaves the screen busy.  Signing out ends with nobody signed in, no factor owed and no
  message, in the browser's language, whatever the server said.\<close>

theorem sign_in_and_out:
  "feed [a] (login n p s) = answered s a \<and> feed [a] (register d s) = answered s a \<and>
   feed [a] (submitFactor c s) = answered s a \<and>
   (let t = fst (answered s a) in \<not> busy t \<and>
      (case a of Inl _ \<Rightarrow> the_user t = the_user s | Inr r \<Rightarrow> the_user t = response_user (pResponse r))) \<and>
   (let t = fst (feed [a] (logout s)) in snd (feed [a] (logout s)) = Done () \<and> \<not> isAuthenticated t \<and>
      needsFactor t = None \<and> failure t = None \<and> languageIsAutomatic (locale_of t) \<and> timeZoneIsAutomatic (locale_of t))"
  by (cases a)
    (simp_all add: login_def register_def submitFactor_def logout_def attempt_def http_def async_simps answered_def adopt_def
      signed_out_def isAuthenticated_def languageIsAutomatic_def timeZoneIsAutomatic_def Let_def be_user_def adoptLocale_def adopt_locale_def)

section \<open>The server's configuration\<close>

text \<open>One page load asks for the configuration once: a second caller sends no request of its own but
  waits for the first one's; neither fails; an unanswered question leaves registration, the reset
  link, the directories and the passkeys all closed; and the promise is forgotten when an account
  signs in or out, so the next caller asks again.\<close>

theorem config_asked_once:
  assumes "\<not> config_held s"
  shows "sent [] (loadConfig s) = [Http (GET ''/web/config'' [])] \<and>
    sent [] (loadConfig (fst (loadConfig s))) = [Shared ''/web/config''] \<and>
    (let t = fst (feed [a] (loadConfig s)) in
       snd (feed [a] (loadConfig s)) = Done () \<and> config_held t \<and>
       (case a of
          Inl _ \<Rightarrow> \<not> registrationOpen t \<and> \<not> passwordResetOpen t \<and> providers t = [] \<and> \<not> passkeysAvailable t
        | Inr p \<Rightarrow> registrationOpen t = config_registrationOpen (pConfig p)) \<and>
       \<not> config_held (adopt r t) \<and> \<not> config_held (signed_out t))"
  using assms
  by (cases a) (simp_all add: loadConfig_def fetchConfig_def http_def async_simps settled_def void_def take_config_def close_config_def
      adopt_def signed_out_def)

theorem config_asked_once_witness:
  "\<forall>l. sent [] (loadConfig (fst (loadConfig (start_auth l)))) = [Shared ''/web/config'']"
proof -
  have "sent [] (loadConfig (fst (loadConfig (start_auth l)))) = [Shared ''/web/config'']" for l
    using config_asked_once [of "start_auth l"] by (simp add: start_auth_def)
  then show ?thesis by blast
qed

end
