(* ===== verification/Router.thy ===== *)
theory Router
  imports AuthStore
begin

text \<open>
  The routes of the application and the guard in front of them (router/index.ts).  The guard is
  a program of the account's store: it restores the session once, asks for the configuration
  where it needs it, and decides.  The views a route loads, and loading them early, are left out:
  they change nothing the guard reads.
\<close>

section \<open>Routes\<close>

record route =
  route_path :: string
  route_name :: string
  requiresAuth :: bool
  requiresAdmin :: bool
  shell :: bool

definition page :: "string \<Rightarrow> string \<Rightarrow> route" where
  "page p n = \<lparr>route_path = p, route_name = n, requiresAuth = False, requiresAdmin = False, shell = False\<rparr>"

definition guarded :: "route \<Rightarrow> route" where
  "guarded r = r\<lparr>requiresAuth := True\<rparr>"

text \<open>\<open>/\<close> itself only redirects to \<open>library\<close>.\<close>

definition routes :: "route list" where
  "routes =
     [page ''/sign-in'' ''sign-in'',
      page ''/register'' ''register'',
      page ''/second-factor'' ''second-factor'',
      page ''/verify'' ''verify-email'',
      page ''/reset'' ''reset-password'',
      page ''/forgot'' ''forgot-password'',
      guarded (page ''/authorize'' ''authorize''),
      guarded (page ''/device/:done(done)?'' ''device''),
      guarded (page ''/link'' ''link-client''),
      guarded (page ''/settings/:section?'' ''settings''),
      guarded (page ''/admin/:section?'' ''admin'')\<lparr>requiresAdmin := True\<rparr>,
      page ''/invitations'' ''invitation'',
      guarded (page ''/notifications'' ''notifications''),
      guarded (page ''/groups'' ''groups''),
      guarded (page ''/library'' ''library''),
      (page ''/u/:username'' ''profile'')\<lparr>shell := True\<rparr>,
      (page ''/shared/:token'' ''shared'')\<lparr>shell := True\<rparr>]"

text \<open>A location as the guard sees it: the route matched, if any, its whole path, and the query's
  \<open>next\<close> where it is given once.\<close>

record location =
  matched :: "route option"
  fullPath :: string
  next_query :: "string option"

definition meta :: "(route \<Rightarrow> bool) \<Rightarrow> location \<Rightarrow> bool" where
  "meta f to = (case matched to of None \<Rightarrow> False | Some r \<Rightarrow> f r)"

definition named :: "string \<Rightarrow> location \<Rightarrow> bool" where
  "named n to \<longleftrightarrow> meta (\<lambda>r. route_name r = n) to"

section \<open>The guard\<close>

datatype decision = Proceed | ToRoute string "string option" | ToPath string

definition guard :: "location \<Rightarrow> decision signing" where
  "guard to =
     seq (asks ready (\<lambda>r. if r then ret () else restore))
      (asks isAuthenticated (\<lambda>signed_in.
        if meta requiresAuth to \<and> \<not> signed_in then
          asks needsFactor (\<lambda>needs.
            if given needs \<noteq> None then ret (ToRoute ''second-factor'' None)
            else seq loadConfig (asks registrationOpen (\<lambda>open.
              ret (ToRoute (if open then ''register'' else ''sign-in'') (Some (fullPath to))))))
        else asks the_user (\<lambda>u.
          if meta requiresAdmin to \<and> signed_in \<and> \<not> (case u of None \<Rightarrow> False | Some a \<Rightarrow> administrator a)
          then ret (ToRoute ''library'' None)
          else if (named ''sign-in'' to \<or> named ''register'' to) \<and> signed_in
          then ret (case given (next_query to) of Some n \<Rightarrow> ToPath n | None \<Rightarrow> ToRoute ''library'' None)
          else ret Proceed)))"

section \<open>What the guard lets through\<close>

definition may_see :: "location \<Rightarrow> auth \<Rightarrow> bool" where
  "may_see to s \<longleftrightarrow> (meta requiresAuth to \<longrightarrow> isAuthenticated s) \<and>
     (meta requiresAuth to \<and> meta requiresAdmin to \<longrightarrow> (\<exists>u. the_user s = Some u \<and> administrator u))"

lemma guard_ends: "ends (\<lambda>d s. d = Proceed \<longrightarrow> may_see to s) (guard to)"
proof -
  have loading: "ends (\<lambda>d s. d = Proceed \<longrightarrow> may_see to s)
      (seq loadConfig (asks registrationOpen (\<lambda>open. ret (ToRoute (f open) n))))" for f n
    by (intro ends_seq) (simp add: ends_def asks_def ret_def)
  have "endsO (\<lambda>d s. d = Proceed \<longrightarrow> may_see to s) (snd (m s)) (fst (m s))"
    if m: "m = asks isAuthenticated (\<lambda>signed_in.
        if meta requiresAuth to \<and> \<not> signed_in then
          asks needsFactor (\<lambda>needs.
            if given needs \<noteq> None then ret (ToRoute ''second-factor'' None)
            else seq loadConfig (asks registrationOpen (\<lambda>open.
              ret (ToRoute (if open then ''register'' else ''sign-in'') (Some (fullPath to))))))
        else asks the_user (\<lambda>u.
          if meta requiresAdmin to \<and> signed_in \<and> \<not> (case u of None \<Rightarrow> False | Some a \<Rightarrow> administrator a)
          then ret (ToRoute ''library'' None)
          else if (named ''sign-in'' to \<or> named ''register'' to) \<and> signed_in
          then ret (case given (next_query to) of Some n \<Rightarrow> ToPath n | None \<Rightarrow> ToRoute ''library'' None)
          else ret Proceed))" for m s
  proof (cases "meta requiresAuth to \<and> \<not> isAuthenticated s \<and> given (needsFactor s) = None")
    case True
    then show ?thesis
      using loading [unfolded ends_def, rule_format, of "\<lambda>open. if open then ''register'' else ''sign-in''" "Some (fullPath to)" s]
      by (simp add: m asks_def)
  next
    case False
    then show ?thesis
      by (auto simp: m asks_def ret_def isAuthenticated_def may_see_def split: option.splits)
  qed
  then show ?thesis unfolding guard_def by (intro ends_seq ends_state) simp
qed

text \<open>C13: Whatever the server answers and whatever else happens to the account meanwhile, the guard lets
  nobody see a route that requires an account without being signed in as it decides, nor a route
  that requires an administrator as anybody else; and every administration route of the table
  requires an account too.\<close>

theorem guard_protects:
  "ends (\<lambda>d s. d = Proceed \<longrightarrow> may_see to s) (guard to) \<and>
   (\<forall>r\<in>set routes. requiresAdmin r \<longrightarrow> requiresAuth r)"
  using guard_ends by (simp add: routes_def page_def guarded_def)

theorem guard_protects_witness:
  "\<forall>l. feed [Inl (Rejected (ApiError ''Not signed in'' 401 None False)), Inl (Rejected (ApiError ''Down'' 0 None False))]
     (guard \<lparr>matched = Some (guarded (page ''/library'' ''library'')), fullPath = ''/library'', next_query = None\<rparr> (start_auth l))
     \<noteq> (start_auth l, Done Proceed)"
proof -
  let ?as = "[Inl (Rejected (ApiError ''Not signed in'' 401 None False)), Inl (Rejected (ApiError ''Down'' 0 None False))]"
  let ?to = "\<lparr>matched = Some (guarded (page ''/library'' ''library'')), fullPath = ''/library'', next_query = None\<rparr>"
  have "feed ?as (guard ?to (start_auth l)) \<noteq> (start_auth l, Done Proceed)" for l
  proof
    assume f: "feed ?as (guard ?to (start_auth l)) = (start_auth l, Done Proceed)"
    have "endsO (\<lambda>d s. d = Proceed \<longrightarrow> may_see ?to s) (snd (guard ?to (start_auth l))) (fst (guard ?to (start_auth l)))"
      using guard_protects [of ?to] by (simp add: ends_def)
    from ends_feed [OF this, of ?as] f show False
      by (simp add: may_see_def meta_def guarded_def isAuthenticated_def start_auth_def)
  qed
  then show ?thesis by blast
qed

section \<open>The guard decides\<close>

lemma settles_within: "within 1 restore" "within 1 loadConfig"
proof -
  show "within 1 restore"
    unfolding restore_def http_def
    using within_catch [of 1 "bind (await plain_error pUser (Http (GET ''/web/auth/session'' [])))
      (\<lambda>u. modify (\<lambda>s. (be_user (Some u) s)\<lparr>needsFactor := None\<rparr>))" 0 "\<lambda>e. modify (restore_failed e)"]
      within_bind [of 1 "await plain_error pUser (Http (GET ''/web/auth/session'' []))" 0
        "\<lambda>u. modify (\<lambda>s. (be_user (Some u) s)\<lparr>needsFactor := None\<rparr>)"]
    by (intro within_finally) (simp add: within_await)
  have "within 1 fetchConfig"
    unfolding fetchConfig_def http_def
    using within_catch [of 1 "bind (await plain_error pConfig (Http (GET ''/web/config'' []))) (\<lambda>c. modify (take_config c))" 0
        "\<lambda>_. modify close_config"]
      within_bind [of 1 "await plain_error pConfig (Http (GET ''/web/config'' []))" 0 "\<lambda>c. modify (take_config c)"]
    by (simp add: within_await)
  then show "within 1 loadConfig"
    unfolding loadConfig_def
    using within_seq [of 0 "modify (\<lambda>s. s\<lparr>config_held := True\<rparr>)" 1 fetchConfig]
    by (intro within_asks) (simp add: within_settled within_await)
qed

lemma never_throw: "behaves (\<lambda>_. True) (\<lambda>_. False) restore" "behaves (\<lambda>_. True) (\<lambda>_. False) loadConfig"
  unfolding restore_def loadConfig_def fetchConfig_def http_def
  by (intro behaves_rules; simp)+

lemma guard_within: "within 2 (guard to)"
proof -
  have "within 1 (seq loadConfig (asks registrationOpen (\<lambda>open. ret (f open))))" for f :: "bool \<Rightarrow> decision"
    using within_seq [OF settles_within(2), of 0 "asks registrationOpen (\<lambda>open. ret (f open))"] by (simp add: within_asks)
  then have "within (1 + 1) (guard to)"
    unfolding guard_def
    by (intro within_seq within_asks) (simp_all add: settles_within [unfolded One_nat_def] within_asks)
  then show ?thesis by (simp add: numeral_2_eq_2)
qed

lemma guard_never_throws: "behaves (\<lambda>_. True) (\<lambda>_. False) (guard to)"
  unfolding guard_def
  by (intro behaves_rules never_throw)

text \<open>The location a redirect to a route leads to.\<close>

definition location_of :: "string \<Rightarrow> string option \<Rightarrow> location" where
  "location_of n next = \<lparr>matched = List.find (\<lambda>r. route_name r = n) routes, fullPath = '''', next_query = next\<rparr>"

text \<open>The store once the session has been checked.\<close>

definition restored :: "rejected + auth_payload \<Rightarrow> auth \<Rightarrow> auth" where
  "restored a s = (case a of Inl e \<Rightarrow> restore_failed (plain_error e) s
     | Inr p \<Rightarrow> (be_user (Some (pUser p)) s)\<lparr>needsFactor := None\<rparr>)\<lparr>ready := True\<rparr>"

lemma ready_restored [simp]: "ready (restored a s)"
  by (simp add: restored_def)

lemma guard_restores:
  "\<not> ready s \<Longrightarrow> guard to s = (s, Wait (Http (GET ''/web/auth/session'' [])) (\<lambda>a t. guard to (restored a t)))"
  by (auto simp: guard_def restore_def http_def async_simps restored_def fun_eq_iff split: sum.splits)

text \<open>The routes the guard itself names.\<close>

lemma guard_routes:
  "meta requiresAuth (location_of ''second-factor'' n) = False" "meta requiresAuth (location_of ''register'' n) = False"
  "meta requiresAuth (location_of ''sign-in'' n) = False" "meta requiresAdmin (location_of ''library'' n) = False"
  "meta requiresAdmin (location_of ''second-factor'' n) = False"
  "meta requiresAdmin (location_of ''sign-in'' n) = False" "meta requiresAdmin (location_of ''register'' n) = False"
  "named ''sign-in'' (location_of ''library'' n) = False" "named ''register'' (location_of ''library'' n) = False"
  "named ''sign-in'' (location_of ''second-factor'' n) = False" "named ''register'' (location_of ''second-factor'' n) = False"
  by (simp_all add: location_of_def routes_def page_def guarded_def meta_def named_def)

lemma guard_decides:
  assumes "ready s" "feed as (guard to s) = (t, Done d)"
  shows "ready t \<and> (case d of ToRoute n next \<Rightarrow> guard (location_of n next) t = (t, Done Proceed) | _ \<Rightarrow> True)"
proof (cases "meta requiresAuth to \<and> \<not> isAuthenticated s \<and> given (needsFactor s) = None")
  case True
  with assms obtain x where x: "feed as (guard to s) = (x, Done (ToRoute (if registrationOpen x then ''register'' else ''sign-in'') (Some (fullPath to))))"
    and "ready x" "\<not> isAuthenticated x"
    by (cases as) (auto simp: guard_def async_simps loadConfig_def fetchConfig_def http_def settled_def void_def take_config_def
        close_config_def isAuthenticated_def split: if_splits sum.splits)
  with assms(2) show ?thesis by (auto simp: guard_def async_simps guard_routes isAuthenticated_def)
next
  case False
  with assms show ?thesis
    by (auto simp: guard_def async_simps guard_routes isAuthenticated_def split: if_splits option.splits)
qed


end
