(* ===== verification/Reporting.thy ===== *)
theory Reporting
  imports Async
begin

text \<open>
  The stores that report an outcome instead of throwing it (stores/groups.ts, stores/shares.ts, and the panels of the settings)
  keep a busy flag and a message, and run each of their actions through an \<open>attempt\<close> of their
  own.  The locale \<open>reporting\<close> states what such an \<open>attempt\<close> promises of the requests it runs,
  and proves once what the stores rest on: an action never throws and ends after as many answers
  as it sends requests.
\<close>

section \<open>What the stores have in common\<close>

record reporting_store =
  busy :: bool
  failure :: "string option"

text \<open>\<open>message\<close>: that of an error of a request, or the error as a string.\<close>

definition message :: "thrown \<Rightarrow> string" where
  "message e = (case e of ApiError m st d c \<Rightarrow> m | JsError m \<Rightarrow> ''Error: '' @ m)"

type_synonym ('s, 'p, 'r) action = "('s, call, thrown + 'p, thrown, 'r) async"

definition req :: "('p \<Rightarrow> 'r) \<Rightarrow> call \<Rightarrow> ('s, 'p, 'r) action" where
  "req pick q = await id pick q"

text \<open>A request whose answer is not looked at.\<close>

definition send :: "call \<Rightarrow> ('s, 'p, unit) action" where
  "send q = req (\<lambda>_. ()) q"

text \<open>Within \<open>n\<close> answers it has returned: it waits at most so often and never throws.\<close>

definition sound :: "nat \<Rightarrow> ('s, 'p, 'r) action \<Rightarrow> bool" where
  "sound n m \<longleftrightarrow> within n m \<and> behaves (\<lambda>_. True) (\<lambda>_. False) m"

lemma sound_simple [simp]: "sound n (ret r)" "sound n (modify f)"
  by (simp_all add: sound_def behaves_ret behaves_modify)

lemma sound_bind: "sound i m \<Longrightarrow> (\<And>r. sound j (f r)) \<Longrightarrow> sound (i + j) (bind m f)"
  by (simp add: sound_def within_bind behaves_bind)

lemma sound_seq: "sound i m \<Longrightarrow> sound j n \<Longrightarrow> sound (i + j) (seq m n)"
  by (simp add: sound_def within_seq behaves_seq)

lemma sound_asks: "(\<And>x. sound n (f x)) \<Longrightarrow> sound n (asks g f)"
  by (simp add: sound_def within_asks behaves_asks)

lemma sound_option: "sound n m \<Longrightarrow> (\<And>x. sound n (k x)) \<Longrightarrow> sound n (case y of None \<Rightarrow> m | Some x \<Rightarrow> k x)"
  by (cases y) simp_all

lemma sound_if: "sound n m \<Longrightarrow> sound n k \<Longrightarrow> sound n (if b then m else k)"
  by simp

lemma sound_catch:
  "within n m \<Longrightarrow> behaves (\<lambda>_. True) (\<lambda>_. True) m \<Longrightarrow> (\<And>e. sound k (h e)) \<Longrightarrow> sound (n + k) (try_catch m h)"
  by (simp add: sound_def within_catch behaves_catch)

lemma sound_finally: "sound n m \<Longrightarrow> sound n (try_finally m f)"
  by (simp add: sound_def within_finally behaves_finally)

lemma sound_mono: "sound i m \<Longrightarrow> i \<le> j \<Longrightarrow> sound j m"
  by (auto simp: sound_def intro: within_mono)

lemma sound_void: "sound n m \<Longrightarrow> sound n (void m)"
  by (simp add: sound_def within_void behaves_void)

text \<open>Code that waits for nothing before or after.\<close>

lemma within_after: "within n m \<Longrightarrow> within n (seq (modify f) m)"
  using within_seq [of 0 "modify f" n m] by simp

lemma within_map: "within n m \<Longrightarrow> (\<And>r. within 0 (f r)) \<Longrightarrow> within n (bind m f)"
  using within_bind [of n m 0 f] by simp

lemma sound_after: "sound n m \<Longrightarrow> sound n (seq (modify f) m)"
  using sound_seq [of 0 "modify f" n m] by simp

lemma sound_map: "sound n m \<Longrightarrow> (\<And>r. sound 0 (f r)) \<Longrightarrow> sound n (bind m f)"
  using sound_bind [of n m 0 f] by simp

lemma sound_catch_map:
  "within n m \<Longrightarrow> behaves (\<lambda>_. True) (\<lambda>_. True) m \<Longrightarrow> (\<And>e. sound 0 (h e)) \<Longrightarrow> sound n (try_catch m h)"
  using sound_catch [of n m 0 h] by simp

lemma sound_two: "sound 1 m \<Longrightarrow> (\<And>r. sound 1 (f r)) \<Longrightarrow> sound 2 (bind m f)"
  using sound_bind [of 1 m 1 f] unfolding one_add_one by blast

lemma sound_returns: "sound n m \<Longrightarrow> n \<le> length as \<Longrightarrow> \<exists>t r. feed as (m s) = (t, Done r)"
  unfolding sound_def by (elim conjE) (rule returns)

lemma req_within: "within 1 (req pick q)" "within 1 (send q)"
  by (simp_all add: req_def send_def within_await)

lemma req_behaves: "behaves (\<lambda>_. True) (\<lambda>_. True) (req pick q)" "behaves (\<lambda>_. True) (\<lambda>_. True) (send q)"
  by (simp_all add: req_def send_def behaves_await)

section \<open>The interface of attempt\<close>

text \<open>
  \<open>begin\<close>, \<open>ok\<close>, \<open>bad\<close> and \<open>finish\<close> are the writes of an \<open>attempt\<close>: as it starts, when the work
  returned, when it threw, and at the end in either case.
\<close>

definition attempt_with ::
  "('s \<Rightarrow> 's) \<Rightarrow> ('s \<Rightarrow> 's) \<Rightarrow> (thrown \<Rightarrow> 's \<Rightarrow> 's) \<Rightarrow> ('s \<Rightarrow> 's) \<Rightarrow> ('s, 'p, 'r) action \<Rightarrow> ('s, 'p, 'r option) action" where
  "attempt_with first ok bad finish work =
     seq (modify first)
       (try_finally
         (try_catch
           (bind work (\<lambda>v. seq (modify ok) (ret (Some v))))
           (\<lambda>e. seq (modify (bad e)) (ret None)))
         finish)"

lemma attempt_with_runs:
  "attempt_with first ok bad finish (req pick q) s =
     (first s, Wait q (\<lambda>a t. case a of
        Inl e \<Rightarrow> (finish (bad e t), Done None)
      | Inr p \<Rightarrow> (finish (ok t), Done (Some (pick p)))))"
  by (auto simp: attempt_with_def req_def async_simps fun_eq_iff split: sum.splits)

locale reporting =
  fixes first :: "('m reporting_store_scheme) \<Rightarrow> 'm reporting_store_scheme"
    and ok :: "string option \<Rightarrow> 'm reporting_store_scheme \<Rightarrow> 'm reporting_store_scheme"
    and bad :: "thrown \<Rightarrow> 'm reporting_store_scheme \<Rightarrow> 'm reporting_store_scheme"
    and finish :: "'m reporting_store_scheme \<Rightarrow> 'm reporting_store_scheme"
  assumes ends_idle: "\<not> busy (finish s)"
    and cleared: "failure (first s) = None"
    and recorded: "failure (finish (bad e s)) = Some (message e)"
    and quiet: "failure (finish (ok success s)) = failure s"
begin

lemma attempt_sound:
  "within n work \<Longrightarrow> behaves (\<lambda>_. True) (\<lambda>_. True) work \<Longrightarrow> sound n (attempt_with first (ok success) bad finish work)"
proof -
  assume w: "within n work" "behaves (\<lambda>_. True) (\<lambda>_. True) work"
  show ?thesis
    unfolding attempt_with_def
    by (intro sound_after sound_finally sound_catch_map within_map behaves_bind behaves_seq behaves_modify behaves_ret w
        within_after within_ret sound_simple)
qed

lemma request_sound: "sound 1 (attempt_with first (ok success) bad finish (req pick q))"
  by (intro attempt_sound req_within req_behaves)

lemma outcome:
  "feed [a] (attempt_with first (ok success) bad finish (req pick q) s) = (t, Done v) \<Longrightarrow>
     \<not> busy t \<and> failure t = (case a of Inl e \<Rightarrow> Some (message e) | Inr _ \<Rightarrow> None)"
  by (auto simp: attempt_with_runs ends_idle cleared recorded quiet split: sum.splits)

end

end
