(* ===== verification/GroupStore.thy ===== *)
theory GroupStore
  imports Reporting
begin

text \<open>
  The groups an account belongs to (stores/groups.ts).  Every action reports how it went in the
  store; the writes that change the list read it again.  What the server answers is a payload
  with a field for each type a request of the store is made at.
\<close>

section \<open>Types\<close>

datatype Role = Member | Admin

datatype MemberPermission = Inherit | Read | Add | Own

record GroupMember =
  memberId :: int
  memberName :: string
  memberDisplayName :: string
  memberRole :: Role
  memberPermission :: MemberPermission
  memberOwner :: bool

record PendingInvitation =
  invitationId :: int
  invitationEmail :: string
  invitationRole :: Role
  invitationPermission :: MemberPermission
  invitationExpires :: string

record GroupNotifications =
  itemsChanged :: bool
  itemsDeleted :: bool
  membersChanged :: bool
  collectionsChanged :: bool

datatype NotificationKind = ItemsChanged | ItemsDeleted | MembersChanged | CollectionsChanged

fun kind_name :: "NotificationKind \<Rightarrow> string" where
  "kind_name ItemsChanged = ''itemsChanged''"
| "kind_name ItemsDeleted = ''itemsDeleted''"
| "kind_name MembersChanged = ''membersChanged''"
| "kind_name CollectionsChanged = ''collectionsChanged''"

text \<open>One entry of a group's history; its kind is the server's spelling.\<close>

record ActivityEntry =
  entryId :: int
  entryKind :: string
  entryCount :: nat
  entryWhen :: string
  entryActor :: "(int \<times> string \<times> string) option"
  entryObjects :: "(string \<times> string) list"

record ActivityPage =
  activity :: "ActivityEntry list"
  activityTotal :: nat

record Group =
  id_of :: int
  groupId :: int
  group_name :: string
  description :: string
  group_type :: string
  libraryReading :: string
  libraryEditing :: string
  fileEditing :: string
  group_version :: int
  group_role :: Role
  group_permission :: MemberPermission
  group_owner :: bool
  ownerId :: int
  numMembers :: nat
  numItems :: nat
  members :: "GroupMember list option"
  invitations :: "PendingInvitation list option"
  notifications :: "GroupNotifications option"

text \<open>A draft, whole or in part: the parts that are given.\<close>

record GroupDraft =
  draft_name :: "string option"
  draft_description :: "string option"
  draft_type :: "string option"
  draft_reading :: "string option"
  draft_editing :: "string option"
  draft_files :: "string option"

definition draft_body :: "GroupDraft \<Rightarrow> json" where
  "draft_body d = JObj (concat (map (\<lambda>(n, v). case v of None \<Rightarrow> [] | Some t \<Rightarrow> [(n, JStr t)])
     [(''name'', draft_name d), (''description'', draft_description d), (''type'', draft_type d),
      (''libraryReading'', draft_reading d), (''libraryEditing'', draft_editing d), (''fileEditing'', draft_files d)]))"

fun role_name :: "Role \<Rightarrow> string" where
  "role_name Member = ''member''"
| "role_name Admin = ''admin''"

fun permission_name :: "MemberPermission \<Rightarrow> string" where
  "permission_name Inherit = ''inherit''"
| "permission_name Read = ''read''"
| "permission_name Add = ''add''"
| "permission_name Own = ''own''"

record group_store = reporting_store +
  groups :: "Group list"
  notice :: "string option"

record group_payload =
  pGroups :: "Group list"
  pGroup :: Group
  pNotifications :: GroupNotifications
  pActivity :: ActivityPage

type_synonym 'r groups_action = "(group_store, group_payload, 'r) action"

definition no_groups :: group_store where
  "no_groups = \<lparr>busy = False, failure = None, groups = [], notice = None\<rparr>"

definition hasGroups :: "group_store \<Rightarrow> bool" where
  "hasGroups s \<longleftrightarrow> groups s \<noteq> []"

section \<open>Operations\<close>

definition group_begin :: "group_store \<Rightarrow> group_store" where
  "group_begin s = s\<lparr>busy := True, failure := None, notice := None\<rparr>"

definition group_ok :: "string option \<Rightarrow> group_store \<Rightarrow> group_store" where
  "group_ok success s = (case given success of None \<Rightarrow> s | Some t \<Rightarrow> s\<lparr>notice := Some t\<rparr>)"

definition group_bad :: "thrown \<Rightarrow> group_store \<Rightarrow> group_store" where
  "group_bad e s = s\<lparr>failure := Some (message e)\<rparr>"

definition group_end :: "group_store \<Rightarrow> group_store" where
  "group_end s = s\<lparr>busy := False\<rparr>"

definition attempt :: "string option \<Rightarrow> 'r groups_action \<Rightarrow> 'r option groups_action" where
  "attempt success work = attempt_with group_begin (group_ok success) group_bad group_end work"

text \<open>The list read again, whatever message is on the screen left alone.\<close>

definition refresh :: "unit groups_action" where
  "refresh = try_catch
     (bind (req pGroups (GET ''/web/groups'' [])) (\<lambda>gs. modify (\<lambda>s. s\<lparr>groups := gs\<rparr>)))
     (\<lambda>e. modify (group_bad e))"

definition load :: "unit groups_action" where
  "load = seq (modify group_begin) (try_finally refresh group_end)"

definition group_path :: "int \<Rightarrow> string" where
  "group_path i = ''/web/groups/'' @ show_int i"

definition member_path :: "int \<Rightarrow> int \<Rightarrow> string" where
  "member_path i m = group_path i @ ''/members/'' @ show_int m"

definition read :: "int \<Rightarrow> Group option groups_action" where
  "read i = attempt None (req pGroup (GET (group_path i) []))"

definition create :: "GroupDraft \<Rightarrow> string \<Rightarrow> Group option groups_action" where
  "create draft success =
     bind (attempt (Some success) (req pGroup (send_call ''POST'' ''/web/groups'' (Some (draft_body draft)))))
       (\<lambda>outcome. case outcome of
          None \<Rightarrow> ret None
        | Some g \<Rightarrow> seq refresh (ret (Some g)))"

definition then_refresh :: "unit option groups_action \<Rightarrow> unit groups_action" where
  "then_refresh m = bind m (\<lambda>outcome. case outcome of None \<Rightarrow> ret () | Some _ \<Rightarrow> refresh)"

definition update_group :: "int \<Rightarrow> GroupDraft \<Rightarrow> string \<Rightarrow> unit groups_action" where
  "update_group i draft success =
     then_refresh (attempt (Some success) (send (send_call ''PATCH'' (group_path i) (Some (draft_body draft)))))"

definition remove_group :: "int \<Rightarrow> string \<Rightarrow> unit groups_action" where
  "remove_group i success = then_refresh (attempt (Some success) (send (send_call ''DELETE'' (group_path i) None)))"

definition setRole :: "int \<Rightarrow> int \<Rightarrow> Role \<Rightarrow> unit groups_action" where
  "setRole i m role = void (attempt None
     (send (send_call ''PUT'' (member_path i m) (Some (JObj [(''role'', JStr (role_name role))])))))"

definition setPermission :: "int \<Rightarrow> int \<Rightarrow> MemberPermission \<Rightarrow> unit groups_action" where
  "setPermission i m p = void (attempt None
     (send (send_call ''PUT'' (member_path i m) (Some (JObj [(''permission'', JStr (permission_name p))])))))"

definition removeMember :: "int \<Rightarrow> int \<Rightarrow> unit groups_action" where
  "removeMember i m = then_refresh (attempt None (send (send_call ''DELETE'' (member_path i m) None)))"

definition transfer :: "int \<Rightarrow> int \<Rightarrow> string \<Rightarrow> unit groups_action" where
  "transfer i m success = void (attempt (Some success)
     (send (send_call ''POST'' (group_path i @ ''/transfer'') (Some (JObj [(''userID'', JNum m)])))))"

definition invite :: "int \<Rightarrow> string \<Rightarrow> Role \<Rightarrow> MemberPermission \<Rightarrow> string \<Rightarrow> unit groups_action" where
  "invite i address role permission success = void (attempt (Some success)
     (send (send_call ''POST'' (''/web/libraries/'' @ show_int i @ ''/invitations'')
       (Some (JObj [(''email'', JStr address), (''role'', JStr (role_name role)),
          (''permission'', JStr (permission_name permission))])))))"

text \<open>The first group of the list with the id, the object the store holds, is changed in place.\<close>

definition put_notifications :: "int \<Rightarrow> GroupNotifications \<Rightarrow> group_store \<Rightarrow> group_store" where
  "put_notifications i n s = (case find_index (\<lambda>g. id_of g = i) (groups s) of
     None \<Rightarrow> s
   | Some k \<Rightarrow> s\<lparr>groups := (groups s)[k := (groups s ! k)\<lparr>notifications := Some n\<rparr>]\<rparr>)"

definition setNotification :: "int \<Rightarrow> NotificationKind \<Rightarrow> bool \<Rightarrow> string option \<Rightarrow> unit groups_action" where
  "setNotification i kind wanted success =
     bind (attempt success (req pNotifications
        (send_call ''PUT'' (group_path i @ ''/notifications'') (Some (JObj [(kind_name kind, JBool wanted)])))))
       (\<lambda>outcome. case outcome of None \<Rightarrow> ret () | Some n \<Rightarrow> modify (put_notifications i n))"

definition activity_query :: "int option \<Rightarrow> int option \<Rightarrow> (string \<times> string) list" where
  "activity_query limit start =
     (case limit of None \<Rightarrow> [] | Some l \<Rightarrow> [(''limit'', show_int l)]) @
     (case start of None \<Rightarrow> [] | Some t \<Rightarrow> [(''start'', show_int t)])"

definition readActivity :: "int \<Rightarrow> int option \<Rightarrow> int option \<Rightarrow> ActivityPage option groups_action" where
  "readActivity i limit start =
     attempt None (req pActivity (GET (group_path i @ ''/activity'') (activity_query limit start)))"

definition revokeInvitation :: "int \<Rightarrow> unit groups_action" where
  "revokeInvitation i = void (attempt None (send (send_call ''DELETE'' (''/web/invitations/'' @ show_int i) None)))"

definition reset :: "group_store \<Rightarrow> group_store" where
  "reset s = s\<lparr>groups := [], failure := None, notice := None\<rparr>"

text \<open>The operations a screen starts; where one returns a value, it is dropped here.\<close>

inductive group_program :: "unit groups_action \<Rightarrow> bool" where
  "group_program load"
| "group_program (void (read i))"
| "group_program (void (create draft ok))"
| "group_program (update_group i draft ok)"
| "group_program (remove_group i ok)"
| "group_program (setRole i m role)"
| "group_program (setPermission i m p)"
| "group_program (removeMember i m)"
| "group_program (transfer i m ok)"
| "group_program (invite i address role p ok)"
| "group_program (setNotification i kind wanted success)"
| "group_program (void (readActivity i limit start))"
| "group_program (revokeInvitation i)"
| "group_program (modify reset)"

section \<open>Actions report, and end\<close>

interpretation group: reporting group_begin group_ok group_bad group_end
  by unfold_locales (simp_all add: group_begin_def group_ok_def group_bad_def group_end_def split: option.splits)

lemma group_attempt_sound: "sound 1 (attempt success (req pick q))" "sound 1 (attempt success (send q))"
  unfolding attempt_def by (intro group.attempt_sound req_within req_behaves)+

lemma refresh_sound: "sound 1 refresh"
  unfolding refresh_def
  by (intro sound_catch_map within_map req_within behaves_bind req_behaves behaves_modify within_modify sound_simple)

lemma refreshing_sound: "sound 1 m \<Longrightarrow> sound 2 (then_refresh m)"
  unfolding then_refresh_def by (intro sound_two sound_option refresh_sound sound_simple)

lemma group_program_sound: "group_program m \<Longrightarrow> sound 2 m"
proof (induction rule: group_program.induct)
  case 1
  show ?case unfolding load_def
    by (intro sound_mono [of 1 _ 2] sound_after sound_finally refresh_sound) simp
next
  case (3 draft ok)
  have "sound 1 (seq refresh (ret (Some g)))" for g :: Group
    unfolding seq_def by (intro sound_map refresh_sound sound_simple)
  then show ?case unfolding create_def
    by (intro sound_void sound_two group_attempt_sound sound_option sound_simple)
next
  case (11 i kind wanted success)
  show ?case unfolding setNotification_def
    by (intro sound_mono [of 1 _ 2] sound_map group_attempt_sound sound_option sound_simple) simp
qed (unfold read_def readActivity_def update_group_def remove_group_def setRole_def setPermission_def removeMember_def
      transfer_def invite_def revokeInvitation_def,
    ((intro refreshing_sound group_attempt_sound sound_void sound_simple; fail)
      | (intro sound_mono [of 1 _ 2] group_attempt_sound sound_void; simp))+)

text \<open>No action on a group throws, and each has returned after at most two answers, whatever they
  are and whatever else happens to the store meanwhile.\<close>

theorem group_actions_return:
  assumes "group_program m" "2 \<le> length answers"
  shows "\<exists>t. feed answers (m s) = (t, Done ()) \<and> behaves (\<lambda>_. True) (\<lambda>_. False) m"
  using sound_returns [OF group_program_sound [OF assms(1)] assms(2)] group_program_sound [OF assms(1)]
  by (auto simp: sound_def)

theorem group_actions_return_witness:
  "\<exists>t. feed [Inl (JsError ''offline''), Inl (JsError ''offline'')] (transfer 3 4 ''Done'' no_groups) = (t, Done ())"
  using group_actions_return [OF group_program.intros(9), of "[Inl (JsError ''offline''), Inl (JsError ''offline'')]" 3 4 "''Done''" no_groups]
  by auto

text \<open>A write of a group reports itself: refused, it leaves the list alone, shows the refusal's
  message and no acknowledgement, and asks for nothing more; accepted, it acknowledges itself, and the
  list is read again, a failure of which shows its message beside the acknowledgement.  The
  store is idle at the end.\<close>

theorem group_write_reported:
  assumes "success \<noteq> ''''"
  shows "let r = feed [a, b] (update_group i draft success s); t = fst r in
    snd r = Done () \<and> \<not> busy t \<and>
    (case a of
       Inl e \<Rightarrow> groups t = groups s \<and> notice t = None \<and> failure t = Some (message e) \<and>
         sent [a, b] (update_group i draft success s) = [send_call ''PATCH'' (group_path i) (Some (draft_body draft))]
     | Inr _ \<Rightarrow> notice t = Some success \<and>
         (case b of Inl e \<Rightarrow> groups t = groups s \<and> failure t = Some (message e)
          | Inr p \<Rightarrow> groups t = pGroups p \<and> failure t = None))"
proof -
  let ?q = "send_call ''PATCH'' (group_path i) (Some (draft_body draft))"
  have run: "update_group i draft success s = (group_begin s, Wait ?q (\<lambda>a t. case a of
      Inl e \<Rightarrow> (group_end (group_bad e t), Done ())
    | Inr p \<Rightarrow> refresh (group_end (group_ok (Some success) t))))"
    by (auto simp: update_group_def then_refresh_def attempt_def send_def bind_eq attempt_with_runs fun_eq_iff async_simps split: sum.splits)
  show ?thesis
    using assms
    by (cases a; cases b)
      (simp_all add: run refresh_def req_def async_simps group_begin_def group_ok_def group_bad_def group_end_def given_def Let_def)
qed

theorem group_write_reported_witness:
  "\<forall>d p. notice (fst (feed [Inr p, Inl (JsError ''offline'')] (update_group 3 d ''Saved'' no_groups))) = Some ''Saved''"
proof -
  have "notice (fst (feed [Inr p, Inl (JsError ''offline'')] (update_group 3 d ''Saved'' no_groups))) = Some ''Saved''" for d p
    using group_write_reported [of "''Saved''" "Inr p" "Inl (JsError ''offline'')" 3 d no_groups] by (simp add: Let_def)
  then show ?thesis by blast
qed

end
