(* ===== verification/Zoom.thy ===== *)
theory Zoom
  imports Async
begin

text \<open>
  A program of a store, run by a screen that keeps the store beside a state of its own: \<open>get\<close> finds the store in the
  screen's state and \<open>set_part\<close> puts it back.
\<close>

primrec zoomO :: "('z \<Rightarrow> 's) \<Rightarrow> ('s \<Rightarrow> 'z \<Rightarrow> 'z) \<Rightarrow> ('s, 'q, 'a, 'e, 'r) outcome \<Rightarrow> ('z, 'q, 'a, 'e, 'r) outcome" where
  "zoomO get set_part (Done r) = Done r"
| "zoomO get set_part (Fail e) = Fail e"
| "zoomO get set_part (Wait q k) =
     Wait q (\<lambda>a z. case map_prod id (zoomO get set_part) (k a (get z)) of (s, u) \<Rightarrow> (set_part s z, u))"

definition zoom :: "('z \<Rightarrow> 's) \<Rightarrow> ('s \<Rightarrow> 'z \<Rightarrow> 'z) \<Rightarrow> ('s, 'q, 'a, 'e, 'r) async \<Rightarrow> ('z, 'q, 'a, 'e, 'r) async" where
  "zoom get set_part m = (\<lambda>z. case m (get z) of (s, u) \<Rightarrow> (set_part s z, zoomO get set_part u))"

lemma zoomO_Wait [simp]: "zoomO get set_part (Wait q k) = Wait q (\<lambda>a. zoom get set_part (k a))"
  by (simp add: zoom_def map_prod_def fun_eq_iff split: prod.splits)

declare zoomO.simps(3) [simp del]

lemma zoom_eq [async_simps]: "zoom get set_part m z = (set_part (fst (m (get z))) z, zoomO get set_part (snd (m (get z))))"
  by (simp add: zoom_def split_beta)

text \<open>What \<open>get\<close> and \<open>set_part\<close> are relied on for, and what then holds of a program run by the screen.\<close>

locale part =
  fixes get :: "'z \<Rightarrow> 's" and set_part :: "'s \<Rightarrow> 'z \<Rightarrow> 'z"
  assumes get_set: "get (set_part s z) = s"
    and set_set: "set_part s (set_part t z) = set_part s z"
begin

lemma zoom_feedO: "feed as (set_part s z, zoomO get set_part u) = (set_part (fst (feed as (s, u))) z, zoomO get set_part (snd (feed as (s, u))))"
proof (induction u arbitrary: as s z rule: outcome_induct)
  case (Wait q k)
  show ?case
  proof (cases as)
    case (Cons a as')
    have "feed as (set_part s z, zoomO get set_part (Wait q k)) = feed as' (zoom get set_part (k a) (set_part s z))" using Cons by simp
    also have "\<dots> = feed as' (set_part (fst (k a s)) z, zoomO get set_part (snd (k a s)))" by (simp add: zoom_eq get_set set_set)
    also have "\<dots> = (set_part (fst (feed as' (k a s))) z, zoomO get set_part (snd (feed as' (k a s))))" by (simp add: Wait)
    finally show ?thesis using Cons by simp
  qed simp
qed simp_all

lemma zoom_feed: "feed as (zoom get set_part m z) = (set_part (fst (feed as (m (get z)))) z, zoomO get set_part (snd (feed as (m (get z)))))"
  by (simp add: zoom_eq zoom_feedO)

lemma zoom_sentO: "sent as (z, zoomO get set_part u) = sent as (get z, u)"
proof (induction u arbitrary: as z rule: outcome_induct)
  case (Wait q k)
  show ?case
  proof (cases as)
    case (Cons a as')
    have "sent as' (zoom get set_part (k a) z) = sent as' (k a (get z))"
      using Wait [where a = a and s = "get z" and as = as' and z = "set_part (fst (k a (get z))) z"] by (simp add: zoom_eq get_set)
    then show ?thesis by (simp add: Cons)
  qed simp
qed simp_all

lemma zoom_sent: "sent as (zoom get set_part m z) = sent as (m (get z))"
  by (simp add: zoom_eq zoom_sentO get_set)

end

end
