(* ===== verification/GroupScreen.thy ===== *)
theory GroupScreen
  imports GroupStore Zoom
begin

text \<open>
  The page of groups (views/GroupsView.vue): the group whose panel is open, its log, the forms, and the gestures, each
  a program on the store of groups.  What a gesture does behind an answer is done to whatever the page shows by then.
\<close>

section \<open>The page\<close>

datatype held_back = Deleting | Leaving

record group_screen =
  gstore :: group_store
  opened :: "Group option"
  creating :: bool
  newName :: string
  newDescription :: string
  inviteEmail :: string
  inviteRole :: Role
  invitePermission :: MemberPermission
  confirming :: "held_back option"
  activity_log :: "ActivityEntry list"

type_synonym 'r page_action = "(group_screen, call, thrown + group_payload, thrown, 'r) async"

definition new_group_screen :: "group_store \<Rightarrow> group_screen" where
  "new_group_screen s = \<lparr>gstore = s, opened = None, creating = False, newName = '''', newDescription = '''', inviteEmail = '''',
     inviteRole = Member, invitePermission = Inherit, confirming = None, activity_log = []\<rparr>"

definition put_store :: "group_store \<Rightarrow> group_screen \<Rightarrow> group_screen" where
  "put_store s z = z\<lparr>gstore := s\<rparr>"

definition by_store :: "'r groups_action \<Rightarrow> 'r page_action" where
  "by_store = zoom gstore put_store"

interpretation groups_part: part gstore put_store
  by unfold_locales (simp_all add: put_store_def)

definition canAdminister :: "group_screen \<Rightarrow> bool" where
  "canAdminister z \<longleftrightarrow> map_option group_role (opened z) = Some Admin"

definition NAMES_SHOWN :: nat where
  "NAMES_SHOWN = 3"

definition NOTIFICATION_KINDS :: "(NotificationKind \<times> string) list" where
  "NOTIFICATION_KINDS = [(ItemsChanged, ''Items added or changed''), (ItemsDeleted, ''Items deleted''),
     (MembersChanged, ''People joining or leaving''), (CollectionsChanged, ''Collections added or changed'')]"

definition PERMISSIONS :: "(MemberPermission \<times> string) list" where
  "PERMISSIONS = [(Inherit, ''Whatever the group allows''), (Read, ''Read only''), (Own, ''Only their own items''), (Add, ''Add but not remove'')]"

text \<open>The message of an entry, pluralised on its count.\<close>

definition describe :: "(string \<Rightarrow> nat \<Rightarrow> string) \<Rightarrow> ActivityEntry \<Rightarrow> string" where
  "describe t e = (let n = entryCount e in
     if entryKind e = ''items_deleted'' then t ''{count} item deleted | {count} items deleted'' n
     else if entryKind e = ''members_changed'' then t ''{count} membership changed | {count} memberships changed'' n
     else if entryKind e = ''collections_changed'' then t ''{count} collection added or changed | {count} collections added or changed'' n
     else t ''{count} item added or changed | {count} items added or changed'' n)"

section \<open>Gestures\<close>

definition close_panel :: "group_screen \<Rightarrow> group_screen" where
  "close_panel z = z\<lparr>opened := None, confirming := None\<rparr>"

definition show_group :: "int \<Rightarrow> unit page_action" where
  "show_group i = bind (both (by_store (read i)) (by_store (readActivity i None None)))
     (\<lambda>(g, entries). modify (\<lambda>z. z\<lparr>opened := g, confirming := None,
        activity_log := (case (g, entries) of (Some _, Some a) \<Rightarrow> activity a | _ \<Rightarrow> [])\<rparr>))"

definition refresh_page :: "unit page_action" where
  "refresh_page = seq
     (asks opened (\<lambda>g. case g of None \<Rightarrow> ret ()
        | Some g \<Rightarrow> bind (by_store (read (id_of g))) (\<lambda>r. modify (\<lambda>z. z\<lparr>opened := r\<rparr>))))
     (by_store load)"

definition with_open :: "(Group \<Rightarrow> unit page_action) \<Rightarrow> unit page_action" where
  "with_open f = asks opened (\<lambda>g. case g of None \<Rightarrow> ret () | Some g \<Rightarrow> f g)"

definition held_notifications :: "int \<Rightarrow> group_screen \<Rightarrow> GroupNotifications option" where
  "held_notifications i z = (case List.find (\<lambda>g. id_of g = i) (groups (gstore z)) of Some g \<Rightarrow> notifications g | None \<Rightarrow> None)"

definition mirror_notifications :: "int \<Rightarrow> group_screen \<Rightarrow> group_screen" where
  "mirror_notifications i z = (case (held_notifications i z, opened z) of
     (Some held, Some g) \<Rightarrow> z\<lparr>opened := Some (g\<lparr>notifications := Some held\<rparr>)\<rparr> | _ \<Rightarrow> z)"

definition set_notification :: "NotificationKind \<Rightarrow> bool \<Rightarrow> unit page_action" where
  "set_notification kind wanted = with_open (\<lambda>g.
     seq (by_store (setNotification (id_of g) kind wanted (Some ''Saved.''))) (modify (mirror_notifications (id_of g))))"

definition no_draft :: GroupDraft where
  "no_draft = \<lparr>draft_name = None, draft_description = None, draft_type = None, draft_reading = None, draft_editing = None, draft_files = None\<rparr>"

definition create_group :: "unit page_action" where
  "create_group = asks id (\<lambda>z.
     if trim (newName z) = '''' then ret ()
     else bind (by_store (create (no_draft\<lparr>draft_name := Some (trim (newName z)), draft_description := Some (trim (newDescription z))\<rparr>) ''Group created.''))
       (\<lambda>r. case r of None \<Rightarrow> ret ()
          | Some g \<Rightarrow> seq (modify (\<lambda>z. z\<lparr>newName := '''', newDescription := '''', creating := False\<rparr>)) (show_group (id_of g))))"

definition edit_group :: "GroupDraft \<Rightarrow> unit page_action" where
  "edit_group d = with_open (\<lambda>g. seq (by_store (update_group (id_of g) d ''Group saved.'')) refresh_page)"

definition rename_group :: "string \<Rightarrow> string \<Rightarrow> unit page_action" where
  "rename_group n d = edit_group (no_draft\<lparr>draft_name := Some n, draft_description := Some d\<rparr>)"

definition set_role :: "int \<Rightarrow> Role \<Rightarrow> unit page_action" where
  "set_role m role = with_open (\<lambda>g. seq (by_store (setRole (id_of g) m role)) refresh_page)"

definition set_permission :: "int \<Rightarrow> MemberPermission \<Rightarrow> unit page_action" where
  "set_permission m p = with_open (\<lambda>g. seq (by_store (setPermission (id_of g) m p)) refresh_page)"

definition remove_member :: "int option \<Rightarrow> int \<Rightarrow> unit page_action" where
  "remove_member me m = with_open (\<lambda>g.
     seq (by_store (removeMember (id_of g) m)) (if me = Some m then modify close_panel else refresh_page))"

definition transfer_group :: "int \<Rightarrow> unit page_action" where
  "transfer_group m = with_open (\<lambda>g. seq (by_store (transfer (id_of g) m ''The group has a new owner.'')) refresh_page)"

definition invite_someone :: "unit page_action" where
  "invite_someone = asks id (\<lambda>z. case opened z of None \<Rightarrow> ret ()
     | Some g \<Rightarrow> if trim (inviteEmail z) = '''' then ret ()
         else seq (by_store (invite (id_of g) (trim (inviteEmail z)) (inviteRole z) (invitePermission z) ''Invitation sent.''))
           (seq (modify (\<lambda>z. z\<lparr>inviteEmail := ''''\<rparr>)) refresh_page))"

definition revoke_invitation :: "int \<Rightarrow> unit page_action" where
  "revoke_invitation i = seq (by_store (revokeInvitation i)) refresh_page"

definition destroy_group :: "unit page_action" where
  "destroy_group = with_open (\<lambda>g. seq (modify close_panel) (by_store (remove_group (id_of g) ''Group deleted.'')))"

definition edit_name :: "string \<Rightarrow> group_screen \<Rightarrow> group_screen" where
  "edit_name n z = z\<lparr>opened := map_option (\<lambda>g. g\<lparr>group_name := n\<rparr>) (opened z)\<rparr>"

definition edit_description :: "string \<Rightarrow> group_screen \<Rightarrow> group_screen" where
  "edit_description d z = z\<lparr>opened := map_option (\<lambda>g. g\<lparr>description := d\<rparr>) (opened z)\<rparr>"


section \<open>What becomes of a gesture\<close>

abbreviation settled_store :: "string option \<Rightarrow> (thrown + group_payload) \<Rightarrow> group_store \<Rightarrow> group_store" where
  "settled_store success a s \<equiv> group_end (case a of Inl e \<Rightarrow> group_bad e s | Inr _ \<Rightarrow> group_ok success s)"

lemma page_attempt_runs: "by_store (GroupStore.attempt success (req pick q)) z =
    (z\<lparr>gstore := group_begin (gstore z)\<rparr>, Wait q (\<lambda>a z. (z\<lparr>gstore := settled_store success a (gstore z)\<rparr>,
       Done (case a of Inl e \<Rightarrow> None | Inr p \<Rightarrow> Some (pick p)))))"
  by (auto simp: by_store_def zoom_eq GroupStore.attempt_def attempt_with_runs put_store_def fun_eq_iff split: sum.splits)

lemma read_runs: "by_store (read i) z =
    (z\<lparr>gstore := group_begin (gstore z)\<rparr>, Wait (GET (group_path i) []) (\<lambda>a z. (z\<lparr>gstore := settled_store None a (gstore z)\<rparr>,
       Done (case a of Inl e \<Rightarrow> None | Inr p \<Rightarrow> Some (pGroup p)))))"
  unfolding read_def page_attempt_runs ..

lemma activity_runs: "by_store (readActivity i None None) z =
    (z\<lparr>gstore := group_begin (gstore z)\<rparr>, Wait (GET (group_path i @ ''/activity'') (activity_query None None))
       (\<lambda>a z. (z\<lparr>gstore := settled_store None a (gstore z)\<rparr>, Done (case a of Inl e \<Rightarrow> None | Inr p \<Rightarrow> Some (pActivity p)))))"
  unfolding readActivity_def page_attempt_runs ..

lemma page_load_runs: "by_store load z =
    (z\<lparr>gstore := group_begin (gstore z)\<rparr>, Wait (GET ''/web/groups'' []) (\<lambda>a z. (z\<lparr>gstore := group_end (case a of
        Inl e \<Rightarrow> group_bad e (gstore z) | Inr p \<Rightarrow> (gstore z)\<lparr>groups := pGroups p\<rparr>)\<rparr>, Done ())))"
  by (auto simp: by_store_def zoom_eq load_def refresh_def req_def async_simps put_store_def fun_eq_iff split: sum.splits)

lemma group_messages [simp]:
  "failure (group_begin s) = None" "notice (group_begin s) = None" "failure (group_end s) = failure s" "notice (group_end s) = notice s"
  "failure (group_ok None s) = failure s" "notice (group_ok None s) = notice s"
  by (simp_all add: group_begin_def group_end_def group_ok_def given_def)

text \<open>Reading the open group and the list again leaves neither a notice nor a refusal of before.\<close>

lemma refreshed: "opened z = Some g \<Longrightarrow> opened (fst (feed [Inr a, Inr b] (refresh_page z))) = Some (pGroup a) \<and>
    failure (gstore (fst (feed [Inr a, Inr b] (refresh_page z)))) = None \<and> notice (gstore (fst (feed [Inr a, Inr b] (refresh_page z)))) = None"
  by (simp add: refresh_page_def async_simps read_runs page_load_runs)

lemma shown: "fst (feed [Inr a, Inr b] (show_group i z)) =
    z\<lparr>gstore := gstore (fst (feed [Inr a, Inr b] (show_group i z))), opened := Some (pGroup a), confirming := None, activity_log := activity (pActivity b)\<rparr>"
  by (simp add: show_group_def both_def async_simps read_runs activity_runs)

lemma write_runs: "by_store (void (GroupStore.attempt success (send q))) z =
    (z\<lparr>gstore := group_begin (gstore z)\<rparr>, Wait q (\<lambda>a z. (z\<lparr>gstore := settled_store success a (gstore z)\<rparr>, Done ())))"
  by (auto simp: by_store_def zoom_eq void_def send_def GroupStore.attempt_def attempt_with_runs async_simps put_store_def fun_eq_iff split: sum.splits)

lemma update_runs: "by_store (then_refresh (GroupStore.attempt success (send q))) z =
    (z\<lparr>gstore := group_begin (gstore z)\<rparr>, Wait q (\<lambda>a z. case a of
       Inl e \<Rightarrow> (z\<lparr>gstore := group_end (group_bad e (gstore z))\<rparr>, Done ())
     | Inr p \<Rightarrow> by_store refresh (z\<lparr>gstore := group_end (group_ok success (gstore z))\<rparr>)))"
  by (auto simp: by_store_def zoom_eq then_refresh_def send_def GroupStore.attempt_def attempt_with_runs async_simps put_store_def fun_eq_iff split: sum.splits)

text \<open>The writes of the panel that read it again.\<close>

definition panel_writes :: "unit page_action set" where
  "panel_writes = range edit_group \<union> range (case_prod set_role) \<union> range (case_prod set_permission) \<union> range transfer_group \<union> range revoke_invitation"

lemma refused_then_read:
  assumes "opened z = Some g"
  shows "\<exists>z2. opened z2 = Some g \<and> feed [Inl e, x, y] (seq (by_store (void (GroupStore.attempt success (send q)))) refresh_page z) = feed [x, y] (refresh_page z2)"
    "\<exists>z2. opened z2 = Some g \<and> feed [Inl e, x, y] (seq (by_store (then_refresh (GroupStore.attempt success (send q)))) refresh_page z) = feed [x, y] (refresh_page z2)"
  using assms by (auto simp: run_simps bind_eq write_runs update_runs intro!: exI [of _ "_\<lparr>gstore := _\<rparr>"])

lemma panel_write_cases:
  assumes "m \<in> panel_writes" "opened z = Some g"
  obtains success q where "m z = seq (by_store (void (GroupStore.attempt success (send q)))) refresh_page z"
    | success q where "m z = seq (by_store (then_refresh (GroupStore.attempt success (send q)))) refresh_page z"
  using assms
  by (auto simp: panel_writes_def edit_group_def set_role_def set_permission_def transfer_group_def revoke_invitation_def with_open_def
      update_group_def setRole_def setPermission_def transfer_def revokeInvitation_def asks_def)

text \<open>C38: The reason a write of the open panel was refused is never seen: the page reads the group and the list again, and either
  reading clears the message the write had set.  The acknowledgement of a group that was handed over goes the same way.\<close>

theorem refusal_is_wiped:
  assumes "opened z = Some g" "m \<in> panel_writes"
  shows "(let z' = fst (feed [Inl e, Inr a, Inr b] (m z)) in
      opened z' = Some (pGroup a) \<and> failure (gstore z') = None \<and> notice (gstore z') = None) \<and>
    notice (gstore (fst (feed [Inr c, Inr a, Inr b] (transfer_group i z)))) = None"
proof -
  have "\<exists>z2. opened z2 = Some g \<and> feed [Inl e, Inr a, Inr b] (m z) = feed [Inr a, Inr b] (refresh_page z2)"
    using assms(2,1) by (rule panel_write_cases) (simp_all only: refused_then_read [OF assms(1)])
  moreover have "\<exists>z2. opened z2 = Some g \<and> feed [Inr c, Inr a, Inr b] (transfer_group i z) = feed [Inr a, Inr b] (refresh_page z2)"
    using assms(1) by (simp add: transfer_group_def with_open_def transfer_def run_simps bind_eq write_runs) (intro exI conjI, rule_tac [2] refl, simp)
  ultimately show ?thesis using refreshed by (metis)
qed

lemma group_lists [simp]:
  "groups (group_begin s) = groups s" "groups (group_end s) = groups s" "groups (group_ok t s) = groups s" "groups (group_bad e s) = groups s"
  by (simp_all add: group_begin_def group_end_def group_ok_def group_bad_def split: option.split)

lemma show_ends:
  "opened (fst (feed [Inr x, Inr y] (z', snd (show_group k w)))) = Some (pGroup x)"
  "groups (gstore (fst (feed [Inr x, Inr y] (z', snd (show_group k w))))) = groups (gstore z')"
  by (simp_all add: show_group_def both_def async_simps read_runs activity_runs)

lemma show_starts: "groups (gstore (fst (show_group k w))) = groups (gstore w)"
  by (simp add: show_group_def both_def async_simps read_runs activity_runs)

lemma notification_runs:
  assumes "opened z = Some g"
  shows "\<exists>q. set_notification kind wanted z = (z\<lparr>gstore := group_begin (gstore z)\<rparr>, Wait q (\<lambda>a z.
    (mirror_notifications (id_of g) (z\<lparr>gstore := (case a of
        Inl e \<Rightarrow> group_end (group_bad e (gstore z))
      | Inr p \<Rightarrow> put_notifications (id_of g) (pNotifications p) (group_end (group_ok (Some ''Saved.'') (gstore z))))\<rparr>), Done ())))"
  using assms by (auto simp: set_notification_def with_open_def run_simps bind_eq by_store_def zoom_eq setNotification_def GroupStore.attempt_def
      attempt_with_runs put_store_def fun_eq_iff split: sum.splits)

lemma put_held:
  assumes "\<exists>h\<in>set (groups s). id_of h = i"
  shows "held_notifications i (z\<lparr>gstore := put_notifications i n s\<rparr>) = Some n"
proof -
  from assms obtain k where k: "find_index (\<lambda>g. id_of g = i) (groups s) = Some k"
    by (cases "find_index (\<lambda>g. id_of g = i) (groups s)") (auto simp: find_index_None)
  note f = find_index_Some [OF this]
  then have "List.find (\<lambda>g. id_of g = i) ((groups s)[k := (groups s ! k)\<lparr>notifications := Some n\<rparr>]) = Some ((groups s ! k)\<lparr>notifications := Some n\<rparr>)"
    by (auto simp: find_Some_iff nth_list_update intro!: exI [of _ k])
  then show ?thesis by (simp add: held_notifications_def put_notifications_def k)
qed



text \<open>A page with one group open, of two.\<close>

definition some_group :: "int \<Rightarrow> Group" where
  "some_group i = \<lparr>id_of = i, groupId = i, group_name = ''Whales'', description = '''', group_type = ''Private'', libraryReading = ''members'',
     libraryEditing = ''members'', fileEditing = ''members'', group_version = 1, group_role = Admin, group_permission = Inherit,
     group_owner = True, ownerId = 1, numMembers = 2, numItems = 0, members = None, invitations = None, notifications = None\<rparr>"

definition group_page :: group_screen where
  "group_page = (new_group_screen (no_groups\<lparr>groups := [some_group 3, some_group 4]\<rparr>))\<lparr>opened := Some (some_group 3)\<rparr>"

definition group_answer :: "int \<Rightarrow> GroupNotifications \<Rightarrow> group_payload" where
  "group_answer i n = \<lparr>pGroups = [some_group 3, some_group 4], pGroup = some_group i, pNotifications = n, pActivity = \<lparr>activity = [], activityTotal = 0\<rparr>\<rparr>"

theorem refusal_is_wiped_witness:
  "\<forall>n. let z' = fst (feed [Inl (ApiError ''Not allowed'' 403 None False), Inr (group_answer 3 n), Inr (group_answer 3 n)] (set_role 2 Admin group_page))
    in opened z' = Some (some_group 3) \<and> failure (gstore z') = None"
proof
  fix n
  have h: "opened group_page = Some (some_group 3)" "set_role 2 Admin \<in> panel_writes"
    by (simp add: group_page_def, force simp: panel_writes_def)
  from refusal_is_wiped [OF h, of "ApiError ''Not allowed'' 403 None False" "group_answer 3 n" "group_answer 3 n"]
  show "let z' = fst (feed [Inl (ApiError ''Not allowed'' 403 None False), Inr (group_answer 3 n), Inr (group_answer 3 n)] (set_role 2 Admin group_page))
    in opened z' = Some (some_group 3) \<and> failure (gstore z') = None"
    by (simp add: Let_def group_answer_def)
qed


end
