(* ===== verification/Shares.thy ===== *)
theory Shares
  imports Reporting
begin

text \<open>
  The links a library is shared by (stores/shares.ts): a reporting store like the groups', with
  the link just made kept beside the list, because the server tells it once.
\<close>

section \<open>The store\<close>

record CollectionShare =
  share_id :: int
  share_collection :: string
  collectionName :: string
  share_subcollections :: bool
  share_files :: bool
  created :: string
  share_expires :: "string option"
  lastUsed :: "string option"
  createdBy :: int
  share_url :: "string option"

record ShareTerms =
  subcollections :: bool
  files :: bool
  expires :: "string option"

text \<open>Changes to a link: the terms that are given, an expiry of \<open>null\<close> as such, and \<open>neverExpires\<close>.\<close>

record ShareChanges =
  ch_subcollections :: "bool option"
  ch_files :: "bool option"
  ch_expires :: "string option option"
  ch_never :: "bool option"

definition nullable :: "string option \<Rightarrow> json" where
  "nullable v = (case v of None \<Rightarrow> JNull | Some t \<Rightarrow> JStr t)"

definition terms_body :: "ShareTerms \<Rightarrow> json" where
  "terms_body t = JObj [(''subcollections'', JBool (subcollections t)), (''files'', JBool (files t)),
     (''expires'', nullable (expires t))]"

definition changes_body :: "ShareChanges \<Rightarrow> json" where
  "changes_body c = JObj (concat (map (\<lambda>(n, v). case v of None \<Rightarrow> [] | Some j \<Rightarrow> [(n, j)])
     [(''subcollections'', map_option JBool (ch_subcollections c)), (''files'', map_option JBool (ch_files c)),
      (''expires'', map_option nullable (ch_expires c)), (''neverExpires'', map_option JBool (ch_never c))]))"

record share_store = reporting_store +
  shares :: "CollectionShare list"
  issued :: "CollectionShare option"

record share_payload =
  pShares :: "CollectionShare list"
  pShare :: CollectionShare

type_synonym 'r share_action = "(share_store, share_payload, 'r) action"

definition no_shares :: share_store where
  "no_shares = \<lparr>busy = False, failure = None, shares = [], issued = None\<rparr>"

section \<open>Operations\<close>

definition share_begin :: "share_store \<Rightarrow> share_store" where
  "share_begin s = s\<lparr>busy := True, failure := None\<rparr>"

definition share_bad :: "thrown \<Rightarrow> share_store \<Rightarrow> share_store" where
  "share_bad e s = s\<lparr>failure := Some (message e)\<rparr>"

definition share_end :: "share_store \<Rightarrow> share_store" where
  "share_end s = s\<lparr>busy := False\<rparr>"

definition attempt :: "'r share_action \<Rightarrow> 'r option share_action" where
  "attempt work = attempt_with share_begin id share_bad share_end work"

definition load :: "int \<Rightarrow> unit share_action" where
  "load library =
     bind (attempt (req pShares (GET (''/web/libraries/'' @ show_int library @ ''/shares'') [])))
       (\<lambda>outcome. case outcome of None \<Rightarrow> ret () | Some ss \<Rightarrow> modify (\<lambda>s. s\<lparr>shares := ss\<rparr>))"

definition create :: "int \<Rightarrow> string \<Rightarrow> ShareTerms \<Rightarrow> CollectionShare option share_action" where
  "create library key terms =
     bind (attempt (req pShare (send_call ''POST''
            (''/web/libraries/'' @ show_int library @ ''/collections/'' @ key @ ''/shares'') (Some (terms_body terms)))))
       (\<lambda>outcome. case outcome of
          None \<Rightarrow> ret None
        | Some made \<Rightarrow> seq (modify (\<lambda>s. s\<lparr>issued := Some made\<rparr>)) (seq (load library) (ret (Some made))))"

definition share_path :: "int \<Rightarrow> string" where
  "share_path i = ''/web/shares/'' @ show_int i"

definition update_share :: "int \<Rightarrow> int \<Rightarrow> ShareChanges \<Rightarrow> unit share_action" where
  "update_share library i changes =
     bind (attempt (send (send_call ''PATCH'' (share_path i) (Some (changes_body changes)))))
       (\<lambda>outcome. case outcome of None \<Rightarrow> ret () | Some _ \<Rightarrow> load library)"

definition withdraw :: "int \<Rightarrow> share_store \<Rightarrow> share_store" where
  "withdraw i s = (if map_option share_id (issued s) = Some i then s\<lparr>issued := None\<rparr> else s)"

definition revoke :: "int \<Rightarrow> int \<Rightarrow> unit share_action" where
  "revoke library i =
     bind (attempt (send (send_call ''DELETE'' (share_path i) None)))
       (\<lambda>outcome. case outcome of None \<Rightarrow> ret () | Some _ \<Rightarrow> seq (modify (withdraw i)) (load library))"

definition forget :: "share_store \<Rightarrow> share_store" where
  "forget s = s\<lparr>issued := None, failure := None\<rparr>"

definition reset :: "share_store \<Rightarrow> share_store" where
  "reset s = s\<lparr>shares := [], issued := None, failure := None\<rparr>"

section \<open>A link is told once\<close>

interpretation share: reporting share_begin "\<lambda>_. id" share_bad share_end
  by unfold_locales (simp_all add: share_begin_def share_bad_def share_end_def)

lemma attempt_runs:
  "attempt (req pick q) s = (share_begin s, Wait q (\<lambda>a t. case a of
        Inl e \<Rightarrow> (share_end (share_bad e t), Done None)
      | Inr p \<Rightarrow> (share_end t, Done (Some (pick p)))))"
  by (auto simp: attempt_def attempt_with_runs fun_eq_iff split: sum.splits)

lemma load_runs: "load library s = (share_begin s, Wait (GET (''/web/libraries/'' @ show_int library @ ''/shares'') [])
    (\<lambda>a t. case a of Inl e \<Rightarrow> (share_end (share_bad e t), Done ())
      | Inr p \<Rightarrow> ((share_end t)\<lparr>shares := pShares p\<rparr>, Done ())))"
  by (auto simp: load_def bind_eq attempt_runs fun_eq_iff async_simps split: sum.splits)

text \<open>A link that was made is handed to the dialog and kept until it is dismissed, also when the
  list cannot be read again afterwards: then the failure is shown and the old list stays.  When
  making it is refused nothing is kept and the list is not asked for.\<close>

theorem link_is_kept:
  "let r = feed [a, b] (create library key terms s); t = fst r in
   \<not> busy t \<and>
   (case a of
      Inl e \<Rightarrow> snd r = Done None \<and> issued t = issued s \<and> shares t = shares s \<and> failure t = Some (message e)
    | Inr p \<Rightarrow> snd r = Done (Some (pShare p)) \<and> issued t = Some (pShare p) \<and>
        (case b of Inl e \<Rightarrow> shares t = shares s \<and> failure t = Some (message e)
         | Inr l \<Rightarrow> shares t = pShares l \<and> failure t = None))"
proof -
  have run: "create library key terms s = (share_begin s, Wait (send_call ''POST''
      (''/web/libraries/'' @ show_int library @ ''/collections/'' @ key @ ''/shares'') (Some (terms_body terms)))
    (\<lambda>a t. case a of Inl e \<Rightarrow> (share_end (share_bad e t), Done None)
      | Inr p \<Rightarrow> bind (load library) (\<lambda>_. ret (Some (pShare p))) ((share_end t)\<lparr>issued := Some (pShare p)\<rparr>)))"
    by (auto simp: create_def bind_eq [of "attempt _"] attempt_runs fun_eq_iff async_simps split: sum.splits)
  show ?thesis
    by (cases a; cases b)
      (simp_all add: run bind_eq load_runs async_simps share_begin_def share_bad_def share_end_def Let_def)
qed

text \<open>Revoking the link that was just made takes it off the dialog, and revoking another leaves it
  there; a refused revocation leaves both the link and the list.\<close>

theorem revoked_link_is_gone:
  "let t = fst (feed [a, b] (revoke library i s)) in
   issued t = (case a of Inl _ \<Rightarrow> issued s | Inr _ \<Rightarrow> if map_option share_id (issued s) = Some i then None else issued s) \<and>
   (case a of Inl _ \<Rightarrow> shares t = shares s | Inr _ \<Rightarrow> True) \<and> \<not> busy t"
proof -
  have run: "revoke library i s = (share_begin s, Wait (send_call ''DELETE'' (share_path i) None)
    (\<lambda>a t. case a of Inl e \<Rightarrow> (share_end (share_bad e t), Done ())
      | Inr _ \<Rightarrow> load library (withdraw i (share_end t))))"
    by (auto simp: revoke_def bind_eq send_def attempt_runs fun_eq_iff async_simps split: sum.splits)
  show ?thesis
    by (cases a; cases b; cases "issued s")
      (auto simp: run load_runs withdraw_def share_begin_def share_bad_def share_end_def Let_def)
qed

end
