(* ===== verification/Notifications.thy ===== *)
theory Notifications
  imports Reporting
begin

text \<open>
  The notices and invitations of the account (stores/notifications.ts).  The number of unread
  ones is the server's, which may know more of them than it lists.
\<close>

section \<open>The store\<close>

record NotificationEntry =
  entry_id :: int
  kind :: string
  subject :: string
  entry_body :: string
  invitation :: "int option"
  entry_created :: string
  is_read :: bool

record InvitationEntry =
  invitation_id :: int
  libraryId :: int
  libraryName :: string
  invited_as :: string
  invitedBy :: string
  status :: string
  invited :: string
  expiry :: string

record notification_payload =
  pUnread :: nat
  pNotices :: "NotificationEntry list"
  pInvitations :: "InvitationEntry list"

record notification_store = reporting_store +
  notices :: "NotificationEntry list"
  pending :: "InvitationEntry list"
  unread :: nat

type_synonym 'r notification_action = "(notification_store, notification_payload, 'r) action"

definition no_notices :: notification_store where
  "no_notices = \<lparr>busy = False, failure = None, notices = [], pending = [], unread = 0\<rparr>"

definition hasUnread :: "notification_store \<Rightarrow> bool" where
  "hasUnread s \<longleftrightarrow> unread s > 0"

section \<open>Operations\<close>

definition take_notices :: "notification_payload \<Rightarrow> notification_store \<Rightarrow> notification_store" where
  "take_notices p s = s\<lparr>notices := pNotices p, pending := pInvitations p, unread := pUnread p, failure := None\<rparr>"

definition load :: "unit notification_action" where
  "load = seq (modify (\<lambda>s. s\<lparr>busy := True\<rparr>))
     (try_finally
       (try_catch
         (bind (req id (GET ''/web/notifications'' [])) (\<lambda>p. modify (take_notices p)))
         (\<lambda>e. modify (\<lambda>s. s\<lparr>failure := Some (error_message e)\<rparr>)))
       (\<lambda>s. s\<lparr>busy := False\<rparr>))"

definition all_read :: "notification_store \<Rightarrow> notification_store" where
  "all_read s = s\<lparr>notices := map (\<lambda>n. n\<lparr>is_read := True\<rparr>) (notices s), unread := 0\<rparr>"

definition markAllRead :: "unit notification_action" where
  "markAllRead = seq (send (send_call ''POST'' ''/web/notifications/read-all'' None)) (modify all_read)"

text \<open>The first entry with the id; subtraction stops at 0, as \<open>Math.max(0, unread - 1)\<close> does.\<close>

definition one_read :: "int \<Rightarrow> notification_store \<Rightarrow> notification_store" where
  "one_read i s = (case find_index (\<lambda>n. entry_id n = i) (notices s) of
     None \<Rightarrow> s
   | Some k \<Rightarrow> if is_read (notices s ! k) then s
       else s\<lparr>notices := (notices s)[k := (notices s ! k)\<lparr>is_read := True\<rparr>], unread := unread s - 1\<rparr>)"

definition markRead :: "int \<Rightarrow> unit notification_action" where
  "markRead i = seq (send (send_call ''POST'' (''/web/notifications/'' @ show_int i @ ''/read'') None)) (modify (one_read i))"

datatype Decision = Accept | Decline

fun decision_name :: "Decision \<Rightarrow> string" where
  "decision_name Accept = ''accept''"
| "decision_name Decline = ''decline''"

definition answer_invitation :: "int \<Rightarrow> Decision \<Rightarrow> unit notification_action" where
  "answer_invitation i d =
     seq (modify (\<lambda>s. s\<lparr>failure := None\<rparr>))
     (seq (try_catch
            (send (send_call ''POST'' (''/web/invitations/'' @ show_int i @ ''/'' @ decision_name d) None))
            (\<lambda>e. seq (modify (\<lambda>s. s\<lparr>failure := Some (error_message e)\<rparr>)) (throw e)))
       load)"

definition reset :: "notification_store \<Rightarrow> notification_store" where
  "reset s = s\<lparr>notices := [], pending := [], unread := 0, failure := None\<rparr>"

inductive notification_program :: "unit notification_action \<Rightarrow> bool" where
  "notification_program load"
| "notification_program markAllRead"
| "notification_program (markRead i)"
| "notification_program (answer_invitation i d)"
| "notification_program (modify reset)"

section \<open>Counting the unread\<close>

definition count_unread :: "NotificationEntry list \<Rightarrow> nat" where
  "count_unread ns = length (filter (\<lambda>n. \<not> is_read n) ns)"

lemma count_unread_update:
  "k < length ns \<Longrightarrow> \<not> is_read (ns ! k) \<Longrightarrow> count_unread (ns[k := (ns ! k)\<lparr>is_read := True\<rparr>]) = count_unread ns - 1 \<and> 0 < count_unread ns"
proof (induction ns arbitrary: k)
  case (Cons n ns)
  show ?case
  proof (cases k)
    case (Suc j)
    with Cons show ?thesis by (auto simp: count_unread_def)
  qed (use Cons.prems in \<open>simp add: count_unread_def\<close>)
qed simp

text \<open>The badge never promises less than the list shows: marking a notice read takes one off the
  count exactly when that notice was there and unread, once however often it is marked, and the
  others keep their state; so the count stays at or above the unread notices listed, as every answer of
  the server that is so makes it.\<close>

theorem reading_counts_once:
  assumes "count_unread (notices s) \<le> unread s"
  shows "let t = fst (feed [Inr p] (markRead i s)) in
    count_unread (notices t) \<le> unread t \<and>
    unread t = (case find_index (\<lambda>n. entry_id n = i) (notices s) of
        Some k \<Rightarrow> if is_read (notices s ! k) then unread s else unread s - 1 | None \<Rightarrow> unread s) \<and>
    map entry_id (notices t) = map entry_id (notices s) \<and>
    fst (feed [Inr p] (markRead i t)) = t \<and>
    fst (feed [Inl e] (markRead i s)) = s"
proof -
  have f: "fst (feed [Inr p] (markRead i u)) = one_read i u" "fst (feed [Inl e] (markRead i u)) = u" for u
    by (simp_all add: markRead_def send_def req_def async_simps)
  have "count_unread (notices (one_read i s)) \<le> unread (one_read i s) \<and>
      map entry_id (notices (one_read i s)) = map entry_id (notices s) \<and> one_read i (one_read i s) = one_read i s"
  proof (cases "find_index (\<lambda>n. entry_id n = i) (notices s)")
    case (Some k)
    then have k: "k < length (notices s)" "entry_id (notices s ! k) = i"
      and before: "\<And>j. j < k \<Longrightarrow> entry_id (notices s ! j) \<noteq> i"
      using find_index_Some [OF Some] by auto
    show ?thesis
    proof (cases "is_read (notices s ! k)")
      case False
      let ?ns = "(notices s)[k := (notices s ! k)\<lparr>is_read := True\<rparr>]"
      have same: "map entry_id ?ns = map entry_id (notices s)"
        using k by (simp add: map_update list_update_same_conv)
      have "find_index (\<lambda>n. entry_id n = i) ?ns = Some k"
        using k before by (intro find_indexI) simp_all
      then show ?thesis
        using Some False k assms count_unread_update [of k "notices s"] same by (simp add: one_read_def)
    qed (use Some assms in \<open>simp add: one_read_def\<close>)
  qed (use assms in \<open>simp add: one_read_def\<close>)
  then show ?thesis by (auto simp: f one_read_def Let_def split: option.splits)
qed

theorem reading_counts_once_witness:
  "\<forall>p. let s = no_notices\<lparr>notices := [\<lparr>entry_id = 4, kind = ''items'', subject = ''A'', entry_body = '''', invitation = None,
     entry_created = ''2026-01-01'', is_read = False\<rparr>], unread := 3\<rparr>
   in unread (fst (feed [Inr p] (markRead 4 s))) = 2"
proof -
  let ?s = "no_notices\<lparr>notices := [\<lparr>entry_id = 4, kind = ''items'', subject = ''A'', entry_body = '''', invitation = None,
     entry_created = ''2026-01-01'', is_read = False\<rparr>], unread := 3\<rparr>"
  have "unread (fst (feed [Inr p] (markRead 4 ?s))) = 2" for p
    using reading_counts_once [of ?s p 4 "JsError ''''"] by (simp add: count_unread_def no_notices_def Let_def)
  then show ?thesis by (simp add: Let_def)
qed

text \<open>An invitation's answer that is refused is reported to the caller with its message and leaves
  the list as it is; one that is accepted is never guessed at: everything is read again, and if
  that fails the answer is not reported as failed.\<close>

theorem invitation_answered:
  "let r = feed [a, b] (answer_invitation i d s); t = fst r in
   (case a of
      Inl e \<Rightarrow> snd r = Fail e \<and> failure t = Some (error_message e) \<and> notices t = notices s \<and> pending t = pending s
    | Inr _ \<Rightarrow> snd r = Done () \<and> \<not> busy t \<and>
        (case b of Inl e \<Rightarrow> failure t = Some (error_message e) \<and> pending t = pending s
         | Inr p \<Rightarrow> failure t = None \<and> notices t = pNotices p \<and> pending t = pInvitations p \<and> unread t = pUnread p)) \<and>
   (\<forall>e. a = Inl e \<longrightarrow> sent [a, b] (answer_invitation i d s) = [send_call ''POST'' (''/web/invitations/'' @ show_int i @ ''/'' @ decision_name d) None])"
  by (cases a; cases b)
    (simp_all add: answer_invitation_def send_def req_def async_simps load_def take_notices_def Let_def)

theorem invitation_answered_witness:
  "failure (fst (feed [Inl (ApiError ''Expired'' 410 None False), Inl (JsError ''offline'')] (answer_invitation 9 Accept no_notices))) = Some ''Expired''"
  using invitation_answered [of "Inl (ApiError ''Expired'' 410 None False)" "Inl (JsError ''offline'')" 9 Accept no_notices]
  by (simp add: Let_def)

end
