(* ===== verification/Urls.thy ===== *)
theory Urls
  imports Prelude
begin

text \<open>
  \<open>encodeURIComponent\<close> of the JavaScript library, for the code points a \<open>char\<close> has (below
  256): all but the unreserved characters become their UTF-8 bytes in hexadecimal.  It is shown
  to be injective, which is what a name put into a path relies on.
\<close>

definition unreserved :: "char \<Rightarrow> bool" where
  "unreserved c \<longleftrightarrow> (let n = (of_char c :: nat) in
     (65 \<le> n \<and> n \<le> 90) \<or> (97 \<le> n \<and> n \<le> 122) \<or> (48 \<le> n \<and> n \<le> 57)) \<or> c \<in> set ''-_.!~*()'' \<or> c = CHR 0x27"

definition upper_hex :: "nat \<Rightarrow> char" where
  "upper_hex n = (if n < 10 then char_of (48 + n) else char_of (55 + n))"

definition percent :: "nat \<Rightarrow> string" where
  "percent b = [CHR ''%'', upper_hex (b div 16), upper_hex (b mod 16)]"

definition utf8 :: "nat \<Rightarrow> nat list" where
  "utf8 n = (if n < 128 then [n] else [192 + n div 64, 128 + n mod 64])"

definition encode_char :: "char \<Rightarrow> string" where
  "encode_char c = (if unreserved c then [c] else concat (map percent (utf8 (of_char c))))"

definition encodeURIComponent :: "string \<Rightarrow> string" where
  "encodeURIComponent s = concat (map encode_char s)"

text \<open>Reading it back: one escaped code point has two or one escapes, told apart by the first byte.\<close>

definition hex_value :: "char \<Rightarrow> nat" where
  "hex_value c = (let n = (of_char c :: nat) in if n < 58 then n - 48 else n - 55)"

fun next_char :: "string \<Rightarrow> (char \<times> string) option" where
  "next_char (p # a # b # rest) =
     (if p = CHR ''%'' then
        (let n = 16 * hex_value a + hex_value b in
           if n < 128 then Some (char_of n, rest)
           else (case rest of
               q # c # d # rest' \<Rightarrow> Some (char_of ((n - 192) * 64 + (16 * hex_value c + hex_value d - 128)), rest')
             | _ \<Rightarrow> None))
      else Some (p, a # b # rest))"
| "next_char (p # rest) = (if p = CHR ''%'' then None else Some (p, rest))"
| "next_char [] = None"

lemma next_char_encode: "next_char (encode_char c @ rest) = Some (c, rest)"
proof (cases "unreserved c")
  case True
  have "\<not> unreserved (CHR ''%'')" by (simp add: unreserved_def)
  with True have "c \<noteq> CHR ''%''" by blast
  with True show ?thesis by (cases rest rule: next_char.cases) (auto simp: encode_char_def)
next
  case False
  define n where "n = (of_char c :: nat)"
  have n: "n < 256" "c = char_of n" by (simp_all add: n_def)
  have hex: "hex_value (upper_hex k) = k" if "k < 16" for k
    using that by (auto simp: hex_value_def upper_hex_def Let_def)
  have h: "16 * hex_value (upper_hex (b div 16)) + hex_value (upper_hex (b mod 16)) = b" if "b < 256" for b
  proof -
    have "b div 16 < 16" "b mod 16 < 16" using that by simp_all
    with hex show ?thesis by simp
  qed
  show ?thesis
  proof (cases "n < 128")
    case True
    with False n show ?thesis by (simp add: encode_char_def utf8_def percent_def h Let_def flip: n_def)
  next
    case big: False
    have b: "192 + n div 64 < 256" "128 + n mod 64 < 256" using n by simp_all
    have "n div 64 * 64 + n mod 64 = n" by simp
    with False n big h [OF b(1)] h [OF b(2)] show ?thesis
      by (simp add: encode_char_def utf8_def percent_def Let_def flip: n_def)
  qed
qed

lemma encode_char_not_Nil: "encode_char c \<noteq> []"
  by (auto simp: encode_char_def utf8_def percent_def)

text \<open>Two names are never put into the same path.\<close>

lemma encodeURIComponent_inj: "encodeURIComponent s = encodeURIComponent t \<Longrightarrow> s = t"
proof (induction s arbitrary: t)
  case Nil
  then show ?case by (cases t) (simp_all add: encodeURIComponent_def encode_char_not_Nil)
next
  case (Cons c s)
  show ?case
  proof (cases t)
    case Nil
    with Cons.prems show ?thesis by (simp add: encodeURIComponent_def encode_char_not_Nil)
  next
    case (Cons d u)
    with Cons.prems have e: "encode_char c @ encodeURIComponent s = encode_char d @ encodeURIComponent u"
      unfolding encodeURIComponent_def by simp
    have "Some (c, encodeURIComponent s) = next_char (encode_char c @ encodeURIComponent s)" by (rule next_char_encode [symmetric])
    also have "\<dots> = Some (d, encodeURIComponent u)" unfolding e by (rule next_char_encode)
    finally have "c = d" "encodeURIComponent s = encodeURIComponent u" by simp_all
    with Cons.IH Cons show ?thesis by simp
  qed
qed

end
