(* ===== verification/PublicPages.thy ===== *)
theory PublicPages
  imports Reporting Urls Collections
begin

text \<open>
  The two pages a reader without an account can be on: somebody's published work
  (stores/profile.ts) and a shared collection (stores/shared.ts).  Both list items a page of 25
  at a time, open one of them to show what hangs off it, and record a missing page apart from a
  failure; what they have in common is modelled once, over the fields both stores have, and the
  two stores extend it.  \<open>Promise.all\<close> is \<open>both\<close>: the requests start together.
\<close>

section \<open>What the two pages share\<close>

record page_store = reporting_store +
  items :: "ItemEnvelope list"
  total :: nat
  loadingMore :: bool
  missing :: bool
  opened :: "string option"
  kids :: "ItemEnvelope list"

record page_payload =
  pTotal :: nat
  pItems :: "ItemEnvelope list"

type_synonym ('s, 'p, 'r) page_action = "('s page_store_scheme, 'p page_payload_scheme, 'r) action"

definition PAGE :: nat where
  "PAGE = 25"

definition hasMore :: "'s page_store_scheme \<Rightarrow> bool" where
  "hasMore s \<longleftrightarrow> length (items s) < total s"

text \<open>\<open>record\<close>: a 404 is a page that is not there, anything else a failure.\<close>

definition note_failure :: "thrown \<Rightarrow> 's page_store_scheme \<Rightarrow> 's page_store_scheme" where
  "note_failure e s = (if has_status e 404 then s\<lparr>missing := True\<rparr> else s\<lparr>failure := Some (error_message e)\<rparr>)"

definition take_items :: "nat \<Rightarrow> 'p page_payload_scheme \<Rightarrow> 's page_store_scheme \<Rightarrow> 's page_store_scheme" where
  "take_items start p s = s\<lparr>total := pTotal p, items := (if start = 0 then pItems p else items s @ pItems p)\<rparr>"

text \<open>\<open>fetchPage\<close>; \<open>q\<close> is the request for the page from a place on, made of the store as it is sent.\<close>

definition fetch_page :: "('s page_store_scheme \<Rightarrow> nat \<Rightarrow> call) \<Rightarrow> nat \<Rightarrow> ('s, 'p, unit) page_action" where
  "fetch_page q start = asks id (\<lambda>s. bind (req id (q s start)) (\<lambda>p. modify (take_items start p)))"

definition more_with :: "('s page_store_scheme \<Rightarrow> nat \<Rightarrow> call) \<Rightarrow> ('s, 'p, unit) page_action" where
  "more_with q = asks id (\<lambda>s.
     if loadingMore s \<or> \<not> hasMore s then ret ()
     else seq (modify (\<lambda>s. s\<lparr>loadingMore := True\<rparr>))
       (try_finally
         (try_catch (asks (\<lambda>s. length (items s)) (fetch_page q)) (\<lambda>e. modify (note_failure e)))
         (\<lambda>s. s\<lparr>loadingMore := False\<rparr>)))"

text \<open>\<open>open\<close>: opening what is open closes it; the reader may have moved on when the answer comes.\<close>

definition open_with :: "(string \<Rightarrow> call) \<Rightarrow> string \<Rightarrow> ('s, 'p, unit) page_action" where
  "open_with q key = asks opened (\<lambda>o'.
     if o' = Some key then modify (\<lambda>s. s\<lparr>opened := None, kids := []\<rparr>)
     else seq (modify (\<lambda>s. s\<lparr>opened := Some key, kids := []\<rparr>))
       (try_catch
         (bind (req pItems (q key)) (\<lambda>is. modify (\<lambda>s. if opened s = Some key then s\<lparr>kids := is\<rparr> else s)))
         (\<lambda>e. modify (note_failure e))))"

definition download_suffix :: "bool \<Rightarrow> string" where
  "download_suffix download = (if download then ''?download=true'' else '''')"

section \<open>The profile page\<close>

record Profile =
  username :: string
  displayName :: string
  numPublications :: nat
  owner :: bool
  visibility :: "string option"

record profile_store = page_store +
  profile :: "Profile option"

record profile_payload = page_payload +
  pProfile :: Profile

type_synonym 'r profile_action = "(profile_store, profile_payload, 'r) action"

definition no_profile :: profile_store where
  "no_profile = \<lparr>busy = False, failure = None, items = [], total = 0, loadingMore = False, missing = False,
     opened = None, kids = [], profile = None\<rparr>"

definition profile_path :: "string \<Rightarrow> string" where
  "profile_path user = ''/web/profiles/'' @ encodeURIComponent user"

definition profile_reset :: "profile_store \<Rightarrow> profile_store" where
  "profile_reset s = s\<lparr>profile := None, items := [], total := 0, missing := False, failure := None, opened := None, kids := []\<rparr>"

definition profile_page :: "string \<Rightarrow> profile_store \<Rightarrow> nat \<Rightarrow> call" where
  "profile_page user s start = GET (profile_path user @ ''/items'') [(''limit'', show_nat PAGE), (''start'', show_nat start)]"

definition profile_load :: "string \<Rightarrow> unit profile_action" where
  "profile_load user =
     seq (modify profile_reset)
     (seq (modify (\<lambda>s. s\<lparr>busy := True\<rparr>))
       (try_finally
         (try_catch
           (bind (both (req pProfile (GET (profile_path user) [])) (fetch_page (profile_page user) 0))
             (\<lambda>(described, _). modify (\<lambda>s. s\<lparr>profile := Some described\<rparr>)))
           (\<lambda>e. modify (note_failure e)))
         (\<lambda>s. s\<lparr>busy := False\<rparr>)))"

definition profile_more :: "string \<Rightarrow> unit profile_action" where
  "profile_more user = more_with (profile_page user)"

definition profile_open :: "string \<Rightarrow> string \<Rightarrow> unit profile_action" where
  "profile_open user key = open_with (\<lambda>k. GET (profile_path user @ ''/items/'' @ k @ ''/children'') []) key"

definition profile_fileUrl :: "string \<Rightarrow> string \<Rightarrow> bool \<Rightarrow> string" where
  "profile_fileUrl user key download = profile_path user @ ''/items/'' @ key @ ''/file'' @ download_suffix download"

inductive profile_program :: "unit profile_action \<Rightarrow> bool" where
  "profile_program (profile_load user)"
| "profile_program (profile_more user)"
| "profile_program (profile_open user key)"
| "profile_program (modify profile_reset)"

section \<open>The shared collection\<close>

record SharedCollection =
  sharedName :: string
  sharedLibrary :: string
  withSubcollections :: bool
  withFiles :: bool
  sharedItems :: nat
  sharedExpires :: "string option"

record shared_store = page_store +
  shared :: "SharedCollection option"
  collections :: "CollectionEnvelope list"
  inside :: "string option"
  search :: string

record shared_payload = page_payload +
  pShared :: SharedCollection
  pCollections :: "CollectionEnvelope list"

type_synonym 'r shared_action = "(shared_store, shared_payload, 'r) action"

definition no_shared :: shared_store where
  "no_shared = \<lparr>busy = False, failure = None, items = [], total = 0, loadingMore = False, missing = False,
     opened = None, kids = [], shared = None, collections = [], inside = None, search = ''''\<rparr>"

definition base :: "string \<Rightarrow> string" where
  "base token = ''/web/shared/'' @ encodeURIComponent token"

definition shared_reset :: "shared_store \<Rightarrow> shared_store" where
  "shared_reset s = s\<lparr>shared := None, collections := [], items := [], total := 0, missing := False, failure := None,
     inside := None, search := '''', opened := None, kids := []\<rparr>"

definition shared_query :: "shared_store \<Rightarrow> nat \<Rightarrow> (string \<times> string) list" where
  "shared_query s start = [(''limit'', show_nat PAGE), (''start'', show_nat start)] @
     (case given (inside s) of None \<Rightarrow> [] | Some k \<Rightarrow> [(''collection'', k)]) @
     (if trim (search s) = '''' then [] else [(''q'', trim (search s))])"

definition shared_page :: "string \<Rightarrow> shared_store \<Rightarrow> nat \<Rightarrow> call" where
  "shared_page token s start = GET (base token @ ''/items'') (shared_query s start)"

definition shared_load :: "string \<Rightarrow> unit shared_action" where
  "shared_load token =
     seq (modify shared_reset)
     (seq (modify (\<lambda>s. s\<lparr>busy := True\<rparr>))
       (try_finally
         (try_catch
           (bind (both (req pShared (GET (base token) []))
                 (both (req pCollections (GET (base token @ ''/collections'') [])) (fetch_page (shared_page token) 0)))
             (\<lambda>(described, listed, _). modify (\<lambda>s. s\<lparr>shared := Some described, collections := listed\<rparr>)))
           (\<lambda>e. modify (note_failure e)))
         (\<lambda>s. s\<lparr>busy := False\<rparr>)))"

definition shared_refresh :: "string \<Rightarrow> unit shared_action" where
  "shared_refresh token =
     seq (modify (\<lambda>s. s\<lparr>busy := True, opened := None, kids := []\<rparr>))
       (try_finally
         (try_catch (fetch_page (shared_page token) 0) (\<lambda>e. modify (note_failure e)))
         (\<lambda>s. s\<lparr>busy := False\<rparr>))"

definition shared_more :: "string \<Rightarrow> unit shared_action" where
  "shared_more token = more_with (shared_page token)"

definition shared_open :: "string \<Rightarrow> string \<Rightarrow> unit shared_action" where
  "shared_open token key = open_with (\<lambda>k. GET (base token @ ''/items/'' @ k @ ''/children'') []) key"

definition shared_fileUrl :: "string \<Rightarrow> string \<Rightarrow> bool \<Rightarrow> string" where
  "shared_fileUrl token key download = base token @ ''/items/'' @ key @ ''/file'' @ download_suffix download"

text \<open>The view's part: narrowing to a collection and typing a search change the store and redraw.\<close>

definition narrow :: "string \<Rightarrow> string option \<Rightarrow> unit shared_action" where
  "narrow token key = seq (modify (\<lambda>s. s\<lparr>inside := key\<rparr>)) (shared_refresh token)"

inductive shared_program :: "unit shared_action \<Rightarrow> bool" where
  "shared_program (shared_load token)"
| "shared_program (shared_refresh token)"
| "shared_program (shared_more token)"
| "shared_program (shared_open token key)"
| "shared_program (narrow token key)"
| "shared_program (modify (\<lambda>s. s\<lparr>search := text\<rparr>))"
| "shared_program (modify shared_reset)"

section \<open>What hangs off the item that is open\<close>

text \<open>
  The contract of a write of either store: \<open>closed_empty\<close> is kept.  It is stated once for both.
\<close>

definition closed_empty :: "'s page_store_scheme \<Rightarrow> bool" where
  "closed_empty s \<longleftrightarrow> (opened s = None \<longrightarrow> kids s = [])"

locale page_steps =
  fixes R :: "'s page_store_scheme \<Rightarrow> 's page_store_scheme \<Rightarrow> bool"
  assumes order: "preorder_rel R"
    and small: "R s (s\<lparr>busy := b\<rparr>)" "R s (s\<lparr>loadingMore := b\<rparr>)" "R s (s\<lparr>missing := b\<rparr>)" "R s (s\<lparr>failure := f\<rparr>)"
      "R s (s\<lparr>total := n, items := is\<rparr>)"
    and to_open: "R s (s\<lparr>opened := k, kids := []\<rparr>)"
    and to_fill: "opened s \<noteq> None \<Longrightarrow> R s (s\<lparr>kids := is\<rparr>)"
begin

lemmas rules = stretches_ret [OF order] stretches_throw [OF order] stretches_await [OF order] stretches_bind [OF order]
  stretches_catch [OF order] stretches_finally [OF order] stretches_seq [OF order] stretches_both [OF order]

lemma req_ok: "stretches R (req pick q)"
  unfolding req_def by (intro rules)

lemma note_failure_ok: "stretches R (modify (note_failure e))"
  unfolding note_failure_def using small by (intro stretches_modify) simp

lemma fetch_ok: "stretches R (fetch_page q start)"
  unfolding fetch_page_def take_items_def by (intro rules req_ok stretches_asks stretches_modify small)

lemma more_ok: "stretches R (more_with q)"
  unfolding more_with_def
  by (intro rules fetch_ok note_failure_ok stretches_asks stretches_if stretches_modify small)

lemma open_ok: "stretches R (open_with q key)"
proof -
  have "R s (if opened s = Some key then s\<lparr>kids := is\<rparr> else s)" for s "is"
    using to_fill preorder_reflD [OF order] by simp
  then show ?thesis
    unfolding open_with_def
    by (intro rules req_ok note_failure_ok stretches_asks stretches_if stretches_modify to_open)
qed

end

interpretation pages: page_steps "keeps closed_empty"
  by unfold_locales (auto simp: keeps_def closed_empty_def)

lemma profile_program_ok: "profile_program m \<Longrightarrow> stretches (keeps closed_empty) m"
proof (induction rule: profile_program.induct)
  case (1 user)
  show ?case unfolding profile_load_def
    by (intro pages.rules pages.req_ok pages.fetch_ok pages.note_failure_ok stretches_modify stretches_prod)
      (simp_all add: keeps_def closed_empty_def profile_reset_def)
next
  case 4
  show ?case by (intro stretches_modify) (simp add: keeps_def closed_empty_def profile_reset_def)
qed (unfold profile_more_def profile_open_def, (intro pages.more_ok pages.open_ok)+)

lemma shared_refresh_ok: "stretches (keeps closed_empty) (shared_refresh token)"
  unfolding shared_refresh_def
  by (intro pages.rules pages.fetch_ok pages.note_failure_ok stretches_modify)
    (simp_all add: keeps_def closed_empty_def)

lemma shared_program_ok: "shared_program m \<Longrightarrow> stretches (keeps closed_empty) m"
proof (induction rule: shared_program.induct)
  case (1 token)
  show ?case unfolding shared_load_def
    by (intro pages.rules pages.req_ok pages.fetch_ok pages.note_failure_ok stretches_modify stretches_prod)
      (simp_all add: keeps_def closed_empty_def shared_reset_def)
next
  case (5 token key)
  show ?case unfolding narrow_def
    by (intro pages.rules shared_refresh_ok stretches_modify) (simp add: keeps_def closed_empty_def)
qed (unfold shared_more_def shared_open_def,
    (rule pages.more_ok pages.open_ok shared_refresh_ok
      | (rule stretches_modify, simp add: keeps_def closed_empty_def shared_reset_def))+)

interpretation profile_always: store_invariant closed_empty "Collect profile_program"
  by unfold_locales (simp add: profile_program_ok)

interpretation shared_always: store_invariant closed_empty "Collect shared_program"
  by unfold_locales (simp add: shared_program_ok)

text \<open>Nothing hangs about when no item is open, on either page, however the reader opens, closes,
  searches and turns pages while answers are under way; and what hangs off an item is shown only
  if that item is the one open when the answer arrives.\<close>

theorem children_of_the_open_item:
  assumes "reachable (Collect profile_program) no_profile (s, ps)" "reachable (Collect shared_program) no_shared (t, qs)"
  shows "(opened s = None \<longrightarrow> kids s = []) \<and> (opened t = None \<longrightarrow> kids t = []) \<and>
    (opened u \<noteq> Some key \<longrightarrow> (\<exists>v k. shared_open token key u = (v, Wait (GET (base token @ ''/items/'' @ key @ ''/children'') []) k) \<and>
       (\<forall>p w. k (Inr p) w = (if opened w = Some key then w\<lparr>kids := pItems p\<rparr> else w, Done ()))))"
proof -
  have "closed_empty s" by (rule profile_always.always [OF assms(1)]) (simp add: closed_empty_def no_profile_def)
  moreover have "closed_empty t" by (rule shared_always.always [OF assms(2)]) (simp add: closed_empty_def no_shared_def)
  ultimately show ?thesis
    by (auto simp: closed_empty_def shared_open_def open_with_def req_def async_simps)
qed

theorem children_of_the_open_item_witness:
  "\<forall>p. kids (fst (feed [p] (shared_open ''tok'' ''ABCD'' (fst (shared_open ''tok'' ''ABCD'' no_shared))))) = []"
proof -
  have "reachable (Collect profile_program) no_profile (no_profile, [])" by (rule reachable.init)
  moreover have "step (Collect shared_program) (no_shared, []) (fst (shared_open ''tok'' ''ABCD'' no_shared), [] @ [snd (shared_open ''tok'' ''ABCD'' no_shared)])"
    by (rule step.start [where m = "shared_open ''tok'' ''ABCD''"]) (simp_all add: shared_program.intros)
  then have r: "reachable (Collect shared_program) no_shared (fst (shared_open ''tok'' ''ABCD'' no_shared), [] @ [snd (shared_open ''tok'' ''ABCD'' no_shared)])"
    by (rule reachable.next_step [OF reachable.init])
  have "step (Collect shared_program) (fst (shared_open ''tok'' ''ABCD'' no_shared), [] @ [snd (shared_open ''tok'' ''ABCD'' no_shared)])
      (fst (shared_open ''tok'' ''ABCD'' (fst (shared_open ''tok'' ''ABCD'' no_shared))), ([] @ [snd (shared_open ''tok'' ''ABCD'' no_shared)])
        @ [snd (shared_open ''tok'' ''ABCD'' (fst (shared_open ''tok'' ''ABCD'' no_shared)))])"
    by (rule step.start [where m = "shared_open ''tok'' ''ABCD''"]) (simp_all add: shared_program.intros)
  note r2 = reachable.next_step [OF r this]
  have o: "opened (fst (shared_open ''tok'' ''ABCD'' (fst (shared_open ''tok'' ''ABCD'' no_shared)))) = None"
    "\<exists>t. shared_open ''tok'' ''ABCD'' (fst (shared_open ''tok'' ''ABCD'' no_shared)) = (t, Done ())"
    by (simp_all add: shared_open_def open_with_def async_simps no_shared_def req_def)
  with children_of_the_open_item [OF reachable.init r2] show ?thesis by auto
qed

section \<open>Every page in the end\<close>

text \<open>
  A server that holds a fixed list answers a request for the items from a place on with the next
  25 of them; \<open>scroll\<close> asks for more, again and again.
\<close>

definition serves :: "ItemEnvelope list \<Rightarrow> (nat \<Rightarrow> 'p page_payload_scheme) \<Rightarrow> bool" where
  "serves xs ans \<longleftrightarrow> (\<forall>n. pTotal (ans n) = length xs \<and> pItems (ans n) = take PAGE (drop n xs))"

fun scroll :: "(nat \<Rightarrow> 'p page_payload_scheme) \<Rightarrow> ('s, 'p, unit) page_action \<Rightarrow> nat \<Rightarrow> 's page_store_scheme \<Rightarrow> 's page_store_scheme" where
  "scroll ans more_pages 0 s = s"
| "scroll ans more_pages (Suc n) s =
     (let t = scroll ans more_pages n s in fst (feed [Inr (ans (length (items t)))] (more_pages t)))"

text \<open>What a list has when it has been read up to a place.\<close>

definition read_to :: "ItemEnvelope list \<Rightarrow> nat \<Rightarrow> 's page_store_scheme \<Rightarrow> bool" where
  "read_to xs n s \<longleftrightarrow> \<not> loadingMore s \<and> total s = length xs \<and> items s = take n xs"

lemma more_reads_on:
  assumes "serves xs ans" "read_to xs n s"
  shows "read_to xs (n + PAGE) (fst (feed [Inr (ans (length (items s)))] (more_with q s)))"
proof (cases "n < length xs")
  case True
  then have "length (items s) = n" using assms(2) by (simp add: read_to_def)
  moreover have "take (n + PAGE) xs = take n xs @ take PAGE (drop n xs)" by (rule take_add)
  ultimately show ?thesis
    using True assms
    by (cases n) (simp_all add: read_to_def serves_def more_with_def hasMore_def fetch_page_def req_def async_simps take_items_def)
next
  case False
  with assms(2) show ?thesis by (simp add: read_to_def more_with_def hasMore_def async_simps)
qed

lemma scroll_reads:
  "serves xs ans \<Longrightarrow> read_to xs k s \<Longrightarrow> read_to xs (k + n * PAGE) (scroll ans (more_with q) n s)"
proof (induction n)
  case (Suc n)
  then have "read_to xs (k + n * PAGE) (scroll ans (more_with q) n s)" by simp
  from more_reads_on [OF Suc.prems(1) this] show ?case by (simp add: Let_def algebra_simps)
qed simp

lemma read_to_end: "read_to xs n s \<Longrightarrow> hasMore s \<longleftrightarrow> n < length xs"
  by (auto simp: read_to_def hasMore_def)



section \<open>A list that was overtaken\<close>

text \<open>
  Nothing ties the answer of a list to the collection or the search that is shown when it
  arrives: of two narrowings under way, the one whose answer comes last fills the list.
\<close>

lemma overtaken_list_is_shown:
  assumes "narrow token (Some k1) s = (s1, Wait q1 f1)" "narrow token (Some k2) s1 = (s2, Wait q2 f2)"
    and "f2 (Inr p2) s2 = (s3, Done ())" "f1 (Inr p1) s3 = (s4, Done ())"
  shows "inside s4 = Some k2 \<and> items s4 = pItems p1"
  using assms
  by (auto simp: narrow_def shared_refresh_def fetch_page_def req_def async_simps take_items_def)

end
