(* ===== verification/Regex.thy ===== *)
theory Regex
  imports Prelude
begin

text \<open>
  Regular expressions of JavaScript, as the specification runs them: the ways an expression can
  match at a place are listed in the order backtracking tries them, so the first one is the match.
  A repetition goes round again only after something was consumed.  Characters are \<open>char\<close>, or
  the numbers of code units where the program writes others; a flag such as \<open>i\<close> is written into
  the class of characters, and a boundary names what the characters of a word are.
\<close>

section \<open>Expressions\<close>

datatype 'c regex =
    Cls "'c \<Rightarrow> bool"
  | Eps
  | Seq "'c regex" "'c regex"
  | Alt "'c regex" "'c regex"
  | Star bool "'c regex"
  | Grp nat "'c regex"
  | Bound "'c \<Rightarrow> bool"
  | Start
  | End

text \<open>Where a match stands: what is behind, nearest first, what is ahead, and the groups captured.\<close>

type_synonym 'c place = "'c list \<times> 'c list \<times> (nat \<times> 'c list) list"

definition ahead :: "'c place \<Rightarrow> 'c list" where
  "ahead p = fst (snd p)"

definition word_char :: "char \<Rightarrow> bool" where
  "word_char c \<longleftrightarrow> (let n = (of_char c :: nat) in
     (48 \<le> n \<and> n \<le> 57) \<or> (65 \<le> n \<and> n \<le> 90) \<or> (97 \<le> n \<and> n \<le> 122) \<or> n = 95)"

definition digit :: "char \<Rightarrow> bool" where
  "digit c \<longleftrightarrow> (let n = (of_char c :: nat) in 48 \<le> n \<and> n \<le> 57)"

definition at_bound :: "('c \<Rightarrow> bool) \<Rightarrow> 'c place \<Rightarrow> bool" where
  "at_bound word p = (case p of (b, r, _) \<Rightarrow>
     (case b of [] \<Rightarrow> False | c # _ \<Rightarrow> word c) \<noteq> (case r of [] \<Rightarrow> False | c # _ \<Rightarrow> word c))"

function run :: "'c regex \<Rightarrow> 'c place \<Rightarrow> 'c place list" where
  "run (Cls P) (b, r, c) = (case r of [] \<Rightarrow> [] | x # xs \<Rightarrow> if P x then [(x # b, xs, c)] else [])"
| "run Eps p = [p]"
| "run (Seq e f) p = concat (map (\<lambda>q. if length (ahead q) \<le> length (ahead p) then run f q else []) (run e p))"
| "run (Alt e f) p = run e p @ run f p"
| "run (Star greedy e) p =
     (let again = concat (map (\<lambda>q. if length (ahead q) < length (ahead p) then run (Star greedy e) q else []) (run e p))
      in if greedy then again @ [p] else p # again)"
| "run (Grp n e) p = map (\<lambda>(b, r, c). (b, r, (n, take (length (ahead p) - length r) (ahead p)) # c)) (run e p)"
| "run (Bound word) p = (if at_bound word p then [p] else [])"
| "run Start (b, r, c) = (if b = [] then [(b, r, c)] else [])"
| "run End (b, r, c) = (if r = [] then [(b, r, c)] else [])"
  by pat_completeness auto
termination
  by (relation "measures [\<lambda>(e, p). length (ahead p), \<lambda>(e, p). size e]") (auto simp: ahead_def)

lemmas run_Star = run.simps(5)

declare run.simps(5) [simp del]

text \<open>The derived forms.\<close>

abbreviation "Opt e \<equiv> Alt e Eps"
abbreviation "Many e \<equiv> Star True e"
abbreviation "Many1 e \<equiv> Seq e (Star True e)"
abbreviation "Any \<equiv> Cls (\<lambda>c. c \<noteq> CHR 0x0A \<and> c \<noteq> CHR 0x0D)"

definition Lit :: "'c \<Rightarrow> 'c regex" where
  "Lit x = Cls (\<lambda>c. c = x)"

fun seqs :: "'c regex list \<Rightarrow> 'c regex" where
  "seqs [] = Eps"
| "seqs [e] = e"
| "seqs (e # f # es) = Seq e (seqs (f # es))"

fun alts :: "'c regex list \<Rightarrow> 'c regex" where
  "alts [] = Cls (\<lambda>_. False)"
| "alts [e] = e"
| "alts (e # f # es) = Alt e (alts (f # es))"

definition Word :: "'c list \<Rightarrow> 'c regex" where
  "Word s = seqs (map Lit s)"

text \<open>A word whatever its case.\<close>

definition Word_i :: "string \<Rightarrow> char regex" where
  "Word_i s = seqs (map (\<lambda>x. Cls (\<lambda>c. lower_char c = lower_char x)) s)"

text \<open>\<open>e{lo,hi}\<close>, greedy.\<close>

fun upto :: "nat \<Rightarrow> 'c regex \<Rightarrow> 'c regex" where
  "upto 0 e = Eps"
| "upto (Suc n) e = Opt (Seq e (upto n e))"

definition between :: "nat \<Rightarrow> nat \<Rightarrow> 'c regex \<Rightarrow> 'c regex" where
  "between lo hi e = seqs (replicate lo e @ [upto (hi - lo) e])"

section \<open>Using them\<close>

definition group :: "nat \<Rightarrow> 'c place \<Rightarrow> 'c list option" where
  "group n p = map_of (snd (snd p)) n"

text \<open>\<open>exec\<close>: the first place there is a match at, with what is behind it; group 0 is the match.\<close>

fun exec_from :: "'c regex \<Rightarrow> 'c list \<Rightarrow> 'c list \<Rightarrow> ('c list \<times> 'c place) option" where
  "exec_from e b r = (case run (Grp 0 e) (b, r, []) of
     p # _ \<Rightarrow> Some (rev b, p)
   | [] \<Rightarrow> (case r of [] \<Rightarrow> None | x # xs \<Rightarrow> exec_from e (x # b) xs))"

declare exec_from.simps [simp del]

definition exec :: "'c regex \<Rightarrow> 'c list \<Rightarrow> ('c list \<times> 'c place) option" where
  "exec e s = exec_from e [] s"

definition test :: "'c regex \<Rightarrow> 'c list \<Rightarrow> bool" where
  "test e s \<longleftrightarrow> exec e s \<noteq> None"

text \<open>\<open>replace\<close> with the flag \<open>g\<close>; an empty match is stepped over.\<close>

function replace_from :: "'c regex \<Rightarrow> ('c place \<Rightarrow> 'c list) \<Rightarrow> 'c list \<Rightarrow> 'c list \<Rightarrow> 'c list" where
  "replace_from e f b r = (case run (Grp 0 e) (b, r, []) of
     p # _ \<Rightarrow> if length (ahead p) < length r then f p @ replace_from e f (fst p) (ahead p)
              else f p @ (case r of [] \<Rightarrow> [] | x # xs \<Rightarrow> x # replace_from e f (x # b) xs)
   | [] \<Rightarrow> (case r of [] \<Rightarrow> [] | x # xs \<Rightarrow> x # replace_from e f (x # b) xs))"
  by pat_completeness auto
termination by (relation "measure (\<lambda>(e, f, b, r). length r)") auto

declare replace_from.simps [simp del]

definition replace_all :: "'c regex \<Rightarrow> ('c place \<Rightarrow> 'c list) \<Rightarrow> 'c list \<Rightarrow> 'c list" where
  "replace_all e f s = replace_from e f [] s"

section \<open>What a match consumes\<close>

text \<open>The words of an expression, whatever stands around them.\<close>

inductive lang :: "'c regex \<Rightarrow> 'c list \<Rightarrow> bool" where
  "P x \<Longrightarrow> lang (Cls P) [x]"
| "lang Eps []"
| "lang e u \<Longrightarrow> lang f v \<Longrightarrow> lang (Seq e f) (u @ v)"
| "lang e u \<Longrightarrow> lang (Alt e f) u"
| "lang f u \<Longrightarrow> lang (Alt e f) u"
| "lang (Star g e) []"
| "lang e u \<Longrightarrow> lang (Star g e) v \<Longrightarrow> lang (Star g e) (u @ v)"
| "lang e u \<Longrightarrow> lang (Grp n e) u"
| "lang (Bound word) []"
| "lang Start []"
| "lang End []"

inductive_simps lang_simps [simp]:
  "lang (Cls P) u" "lang Eps u" "lang (Seq e f) u" "lang (Alt e f) u" "lang (Grp n e) u" "lang (Bound word) u" "lang Start u" "lang End u"

lemma lang_star_class: "lang (Star g (Cls P)) u \<Longrightarrow> list_all P u"
  by (induction "Star g (Cls P)" u rule: lang.induct) auto

lemma run_lang:
  "q \<in> set (run e p) \<Longrightarrow> \<exists>u. lang e u \<and> ahead p = u @ ahead q \<and> fst q = rev u @ fst p"
proof (induction e p arbitrary: q rule: run.induct)
  case (1 P b r c)
  then show ?case by (auto simp: ahead_def split: list.splits if_splits)
next
  case (3 e f p)
  then obtain m where m: "m \<in> set (run e p)" "length (ahead m) \<le> length (ahead p)" "q \<in> set (run f m)"
    by (auto split: if_splits)
  from "3.IH"(1) [OF m(1)] obtain u where u: "lang e u" "ahead p = u @ ahead m" "fst m = rev u @ fst p" by blast
  from "3.IH"(2) [OF m(1,2) m(3)] obtain v where v: "lang f v" "ahead m = v @ ahead q" "fst q = rev v @ fst m" by blast
  from u v have "lang (Seq e f) (u @ v) \<and> ahead p = (u @ v) @ ahead q \<and> fst q = rev (u @ v) @ fst p"
    by (simp add: lang.intros del: lang_simps)
  then show ?case by blast
next
  case (4 e f p)
  then have "q \<in> set (run e p) \<or> q \<in> set (run f p)" by simp
  with "4.IH" show ?case unfolding lang_simps by blast
next
  case (5 greedy e p)
  show ?case
  proof (cases "q = p")
    case True
    then show ?thesis by (intro exI [of _ "[]"]) (simp add: lang.intros)
  next
    case False
    with "5.prems" obtain m where m: "m \<in> set (run e p)" "length (ahead m) < length (ahead p)" "q \<in> set (run (Star greedy e) m)"
      by (auto simp: run_Star [of _ _ p] Let_def split: if_splits)
    from "5.IH"(1) [OF m(1)] obtain u where u: "lang e u" "ahead p = u @ ahead m" "fst m = rev u @ fst p" by blast
    from "5.IH"(2) [OF m] obtain v where v: "lang (Star greedy e) v" "ahead m = v @ ahead q" "fst q = rev v @ fst m" by blast
    from u v have "lang (Star greedy e) (u @ v) \<and> ahead p = (u @ v) @ ahead q \<and> fst q = rev (u @ v) @ fst p"
      by (simp add: lang.intros(7))
    then show ?thesis by blast
  qed
next
  case (6 n e p)
  then obtain m where m: "m \<in> set (run e p)" and q: "ahead q = ahead m" "fst q = fst m" by (auto simp: ahead_def)
  from "6.IH" [OF m] q show ?case by simp
qed (auto split: if_splits)

lemma run_shrinks: "q \<in> set (run e p) \<Longrightarrow> length (ahead q) \<le> length (ahead p)"
  using run_lang by fastforce

text \<open>An expression anchored at both ends is tested on the whole of a string.\<close>

fun to_end :: "'c regex \<Rightarrow> bool" where
  "to_end End \<longleftrightarrow> True"
| "to_end (Seq e f) \<longleftrightarrow> to_end f"
| "to_end _ \<longleftrightarrow> False"

lemma run_to_end: "to_end e \<Longrightarrow> q \<in> set (run e p) \<Longrightarrow> ahead q = []"
proof (induction e arbitrary: p)
  case (Seq e f)
  then show ?case by (auto split: if_splits)
qed (cases p; auto simp: ahead_def split: if_splits)+

lemma exec_start_later: "exec_from (Seq Start f) (x # b) r = None"
proof -
  have "run (Grp 0 (Seq Start f)) (x # b, r, c) = []" for x b r c
    unfolding run.simps(3,6,8) by simp
  then show ?thesis
    by (induction r arbitrary: x b) (simp_all add: exec_from.simps [of _ _ "[]"] exec_from.simps [of _ _ "_ # _"] del: run.simps)
qed

lemma test_start: "test (Seq Start f) s \<longleftrightarrow> run f ([], s, []) \<noteq> []"
proof -
  have "run (Seq Start f) ([], s, []) = run f ([], s, [])" by (simp only: run.simps(3,8)) simp
  then have "run (Grp 0 (Seq Start f)) ([], s, []) = [] \<longleftrightarrow> run f ([], s, []) = []"
    unfolding run.simps(6) by simp
  then show ?thesis
    unfolding test_def exec_def exec_from.simps [of _ "[]" s] by (auto simp: exec_start_later split: list.splits)
qed

lemma test_anchored: "to_end f \<Longrightarrow> test (Seq Start f) s \<Longrightarrow> lang f s"
proof -
  assume e: "to_end f" and t: "test (Seq Start f) s"
  from t obtain q where q: "q \<in> set (run f ([], s, []))"
    unfolding test_start by (metis list.set_intros(1) neq_Nil_conv)
  from run_lang [OF q] run_to_end [OF e q] show ?thesis by (auto simp: ahead_def)
qed

section \<open>Runs of a class\<close>

text \<open>A repeated class, taken greedily as far as it goes, is what \<open>^[..]*$\<close> tests.\<close>

lemma run_star_class:
  "run (Star True (Cls P)) (b, r, c) = map (\<lambda>n. (rev (take n r) @ b, drop n r, c)) (rev [0..<Suc (length (takeWhile P r))])"
proof (induction r arbitrary: b)
  case Nil
  then show ?case by (simp add: run_Star ahead_def)
next
  case (Cons x r)
  show ?case
  proof (cases "P x")
    case True
    have s: "[0..<Suc (Suc (length (takeWhile P r)))] = 0 # map Suc [0..<Suc (length (takeWhile P r))]"
      by (simp add: upt_conv_Cons map_Suc_upt del: upt_Suc)
    have "run (Star True (Cls P)) (b, x # r, c) = run (Star True (Cls P)) (x # b, r, c) @ [(b, x # r, c)]"
      using True by (simp add: run_Star [of _ _ "(b, x # r, c)"] ahead_def)
    also have "\<dots> = map (\<lambda>n. (rev (take n (x # r)) @ b, drop n (x # r), c)) (rev [0..<Suc (Suc (length (takeWhile P r)))])"
      unfolding s Cons.IH by (simp add: rev_map)
    finally show ?thesis using True by simp
  qed (simp add: run_Star ahead_def)
qed

lemma length_takeWhile_all: "length (takeWhile P xs) = length xs \<longleftrightarrow> list_all P xs"
  by (induction xs) auto

lemma run_star_class_end:
  "run (Seq (Star True (Cls P)) End) (b, r, c) = (if list_all P r then [(rev r @ b, [], c)] else [])"
proof -
  let ?k = "length (takeWhile P r)"
  have "run (Seq (Star True (Cls P)) End) (b, r, c) =
      concat (map (\<lambda>n. if drop n r = [] then [(rev (take n r) @ b, drop n r, c)] else []) (rev [0..<Suc ?k]))"
    by (simp add: run_star_class ahead_def map_concat comp_def cong: if_cong del: upt_Suc)
  also have "\<dots> = (if ?k = length r then [(rev r @ b, [], c)] else [])"
  proof -
    have k: "?k \<le> length r" by (rule length_takeWhile_le)
    have "concat (map (\<lambda>n. if drop n r = [] then [(rev (take n r) @ b, drop n r, c)] else []) (rev [0..<?k])) = []"
      using k by (auto simp: concat_eq_Nil_conv)
    with k show ?thesis by auto
  qed
  also have "?k = length r \<longleftrightarrow> list_all P r" by (rule length_takeWhile_all)
  finally show ?thesis by simp
qed

lemma test_class: "test (Seq Start (Seq (Star True (Cls P)) End)) s \<longleftrightarrow> list_all P s"
  unfolding test_start run_star_class_end by simp

section \<open>The first way to match\<close>

text \<open>The way that is tried first and leads to the end, followed step by step.\<close>

definition firstly :: "'c regex \<Rightarrow> 'c place \<Rightarrow> 'c place \<Rightarrow> bool" where
  "firstly e p q \<longleftrightarrow> (\<exists>qs. run e p = q # qs)"

named_theorems first_way

lemma firstly_Cls [first_way]: "P x \<Longrightarrow> firstly (Cls P) (b, x # xs, c) (x # b, xs, c)"
  by (simp add: firstly_def)

lemma firstly_here [first_way]:
  "firstly Eps p p" "firstly Start ([], r, c) ([], r, c)" "firstly End (b, [], c) (b, [], c)" "firstly (Star False e) p p"
  "at_bound w p \<Longrightarrow> firstly (Bound w) p p"
  by (simp_all add: firstly_def run_Star Let_def)

lemma firstly_shrinks: "firstly e p q \<Longrightarrow> length (ahead q) \<le> length (ahead p)"
  using run_shrinks [of q e p] by (auto simp: firstly_def)

lemma firstly_Seq [first_way]: "firstly e p q \<Longrightarrow> firstly f q r \<Longrightarrow> firstly (Seq e f) p r"
  using firstly_shrinks [of e p q] by (auto simp: firstly_def)

lemma firstly_Alt1: "firstly e p q \<Longrightarrow> firstly (Alt e f) p q"
  by (auto simp: firstly_def)

lemma firstly_Alt2: "run e p = [] \<Longrightarrow> firstly f p q \<Longrightarrow> firstly (Alt e f) p q"
  by (auto simp: firstly_def)

lemma firstly_Star_stop: "run e p = [] \<Longrightarrow> firstly (Star True e) p p"
  by (simp add: firstly_def run_Star)

lemma firstly_Star_go:
  "firstly e p q \<Longrightarrow> length (ahead q) < length (ahead p) \<Longrightarrow> firstly (Star True e) q r \<Longrightarrow> firstly (Star True e) p r"
  by (auto simp: firstly_def run_Star [of True e p] Let_def)

lemma firstly_Grp [first_way]:
  "firstly e (b, u @ r, c) (b', r, c') \<Longrightarrow> firstly (Grp n e) (b, u @ r, c) (b', r, (n, u) # c')"
  by (auto simp: firstly_def ahead_def)

lemma firstly_upto:
  "list_all P u \<Longrightarrow> length u \<le> n \<Longrightarrow> length u = n \<or> r = [] \<or> \<not> P (hd r) \<Longrightarrow> firstly (upto n (Cls P)) (b, u @ r, c) (rev u @ b, r, c)"
proof (induction n arbitrary: u b)
  case (Suc n)
  show ?case
  proof (cases u)
    case Nil
    with Suc.prems have "run (Cls P) (b, r, c) = []" by (cases r) auto
    then show ?thesis using Nil by (auto intro: firstly_Alt2 firstly_here)
  next
    case (Cons x v)
    with Suc.prems have "firstly (upto n (Cls P)) (x # b, v @ r, c) (rev v @ x # b, r, c)"
      by (intro Suc.IH) auto
    with Cons Suc.prems show ?thesis by (auto intro!: firstly_Alt1 firstly_Seq firstly_Cls)
  qed
qed (simp add: firstly_here)

lemma firstly_between:
  "list_all P u \<Longrightarrow> 1 \<le> length u \<Longrightarrow> length u \<le> n \<Longrightarrow> length u = n \<or> r = [] \<or> \<not> P (hd r) \<Longrightarrow>
   firstly (between 1 n (Cls P)) (b, u @ r, c) (rev u @ b, r, c)"
  using firstly_upto [of P "tl u" "n - 1" r "hd u # b" c]
  by (cases u) (auto simp: between_def intro: firstly_Seq firstly_Cls)

lemma firstly_exec: "firstly e ([], s, []) (b, r, c) \<Longrightarrow> exec e s = Some ([], (b, r, (0, take (length s - length r) s) # c))"
  by (auto simp: firstly_def exec_def exec_from.simps [of e "[]" s] ahead_def)

text \<open>A text that holds nothing a class matches stays as it is.\<close>

lemma replace_none: "list_all (\<lambda>x. \<not> P x) s \<Longrightarrow> replace_from (Many1 (Cls P)) f b s = s"
  by (induction s arbitrary: b) (simp_all add: replace_from.simps [of _ _ _ "[]"] replace_from.simps [of _ _ _ "_ # _"])

section \<open>Groups\<close>

fun captures :: "'c regex \<Rightarrow> nat set" where
  "captures (Seq e f) = captures e \<union> captures f"
| "captures (Alt e f) = captures e \<union> captures f"
| "captures (Star g e) = captures e"
| "captures (Grp n e) = insert n (captures e)"
| "captures _ = {}"

text \<open>An expression leaves the groups that are not its own as they were.\<close>

lemma run_other_groups: "q \<in> set (run e p) \<Longrightarrow> n \<notin> captures e \<Longrightarrow> group n q = group n p"
proof (induction e p arbitrary: q rule: run.induct)
  case (3 e f p)
  then obtain m where m: "m \<in> set (run e p)" "length (ahead m) \<le> length (ahead p)" "q \<in> set (run f m)"
    by (auto simp del: split_paired_Ex split: if_splits)
  with "3.IH"(1) [OF m(1)] "3.IH"(2) [OF m(1,2) m(3)] "3.prems"(2) show ?case by simp
next
  case (5 greedy e p)
  show ?case
  proof (cases "q = p")
    case False
    with "5.prems" obtain m where m: "m \<in> set (run e p)" "length (ahead m) < length (ahead p)" "q \<in> set (run (Star greedy e) m)"
      by (auto simp: run_Star [of _ _ p] Let_def split: if_splits)
    with "5.IH"(1) [OF m(1)] "5.IH"(2) [OF m] "5.prems"(2) show ?thesis by simp
  qed simp
next
  case (6 m e p)
  then obtain k where k: "k \<in> set (run e p)" "group n q = group n k" by (auto simp: group_def)
  from "6.IH" [OF k(1)] "6.prems"(2) k(2) show ?case by simp
qed (auto simp: group_def split: list.splits if_splits)

text \<open>A group holds what its expression consumed.\<close>

lemma run_Grp:
  assumes "q \<in> set (run (Grp n e) p)"
  obtains u where "lang e u" "ahead p = u @ ahead q" "group n q = Some u"
proof -
  from assms obtain k where k: "k \<in> set (run e p)" and q: "q = (fst k, ahead k, (n, take (length (ahead p) - length (ahead k)) (ahead p)) # snd (snd k))"
    by (auto simp: ahead_def)
  from run_lang [OF k] obtain u where u: "lang e u" "ahead p = u @ ahead k" by blast
  with q show ?thesis by (intro that [of u]) (simp_all add: ahead_def group_def)
qed

text \<open>A replacement that keeps, of every match, the characters \<open>P\<close> holds of, keeps those of the text.\<close>

lemma replace_from_keeps:
  "(\<And>b r p. p \<in> set (run (Grp 0 e) (b, r, [])) \<Longrightarrow> filter P (f p) @ filter P (ahead p) = filter P r) \<Longrightarrow>
   filter P (replace_from e f b r) = filter P r"
proof (induction e f b r rule: replace_from.induct)
  case (1 e f b r)
  show ?case
  proof (cases "run (Grp 0 e) (b, r, [])")
    case Nil
    with 1 show ?thesis by (subst replace_from.simps) (auto split: list.split simp del: run.simps)
  next
    case (Cons p ps)
    then have k: "filter P (f p) @ filter P (ahead p) = filter P r"
      using "1.prems" [of p b r] by (simp del: run.simps)
    show ?thesis
    proof (cases "length (ahead p) < length r")
      case True
      with "1.IH"(2) [OF Cons True] "1.prems" k Cons show ?thesis by (subst replace_from.simps) (simp del: run.simps)
    next
      case False
      from run_lang [of p "Grp 0 e" "(b, r, [])"] Cons obtain u where "r = u @ ahead p"
        by (auto simp: ahead_def simp del: run.simps)
      with False have "ahead p = r" by simp
      with k have "filter P (f p) = []" by simp
      with False Cons "1.IH"(3) [OF Cons False] "1.prems" show ?thesis
        by (subst replace_from.simps) (auto split: list.split simp del: run.simps)
    qed
  qed
qed

end
