(* ===== verification/Sanitize.thy ===== *)
theory Sanitize
  imports Regex "HOL-Library.AList"
begin

text \<open>
  Cleaning the HTML of others before it is put on a page (sanitize.ts).  DOMPurify is an argument,
  a function of the forbidden tags and the two hooks; what is modelled and proved is what the
  hooks do: which classes and which style declarations survive, and what becomes of a link and of
  a block of text.
\<close>

section \<open>Policies\<close>

record Policy =
  classes :: "string list"
  styles :: "string list"

definition NOTE :: Policy where
  "NOTE = \<lparr>classes = [''citation'', ''highlight'', ''underline'', ''math''],
     styles = [''color'', ''background-color'', ''text-align'', ''text-decoration'', ''font-weight'', ''font-style'',
       ''padding-left'', ''padding-right'', ''padding-inline-start'', ''padding-inline-end'']\<rparr>"

definition BIBLIOGRAPHY :: Policy where
  "BIBLIOGRAPHY = \<lparr>classes = [''csl-bib-body'', ''csl-entry'', ''csl-left-margin'', ''csl-right-inline'', ''csl-indent'', ''csl-block''],
     styles = [''line-height'', ''padding-left'', ''text-indent'', ''margin-bottom'', ''font-variant'', ''font-style'',
       ''font-weight'', ''text-decoration'', ''vertical-align'']\<rparr>"

definition FORBID_TAGS :: "string list" where
  "FORBID_TAGS = [''style'', ''form'', ''input'', ''button'', ''textarea'', ''select'', ''option'', ''label'', ''fieldset'',
     ''dialog'', ''template'']"

text \<open>\<open>PLAIN_VALUE\<close> and \<open>COLOR_FUNCTION\<close>.\<close>

definition plain_char :: "char \<Rightarrow> bool" where
  "plain_char c \<longleftrightarrow> word_char c \<or> is_space c \<or> c \<in> set ''#%.,+-''"

definition PLAIN_VALUE :: "char regex" where
  "PLAIN_VALUE = Seq Start (Seq (Many (Cls plain_char)) End)"

definition color_char :: "char \<Rightarrow> bool" where
  "color_char c \<longleftrightarrow> digit c \<or> is_space c \<or> c \<in> set ''.,%/''"

definition letter_i :: "char \<Rightarrow> char regex" where
  "letter_i x = Cls (\<lambda>c. lower_char c = x)"

definition color_name :: "char regex" where
  "color_name = Alt (seqs [letter_i (CHR ''r''), letter_i (CHR ''g''), letter_i (CHR ''b''), Opt (letter_i (CHR ''a''))])
     (seqs [letter_i (CHR ''h''), letter_i (CHR ''s''), letter_i (CHR ''l''), Opt (letter_i (CHR ''a''))])"

definition COLOR_FUNCTION :: "char regex" where
  "COLOR_FUNCTION = seqs [Start, color_name, Lit (CHR ''(''), Many1 (Cls color_char), Lit (CHR '')''), End]"

definition TEXT_BLOCKS :: "string list" where
  "TEXT_BLOCKS = [''P'', ''H1'', ''H2'', ''H3'', ''H4'', ''H5'', ''H6'', ''UL'', ''OL'', ''BLOCKQUOTE'', ''PRE'', ''TD'', ''TH'']"

section \<open>Style declarations\<close>

definition ok_setting :: "string \<Rightarrow> bool" where
  "ok_setting v \<longleftrightarrow> test PLAIN_VALUE v \<or> test COLOR_FUNCTION v"

definition keep_declaration :: "string list \<Rightarrow> string \<Rightarrow> (string \<times> string) option" where
  "keep_declaration allowed d = (case find_index (\<lambda>c. c = CHR '':'') d of
     None \<Rightarrow> None
   | Some colon \<Rightarrow>
       (let name = to_lower (trim (take colon d)); setting = trim (drop (colon + 1) d)
        in if name \<notin> set allowed \<or> setting = '''' then None
           else if ok_setting setting then Some (name, setting) else None))"

definition style_text :: "string \<times> string \<Rightarrow> string" where
  "style_text d = fst d @ '': '' @ snd d"

definition kept_declarations :: "string \<Rightarrow> string list \<Rightarrow> (string \<times> string) list" where
  "kept_declarations value allowed = List.map_filter (keep_declaration allowed) (split_at (CHR '';'') value)"

definition keepStyles :: "string \<Rightarrow> string list \<Rightarrow> string" where
  "keepStyles value allowed = join_with ''; '' (map style_text (kept_declarations value allowed))"

section \<open>The hooks\<close>

text \<open>\<open>split(/\s+/)\<close>.\<close>

function split_space :: "string \<Rightarrow> string list" where
  "split_space s =
     (let r = dropWhile (\<lambda>c. \<not> is_space c) s
      in takeWhile (\<lambda>c. \<not> is_space c) s # (if r = [] then [] else split_space (dropWhile is_space r)))"
  by pat_completeness auto
termination
proof (relation "measure length")
  fix s r :: string
  assume r: "r = dropWhile (\<lambda>c. \<not> is_space c) s" "r \<noteq> []"
  then have "is_space (hd r)" using hd_dropWhile [of "\<lambda>c. \<not> is_space c" s] by simp
  then have "length (dropWhile is_space r) < length r" using r(2) by (cases r) (auto simp: le_imp_less_Suc length_dropWhile_le)
  also have "length r \<le> length s" using r(1) by (simp add: length_dropWhile_le)
  finally show "(dropWhile is_space r, s) \<in> measure length" by simp
qed simp

declare split_space.simps [simp del]

text \<open>\<open>uponSanitizeAttribute\<close>: the value of an attribute, and whether it is kept.\<close>

definition attribute_hook :: "Policy \<Rightarrow> string \<Rightarrow> string \<Rightarrow> bool \<Rightarrow> string \<times> bool" where
  "attribute_hook policy name value keep =
     (if name = ''class'' then
        (let v = join_with '' '' (filter (\<lambda>c. c \<in> set (classes policy)) (split_space value)) in (v, keep \<and> v \<noteq> ''''))
      else if name = ''style'' then
        (let v = keepStyles value (styles policy) in (v, keep \<and> v \<noteq> ''''))
      else (value, keep))"

text \<open>An element with its attributes, and those of the elements around it, the nearest first.\<close>

record element =
  tagName :: string
  attributes :: "(string \<times> string) list"
  around :: "(string \<times> string) list list"

definition setAttribute :: "string \<Rightarrow> string \<Rightarrow> element \<Rightarrow> element" where
  "setAttribute n v e = e\<lparr>attributes := AList.update n v (attributes e)\<rparr>"

definition explicitlyDirected :: "element \<Rightarrow> bool" where
  "explicitlyDirected e \<longleftrightarrow> list_ex (\<lambda>as. case map_of as ''dir'' of
     None \<Rightarrow> False | Some d \<Rightarrow> to_lower d \<in> {''ltr'', ''rtl''}) (attributes e # around e)"

definition has_class :: "string \<Rightarrow> element \<Rightarrow> bool" where
  "has_class c e \<longleftrightarrow> (case map_of (attributes e) ''class'' of None \<Rightarrow> False | Some v \<Rightarrow> c \<in> set (split_space v))"

definition undirected_block :: "element \<Rightarrow> bool" where
  "undirected_block e \<longleftrightarrow> (tagName e \<in> set TEXT_BLOCKS \<or> has_class ''csl-entry'' e) \<and> \<not> explicitlyDirected e"

definition is_link :: "element \<Rightarrow> bool" where
  "is_link e \<longleftrightarrow> tagName e = ''A'' \<and> map_of (attributes e) ''href'' \<noteq> None"

definition node_hook :: "element \<Rightarrow> element" where
  "node_hook e =
     (let e1 = if undirected_block e then setAttribute ''dir'' ''auto'' e else e
      in if is_link e1 then setAttribute ''rel'' ''noopener noreferrer'' (setAttribute ''target'' ''_blank'' e1) else e1)"

type_synonym purifier = "string list \<Rightarrow> (string \<Rightarrow> string \<Rightarrow> bool \<Rightarrow> string \<times> bool) \<Rightarrow> (element \<Rightarrow> element) \<Rightarrow> string \<Rightarrow> string"

definition cleaner :: "purifier \<Rightarrow> Policy \<Rightarrow> string option \<Rightarrow> string" where
  "cleaner purify policy html = (case given html of
     None \<Rightarrow> ''''
   | Some h \<Rightarrow> purify FORBID_TAGS (attribute_hook policy) node_hook h)"

definition cleanNote :: "purifier \<Rightarrow> string option \<Rightarrow> string" where
  "cleanNote purify = cleaner purify NOTE"

definition cleanBibliography :: "purifier \<Rightarrow> string option \<Rightarrow> string" where
  "cleanBibliography purify = cleaner purify BIBLIOGRAPHY"

section \<open>What a setting can be\<close>

lemma plain_test: "test PLAIN_VALUE v \<longleftrightarrow> list_all plain_char v"
  by (simp add: PLAIN_VALUE_def test_class)

text \<open>The functions a color may be written with.\<close>

lemma color_shape:
  "test COLOR_FUNCTION v \<Longrightarrow> \<exists>n args. v = n @ ''('' @ args @ '')'' \<and>
     to_lower n \<in> {''rgb'', ''rgba'', ''hsl'', ''hsla''} \<and> list_all color_char args"
proof -
  assume "test COLOR_FUNCTION v"
  then have l: "lang (seqs [color_name, Lit (CHR ''(''), Many1 (Cls color_char), Lit (CHR '')''), End]) v"
    unfolding COLOR_FUNCTION_def seqs.simps by (rule test_anchored [rotated]) simp
  then obtain n x xs where v: "v = n @ ''('' @ x # xs @ '')''" and n: "lang color_name n"
    and x: "color_char x" and xs: "lang (Many (Cls color_char)) xs"
    by (auto simp: Lit_def)
  from n have "to_lower n \<in> {''rgb'', ''rgba'', ''hsl'', ''hsla''}"
    by (auto simp: color_name_def letter_i_def to_lower_def)
  with v x lang_star_class [OF xs] show ?thesis by (intro exI [of _ n] exI [of _ "x # xs"]) simp
qed

lemma no_delimiter: "plain_char c \<Longrightarrow> c \<noteq> CHR '';'' \<and> c \<noteq> CHR '':'' \<and> c \<noteq> CHR ''('' \<and> c \<noteq> CHR ''<''"
  "color_char c \<Longrightarrow> c \<noteq> CHR '';'' \<and> c \<noteq> CHR '':'' \<and> c \<noteq> CHR ''('' \<and> c \<noteq> CHR ''<''"
  by (auto simp: plain_char_def color_char_def word_char_def digit_def is_space_def)

lemma lower_delimiter: "lower_char c = CHR '';'' \<longleftrightarrow> c = CHR '';''" "lower_char c = CHR '':'' \<longleftrightarrow> c = CHR '':''"
  by (auto simp: lower_char_def Let_def split: if_splits)
    (auto dest!: arg_cong [where f = "of_char :: char \<Rightarrow> nat"])

lemma lower_delimiter_mem: "CHR '';'' \<in> set (to_lower s) \<longleftrightarrow> CHR '';'' \<in> set s" "CHR '':'' \<in> set (to_lower s) \<longleftrightarrow> CHR '':'' \<in> set s"
proof -
  have "CHR '';'' = lower_char c \<longleftrightarrow> CHR '';'' = c" "CHR '':'' = lower_char c \<longleftrightarrow> CHR '':'' = c" for c
    by (metis lower_delimiter)+
  then show "CHR '';'' \<in> set (to_lower s) \<longleftrightarrow> CHR '';'' \<in> set s" "CHR '':'' \<in> set (to_lower s) \<longleftrightarrow> CHR '':'' \<in> set s"
    by (induction s; simp add: to_lower_def)+
qed

lemma lower_space [simp]: "is_space (lower_char c) \<longleftrightarrow> is_space c"
  by (auto simp: lower_char_def is_space_def Let_def)

lemma lower_idem [simp]: "to_lower (to_lower s) = to_lower s"
proof -
  have "lower_char (lower_char c) = lower_char c" for c
    by (auto simp: lower_char_def Let_def)
  then show ?thesis by (simp add: to_lower_def)
qed

lemma trim_lower: "trim (to_lower s) = to_lower (trim s)"
  by (simp add: trim_def to_lower_def dropWhile_map rev_map comp_def)

lemma color_name_delimiters: "to_lower n \<in> {''rgb'', ''rgba'', ''hsl'', ''hsla''} \<Longrightarrow> CHR '';'' \<notin> set n \<and> CHR '':'' \<notin> set n"
proof -
  assume "to_lower n \<in> {''rgb'', ''rgba'', ''hsl'', ''hsla''}"
  then have "CHR '';'' \<notin> set (to_lower n)" "CHR '':'' \<notin> set (to_lower n)" by auto
  then show ?thesis using lower_delimiter by (auto simp: to_lower_def) (metis image_eqI)+
qed

lemma ok_setting_delimiters: "ok_setting v \<Longrightarrow> CHR '';'' \<notin> set v \<and> CHR '':'' \<notin> set v"
proof (cases "test PLAIN_VALUE v")
  case True
  then show ?thesis using no_delimiter(1) by (auto simp: plain_test list_all_iff)
next
  case False
  assume "ok_setting v"
  with False obtain n args where v: "v = n @ ''('' @ args @ '')''" and n: "to_lower n \<in> {''rgb'', ''rgba'', ''hsl'', ''hsla''}"
    and a: "list_all color_char args"
    using color_shape [of v] by (auto simp: ok_setting_def simp del: insert_iff)
  from color_name_delimiters [OF n] a no_delimiter(2) show ?thesis by (auto simp: v list_all_iff)
qed

section \<open>What survives\<close>

definition surviving :: "string list \<Rightarrow> string \<times> string \<Rightarrow> bool" where
  "surviving allowed d \<longleftrightarrow> fst d \<in> set allowed \<and> to_lower (trim (fst d)) = fst d \<and>
     CHR '';'' \<notin> set (fst d) \<and> CHR '':'' \<notin> set (fst d) \<and> snd d \<noteq> '''' \<and> trim (snd d) = snd d \<and> ok_setting (snd d)"

lemma keep_declaration_surviving: "CHR '';'' \<notin> set d \<Longrightarrow> keep_declaration allowed d = Some p \<Longrightarrow> surviving allowed p"
proof -
  assume d: "CHR '';'' \<notin> set d" and k: "keep_declaration allowed d = Some p"
  from k obtain colon where c: "find_index (\<lambda>c. c = CHR '':'') d = Some colon"
    and p: "p = (to_lower (trim (take colon d)), trim (drop (colon + 1) d))"
    and a: "fst p \<in> set allowed" "snd p \<noteq> ''''" "ok_setting (snd p)"
    by (auto simp: keep_declaration_def Let_def split: option.splits if_splits)
  have sub: "set (trim s) \<subseteq> set s" for s
    using set_dropWhileD [of _ is_space "rev (dropWhile is_space s)"] set_dropWhileD [of _ is_space s]
    by (auto simp: trim_def)
  from find_index_Some [OF c] have "CHR '':'' \<notin> set (take colon d)" by (auto simp: in_set_conv_nth)
  then have "CHR '':'' \<notin> set (fst p)" using sub [of "take colon d"] by (auto simp: p lower_delimiter_mem)
  moreover have "CHR '';'' \<notin> set (fst p)"
    using d sub [of "take colon d"] by (auto simp: p lower_delimiter_mem dest: in_set_takeD)
  ultimately show ?thesis using a by (simp add: surviving_def p trim_lower)
qed

lemma kept_surviving: "d \<in> set (kept_declarations value allowed) \<Longrightarrow> surviving allowed d"
proof -
  assume "d \<in> set (kept_declarations value allowed)"
  then obtain x where "x \<in> set (split_at (CHR '';'') value)" "keep_declaration allowed x = Some d"
    by (auto simp: kept_declarations_def List.map_filter_def)
  then show ?thesis using keep_declaration_surviving split_at_pieces by blast
qed

lemma surviving_kept:
  assumes "surviving allowed d" "list_all is_space pre"
  shows "keep_declaration allowed (pre @ style_text d) = Some d"
proof -
  have "CHR '':'' \<notin> set pre" using assms(2) by (auto simp: list_all_iff is_space_def)
  then have f: "find_index (\<lambda>c. c = CHR '':'') (pre @ style_text d) = Some (length pre + length (fst d))"
    using assms(1) by (intro find_indexI) (auto simp: style_text_def surviving_def nth_append in_set_conv_nth)
  have t: "trim (pre @ s) = trim s" "trim (CHR '' '' # s) = trim s" for s
    using assms(2) by (auto simp: trim_def list_all_iff dropWhile_append2 is_space_def)
  show ?thesis using assms(1) unfolding keep_declaration_def f by (simp add: style_text_def t surviving_def Let_def)
qed

lemma style_text_no_semicolon: "surviving allowed d \<Longrightarrow> CHR '';'' \<notin> set (style_text d)"
  using ok_setting_delimiters by (auto simp: surviving_def style_text_def)

lemma join_with_prefix: "join_with sep ((p @ x) # xs) = p @ join_with sep (x # xs)"
  by (cases xs) simp_all

lemma join_semicolon_space: "join_with ''; '' (x # xs) = join_with '';'' (x # map (\<lambda>y. '' '' @ y) xs)"
proof (induction xs arbitrary: x)
  case (Cons y ys)
  then show ?case using join_with_prefix [of "'';''" "'' ''" y] by simp
qed simp

lemma map_filter_Some: "(\<And>d. d \<in> set es \<Longrightarrow> f (g d) = Some d) \<Longrightarrow> List.map_filter f (map g es) = es"
  by (induction es) (simp_all add: List.map_filter_simps)

lemma kept_again:
  assumes "\<And>d. d \<in> set ds \<Longrightarrow> surviving allowed d"
  shows "kept_declarations (join_with ''; '' (map style_text ds)) allowed = ds"
proof (cases ds)
  case Nil
  then show ?thesis by (simp add: kept_declarations_def List.map_filter_def keep_declaration_def)
next
  case (Cons e es)
  have sep: "CHR '';'' \<notin> set p" if "p \<in> set (style_text e # map (\<lambda>d. '' '' @ style_text d) es)" for p
    using that assms [unfolded Cons] style_text_no_semicolon [of allowed e] style_text_no_semicolon [of allowed] by fastforce
  have "split_at (CHR '';'') (join_with ''; '' (map style_text ds)) = style_text e # map (\<lambda>d. '' '' @ style_text d) es"
    using split_join [of "style_text e # map (\<lambda>d. '' '' @ style_text d) es" "CHR '';''", OF sep]
    by (simp add: Cons join_semicolon_space comp_def)
  moreover have "keep_declaration allowed (style_text e) = Some e"
    using surviving_kept [of allowed e "[]"] assms by (simp add: Cons)
  moreover have "List.map_filter (keep_declaration allowed) (map (\<lambda>d. '' '' @ style_text d) es) = es"
  proof -
    have "keep_declaration allowed ('' '' @ style_text d) = Some d" if "d \<in> set es" for d
      using surviving_kept [of allowed d "'' ''"] assms that by (simp add: Cons is_space_def)
    then show ?thesis by (rule map_filter_Some)
  qed
  ultimately show ?thesis by (simp add: kept_declarations_def Cons List.map_filter_simps)
qed

text \<open>Of a style attribute there survive only declarations of the policy's own properties, whose
  values are plain characters or one of the four color functions over numbers: no other function,
  \<open>url\<close> and \<open>var\<close> among them, no second declaration smuggled in; and cleaning what has been cleaned
  changes nothing.\<close>

theorem styles_survive:
  "(\<exists>ds. keepStyles value allowed = join_with ''; '' (map style_text ds) \<and>
     list_all (\<lambda>(name, setting). name \<in> set allowed \<and> setting \<noteq> '''' \<and> CHR '';'' \<notin> set setting \<and> CHR '':'' \<notin> set setting \<and>
       (list_all plain_char setting \<or> (\<exists>f args. setting = f @ ''('' @ args @ '')'' \<and>
          to_lower f \<in> {''rgb'', ''rgba'', ''hsl'', ''hsla''} \<and> list_all color_char args))) ds) \<and>
   keepStyles (keepStyles value allowed) allowed = keepStyles value allowed"
proof -
  let ?ds = "kept_declarations value allowed"
  have "list_all (\<lambda>(name, setting). name \<in> set allowed \<and> setting \<noteq> '''' \<and> CHR '';'' \<notin> set setting \<and> CHR '':'' \<notin> set setting \<and>
       (list_all plain_char setting \<or> (\<exists>f args. setting = f @ ''('' @ args @ '')'' \<and>
          to_lower f \<in> {''rgb'', ''rgba'', ''hsl'', ''hsla''} \<and> list_all color_char args))) ?ds"
    unfolding list_all_iff
  proof (intro ballI, clarify)
    fix n v
    assume "(n, v) \<in> set ?ds"
    from kept_surviving [OF this] have k: "n \<in> set allowed" "v \<noteq> ''''" "ok_setting v" by (auto simp: surviving_def)
    moreover have "Ball (set v) plain_char \<or> (\<exists>f args. v = f @ ''('' @ args @ '')'' \<and>
        to_lower f \<in> {''rgb'', ''rgba'', ''hsl'', ''hsla''} \<and> Ball (set args) color_char)"
      using k(3) color_shape [of v] unfolding ok_setting_def plain_test list_all_iff by blast
    ultimately show "n \<in> set allowed \<and> v \<noteq> '''' \<and> CHR '';'' \<notin> set v \<and> CHR '':'' \<notin> set v \<and>
      (Ball (set v) plain_char \<or> (\<exists>f args. v = f @ ''('' @ args @ '')'' \<and>
        to_lower f \<in> {''rgb'', ''rgba'', ''hsl'', ''hsla''} \<and> Ball (set args) color_char))"
      using ok_setting_delimiters by blast
  qed
  moreover have "keepStyles (keepStyles value allowed) allowed = keepStyles value allowed"
    using kept_again [of ?ds allowed] kept_surviving by (simp add: keepStyles_def)
  ultimately show ?thesis unfolding keepStyles_def by blast
qed

text \<open>An attribute of foreign HTML carries nothing of the page's own: a class attribute keeps just the
  policy's classes, a style attribute just what \<open>keepStyles\<close> lets through, and either is dropped when
  nothing is left; a link always opens elsewhere without a way back, and a block of text without
  a direction of its own or around it gets its own, every other attribute being left alone.\<close>

theorem hooks_clean:
  "(let (v, keep) = attribute_hook policy ''class'' value True in
      keep = (v \<noteq> '''') \<and> v = join_with '' '' (filter (\<lambda>c. c \<in> set (classes policy)) (split_space value))) \<and>
   attribute_hook policy ''style'' value True = (keepStyles value (styles policy), keepStyles value (styles policy) \<noteq> '''') \<and>
   map_of (attributes (node_hook e)) n =
     (if is_link e \<and> n = ''target'' then Some ''_blank''
      else if is_link e \<and> n = ''rel'' then Some ''noopener noreferrer''
      else if undirected_block e \<and> n = ''dir'' then Some ''auto''
      else map_of (attributes e) n)"
proof -
  have u: "map_of (attributes (setAttribute k v x)) n = (if n = k then Some v else map_of (attributes x) n)"
    "tagName (setAttribute k v x) = tagName x" for k v x n
    by (auto simp: setAttribute_def update_conv)
  have "is_link (setAttribute ''dir'' ''auto'' e) = is_link e" by (simp add: is_link_def u)
  then have "map_of (attributes (node_hook e)) n =
     (if is_link e \<and> n = ''target'' then Some ''_blank''
      else if is_link e \<and> n = ''rel'' then Some ''noopener noreferrer''
      else if undirected_block e \<and> n = ''dir'' then Some ''auto''
      else map_of (attributes e) n)"
    by (cases "undirected_block e"; cases "is_link e") (simp_all add: node_hook_def Let_def u)
  moreover have "let (v, keep) = attribute_hook policy ''class'' value True in
      keep = (v \<noteq> '''') \<and> v = join_with '' '' (filter (\<lambda>c. c \<in> set (classes policy)) (split_space value))"
    "attribute_hook policy ''style'' value True = (keepStyles value (styles policy), keepStyles value (styles policy) \<noteq> '''')"
    by (simp_all add: attribute_hook_def Let_def)
  ultimately show ?thesis by blast
qed

end
