(* ===== verification/Carry.thy ===== *)
theory Carry
  imports Prelude
begin

text \<open>
  Carrying a row to another by pointer (dragging.ts): a press, a carry that begins when a mouse
  has moved or a finger has held still, the row underneath, the drop, and the confirmation of a
  drop that was saved.  Every listener of the module is an event here, with what the page answers
  at that moment: the row row the pointer, and later how the drop's promise settled.  What the
  caller has to accept and to drop is part of the gesture; the calls of \<open>onDrop\<close> are recorded.
\<close>

section \<open>State\<close>

definition THRESHOLD :: int where
  "THRESHOLD = 5"

definition EDGE :: int where
  "EDGE = 72"

definition SPEED :: int where
  "SPEED = 12"

record 'd carried =
  label :: string
  count_of :: "nat option"
  data_of :: 'd

text \<open>One press: its number among the generations, where it began, whether it is a finger's or a pen's,
  whether the carry has begun, whether the timer of the hold is running, and the caller's rows.\<close>

record 'd gesture =
  generation_of :: nat
  origin :: "int \<times> int"
  touch :: bool
  active :: bool
  holding :: bool
  cargo :: "'d carried"
  accepts :: "string \<Rightarrow> bool"

record 'd carry =
  carrying :: "'d carried option"
  target :: "string option"
  confirmed :: "string option"
  generation :: nat
  position :: "int \<times> int"
  gesture :: "'d gesture option"
  swallowing :: "int option"
  dropped :: "('d gesture \<times> string \<times> bool) list"

definition no_carry :: "'d carry" where
  "no_carry = \<lparr>carrying = None, target = None, confirmed = None, generation = 0, position = (0, 0), gesture = None,
     swallowing = None, dropped = []\<rparr>"

section \<open>Handlers\<close>

definition finish :: "'d carry \<Rightarrow> 'd carry" where
  "finish s = s\<lparr>carrying := None, target := None, gesture := None\<rparr>"

text \<open>\<open>stop\<close> is set exactly while there is a gesture, and is its \<open>finish\<close>.\<close>

definition cancel :: "'d carry \<Rightarrow> 'd carry" where
  "cancel s =
     (let s1 = s\<lparr>generation := generation s + 1\<rparr>;
          s2 = (if gesture s1 \<noteq> None then finish s1 else s1)
      in s2\<lparr>swallowing := None, confirmed := None\<rparr>)"

definition begin_carry :: "int \<Rightarrow> int \<times> int \<Rightarrow> string \<Rightarrow> 'd carried \<Rightarrow> (string \<Rightarrow> bool) \<Rightarrow> 'd carry \<Rightarrow> 'd carry" where
  "begin_carry button at pointer load takes s =
     (if button \<noteq> 0 then s
      else let s1 = cancel s; finger = (pointer = ''touch'' \<or> pointer = ''pen'')
        in s1\<lparr>position := at,
             gesture := Some \<lparr>generation_of = generation s1, origin = at, touch = finger, active = False, holding = finger,
               cargo = load, accepts = takes\<rparr>\<rparr>)"

definition start_carry :: "'d gesture \<Rightarrow> 'd carry \<Rightarrow> 'd carry" where
  "start_carry g s = s\<lparr>gesture := Some (g\<lparr>active := True, holding := False\<rparr>), carrying := Some (cargo g)\<rparr>"

definition aim :: "string option \<Rightarrow> 'd gesture \<Rightarrow> 'd carry \<Rightarrow> 'd carry" where
  "aim row g s = s\<lparr>target := (case row of Some t \<Rightarrow> if t \<noteq> '''' \<and> accepts g t then Some t else None | None \<Rightarrow> None)\<rparr>"

definition far :: "int \<times> int \<Rightarrow> 'd gesture \<Rightarrow> bool" where
  "far at g \<longleftrightarrow> \<bar>fst at - fst (origin g)\<bar> + \<bar>snd at - snd (origin g)\<bar> > THRESHOLD"

definition move :: "int \<times> int \<Rightarrow> string option \<Rightarrow> 'd carry \<Rightarrow> 'd carry" where
  "move at row s = (case gesture s of
     None \<Rightarrow> s
   | Some g \<Rightarrow>
       if \<not> active g \<and> touch g then (if far at g then finish s else s)
       else if \<not> active g \<and> \<not> far at g then s
       else aim row g ((if active g then s else start_carry g s)\<lparr>position := at\<rparr>))"

text \<open>The promise of \<open>onDrop\<close> is waited for elsewhere: \<open>settled_drop\<close>.\<close>

definition up :: "string option \<Rightarrow> bool \<Rightarrow> int \<Rightarrow> 'd carry \<Rightarrow> 'd carry" where
  "up row shift pointer s = (case gesture s of
     None \<Rightarrow> s
   | Some g \<Rightarrow>
       (let s1 = (if active g then aim row g s else s);
            landing = target s1;
            s2 = finish s1;
            s3 = (if active g then s2\<lparr>swallowing := Some pointer\<rparr> else s2)
        in case landing of None \<Rightarrow> s3 | Some t \<Rightarrow> s3\<lparr>dropped := (g, t, shift) # dropped s3\<rparr>))"

definition hold_elapsed :: "'d carry \<Rightarrow> 'd carry" where
  "hold_elapsed s = (case gesture s of Some g \<Rightarrow> if holding g then start_carry g s else s | None \<Rightarrow> s)"

definition settled_drop :: "nat \<Rightarrow> bool \<Rightarrow> 'd carry \<Rightarrow> 'd carry" where
  "settled_drop i success s =
     (if i < length (dropped s) then
        (case dropped s ! i of (g, landing, _) \<Rightarrow>
           if \<not> success \<or> generation_of g \<noteq> generation s then s else s\<lparr>confirmed := Some landing\<rparr>)
      else s)"

text \<open>The click a pointer leaves behind is caught once, until the next press or for a second.\<close>

definition click :: "int \<Rightarrow> int option \<Rightarrow> 'd carry \<Rightarrow> 'd carry \<times> bool" where
  "click detail pointer s = (case swallowing s of
     None \<Rightarrow> (s, False)
   | Some p \<Rightarrow> if detail = 0 \<or> (case pointer of Some q \<Rightarrow> q \<noteq> p | None \<Rightarrow> False) then (s, False)
       else (s\<lparr>swallowing := None\<rparr>, True))"

text \<open>How far the window scrolls in one frame of a carry near its edge.\<close>

definition nudge :: "int \<Rightarrow> 'd carry \<Rightarrow> int" where
  "nudge height s = (case gesture s of
     None \<Rightarrow> 0
   | Some g \<Rightarrow>
       (let y = snd (position s); above = y < EDGE; below = y > height - EDGE
        in if active g \<and> (above \<or> below) then (if above then - SPEED else SPEED) else 0))"

datatype 'd event =
    Press int "int \<times> int" string "'d carried" "string \<Rightarrow> bool"
  | Move "int \<times> int" "string option"
  | Up "string option" bool int
  | PointerCancel
  | Blur
  | Key string
  | HoldElapsed
  | Settled nat bool
  | ConfirmationElapsed
  | Click int "int option"
  | Disposed

fun handle :: "'d event \<Rightarrow> 'd carry \<Rightarrow> 'd carry" where
  "handle (Press b at p load takes) s = begin_carry b at p load takes (if b = 0 then s else s\<lparr>swallowing := None\<rparr>)"
| "handle (Move at row) s = move at row s"
| "handle (Up row shift p) s = up row shift p s"
| "handle PointerCancel s = (if gesture s \<noteq> None then finish s else s)"
| "handle Blur s = (if gesture s \<noteq> None then cancel s else s)"
| "handle (Key k) s = (if gesture s \<noteq> None \<and> k = ''Escape'' then cancel s else s)"
| "handle HoldElapsed s = hold_elapsed s"
| "handle (Settled i ok) s = settled_drop i ok s"
| "handle ConfirmationElapsed s = s\<lparr>confirmed := None\<rparr>"
| "handle (Click d p) s = fst (click d p s)"
| "handle Disposed s = cancel s"

inductive carry_reachable :: "'d carry \<Rightarrow> bool" where
  start: "carry_reachable no_carry"
| step: "carry_reachable s \<Longrightarrow> carry_reachable (handle e s)"

section \<open>The invariant\<close>

definition sound_drop :: "'d carry \<Rightarrow> 'd gesture \<times> string \<times> bool \<Rightarrow> bool" where
  "sound_drop s d \<longleftrightarrow> active (fst d) \<and> accepts (fst d) (fst (snd d)) \<and> generation_of (fst d) \<le> generation s"

definition carry_inv :: "'d carry \<Rightarrow> bool" where
  "carry_inv s \<longleftrightarrow>
     (carrying s = (case gesture s of Some g \<Rightarrow> if active g then Some (cargo g) else None | None \<Rightarrow> None)) \<and>
     (\<forall>t. target s = Some t \<longrightarrow> (\<exists>g. gesture s = Some g \<and> active g \<and> accepts g t)) \<and>
     (\<forall>g. gesture s = Some g \<longrightarrow> generation_of g = generation s \<and> (active g \<longrightarrow> \<not> holding g) \<and> confirmed s = None \<and>
        (\<forall>d\<in>set (dropped s). generation_of (fst d) \<noteq> generation s)) \<and>
     (\<forall>d\<in>set (dropped s). sound_drop s d) \<and>
     distinct (map (\<lambda>d. generation_of (fst d)) (dropped s)) \<and>
     (\<forall>t. confirmed s = Some t \<longrightarrow> (\<exists>d\<in>set (dropped s). fst (snd d) = t \<and> generation_of (fst d) = generation s))"

lemma inv_start: "carry_inv no_carry"
  by (simp add: carry_inv_def no_carry_def)

lemma inv_finish: "carry_inv s \<Longrightarrow> gesture s \<noteq> None \<Longrightarrow> carry_inv (finish s)"
  by (auto simp: carry_inv_def finish_def sound_drop_def)

lemma cancel_fields: "gesture (cancel s) = None" "confirmed (cancel s) = None" "dropped (cancel s) = dropped s"
  "generation (cancel s) = Suc (generation s)"
  by (simp_all add: cancel_def finish_def Let_def)

lemma inv_cancel: "carry_inv s \<Longrightarrow> carry_inv (cancel s)"
  by (cases "gesture s") (auto simp: carry_inv_def cancel_def finish_def Let_def sound_drop_def)

lemma inv_begin: "carry_inv s \<Longrightarrow> carry_inv (begin_carry b at p load takes s)"
proof (cases "b = 0")
  case True
  assume i: "carry_inv s"
  note c = inv_cancel [OF i]
  have old: "generation_of (fst d) \<noteq> Suc (generation s)" if "d \<in> set (dropped s)" for d
    using i that by (auto simp: carry_inv_def sound_drop_def dest!: bspec)
  with c show ?thesis
    using True by (auto simp: begin_carry_def Let_def carry_inv_def cancel_fields sound_drop_def)
qed (simp add: begin_carry_def)

lemma inv_start_carry: "carry_inv s \<Longrightarrow> gesture s = Some g \<Longrightarrow> \<not> active g \<Longrightarrow> carry_inv (start_carry g s)"
  by (auto simp: carry_inv_def start_carry_def sound_drop_def)

lemma inv_aim: "carry_inv s \<Longrightarrow> gesture s = Some h \<Longrightarrow> active h \<Longrightarrow> accepts h = accepts g \<Longrightarrow> carry_inv (aim row g (s\<lparr>position := at\<rparr>))"
  by (auto simp: carry_inv_def aim_def sound_drop_def split: option.splits)

lemma inv_move: "carry_inv s \<Longrightarrow> carry_inv (move at row s)"
proof (cases "gesture s")
  case (Some g)
  assume i: "carry_inv s"
  show ?thesis
  proof (cases "active g")
    case True
    with i Some show ?thesis using inv_aim [of s g g row at] by (simp add: move_def)
  next
    case False
    then show ?thesis
      using i Some inv_finish [OF i] inv_start_carry [OF i Some False]
        inv_aim [of "start_carry g s" "g\<lparr>active := True, holding := False\<rparr>" g row at]
      by (auto simp: move_def start_carry_def)
  qed
qed (simp add: move_def)

lemma inv_dropped:
  assumes "carry_inv s" "gesture s = Some g" "active g" "accepts g t"
  shows "carry_inv ((finish s)\<lparr>swallowing := p, dropped := (g, t, shift) # dropped s\<rparr>)"
  using assms by (auto simp: carry_inv_def finish_def sound_drop_def)

lemma inv_up: "carry_inv s \<Longrightarrow> carry_inv (up row shift p s)"
proof (cases "gesture s")
  case (Some g)
  assume i: "carry_inv s"
  show ?thesis
  proof (cases "active g")
    case True
    with i Some have a: "carry_inv (aim row g s)" using inv_aim [of s g g row "position s"] by simp
    have g: "gesture (aim row g s) = Some g" "dropped (aim row g s) = dropped s" by (simp_all add: aim_def Some)
    from inv_finish [OF a] g(1) have f: "carry_inv ((finish (aim row g s))\<lparr>swallowing := Some p\<rparr>)"
      by (simp add: carry_inv_def sound_drop_def)
    show ?thesis
    proof (cases "target (aim row g s)")
      case None
      with True Some f show ?thesis by (simp add: up_def Let_def)
    next
      case (Some t)
      with a g have "accepts g t" by (auto simp: carry_inv_def)
      from inv_dropped [OF a g(1) True this] Some True \<open>gesture s = Some g\<close> g show ?thesis
        by (simp add: up_def Let_def finish_def)
    qed
  next
    case False
    with i Some have "target s = None" by (auto simp: carry_inv_def)
    with False Some inv_finish [OF i] show ?thesis by (simp add: up_def Let_def finish_def)
  qed
qed (simp add: up_def)

lemma inv_settled: "carry_inv s \<Longrightarrow> carry_inv (settled_drop i ok s)"
proof -
  assume s: "carry_inv s"
  show ?thesis
  proof (cases "i < length (dropped s) \<and> ok \<and> generation_of (fst (dropped s ! i)) = generation s")
    case True
    obtain g t sh where d: "dropped s ! i = (g, t, sh)" by (cases "dropped s ! i")
    with True have m: "(g, t, sh) \<in> set (dropped s)" using nth_mem by fastforce
    with True d have n: "gesture s = None"
      using s by (cases "gesture s") (auto simp: carry_inv_def)
    have "settled_drop i ok s = s\<lparr>confirmed := Some t\<rparr>" using True d by (simp add: settled_drop_def)
    moreover have "carry_inv (s\<lparr>confirmed := Some t\<rparr>)"
      using s n True d by (auto simp: carry_inv_def sound_drop_def intro: bexI [OF _ m])
    ultimately show ?thesis by simp
  next
    case False
    with s show ?thesis by (auto simp: settled_drop_def split: prod.splits)
  qed
qed

lemma inv_swallow: "carry_inv (s\<lparr>swallowing := x\<rparr>) \<longleftrightarrow> carry_inv s" "carry_inv s \<Longrightarrow> carry_inv (s\<lparr>confirmed := None\<rparr>)"
  by (auto simp: carry_inv_def sound_drop_def)

lemma inv_hold: "carry_inv s \<Longrightarrow> carry_inv (hold_elapsed s)"
proof (cases "gesture s")
  case (Some g)
  assume i: "carry_inv s"
  show ?thesis
  proof (cases "holding g")
    case True
    with i Some have "\<not> active g" by (auto simp: carry_inv_def)
    with inv_start_carry [OF i Some] show ?thesis using Some True by (simp add: hold_elapsed_def)
  qed (use i Some in \<open>simp add: hold_elapsed_def\<close>)
qed (simp add: hold_elapsed_def)

lemma inv_handle: "carry_inv s \<Longrightarrow> carry_inv (handle e s)"
proof (cases e)
  case (Click d p)
  assume "carry_inv s"
  then show ?thesis by (simp add: Click click_def inv_swallow split: option.splits)
qed (simp_all add: inv_begin inv_move inv_up inv_finish inv_cancel inv_hold inv_settled inv_swallow)

lemma inv_reachable: "carry_reachable s \<Longrightarrow> carry_inv s"
  by (induction rule: carry_reachable.induct) (simp_all add: inv_start inv_handle)

text \<open>C21: Whatever presses, movements, timers, keys and answers come in whatever order: something is
  carried exactly during a gesture whose carry has begun; a row lights up only if the caller
  accepts it then; \<open>onDrop\<close> was only ever called for a row the gesture accepted, from a carry
  that had begun, and at most once for each press; and a row is confirmed only after a drop of the
  latest press.\<close>

theorem carry_always:
  assumes "carry_reachable s"
  shows "(carrying s \<noteq> None \<longleftrightarrow> (\<exists>g. gesture s = Some g \<and> active g)) \<and>
    (\<forall>t. target s = Some t \<longrightarrow> (\<exists>g. gesture s = Some g \<and> accepts g t)) \<and>
    (\<forall>d\<in>set (dropped s). active (fst d) \<and> accepts (fst d) (fst (snd d))) \<and>
    distinct (map (\<lambda>d. generation_of (fst d)) (dropped s)) \<and>
    (\<forall>t. confirmed s = Some t \<longrightarrow> carrying s = None \<and> (\<exists>d\<in>set (dropped s). fst (snd d) = t \<and> generation_of (fst d) = generation s))"
proof -
  have i: "carry_inv s" by (rule inv_reachable [OF assms])
  then have "carrying s \<noteq> None \<longleftrightarrow> (\<exists>g. gesture s = Some g \<and> active g)"
    by (auto simp: carry_inv_def split: option.splits)
  moreover from i have "confirmed s = Some t \<Longrightarrow> carrying s = None" for t
    by (cases "gesture s") (auto simp: carry_inv_def)
  ultimately show ?thesis using i unfolding carry_inv_def sound_drop_def by blast
qed

text \<open>A mouse picks up a row, drops it on one that takes it, and is confirmed.\<close>

definition picked :: "nat carry" where
  "picked = handle (Settled 0 True) (handle (Up (Some ''col'') False 1) (handle (Move (40, 0) (Some ''col''))
     (handle (Press 0 (0, 0) ''mouse'' \<lparr>label = ''A'', count_of = None, data_of = 7\<rparr> (\<lambda>t. t = ''col'')) no_carry)))"

theorem carry_always_witness:
  "confirmed picked = Some ''col'' \<and> carrying picked = None \<and> distinct (map (\<lambda>d. generation_of (fst d)) (dropped picked))"
proof -
  have r: "carry_reachable picked" unfolding picked_def by (intro carry_reachable.intros)
  have "confirmed picked = Some ''col''"
    by (simp add: picked_def no_carry_def begin_carry_def cancel_def finish_def move_def far_def THRESHOLD_def start_carry_def aim_def
        up_def settled_drop_def Let_def)
  with carry_always [OF r] show ?thesis by blast
qed

text \<open>A finger that moves before it has held still scrolls the page and carries nothing: from its press
  on, if it has moved too far before the hold elapsed, no movement, release or timer of that press
  carries, drops or catches a click; while one that held still carries from then on.\<close>

theorem finger_scrolls:
  assumes "gesture s = Some g" "touch g" "\<not> active g" "far at g"
  shows "let t = handle (Move at row) s in
      gesture t = None \<and> carrying t = None \<and> dropped t = dropped s \<and> swallowing t = swallowing s \<and>
      handle (Move at' row') t = t \<and> handle (Up row' shift p) t = t \<and> handle HoldElapsed t = t"
    and "holding g \<Longrightarrow> carrying (handle HoldElapsed s) = Some (cargo g)"
  using assms by (simp_all add: move_def finish_def up_def hold_elapsed_def start_carry_def Let_def)

theorem finger_scrolls_witness:
  "\<forall>load. let s = handle (Press 0 (0, 0) ''touch'' load (\<lambda>_. True)) no_carry in
     carrying (handle (Move (0, 30) None) s) = None \<and> carrying (handle HoldElapsed s) = Some load"
proof -
  have "let s = handle (Press 0 (0, 0) ''touch'' load (\<lambda>_. True)) no_carry in
     carrying (handle (Move (0, 30) None) s) = None \<and> carrying (handle HoldElapsed s) = Some load" for load :: "'a carried"
  proof -
    let ?s = "handle (Press 0 (0, 0) ''touch'' load (\<lambda>_. True)) no_carry"
    obtain g where g: "gesture ?s = Some g" "touch g" "\<not> active g" "holding g" "cargo g = load" "far (0, 30) g"
      by (simp add: begin_carry_def Let_def far_def THRESHOLD_def)
    from finger_scrolls(1) [OF g(1,2,3,6)] finger_scrolls(2) [OF g(1,2,3,6,4)] g(5) show ?thesis by (simp add: Let_def)
  qed
  then show ?thesis by blast
qed

end
