(* ===== verification/Modal.thy ===== *)
theory Modal
  imports Prelude
begin

text \<open>
  Dialogs over the page (modal.ts): which are open in the order they were opened, where the focus
  goes back to, the scrolling of the page behind the dialogs of a browser without \<open>showModal\<close>, and
  the keys of such a dialog.  Elements are numbers.  What the browser itself does with the focus
  when it opens and closes a dialog, and where a person moves it, are arguments of the events.
\<close>

section \<open>State\<close>

record modal =
  element :: nat
  leaving :: bool
  restore :: "nat option"
  native :: bool

record page =
  modals :: "modal list"
  fallbacks :: "nat list"
  overflow :: string
  previousOverflow :: string
  focus :: "nat option"

definition lifetime :: "nat \<Rightarrow> page \<Rightarrow> modal option" where
  "lifetime e s = List.find (\<lambda>m. element m = e) (modals s)"

definition topmost :: "page \<Rightarrow> modal option" where
  "topmost s = (if modals s = [] then None else Some (last (modals s)))"

section \<open>Opening and closing\<close>

text \<open>\<open>onMounted\<close>: \<open>inner\<close> is what the browser focuses as it shows the dialog.\<close>

definition mount :: "bool \<Rightarrow> nat \<Rightarrow> nat option \<Rightarrow> page \<Rightarrow> page" where
  "mount supported e inner s =
     (let back = (case topmost s of Some m \<Rightarrow> restore m | None \<Rightarrow> focus s);
          s1 = s\<lparr>modals := modals s @ [\<lparr>element = e, leaving = False, restore = back, native = supported\<rparr>]\<rparr>
      in if supported then s1\<lparr>focus := inner\<rparr>
         else s1\<lparr>previousOverflow := (if fallbacks s = [] then overflow s else previousOverflow s),
                 fallbacks := fallbacks s @ [e], overflow := ''hidden''\<rparr>)"

definition start_leave :: "nat \<Rightarrow> page \<Rightarrow> page" where
  "start_leave e s = s\<lparr>modals := map (\<lambda>m. if element m = e then m\<lparr>leaving := True\<rparr> else m) (modals s)\<rparr>"

text \<open>\<open>finish\<close>: \<open>back\<close> is where the browser puts the focus as a dialog of its own closes.\<close>

definition finish :: "nat \<Rightarrow> nat option \<Rightarrow> page \<Rightarrow> page" where
  "finish e back s = (case lifetime e s of
     None \<Rightarrow> s
   | Some m \<Rightarrow>
       (let s1 = s\<lparr>modals := filter (\<lambda>n. element n \<noteq> e) (modals s)\<rparr>;
            s2 = (if native m then s1\<lparr>focus := back\<rparr>
                  else (let rest = filter (\<lambda>f. f \<noteq> e) (fallbacks s1)
                    in s1\<lparr>fallbacks := rest, overflow := (if rest = [] then previousOverflow s1 else overflow s1)\<rparr>))
        in if modals s2 = [] then (case restore m of None \<Rightarrow> s2 | Some f \<Rightarrow> s2\<lparr>focus := Some f\<rparr>) else s2))"

definition unmount :: "nat \<Rightarrow> nat option \<Rightarrow> page \<Rightarrow> page" where
  "unmount e back s = (case lifetime e s of
     None \<Rightarrow> s
   | Some m \<Rightarrow> if leaving m then s else finish e back s)"

section \<open>Keys\<close>

datatype key_answer = NotMine | Swallowed | CancelDialog | FocusOn nat | BrowserDoes

text \<open>The handler of the dialog \<open>e\<close>: \<open>inside\<close> is what can be focused in it, \<open>within_it\<close> whether the
  focus is in it at all.\<close>

definition on_key :: "nat \<Rightarrow> string \<Rightarrow> bool \<Rightarrow> nat list \<Rightarrow> bool \<Rightarrow> page \<Rightarrow> key_answer" where
  "on_key e key shift inside within_it s =
     (case topmost s of
        None \<Rightarrow> NotMine
      | Some m \<Rightarrow>
          if element m \<noteq> e then NotMine
          else if leaving m then Swallowed
          else if key = ''Escape'' then CancelDialog
          else if key \<noteq> ''Tab'' then BrowserDoes
          else if inside = [] then BrowserDoes
          else if shift \<and> (focus s = Some (hd inside) \<or> \<not> within_it) then FocusOn (last inside)
          else if \<not> shift \<and> focus s = Some (last inside) then FocusOn (hd inside)
          else BrowserDoes)"

section \<open>The page is given back\<close>

text \<open>One session of dialogs: from the first that opens until none is open.\<close>

datatype page_event = Mount bool nat "nat option" | StartLeave nat | FinishLeave nat "nat option" | Unmount nat "nat option" | FocusMoves "nat option"

fun happens :: "page_event \<Rightarrow> page \<Rightarrow> page" where
  "happens (Mount supported e inner) s = mount supported e inner s"
| "happens (StartLeave e) s = start_leave e s"
| "happens (FinishLeave e back) s = finish e back s"
| "happens (Unmount e back) s = unmount e back s"
| "happens (FocusMoves f) s = s\<lparr>focus := f\<rparr>"

definition fresh :: "page_event \<Rightarrow> page \<Rightarrow> bool" where
  "fresh ev s = (case ev of Mount _ e _ \<Rightarrow> e \<notin> element ` set (modals s) | _ \<Rightarrow> True)"

inductive session :: "page \<Rightarrow> page \<Rightarrow> bool" for s0 where
  opened: "modals s0 = [] \<Longrightarrow> fallbacks s0 = [] \<Longrightarrow> session s0 (mount supported e inner s0)"
| goes_on: "session s0 s \<Longrightarrow> modals s \<noteq> [] \<Longrightarrow> fresh ev s \<Longrightarrow> session s0 (happens ev s)"

definition session_inv :: "page \<Rightarrow> page \<Rightarrow> bool" where
  "session_inv s0 s \<longleftrightarrow>
     (\<forall>m\<in>set (modals s). restore m = focus s0) \<and> distinct (map element (modals s)) \<and>
     fallbacks s = map element (filter (\<lambda>m. \<not> native m) (modals s)) \<and>
     (if fallbacks s = [] then overflow s = overflow s0 else overflow s = ''hidden'' \<and> previousOverflow s = overflow s0) \<and>
     (modals s = [] \<longrightarrow> focus s0 \<noteq> None \<longrightarrow> focus s = focus s0)"

lemma session_mount:
  assumes "modals s = [] \<and> fallbacks s = [] \<and> s = s0 \<or> session_inv s0 s \<and> modals s \<noteq> []" "e \<notin> element ` set (modals s)"
  shows "session_inv s0 (mount supported e inner s)"
  using assms by (auto simp: session_inv_def mount_def topmost_def Let_def split: if_splits)

lemma lifetime_mem: "lifetime e s = Some m \<Longrightarrow> m \<in> set (modals s) \<and> element m = e"
  by (auto simp: lifetime_def find_Some_iff)

lemma session_finish:
  assumes i: "session_inv s0 s"
  shows "session_inv s0 (finish e back s)"
proof (cases "lifetime e s")
  case (Some m)
  note m = lifetime_mem [OF Some]
  have r: "restore m = focus s0" using i m by (simp add: session_inv_def)
  have d: "distinct (map element (filter (\<lambda>n. element n \<noteq> e) (modals s)))"
    using i by (simp add: session_inv_def distinct_map_filter)
  have nat: "native n" if "n \<in> set (modals s)" "element n = e" "native m" for n
  proof -
    have "n = m" using i m that by (auto simp: session_inv_def distinct_map dest: inj_onD)
    with that show ?thesis by simp
  qed
  have swap: "filter (\<lambda>f. f \<noteq> e) (map element xs) = map element (filter (\<lambda>n. element n \<noteq> e) xs)" for xs :: "modal list"
    by (simp add: filter_map comp_def)
  show ?thesis
  proof (cases "native m")
    case True
    then have "filter (\<lambda>m. \<not> native m) (modals s) = filter (\<lambda>m. \<not> native m) (filter (\<lambda>n. element n \<noteq> e) (modals s))"
      using nat by (auto simp: filter_filter intro: filter_cong)
    with True i r d Some show ?thesis
      by (auto simp: session_inv_def finish_def Let_def filter_empty_conv split: option.splits)
  next
    case False
    then have f: "fallbacks s \<noteq> []" using i m by (auto simp: session_inv_def filter_empty_conv)
    have "filter (\<lambda>f. f \<noteq> e) (fallbacks s) = map element (filter (\<lambda>m. \<not> native m) (filter (\<lambda>n. element n \<noteq> e) (modals s)))"
      using i by (simp add: session_inv_def swap filter_filter conj_commute)
    with False i r d f Some show ?thesis
      by (auto simp: session_inv_def finish_def Let_def filter_empty_conv split: option.splits)
  qed
qed (use i in \<open>simp add: finish_def\<close>)

lemma start_leave_fields:
  "fallbacks (start_leave e s) = fallbacks s" "overflow (start_leave e s) = overflow s"
  "previousOverflow (start_leave e s) = previousOverflow s" "focus (start_leave e s) = focus s"
  "modals (start_leave e s) = [] \<longleftrightarrow> modals s = []"
  by (simp_all add: start_leave_def)

lemma start_leave_modals:
  "map element (modals (start_leave e s)) = map element (modals s)"
  "map element (filter (\<lambda>m. \<not> native m) (modals (start_leave e s))) = map element (filter (\<lambda>m. \<not> native m) (modals s))"
  "restore ` set (modals (start_leave e s)) = restore ` set (modals s)"
proof -
  have "map element (map (\<lambda>m. if element m = e then m\<lparr>leaving := True\<rparr> else m) xs) = map element xs"
    "map element (filter (\<lambda>m. \<not> native m) (map (\<lambda>m. if element m = e then m\<lparr>leaving := True\<rparr> else m) xs))
      = map element (filter (\<lambda>m. \<not> native m) xs)"
    "restore ` set (map (\<lambda>m. if element m = e then m\<lparr>leaving := True\<rparr> else m) xs) = restore ` set xs" for xs
    by (induction xs) auto
  then show "map element (modals (start_leave e s)) = map element (modals s)"
    "map element (filter (\<lambda>m. \<not> native m) (modals (start_leave e s))) = map element (filter (\<lambda>m. \<not> native m) (modals s))"
    "restore ` set (modals (start_leave e s)) = restore ` set (modals s)"
    unfolding start_leave_def by simp_all
qed

lemma restore_all: "(\<forall>m\<in>set ms. restore m = f) \<longleftrightarrow> restore ` set ms \<subseteq> {f}"
  by auto

lemma session_leave: "session_inv s0 s \<Longrightarrow> session_inv s0 (start_leave e s)"
  unfolding session_inv_def start_leave_fields restore_all start_leave_modals .

lemma session_invariant: "session s0 s \<Longrightarrow> session_inv s0 s"
proof (induction rule: session.induct)
  case (opened supported e inner)
  then show ?case by (intro session_mount) auto
next
  case (goes_on s ev)
  then show ?case
  proof (cases ev)
    case (Mount supported e inner)
    with goes_on show ?thesis by (auto simp: fresh_def intro: session_mount)
  next
    case (FocusMoves f)
    with goes_on show ?thesis by (simp add: session_inv_def)
  qed (auto simp: session_finish session_leave unmount_def split: option.splits)
qed

text \<open>C22: When the last of a session of dialogs has gone, however they were stacked, replaced, left or
  taken away and wherever the focus went meanwhile, the focus is back on what opened the first one,
  and the page scrolls as it did; while a dialog of an older browser is open, it does not scroll.\<close>

theorem page_given_back:
  assumes "session s0 s"
  shows "(modals s = [] \<longrightarrow> overflow s = overflow s0 \<and> (focus s0 \<noteq> None \<longrightarrow> focus s = focus s0)) \<and>
    (list_ex (\<lambda>m. \<not> native m) (modals s) \<longrightarrow> overflow s = ''hidden'')"
  using session_invariant [OF assms] by (auto simp: session_inv_def list_ex_iff filter_empty_conv split: if_splits)

theorem page_given_back_witness:
  "let s0 = \<lparr>modals = [], fallbacks = [], overflow = ''auto'', previousOverflow = '''', focus = Some 7\<rparr>
   in focus (finish 1 None (finish 2 None (mount False 2 None (mount False 1 None s0)))) = Some 7"
proof -
  let ?s0 = "\<lparr>modals = [], fallbacks = [], overflow = ''auto'', previousOverflow = '''', focus = Some 7\<rparr>"
  let ?s2 = "happens (Mount False 2 None) (mount False 1 None ?s0)"
  have "session ?s0 (happens (FinishLeave 1 None) (happens (FinishLeave 2 None) ?s2))"
    by (intro session.intros) (simp_all add: mount_def finish_def lifetime_def topmost_def fresh_def Let_def)
  from page_given_back [OF this] show ?thesis
    by (simp add: mount_def finish_def lifetime_def topmost_def Let_def)
qed

text \<open>Where Tab leaves the focus: the browser itself goes to the neighbour.\<close>

definition after_tab :: "bool \<Rightarrow> nat list \<Rightarrow> nat \<Rightarrow> key_answer \<Rightarrow> nat" where
  "after_tab shift inside i a = (case a of FocusOn e \<Rightarrow> e | _ \<Rightarrow> if shift then inside ! (i - 1) else inside ! (i + 1))"

text \<open>Tab goes round inside the topmost dialog and never leaves it: forwards from the last control to
  the first, backwards from the first to the last, and elsewhere where the browser goes; a dialog
  below another, or one that is leaving, answers no key of its own.\<close>

theorem tab_goes_round:
  assumes "topmost s = Some m" "\<not> leaving m" "distinct inside" "i < length inside" "focus s = Some (inside ! i)"
  shows "after_tab shift inside i (on_key (element m) ''Tab'' shift inside True s)
      = inside ! ((if shift then i + length inside - 1 else i + 1) mod length inside) \<and>
    (\<forall>e key sh ins c. e \<noteq> element m \<longrightarrow> on_key e key sh ins c s = NotMine)"
proof -
  have ne: "inside \<noteq> []" using assms(4) by auto
  have h: "inside ! i = hd inside \<longleftrightarrow> i = 0" "inside ! i = last inside \<longleftrightarrow> i = length inside - 1"
    using assms(3,4) ne by (simp_all add: hd_conv_nth last_conv_nth nth_eq_iff_index_eq)
  have m: "(i + length inside - 1) mod length inside = (if i = 0 then length inside - 1 else i - 1)"
  proof (cases i)
    case (Suc j)
    with assms(4) have "i + length inside - 1 = j + length inside" "j < length inside" by simp_all
    then show ?thesis using Suc by simp
  qed (use ne in simp)
  have n: "(i + 1) mod length inside = (if i = length inside - 1 then 0 else i + 1)"
  proof (cases "i = length inside - 1")
    case True
    with assms(4) have "i + 1 = length inside" by simp
    with True show ?thesis by simp
  next
    case False
    with assms(4) show ?thesis by simp
  qed
  have "after_tab shift inside i (on_key (element m) ''Tab'' shift inside True s)
      = inside ! ((if shift then i + length inside - 1 else i + 1) mod length inside)"
    unfolding m n if_distrib [of "\<lambda>k. k mod length inside"]
    using assms ne h by (auto simp: on_key_def after_tab_def hd_conv_nth last_conv_nth)
  then show ?thesis using assms(1) by (simp add: on_key_def)
qed

theorem tab_goes_round_witness:
  "let s = \<lparr>modals = [\<lparr>element = 1, leaving = False, restore = None, native = False\<rparr>], fallbacks = [1], overflow = ''hidden'',
     previousOverflow = '''', focus = Some 30\<rparr>
   in after_tab False [10, 20, 30] 2 (on_key 1 ''Tab'' False [10, 20, 30] True s) = 10"
  using tab_goes_round [of "\<lparr>modals = [\<lparr>element = 1, leaving = False, restore = None, native = False\<rparr>], fallbacks = [1],
     overflow = ''hidden'', previousOverflow = '''', focus = Some 30\<rparr>" "\<lparr>element = 1, leaving = False, restore = None, native = False\<rparr>"
     "[10, 20, 30]" 2 False]
  by (simp add: topmost_def)

end
