(* ===== verification/PageEvents.thy ===== *)
theory PageEvents
  imports Prelude
begin

text \<open>
  Small state machines of the page: elements retired while they leave (retiring.ts), the rows
  of a list that do so (rowtransitions.ts), files dragged over the page (filedrop.ts) and the mark
  of a touched button (touchpress.ts).  Elements are numbers; what the page answers when it is
  asked (which row has the focus, what is under the pointer) is an argument of the event.
\<close>

section \<open>Retiring an element\<close>

record document =
  attribute :: "nat \<Rightarrow> string \<Rightarrow> string option"
  ignoring :: "nat set"
  previous :: "nat \<Rightarrow> (string option \<times> string option) option"

definition put_attribute :: "nat \<Rightarrow> string \<Rightarrow> string option \<Rightarrow> document \<Rightarrow> document" where
  "put_attribute e n v d = d\<lparr>attribute := (attribute d)(e := (attribute d e)(n := v))\<rparr>"

definition retire :: "nat \<Rightarrow> document \<Rightarrow> document" where
  "retire e d =
     (if previous d e \<noteq> None then d
      else let d1 = d\<lparr>previous := (previous d)(e \<mapsto> (attribute d e ''inert'', attribute d e ''aria-hidden''))\<rparr>
        in (put_attribute e ''aria-hidden'' (Some ''true'') (put_attribute e ''inert'' (Some '''') d1))\<lparr>ignoring := insert e (ignoring d)\<rparr>)"

definition revive :: "nat \<Rightarrow> document \<Rightarrow> document" where
  "revive e d = (case previous d e of
     None \<Rightarrow> d
   | Some (inert, hidden) \<Rightarrow>
       (put_attribute e ''aria-hidden'' hidden (put_attribute e ''inert'' inert d))
         \<lparr>ignoring := ignoring d - {e}, previous := (previous d)(e := None)\<rparr>)"

lemma retire_again [simp]: "retire e (retire e d) = retire e d"
  by (simp add: retire_def put_attribute_def Let_def)

lemma revive_retire:
  "previous d e = None \<Longrightarrow> e \<notin> ignoring d \<Longrightarrow> revive e (retire e d) = d"
  by (auto simp: retire_def revive_def put_attribute_def Let_def fun_eq_iff)

section \<open>Rows that leave a list\<close>

record rows = document +
  pending :: "nat list"
  leaving :: nat

definition on_document :: "(document \<Rightarrow> document) \<Rightarrow> rows \<Rightarrow> rows" where
  "on_document f s = (let d = f \<lparr>attribute = attribute s, ignoring = ignoring s, previous = previous s\<rparr>
     in s\<lparr>attribute := attribute d, ignoring := ignoring d, previous := previous d\<rparr>)"

definition beforeLeave :: "nat \<Rightarrow> rows \<Rightarrow> rows" where
  "beforeLeave e s =
     (if e \<in> set (pending s) then s
      else on_document (retire e) (s\<lparr>pending := pending s @ [e], leaving := length (pending s @ [e])\<rparr>))"

definition afterLeave :: "nat \<Rightarrow> rows \<Rightarrow> rows" where
  "afterLeave e s =
     (if e \<notin> set (pending s) then s
      else let left = filter (\<lambda>x. x \<noteq> e) (pending s)
        in (on_document (revive e) (s\<lparr>pending := left\<rparr>))\<lparr>leaving := length left\<rparr>)"

text \<open>Where the focus goes when the row that had it left: \<open>remaining\<close> are the rows not retired.\<close>

datatype refocus = LeaveFocus | FocusRow nat | FocusEmpty

definition recover_focus :: "bool \<Rightarrow> bool \<Rightarrow> bool \<Rightarrow> bool \<Rightarrow> int \<Rightarrow> nat list \<Rightarrow> refocus" where
  "recover_focus owned connected on_body in_row index remaining =
     (if \<not> owned \<or> \<not> connected then LeaveFocus
      else if \<not> on_body \<and> \<not> in_row then LeaveFocus
      else if remaining = [] then FocusEmpty
      else FocusRow (remaining ! nat (min (max index 0) (int (length remaining) - 1))))"

datatype row_event = Leaves nat | Left nat

fun row_step :: "rows \<Rightarrow> row_event \<Rightarrow> rows" where
  "row_step s (Leaves e) = beforeLeave e s"
| "row_step s (Left e) = afterLeave e s"

text \<open>What the rows under way have changed of a document \<open>d0\<close> nothing was retired in.\<close>

definition rows_inv :: "document \<Rightarrow> rows \<Rightarrow> bool" where
  "rows_inv d0 s \<longleftrightarrow> distinct (pending s) \<and> leaving s = length (pending s) \<and> ignoring s = set (pending s) \<and>
     (\<forall>e. previous s e = (if e \<in> set (pending s) then Some (attribute d0 e ''inert'', attribute d0 e ''aria-hidden'') else None)) \<and>
     (\<forall>e. attribute s e = (if e \<in> set (pending s) then (attribute d0 e)(''inert'' := Some '''', ''aria-hidden'' := Some ''true'')
        else attribute d0 e))"

lemma rows_inv_step: "rows_inv d0 s \<Longrightarrow> rows_inv d0 (row_step s ev)"
proof (cases ev)
  case (Leaves e)
  assume i: "rows_inv d0 s"
  show ?thesis
  proof (cases "e \<in> set (pending s)")
    case False
    with i Leaves show ?thesis
      by (auto simp: rows_inv_def beforeLeave_def on_document_def retire_def put_attribute_def Let_def fun_eq_iff)
  qed (use i Leaves in \<open>simp add: beforeLeave_def\<close>)
next
  case (Left e)
  assume i: "rows_inv d0 s"
  show ?thesis
  proof (cases "e \<in> set (pending s)")
    case True
    with i Left show ?thesis
      by (auto simp: rows_inv_def afterLeave_def on_document_def revive_def put_attribute_def Let_def fun_eq_iff)
  qed (use i Left in \<open>simp add: afterLeave_def\<close>)
qed

lemma rows_inv_run: "rows_inv d0 s \<Longrightarrow> rows_inv d0 (foldl row_step s evs)"
  by (induction evs arbitrary: s) (simp_all add: rows_inv_step)

text \<open>The focus a leaving row had goes to the row that took its place, the last one if there is none
  after it, or to what stands for an empty list.\<close>

lemma focus_recovered:
  "recover_focus True True True in_row index remaining =
      (if remaining = [] then FocusEmpty
       else if index < 0 then FocusRow (hd remaining)
       else if nat index < length remaining then FocusRow (remaining ! nat index) else FocusRow (last remaining))"
  by (auto simp: recover_focus_def hd_conv_nth last_conv_nth min_def max_def nat_diff_distrib')

text \<open>However rows start and end leaving a list: the count of those leaving is right, just they are
  out of reach of the pointer, the keyboard and assistive technology, and when the last has ended
  every element has the attributes it had before.\<close>

theorem rows_restored:
  fixes d0 :: document
  assumes "ignoring d0 = {}" "previous d0 = (\<lambda>_. None)"
  shows "let s = foldl row_step \<lparr>attribute = attribute d0, ignoring = {}, previous = (\<lambda>_. None), pending = [], leaving = 0\<rparr> evs in
      leaving s = length (pending s) \<and> ignoring s = set (pending s) \<and>
      (\<forall>e. attribute s e ''inert'' = (if e \<in> set (pending s) then Some '''' else attribute d0 e ''inert'')) \<and>
      (pending s = [] \<longrightarrow> attribute s = attribute d0 \<and> previous s = previous d0)"
proof -
  have "rows_inv d0 \<lparr>attribute = attribute d0, ignoring = {}, previous = (\<lambda>_. None), pending = [], leaving = 0\<rparr>"
    using assms by (simp add: rows_inv_def)
  from rows_inv_run [OF this, of evs] assms(2)
  show ?thesis
    by (auto simp: rows_inv_def Let_def fun_eq_iff)
qed

theorem rows_restored_witness:
  "attribute (foldl row_step \<lparr>attribute = (\<lambda>_ _. None), ignoring = {}, previous = (\<lambda>_. None), pending = [], leaving = 0\<rparr>
     [Leaves 3, Leaves 4, Leaves 3, Left 3, Left 4]) = (\<lambda>_ _. None)"
  using rows_restored [of "\<lparr>attribute = (\<lambda>_ _. None), ignoring = {}, previous = (\<lambda>_. None)\<rparr>" "[Leaves 3, Leaves 4, Leaves 3, Left 3, Left 4]"]
  by (simp add: Let_def beforeLeave_def afterLeave_def on_document_def)

section \<open>Files over the page\<close>

record file_drop =
  target :: "string option"
  active :: bool
  depth :: nat

definition no_files :: file_drop where
  "no_files = \<lparr>target = None, active = False, depth = 0\<rparr>"

text \<open>An entry of a transfer: its kind, whether it is a directory, and the file it gives, if it does.\<close>

record 'f transfer_item =
  item_kind :: string
  directory :: bool
  as_file :: "'f option"

record 'f transfer =
  types :: "string list"
  transfer_items :: "'f transfer_item list"
  files :: "'f list"

definition carriesFiles :: "'f transfer option \<Rightarrow> bool" where
  "carriesFiles t = (case t of None \<Rightarrow> False | Some t \<Rightarrow> ''Files'' \<in> set (types t))"

text \<open>The nearest element with one of the two attributes, if there is one; the file's own comes first.\<close>

definition dropTarget :: "(string option \<times> string option) option \<Rightarrow> string option" where
  "dropTarget found = (case found of None \<Rightarrow> None | Some (file_drop, drop_name) \<Rightarrow>
     (case file_drop of Some f \<Rightarrow> Some f | None \<Rightarrow> drop_name))"

definition droppedFiles :: "'f transfer option \<Rightarrow> 'f list \<times> nat" where
  "droppedFiles t = (case t of
     None \<Rightarrow> ([], 0)
   | Some t \<Rightarrow> if transfer_items t = [] then (files t, 0)
       else let fs = filter (\<lambda>i. item_kind i = ''file'') (transfer_items t)
         in (List.map_filter as_file (filter (\<lambda>i. \<not> directory i) fs), length (filter directory fs)))"

definition reset_drop :: "file_drop \<Rightarrow> file_drop" where
  "reset_drop s = s\<lparr>depth := 0, target := None, active := False\<rparr>"

definition enter :: "bool \<Rightarrow> file_drop \<Rightarrow> file_drop" where
  "enter carries s = (if \<not> carries then s else s\<lparr>depth := depth s + 1, active := True\<rparr>)"

definition over :: "bool \<Rightarrow> string option \<Rightarrow> (string \<Rightarrow> bool) \<Rightarrow> file_drop \<Rightarrow> file_drop" where
  "over carries found accepts s = (if \<not> carries then s
     else s\<lparr>target := (case found of Some f \<Rightarrow> if accepts f then Some f else None | None \<Rightarrow> None)\<rparr>)"

definition leave :: "bool \<Rightarrow> file_drop \<Rightarrow> file_drop" where
  "leave carries s = (if \<not> carries then s
     else let s1 = s\<lparr>depth := depth s - 1\<rparr> in if depth s1 = 0 then reset_drop s1 else s1)"

definition drop_files :: "'f transfer option \<Rightarrow> string option \<Rightarrow> (string \<Rightarrow> bool) \<Rightarrow> file_drop \<Rightarrow> file_drop \<times> (string \<times> 'f list \<times> nat) option" where
  "drop_files t found accepts s = (if \<not> carriesFiles t then (s, None)
     else (reset_drop s, case found of
        None \<Rightarrow> None
      | Some f \<Rightarrow> if \<not> accepts f then None
          else (case droppedFiles t of (fs, folders) \<Rightarrow> if fs \<noteq> [] \<or> folders \<noteq> 0 then Some (f, fs, folders) else None)))"

datatype drag = Enter bool | Over bool "string option" | Leave bool

fun dragged :: "(string \<Rightarrow> bool) \<Rightarrow> file_drop \<Rightarrow> drag \<Rightarrow> file_drop" where
  "dragged accepts s (Enter c) = enter c s"
| "dragged accepts s (Over c found) = over c found accepts s"
| "dragged accepts s (Leave c) = leave c s"

text \<open>How many elements a drag of files is in: each is entered before its parent is left.\<close>

fun balance :: "drag list \<Rightarrow> int" where
  "balance [] = 0"
| "balance (Enter c # ds) = (if c then 1 else 0) + balance ds"
| "balance (Leave c # ds) = (if c then -1 else 0) + balance ds"
| "balance (Over _ _ # ds) = balance ds"

lemma balance_append: "balance (ds @ es) = balance ds + balance es"
  by (induction ds rule: balance.induct) auto

lemma drag_depth:
  "(\<And>n. n \<le> length ds \<Longrightarrow> 0 \<le> balance (take n ds)) \<Longrightarrow>
   int (depth (foldl (dragged accepts) no_files ds)) = balance ds \<and>
   (active (foldl (dragged accepts) no_files ds) \<longleftrightarrow> 0 < balance ds)"
proof (induction ds rule: rev_induct)
  case (snoc d ds)
  have pre: "0 \<le> balance (take n ds)" if "n \<le> length ds" for n using snoc.prems [of n] that by simp
  have all: "0 \<le> balance (ds @ [d])" using snoc.prems [of "length (ds @ [d])"] by simp
  note IH = snoc.IH [OF pre]
  show ?case
  proof (cases d)
    case (Leave c)
    with IH all show ?thesis
      by (auto simp: balance_append leave_def reset_drop_def Let_def nat_diff_split)
  qed (use IH in \<open>auto simp: balance_append enter_def over_def\<close>)
qed (simp add: no_files_def)

text \<open>The page shows that files are dragged over it exactly while they are in some element of it,
  however elements are entered and left on the way; when they have left them all, no target is lit; a
  target that is lit is one that takes files; and files are handed over only to a target that
  takes them, all the plain files in their order with the number of folders beside them.\<close>

theorem files_over_the_page:
  assumes "\<And>n. n \<le> length ds \<Longrightarrow> 0 \<le> balance (take n ds)"
  shows "(active (foldl (dragged accepts) no_files ds) \<longleftrightarrow> 0 < balance ds) \<and>
    (\<forall>t. target (foldl (dragged accepts) no_files ds) = Some t \<longrightarrow> accepts t) \<and>
    (depth (foldl (dragged accepts) no_files ds) = 1 \<longrightarrow> dragged accepts (foldl (dragged accepts) no_files ds) (Leave True) = no_files) \<and>
    (\<forall>t fs n s. snd (drop_files transferred found accepts s) = Some (t, fs, n) \<longrightarrow>
       accepts t \<and> found = Some t \<and> (fs, n) = droppedFiles transferred \<and> fst (drop_files transferred found accepts s) = no_files)"
proof -
  have "\<forall>t. target (foldl (dragged accepts) no_files ds) = Some t \<longrightarrow> accepts t"
  proof (induction ds rule: rev_induct)
    case (snoc d ds)
    then show ?case
      by (cases d) (auto simp: enter_def over_def leave_def reset_drop_def Let_def split: option.splits if_splits)
  qed (simp add: no_files_def)
  with drag_depth [OF assms, of accepts] show ?thesis
    by (auto simp: drop_files_def leave_def reset_drop_def no_files_def Let_def split: option.splits if_splits prod.splits)
qed

theorem files_over_the_page_witness:
  "\<forall>accepts. \<not> active (foldl (dragged accepts) no_files [Enter True, Enter True, Leave True, Over True (Some ''lib''), Leave True])"
proof -
  have "0 \<le> balance (take n [Enter True, Enter True, Leave True, Over True (Some ''lib''), Leave True])" if "n \<le> 5" for n
    using that by (auto simp: numeral_eq_Suc le_Suc_eq)
  then have b: "n \<le> length [Enter True, Enter True, Leave True, Over True (Some ''lib''), Leave True] \<Longrightarrow>
      0 \<le> balance (take n [Enter True, Enter True, Leave True, Over True (Some ''lib''), Leave True])" for n by simp
  have "\<not> active (foldl (dragged accepts) no_files [Enter True, Enter True, Leave True, Over True (Some ''lib''), Leave True])" for accepts
    using files_over_the_page [OF b, of accepts "None :: nat transfer option" None] by simp
  then show ?thesis by blast
qed

section \<open>A touched button\<close>

record touch_press =
  pressed :: "(nat \<times> int) option"
  marked :: "nat set"

definition clear_press :: "touch_press \<Rightarrow> touch_press" where
  "clear_press s = s\<lparr>pressed := None, marked := (case pressed s of None \<Rightarrow> marked s | Some (b, _) \<Rightarrow> marked s - {b})\<rparr>"

text \<open>\<open>button\<close> is the enabled button around what was touched, if there is one.\<close>

definition pointer_down :: "string \<Rightarrow> bool \<Rightarrow> int \<Rightarrow> int \<Rightarrow> nat option \<Rightarrow> touch_press \<Rightarrow> touch_press" where
  "pointer_down kind primary which pointer button s =
     (if kind \<noteq> ''touch'' \<or> \<not> primary \<or> which \<noteq> 0 then s
      else let s1 = clear_press s in
        case button of None \<Rightarrow> s1 | Some b \<Rightarrow> s1\<lparr>pressed := Some (b, pointer), marked := insert b (marked s1)\<rparr>)"

definition released :: "int \<Rightarrow> touch_press \<Rightarrow> touch_press" where
  "released pointer s = (if map_option snd (pressed s) = Some pointer then clear_press s else s)"

definition pointer_move :: "int \<Rightarrow> bool \<Rightarrow> touch_press \<Rightarrow> touch_press" where
  "pointer_move pointer inside s = (if map_option snd (pressed s) = Some pointer \<and> \<not> inside then clear_press s else s)"

inductive press_reachable :: "touch_press \<Rightarrow> bool" where
  "press_reachable \<lparr>pressed = None, marked = {}\<rparr>"
| "press_reachable s \<Longrightarrow> press_reachable (pointer_down k p w i b s)"
| "press_reachable s \<Longrightarrow> press_reachable (released i s)"
| "press_reachable s \<Longrightarrow> press_reachable (pointer_move i inside s)"
| "press_reachable s \<Longrightarrow> press_reachable (clear_press s)"

lemma marks_the_pressed:
  "press_reachable s \<Longrightarrow> marked s = (case pressed s of None \<Rightarrow> {} | Some (b, _) \<Rightarrow> {b})"
proof (induction rule: press_reachable.induct)
qed (auto simp: pointer_down_def released_def pointer_move_def clear_press_def Let_def split: option.splits)

end
