(* ===== verification/Preferences.thy ===== *)
theory Preferences
  imports Json Complex_Main
begin

text \<open>
  What this browser remembers: the widths of the panes (panewidths.ts), the format of the last
  export (exportformats.ts), the theme (stores/theme.ts) and the item types used last
  (items/newitemtypes.ts); and the licences of a publication (publications/licenses.ts).  Local
  storage may throw on reading or on writing, and every module goes on without it.  The locale
  \<open>remembered\<close> is what they promise; each interprets it on its own reading and writing.
\<close>

section \<open>Local storage\<close>

record storage =
  entries :: "string \<Rightarrow> string option"
  can_read :: bool
  can_write :: bool

text \<open>\<open>Inl ()\<close> is an exception.\<close>

definition getItem :: "string \<Rightarrow> storage \<Rightarrow> unit + string option" where
  "getItem k s = (if can_read s then Inr (entries s k) else Inl ())"

definition setItem :: "string \<Rightarrow> string \<Rightarrow> storage \<Rightarrow> unit + storage" where
  "setItem k v s = (if can_write s then Inr (s\<lparr>entries := (entries s)(k \<mapsto> v)\<rparr>) else Inl ())"

definition removeItem :: "string \<Rightarrow> storage \<Rightarrow> unit + storage" where
  "removeItem k s = (if can_write s then Inr (s\<lparr>entries := (entries s)(k := None)\<rparr>) else Inl ())"

text \<open>\<open>try { .. } catch {}\<close> around a write.\<close>

definition attempted :: "storage \<Rightarrow> unit + storage \<Rightarrow> storage" where
  "attempted s r = (case r of Inl _ \<Rightarrow> s | Inr s' \<Rightarrow> s')"

definition works :: "storage \<Rightarrow> bool" where
  "works s \<longleftrightarrow> can_read s \<and> can_write s"

locale remembered =
  fixes recall :: "storage \<Rightarrow> 'v" and keep :: "'u \<Rightarrow> storage \<Rightarrow> storage" and kept :: "'u \<Rightarrow> 'v" and default :: 'v and key :: string
  assumes reads_back: "works s \<Longrightarrow> recall (keep v s) = kept v"
    and frame: "k \<noteq> key \<Longrightarrow> entries (keep v s) k = entries s k"
    and flags: "can_read (keep v s) = can_read s" "can_write (keep v s) = can_write s"
    and unreadable: "\<not> can_read s \<Longrightarrow> recall s = default"
begin

lemma last_choice: "works s \<Longrightarrow> recall (fold keep (vs @ [v]) s) = kept v"
proof -
  assume "works s"
  then have "works (fold keep vs s)"
    by (induction vs arbitrary: s) (simp_all add: works_def flags)
  then show ?thesis by (simp add: reads_back)
qed

lemma others_untouched: "k \<noteq> key \<Longrightarrow> entries (fold keep vs s) k = entries s k"
  by (induction vs arbitrary: s) (simp_all add: frame)

lemma without_storage: "\<not> can_read s \<Longrightarrow> recall (fold keep vs s) = default"
proof -
  have "can_read (fold keep vs s) = can_read s"
    by (induction vs arbitrary: s) (simp_all add: flags)
  then show "\<not> can_read s \<Longrightarrow> recall (fold keep vs s) = default" by (simp add: unreadable)
qed

end

section \<open>Pane widths\<close>

record PaneWidth =
  pane_key :: string
  pane_min :: int
  pane_max :: int
  preferred :: int

definition SIDEBAR :: PaneWidth where
  "SIDEBAR = \<lparr>pane_key = ''altero.sidebar-width'', pane_min = 176, pane_max = 560, preferred = 288\<rparr>"

definition DETAIL :: PaneWidth where
  "DETAIL = \<lparr>pane_key = ''altero.detail-width'', pane_min = 260, pane_max = 720, preferred = 420\<rparr>"

text \<open>\<open>Math.round\<close> is the floor of the half above; widths are fractions of a pixel.\<close>

definition clampWidth :: "PaneWidth \<Rightarrow> rat \<Rightarrow> int" where
  "clampWidth p w = min (pane_max p) (max (pane_min p) \<lfloor>w + 1/2\<rfloor>)"

definition paneWidthDelta :: "rat \<Rightarrow> bool \<Rightarrow> bool \<Rightarrow> rat" where
  "paneWidthDelta movement trailing rtl = movement * (if trailing \<noteq> rtl then -1 else 1)"

definition readStored :: "string \<Rightarrow> storage \<Rightarrow> string option" where
  "readStored k s = (case getItem k s of Inl _ \<Rightarrow> None | Inr v \<Rightarrow> v)"

text \<open>\<open>Number\<close> of a string is the argument, with \<open>None\<close> where it is not finite; of \<open>null\<close> it is 0.\<close>

definition readWidth :: "(string \<Rightarrow> rat option) \<Rightarrow> PaneWidth \<Rightarrow> storage \<Rightarrow> int" where
  "readWidth number p s =
     (case (case readStored (pane_key p) s of None \<Rightarrow> Some 0 | Some t \<Rightarrow> number t) of
        Some w \<Rightarrow> if w > 0 then clampWidth p w else preferred p
      | None \<Rightarrow> preferred p)"

definition storeWidth :: "PaneWidth \<Rightarrow> rat \<Rightarrow> storage \<Rightarrow> storage" where
  "storeWidth p w s = attempted s (setItem (pane_key p) (show_int (clampWidth p w)) s)"

definition proper_pane :: "PaneWidth \<Rightarrow> bool" where
  "proper_pane p \<longleftrightarrow> 0 < pane_min p \<and> pane_min p \<le> preferred p \<and> preferred p \<le> pane_max p"

lemma panes_proper: "proper_pane SIDEBAR" "proper_pane DETAIL"
  by (simp_all add: proper_pane_def SIDEBAR_def DETAIL_def)

lemma clamp_range: "proper_pane p \<Longrightarrow> pane_min p \<le> clampWidth p w \<and> clampWidth p w \<le> pane_max p"
  by (auto simp: clampWidth_def proper_pane_def)

lemma clamp_int: "pane_min p \<le> n \<Longrightarrow> n \<le> pane_max p \<Longrightarrow> clampWidth p (of_int n) = n"
proof -
  have "\<lfloor>(of_int n :: rat) + 1/2\<rfloor> = n" by (rule floor_unique) simp_all
  then show "pane_min p \<le> n \<Longrightarrow> n \<le> pane_max p \<Longrightarrow> clampWidth p (of_int n) = n" by (simp add: clampWidth_def)
qed

section \<open>The export format\<close>

definition EXPORT_FORMATS :: "(string \<times> string) list" where
  "EXPORT_FORMATS =
     [(''biblatex'', ''BibLaTeX''), (''rdf_bibliontology'', ''Bibliontology RDF''), (''bibtex'', ''BibTeX''),
      (''bookmarks'', ''Bookmarks''), (''coins'', ''COinS''), (''csljson'', ''CSL JSON''), (''csv'', ''CSV''),
      (''endnote_xml'', ''Endnote XML''), (''mods'', ''MODS''), (''refer'', ''Refer/BibIX''),
      (''refworks_tagged'', ''RefWorks Tagged''), (''ris'', ''RIS''), (''evernote'', ''Simple Evernote Export''),
      (''tei'', ''TEI''), (''rdf_dc'', ''Unqualified Dublin Core RDF''), (''wikipedia'', ''Wikipedia Citation Templates''),
      (''rdf_zotero'', ''Zotero RDF'')]"

definition EXPORT_FORMAT_STORAGE_KEY :: string where
  "EXPORT_FORMAT_STORAGE_KEY = ''altero.export-format''"

definition DEFAULT_EXPORT_FORMAT :: string where
  "DEFAULT_EXPORT_FORMAT = ''bibtex''"

definition rememberedFormat :: "storage \<Rightarrow> string" where
  "rememberedFormat s = (case getItem EXPORT_FORMAT_STORAGE_KEY s of
     Inl _ \<Rightarrow> DEFAULT_EXPORT_FORMAT
   | Inr stored \<Rightarrow> (case given stored of
        Some t \<Rightarrow> if list_ex (\<lambda>f. fst f = t) EXPORT_FORMATS then t else DEFAULT_EXPORT_FORMAT
      | None \<Rightarrow> DEFAULT_EXPORT_FORMAT))"

definition rememberFormat :: "string \<Rightarrow> storage \<Rightarrow> storage" where
  "rememberFormat i s = attempted s (setItem EXPORT_FORMAT_STORAGE_KEY i s)"

definition UNCITED :: "string list" where
  "UNCITED = [''note'', ''attachment'', ''annotation'']"

definition exportable :: "string \<Rightarrow> bool" where
  "exportable t \<longleftrightarrow> t \<notin> set UNCITED"

definition known_format :: "string \<Rightarrow> string" where
  "known_format i = (if i \<in> fst ` set EXPORT_FORMATS then i else DEFAULT_EXPORT_FORMAT)"

section \<open>The theme\<close>

datatype ThemePreference = System | Light | Dark

text \<open>What is on screen is one of the latter two; an icon link and a colour element of the page.\<close>

record link =
  rel :: string
  link_type :: string
  link_media :: "string option"
  href :: string

record chrome_meta =
  meta_name :: string
  meta_media :: "string option"
  content :: string

record theme_store =
  preference :: ThemePreference
  systemPrefersDark :: bool
  shown_theme :: string
  icons :: "link list"
  metas :: "chrome_meta list"
  kept_in :: storage

definition resolved :: "theme_store \<Rightarrow> ThemePreference" where
  "resolved s = (if preference s \<noteq> System then preference s else if systemPrefersDark s then Dark else Light)"

fun theme_name :: "ThemePreference \<Rightarrow> string" where
  "theme_name System = ''system''"
| "theme_name Light = ''light''"
| "theme_name Dark = ''dark''"

definition CHROME_COLORS :: "ThemePreference \<Rightarrow> string" where
  "CHROME_COLORS t = (if t = Light then ''#f2f5f4'' else ''#1d2020'')"

definition THEME_STORAGE_KEY :: string where
  "THEME_STORAGE_KEY = ''altero.theme''"

definition isPreference :: "string \<Rightarrow> bool" where
  "isPreference v \<longleftrightarrow> v = ''system'' \<or> v = ''light'' \<or> v = ''dark''"

text \<open>The first of the page's elements is used, or a new one; the others are removed.\<close>

definition paintIcon :: "(ThemePreference \<Rightarrow> string) \<Rightarrow> ThemePreference \<Rightarrow> theme_store \<Rightarrow> theme_store" where
  "paintIcon ICONS t s = s\<lparr>icons := [(case icons s of [] \<Rightarrow> \<lparr>rel = '''', link_type = '''', link_media = None, href = ''''\<rparr> | l # _ \<Rightarrow> l)
     \<lparr>rel := ''icon'', link_type := ''image/svg+xml'', link_media := None, href := ICONS t\<rparr>]\<rparr>"

definition paintChrome :: "ThemePreference \<Rightarrow> theme_store \<Rightarrow> theme_store" where
  "paintChrome t s = s\<lparr>metas := [(case metas s of [] \<Rightarrow> \<lparr>meta_name = '''', meta_media = None, content = ''''\<rparr> | m # _ \<Rightarrow> m)
     \<lparr>meta_name := ''theme-color'', meta_media := None, content := CHROME_COLORS t\<rparr>]\<rparr>"

definition apply_theme :: "(ThemePreference \<Rightarrow> string) \<Rightarrow> theme_store \<Rightarrow> theme_store" where
  "apply_theme ICONS s =
     (let t = resolved s in paintChrome t (paintIcon ICONS t (s\<lparr>shown_theme := theme_name t\<rparr>)))"

definition remember_theme :: "ThemePreference \<Rightarrow> storage \<Rightarrow> storage" where
  "remember_theme t s = attempted s
     (if t = System then removeItem THEME_STORAGE_KEY s else setItem THEME_STORAGE_KEY (theme_name t) s)"

definition setPreference :: "(ThemePreference \<Rightarrow> string) \<Rightarrow> ThemePreference \<Rightarrow> theme_store \<Rightarrow> theme_store" where
  "setPreference ICONS t s = apply_theme ICONS (s\<lparr>preference := t, kept_in := remember_theme t (kept_in s)\<rparr>)"

definition stored_theme :: "storage \<Rightarrow> ThemePreference" where
  "stored_theme s =
     (case (case getItem THEME_STORAGE_KEY s of Inl _ \<Rightarrow> None | Inr v \<Rightarrow> v) of
        Some v \<Rightarrow> if isPreference v \<and> v \<noteq> ''system'' then (if v = ''light'' then Light else Dark) else System
      | None \<Rightarrow> System)"

definition initialise_theme :: "(ThemePreference \<Rightarrow> string) \<Rightarrow> bool \<Rightarrow> theme_store \<Rightarrow> theme_store" where
  "initialise_theme ICONS dark s = apply_theme ICONS (s\<lparr>preference := stored_theme (kept_in s), systemPrefersDark := dark\<rparr>)"

definition system_changes :: "(ThemePreference \<Rightarrow> string) \<Rightarrow> bool \<Rightarrow> theme_store \<Rightarrow> theme_store" where
  "system_changes ICONS dark s = apply_theme ICONS (s\<lparr>systemPrefersDark := dark\<rparr>)"

section \<open>The types of a new item\<close>

definition DEFAULT_PRIMARY :: "string list" where
  "DEFAULT_PRIMARY = [''book'', ''bookSection'', ''journalArticle'', ''newspaperArticle'', ''document'']"

definition HIDDEN :: "string list" where
  "HIDDEN = [''webpage'', ''attachment'', ''note'', ''annotation'']"

definition RECENT_TYPES_KEY :: string where
  "RECENT_TYPES_KEY = ''altero.newItemTypes''"

text \<open>\<open>JSON.parse\<close> is the argument; it may throw.\<close>

definition recentTypes :: "(string \<Rightarrow> json option) \<Rightarrow> storage \<Rightarrow> string list" where
  "recentTypes parse s = (case getItem RECENT_TYPES_KEY s of
     Inl _ \<Rightarrow> []
   | Inr stored \<Rightarrow> (case given stored of
        None \<Rightarrow> []
      | Some t \<Rightarrow> (case parse t of Some (JArr es) \<Rightarrow> List.map_filter as_string es | _ \<Rightarrow> [])))"

definition rememberType :: "(string \<Rightarrow> json option) \<Rightarrow> string \<Rightarrow> storage \<Rightarrow> storage" where
  "rememberType parse t s =
     (let next = take 5 (t # filter (\<lambda>e. e \<noteq> t) (recentTypes parse s))
      in attempted s (setItem RECENT_TYPES_KEY (stringify (JArr (map JStr next))) s))"

definition fill_step :: "string list \<Rightarrow> nat \<Rightarrow> string list \<Rightarrow> string \<Rightarrow> string list" where
  "fill_step offered k p n = (if length p \<ge> k then p else if n \<in> set offered \<and> n \<notin> set p then p @ [n] else p)"

definition newItemMenu :: "(string \<Rightarrow> string \<Rightarrow> int) \<Rightarrow> string list \<Rightarrow> string list \<Rightarrow> string list \<times> string list" where
  "newItemMenu by_label available recent =
     (let offered = filter (\<lambda>n. n \<notin> set HIDDEN) available;
          chosen = uniq (take (length DEFAULT_PRIMARY) (filter (\<lambda>n. n \<in> set offered) recent));
          primary = foldl (fill_step offered (length DEFAULT_PRIMARY)) chosen DEFAULT_PRIMARY
      in (sort_by by_label primary, sort_by by_label offered))"

section \<open>Licences\<close>

record License =
  license_id :: string
  license_name :: string
  license_url :: "string option"

definition cc :: "string \<Rightarrow> string \<Rightarrow> string \<Rightarrow> License" where
  "cc i n path = \<lparr>license_id = i, license_name = n, license_url = Some (''https://creativecommons.org/'' @ path)\<rparr>"

definition LICENSES :: "License list" where
  "LICENSES =
     [\<lparr>license_id = ''reserved'', license_name = ''All rights reserved'', license_url = None\<rparr>,
      cc ''cc-by'' ''Creative Commons Attribution 4.0 International License'' ''licenses/by/4.0/'',
      cc ''cc-by-sa'' ''Creative Commons Attribution-ShareAlike 4.0 International License'' ''licenses/by-sa/4.0/'',
      cc ''cc-by-nd'' ''Creative Commons Attribution-NoDerivatives 4.0 International License'' ''licenses/by-nd/4.0/'',
      cc ''cc-by-nc'' ''Creative Commons Attribution-NonCommercial 4.0 International License'' ''licenses/by-nc/4.0/'',
      cc ''cc-by-nc-sa'' ''Creative Commons Attribution-NonCommercial-ShareAlike 4.0 International License'' ''licenses/by-nc-sa/4.0/'',
      cc ''cc-by-nc-nd'' ''Creative Commons Attribution-NonCommercial-NoDerivatives 4.0 International License'' ''licenses/by-nc-nd/4.0/'',
      cc ''cc0'' ''CC0 1.0 Universal Public Domain Dedication'' ''publicdomain/zero/1.0/'']"

datatype Adaptations = Yes | No | ShareAlike

definition creativeCommonsLicense :: "Adaptations \<Rightarrow> bool \<Rightarrow> string" where
  "creativeCommonsLicense adaptations commercial =
     ''cc-by'' @ (if \<not> commercial then ''-nc'' else '''') @
     (case adaptations of No \<Rightarrow> ''-nd'' | ShareAlike \<Rightarrow> ''-sa'' | Yes \<Rightarrow> '''')"

definition licenseFor :: "string \<Rightarrow> License option" where
  "licenseFor i = List.find (\<lambda>l. license_id l = i) LICENSES"

definition licenseCode :: "string \<Rightarrow> string option" where
  "licenseCode i = (if i = ''reserved'' then None else if i = ''cc0'' then Some ''CC0''
     else Some (replace_once (CHR ''-'') (CHR '' '') (to_upper i)))"

section \<open>Remembered choices\<close>

text \<open>What \<open>Number\<close> is relied on for: it reads back what \<open>String\<close> wrote of a whole number.\<close>

definition reads_numbers :: "(string \<Rightarrow> rat option) \<Rightarrow> bool" where
  "reads_numbers number \<longleftrightarrow> (\<forall>n. number (show_int n) = Some (of_int n))"

lemma pane_remembered:
  assumes "reads_numbers number" "proper_pane p"
  shows "remembered (readWidth number p) (storeWidth p) (clampWidth p) (preferred p) (pane_key p)"
proof
  fix s w
  assume "works s"
  have r: "pane_min p \<le> clampWidth p w" "clampWidth p w \<le> pane_max p" "0 < pane_min p"
    using clamp_range [OF assms(2)] assms(2) by (simp_all add: proper_pane_def)
  then show "readWidth number p (storeWidth p w s) = clampWidth p w"
    using \<open>works s\<close> assms(1) clamp_int [OF r(1,2)]
    by (simp add: readWidth_def storeWidth_def readStored_def getItem_def setItem_def attempted_def works_def reads_numbers_def)
qed (simp_all add: storeWidth_def setItem_def attempted_def readWidth_def readStored_def getItem_def)

text \<open>Whole numbers in decimal, which is what the module writes.\<close>

definition decimal :: "string \<Rightarrow> rat option" where
  "decimal t = (case t of
     [] \<Rightarrow> Some 0
   | c # cs \<Rightarrow> if c = CHR ''-'' \<and> list_all is_digit cs \<and> cs \<noteq> [] then Some (- of_nat (digits_value cs))
       else if list_all is_digit t then Some (of_nat (digits_value t)) else None)"

lemma decimal_reads: "reads_numbers decimal"
proof -
  have digits: "list_all is_digit (show_nat n)" "show_nat n \<noteq> []" for n
    using show_nat_digits by (simp_all add: list_all_iff)
  have "decimal (show_nat n) = Some (of_nat n)" for n
  proof -
    obtain c cs where c: "show_nat n = c # cs" using digits(2) [of n] by (cases "show_nat n") auto
    with digits(1) [of n] have "c \<noteq> CHR ''-''" using is_digit_codes by simp
    with c digits(1) [of n] show ?thesis by (simp add: decimal_def) (metis c digits_value_show)
  qed
  moreover have "decimal (''-'' @ show_nat n) = Some (- of_nat n)" for n
    using digits [of n] by (simp add: decimal_def digits_value_show)
  ultimately show ?thesis by (auto simp: reads_numbers_def show_int_def)
qed

interpretation sidebar: remembered "readWidth decimal SIDEBAR" "storeWidth SIDEBAR" "clampWidth SIDEBAR" "preferred SIDEBAR" "pane_key SIDEBAR"
  by (rule pane_remembered [OF decimal_reads panes_proper(1)])

interpretation export_format: remembered rememberedFormat rememberFormat known_format DEFAULT_EXPORT_FORMAT EXPORT_FORMAT_STORAGE_KEY
proof
  fix s i
  assume "works s"
  moreover have "i \<in> fst ` set EXPORT_FORMATS \<Longrightarrow> i \<noteq> ''''" by (auto simp: EXPORT_FORMATS_def)
  ultimately show "rememberedFormat (rememberFormat i s) = known_format i"
    by (auto simp: rememberedFormat_def rememberFormat_def getItem_def setItem_def attempted_def works_def known_format_def given_def
        list_ex_iff image_iff)
qed (simp_all add: rememberFormat_def setItem_def attempted_def rememberedFormat_def getItem_def)

interpretation theme: remembered stored_theme remember_theme id System THEME_STORAGE_KEY
proof
  fix s t
  assume "works s"
  then show "stored_theme (remember_theme t s) = id t"
    by (cases t) (simp_all add: stored_theme_def remember_theme_def getItem_def setItem_def removeItem_def attempted_def works_def isPreference_def)
qed (simp_all add: remember_theme_def setItem_def removeItem_def attempted_def stored_theme_def getItem_def)

text \<open>What was chosen last is what is found on the next visit, whatever was chosen before: the width
  of a pane rounded and brought into its range, the export format if it is one the server has, the
  theme; a browser whose storage cannot be read gets the defaults; and no choice disturbs another.\<close>

theorem choices_are_remembered:
  assumes "reads_numbers number" "proper_pane p" "works s" "\<not> can_read dead"
  shows "readWidth number p (fold (storeWidth p) (ws @ [w]) s) = clampWidth p w \<and>
    pane_min p \<le> readWidth number p any \<and> readWidth number p any \<le> pane_max p \<and>
    readWidth number p (fold (storeWidth p) ws dead) = preferred p \<and>
    rememberedFormat (fold rememberFormat (fs @ [f]) s) = known_format f \<and>
    rememberedFormat (fold rememberFormat fs dead) = DEFAULT_EXPORT_FORMAT \<and>
    stored_theme (fold remember_theme (ts @ [t]) s) = t \<and> stored_theme (fold remember_theme ts dead) = System \<and>
    stored_theme (fold rememberFormat fs s) = stored_theme s"
proof -
  note pane = pane_remembered [OF assms(1,2)]
  have range: "pane_min p \<le> readWidth number p any" "readWidth number p any \<le> pane_max p"
    using clamp_range [OF assms(2)] assms(2) by (auto simp: readWidth_def proper_pane_def split: option.splits)
  have k: "entries (fold rememberFormat fs s) THEME_STORAGE_KEY = entries s THEME_STORAGE_KEY"
    by (rule export_format.others_untouched) (simp add: THEME_STORAGE_KEY_def EXPORT_FORMAT_STORAGE_KEY_def)
  have "can_read (fold rememberFormat fs s) = can_read s"
    by (induction fs arbitrary: s) (simp_all add: export_format.flags)
  with k have "stored_theme (fold rememberFormat fs s) = stored_theme s" by (simp add: stored_theme_def getItem_def)
  with range show ?thesis
    using remembered.last_choice [OF pane assms(3)] remembered.without_storage [OF pane assms(4)]
      export_format.last_choice [OF assms(3)] export_format.without_storage [OF assms(4)]
      theme.last_choice [OF assms(3)] theme.without_storage [OF assms(4)]
    by simp
qed

theorem choices_are_remembered_witness:
  "readWidth decimal SIDEBAR (fold (storeWidth SIDEBAR) [1000, 299 + 1/2] \<lparr>entries = (\<lambda>_. None), can_read = True, can_write = True\<rparr>) = 300"
proof -
  let ?s = "\<lparr>entries = (\<lambda>_. None), can_read = True, can_write = True\<rparr>"
  have "readWidth decimal SIDEBAR (fold (storeWidth SIDEBAR) ([1000] @ [299 + 1/2]) ?s) = clampWidth SIDEBAR (299 + 1/2)"
    using choices_are_remembered [OF decimal_reads panes_proper(1), of ?s "?s\<lparr>can_read := False\<rparr>" "[1000]" "299 + 1/2"]
    by (simp add: works_def)
  moreover have "\<lfloor>299 + 1/2 + (1/2 :: rat)\<rfloor> = 300" by simp
  ultimately show ?thesis by (simp add: clampWidth_def SIDEBAR_def)
qed

section \<open>The theme on the screen\<close>

text \<open>What the page shows of the theme: the attribute, one icon and one colour, all of the same theme.\<close>

definition shows_theme :: "(ThemePreference \<Rightarrow> string) \<Rightarrow> theme_store \<Rightarrow> bool" where
  "shows_theme ICONS s \<longleftrightarrow> shown_theme s = theme_name (resolved s) \<and>
     map href (icons s) = [ICONS (resolved s)] \<and> map link_media (icons s) = [None] \<and>
     map content (metas s) = [CHROME_COLORS (resolved s)] \<and> map meta_media (metas s) = [None]"

lemma resolved_applied [simp]: "resolved (apply_theme ICONS s) = resolved s"
  by (simp add: apply_theme_def paintChrome_def paintIcon_def resolved_def Let_def)

lemma applied_shows: "shows_theme ICONS (apply_theme ICONS s)"
  by (simp add: shows_theme_def) (simp add: apply_theme_def paintChrome_def paintIcon_def Let_def)

text \<open>After the start, a choice or a change of the system, the page is of one theme throughout: the
  attribute, the one icon and the one colour of the browser's bar agree, whatever the page had
  before; an explicit choice wins over the system, whatever that changes to, and a choice made here
  is the one a later start finds, where storage works.\<close>

theorem theme_shown:
  "shows_theme ICONS (initialise_theme ICONS dark s) \<and> shows_theme ICONS (setPreference ICONS t s) \<and>
   shows_theme ICONS (system_changes ICONS dark s) \<and>
   resolved (system_changes ICONS dark (setPreference ICONS Light s)) = Light \<and>
   resolved (system_changes ICONS dark (setPreference ICONS Dark s)) = Dark \<and>
   resolved (system_changes ICONS dark (setPreference ICONS System s)) = (if dark then Dark else Light) \<and>
   (preference (initialise_theme ICONS dark (setPreference ICONS t s)) = t \<or> works (kept_in s) = False)"
proof -
  have p: "preference (apply_theme ICONS s) = preference s" "systemPrefersDark (apply_theme ICONS s) = systemPrefersDark s"
    "kept_in (apply_theme ICONS s) = kept_in s" for s
    by (simp_all add: apply_theme_def paintChrome_def paintIcon_def Let_def)
  have "works (kept_in s) \<Longrightarrow> preference (initialise_theme ICONS dark (setPreference ICONS t s)) = t"
    using theme.reads_back [of "kept_in s" t] by (simp add: initialise_theme_def setPreference_def p)
  then show ?thesis
    by (auto simp: initialise_theme_def setPreference_def system_changes_def applied_shows) (simp_all add: resolved_def p)
qed

theorem theme_shown_witness:
  "\<forall>s. shows_theme (\<lambda>t. theme_name t @ ''.svg'') (setPreference (\<lambda>t. theme_name t @ ''.svg'') Dark s)"
proof -
  have "shows_theme (\<lambda>t. theme_name t @ ''.svg'') (setPreference (\<lambda>t. theme_name t @ ''.svg'') Dark s)" for s
    using theme_shown [of "\<lambda>t. theme_name t @ ''.svg''" True s Dark] by blast
  then show ?thesis by blast
qed

section \<open>The menu of types\<close>

lemma fill_full: "k \<le> length p \<Longrightarrow> foldl (fill_step offered k) p ds = p"
  by (induction ds) (simp_all add: fill_step_def)

lemma fill_primary:
  assumes "distinct p" "set p \<subseteq> set offered" "length p \<le> k"
  shows "let q = foldl (fill_step offered k) p ds in distinct q \<and> set q \<subseteq> set offered \<and> length q \<le> k \<and> set p \<subseteq> set q \<and>
    (length q = k \<or> set ds \<inter> set offered \<subseteq> set q)"
  using assms
proof (induction ds arbitrary: p)
  case (Cons d ds)
  let ?p = "fill_step offered k p d"
  have p: "distinct ?p" "set ?p \<subseteq> set offered" "length ?p \<le> k" "set p \<subseteq> set ?p" "length ?p = k \<or> d \<notin> set offered \<or> d \<in> set ?p"
    using Cons.prems by (auto simp: fill_step_def)
  note IH = Cons.IH [OF p(1-3)]
  show ?case
  proof (cases "length ?p = k")
    case True
    then have "foldl (fill_step offered k) p (d # ds) = ?p" by (simp add: fill_full)
    with p True show ?thesis by simp
  next
    case False
    with p IH show ?thesis by (auto simp: Let_def)
  qed
qed simp

text \<open>The menu offers only types the server has and that are made by hand: all of them once each in
  the order of their labels, and above them up to five of them, also ordered, among them those used
  last, filled up with the usual ones as far as there are any.\<close>

theorem new_item_menu:
  assumes "distinct available" "newItemMenu by_label available recent = (primary, every)"
  shows "mset every = mset (filter (\<lambda>t. t \<notin> set HIDDEN) available) \<and>
    distinct primary \<and> length primary \<le> 5 \<and> set primary \<subseteq> set every \<and>
    set (take 5 (filter (\<lambda>t. t \<in> set every) recent)) \<subseteq> set primary \<and>
    (length primary = 5 \<or> set DEFAULT_PRIMARY \<inter> set every \<subseteq> set primary) \<and>
    (orders by_label \<longrightarrow> sorted_wrt (\<lambda>a b. by_label a b \<le> 0) primary \<and> sorted_wrt (\<lambda>a b. by_label a b \<le> 0) every)"
proof -
  define offered where "offered = filter (\<lambda>n. n \<notin> set HIDDEN) available"
  define chosen where "chosen = uniq (take 5 (filter (\<lambda>n. n \<in> set offered) recent))"
  define filled where "filled = foldl (fill_step offered 5) chosen DEFAULT_PRIMARY"
  have five: "length DEFAULT_PRIMARY = 5" by (simp add: DEFAULT_PRIMARY_def)
  have m: "primary = sort_by by_label filled" "every = sort_by by_label offered"
    using assms(2) by (simp_all add: newItemMenu_def Let_def filled_def chosen_def offered_def five)
  have c: "set chosen = set (take 5 (filter (\<lambda>n. n \<in> set offered) recent))" "distinct chosen" "length chosen \<le> 5"
    using length_uniq_le [of "take 5 (filter (\<lambda>n. n \<in> set offered) recent)"] by (simp_all add: chosen_def)
  have "set chosen \<subseteq> set offered" unfolding c(1) by (auto dest: in_set_takeD)
  note f = fill_primary [OF c(2) this c(3), of DEFAULT_PRIMARY, folded filled_def, unfolded Let_def]
  show ?thesis
    using f c(1) by (auto simp: m offered_def [symmetric] sorted_sort_by)
qed

theorem new_item_menu_witness:
  "let r = newItemMenu (\<lambda>a b. int (length a) - int (length b)) [''book'', ''film'', ''note''] [''film'']
   in distinct (fst r) \<and> ''film'' \<in> set (fst r) \<and> set (snd r) = {''book'', ''film''}"
proof -
  let ?r = "newItemMenu (\<lambda>a b. int (length a) - int (length b)) [''book'', ''film'', ''note''] [''film'']"
  have d: "distinct [''book'', ''film'', ''note'']" by simp
  note p = new_item_menu [OF d prod.collapse [symmetric], of "\<lambda>a b. int (length a) - int (length b)" "[''film'']"]
  then have "mset (snd ?r) = {#''book'', ''film''#}" by (simp add: HIDDEN_def)
  then have s: "set (snd ?r) = {''book'', ''film''}" by (metis set_mset_mset set_mset_add_mset_insert set_mset_empty)
  with p have "''film'' \<in> set (fst ?r)" by simp
  with p s show ?thesis unfolding Let_def by blast
qed

end
