(* ===== verification/Codes.thy ===== *)
theory Codes
  imports Json
begin

text \<open>
  Texts as lists of code points, for the parts of the program whose own characters are not all below
  256: dates, citations and mathematics.  White space is JavaScript's, \<open>parseInt\<close> reads what it reads
  of the front of a text.
\<close>

section \<open>Text\<close>

type_synonym codes = "nat list"

definition ascii :: "string \<Rightarrow> codes" where
  "ascii s = map of_char s"

definition white :: "nat \<Rightarrow> bool" where
  "white n \<longleftrightarrow> (9 \<le> n \<and> n \<le> 13) \<or> n \<in> {32, 160, 0x1680, 0x2028, 0x2029, 0x202F, 0x205F, 0x3000, 0xFEFF} \<or> (0x2000 \<le> n \<and> n \<le> 0x200A)"

definition trim_text :: "codes \<Rightarrow> codes" where
  "trim_text t = rev (dropWhile white (rev (dropWhile white t)))"

definition numeral_digit :: "nat \<Rightarrow> bool" where
  "numeral_digit n \<longleftrightarrow> 48 \<le> n \<and> n \<le> 57"

definition word_code :: "nat \<Rightarrow> bool" where
  "word_code n \<longleftrightarrow> numeral_digit n \<or> (65 \<le> n \<and> n \<le> 90) \<or> (97 \<le> n \<and> n \<le> 122) \<or> n = 95"

definition alphanumeric :: "nat \<Rightarrow> bool" where
  "alphanumeric n \<longleftrightarrow> numeral_digit n \<or> (65 \<le> n \<and> n \<le> 90) \<or> (97 \<le> n \<and> n \<le> 122)"

text \<open>\<open>parseInt\<close> of a run of digits, and \<open>String\<close> of a number.\<close>

definition parse_digits :: "codes \<Rightarrow> int" where
  "parse_digits t = foldl (\<lambda>n d. 10 * n + int (d - 48)) 0 t"

definition show_number :: "int \<Rightarrow> codes" where
  "show_number n = ascii (show_int n)"

text \<open>\<open>parseInt\<close> without a radix: white space, a sign, and then hexadecimal digits after \<open>0x\<close> or decimal
  ones; \<open>NaN\<close> is \<open>None\<close>.\<close>

definition hex_digit :: "nat \<Rightarrow> nat option" where
  "hex_digit n = (if numeral_digit n then Some (n - 48) else if 97 \<le> n \<and> n \<le> 102 then Some (n - 87)
     else if 65 \<le> n \<and> n \<le> 70 then Some (n - 55) else None)"

definition parse_hex :: "codes \<Rightarrow> int" where
  "parse_hex t = foldl (\<lambda>n d. 16 * n + int (case hex_digit d of Some k \<Rightarrow> k | None \<Rightarrow> 0)) 0 t"

definition parse_unsigned :: "codes \<Rightarrow> int option" where
  "parse_unsigned t =
     (if take 2 t \<in> {[48, 120], [48, 88]} then
        (let ds = takeWhile (\<lambda>n. hex_digit n \<noteq> None) (drop 2 t) in if ds = [] then None else Some (parse_hex ds))
      else (let ds = takeWhile numeral_digit t in if ds = [] then None else Some (parse_digits ds)))"

definition parseInt :: "codes \<Rightarrow> int option" where
  "parseInt t = (case dropWhile white t of
       [] \<Rightarrow> None
     | c # cs \<Rightarrow> if c = 45 then map_option uminus (parse_unsigned cs)
         else if c = 43 then parse_unsigned cs else parse_unsigned (c # cs))"

lemma parse_digits_nonneg: "0 \<le> parse_digits t"
proof -
  have "0 \<le> n \<Longrightarrow> 0 \<le> foldl (\<lambda>n d. 10 * n + int (d - 48)) n t" for n by (induction t arbitrary: n) simp_all
  then show ?thesis by (simp add: parse_digits_def)
qed

lemma show_number_not_Nil [simp]: "show_number n \<noteq> []"
proof -
  have "show_nat k \<noteq> []" for k by (subst show_nat.simps) simp
  then show ?thesis by (simp add: show_number_def show_int_def ascii_def)
qed

text \<open>A number of the program is read back as it was written.\<close>

lemma parse_digits_show: "parse_digits (ascii (show_nat n)) = int n"
proof (induction n rule: show_nat.induct)
  case (1 n)
  have "int (10 * (n div 10) + n mod 10) = int n" by simp
  then have "10 * int (n div 10) + int (n mod 10) = int n" by (simp only: of_nat_add of_nat_mult of_nat_numeral)
  with 1 show ?case by (simp add: show_nat.simps [of n] parse_digits_def ascii_def of_digit_char)
qed

lemma digits_show: "list_all numeral_digit (ascii (show_nat n))" "show_nat n \<noteq> []"
  using show_nat_digits [of n] by (auto simp: list_all_iff ascii_def is_digit_def numeral_digit_def Let_def)

lemma takeWhile_all: "list_all P t \<Longrightarrow> takeWhile P t = t"
  by (induction t) auto

lemma parse_unsigned_show: "parse_unsigned (ascii (show_nat n)) = Some (int n)"
proof -
  from digits_show(1) [of n] have "take 2 (ascii (show_nat n)) \<notin> {[48, 120], [48, 88]}"
    by (cases "ascii (show_nat n)"; cases "tl (ascii (show_nat n))") (auto simp: numeral_digit_def)
  then show ?thesis
    using digits_show [of n] by (simp add: parse_unsigned_def takeWhile_all parse_digits_show Let_def) (simp add: ascii_def)
qed

lemma parseInt_show: "parseInt (show_number i) = Some i"
proof (cases "i < 0")
  case True
  have "dropWhile white (45 # t) = 45 # t" for t by (simp add: white_def)
  with True parse_unsigned_show [of "nat (- i)"] show ?thesis
    by (simp add: show_number_def show_int_def parseInt_def ascii_def)
next
  case False
  let ?t = "ascii (show_nat (nat i))"
  obtain c cs where t: "?t = c # cs" using digits_show(2) [of "nat i"] by (cases ?t) (auto simp: ascii_def)
  with digits_show(1) [of "nat i"] have "numeral_digit c" by simp
  then have "\<not> white c" "c \<noteq> 45" "c \<noteq> 43" by (auto simp: numeral_digit_def white_def)
  with t False parse_unsigned_show [of "nat i"] show ?thesis
    by (simp add: show_number_def show_int_def parseInt_def)
qed

end
