(* ===== verification/Dates.thy ===== *)
theory Dates
  imports Regex Codes
begin

text \<open>
  How a typed date is read (items/dates.ts): as numbers between separators, else by looking for a
  year, the name of a month and a day in what is left.  A text is the list of its code points, since
  the separators of a date and the names of months are not all Latin; the names themselves
  (dateFormats.json), the letters of Unicode and its ways of ignoring case are arguments.
\<close>

section \<open>Patterns\<close>

definition Dot :: "nat regex" where
  "Dot = Cls (\<lambda>c. c \<notin> {10, 13, 0x2028, 0x2029})"

definition Digit :: "nat regex" where
  "Digit = Cls numeral_digit"

text \<open>An ASCII letter under the flag \<open>i\<close> matches itself in either case.\<close>

definition Ascii_i :: "string \<Rightarrow> nat regex" where
  "Ascii_i s = seqs (map (\<lambda>x. Cls (\<lambda>c. c = of_char (lower_char x) \<or> c = of_char (upper_char x))) s)"

definition year_sign :: nat where
  "year_sign = 0x5E74"

definition month_sign :: nat where
  "month_sign = 0x6708"

definition SLASH :: "nat regex" where
  "SLASH = seqs
     [Start, Grp 1 (Star False Dot), Bound word_code,
      Grp 2 (between 1 4 Digit),
      Opt (Seq (Grp 3 (Cls (\<lambda>c. c \<in> {45, 47, 46, year_sign}))) (Grp 4 (between 1 2 Digit))),
      Opt (Seq (Grp 5 (Cls (\<lambda>c. c \<in> {45, 47, 46, month_sign}))) (Grp 6 (between 1 4 Digit))),
      Grp 7 (Seq (Alt (Bound word_code) (Cls (\<lambda>c. \<not> numeral_digit c))) (Star False Dot)), End]"

text \<open>\<open>(?:circa |around |about |c\.? ?)?\<close>, and the eras after a year.\<close>

definition circa :: "nat regex" where
  "circa = Opt (alts [Ascii_i ''circa '', Ascii_i ''around '', Ascii_i ''about '', seqs [Ascii_i ''c'', Opt (Ascii_i ''.''), Opt (Ascii_i '' '')]])"

definition era :: "nat regex" where
  "era = (let sp = Opt (Ascii_i '' ''); dot = Opt (Ascii_i ''.'') in alts
     [seqs [sp, Ascii_i ''B'', dot, sp, Ascii_i ''C'', dot, Opt (seqs [sp, Ascii_i ''E'', dot])],
      seqs [sp, Ascii_i ''C'', dot, sp, Ascii_i ''E'', dot],
      seqs [sp, Ascii_i ''A'', dot, sp, Ascii_i ''D'', dot]])"

definition YEAR :: "nat regex" where
  "YEAR = seqs
     [Start, Grp 1 (Star False Dot), Bound word_code,
      Grp 2 (Alt (seqs [circa, between 1 4 Digit, era]) (between 3 4 Digit)),
      Bound word_code, Grp 3 (Star False Dot), End]"

definition DAY :: "nat regex" where
  "DAY = seqs
     [Bound word_code, Grp 1 (between 1 2 Digit),
      Opt (alts [Ascii_i ''st'', Ascii_i ''nd'', Ascii_i ''rd'', Ascii_i ''th'']),
      Bound word_code, Grp 2 (Star True Dot)]"

definition MONTH_FIRST :: "string set" where
  "MONTH_FIRST = {''US'', ''FM'', ''PW'', ''PH''}"

section \<open>The names of months\<close>

record Months =
  short :: "codes list"
  long :: "codes list"

text \<open>dateFormats.json: American English first.\<close>

record Formats =
  en_US :: Months
  others :: "(string \<times> Months) list"

definition all_formats :: "Formats \<Rightarrow> (string \<times> Months) list" where
  "all_formats fs = (''en-US'', en_US fs) # others fs"

definition monthsFor :: "Formats \<Rightarrow> string \<Rightarrow> Months" where
  "monthsFor fs locale =
     (let known = (\<lambda>t. map_of (all_formats fs) t \<noteq> None);
          english = (take 2 locale = ''en'');
          tag = locale;
          tag = (if known tag then tag else take 2 tag);
          tag = (if known tag then tag else tag @ ''-'' @ to_upper tag);
          tag = (if known tag then tag else
                   (case List.find (\<lambda>k. take (length (take 2 tag)) k = take 2 tag) (map fst (all_formats fs)) of
                      Some same \<Rightarrow> same | None \<Rightarrow> tag))
      in case map_of (all_formats fs) tag of
           None \<Rightarrow> en_US fs
         | Some found \<Rightarrow> if english then found
             else \<lparr>short = short found @ short (en_US fs), long = long found @ long (en_US fs)\<rparr>)"

text \<open>What Unicode is relied on for: the letters (under the flags of the pattern), the key by which two
  characters are the same whatever their case, and \<open>toLowerCase\<close>.\<close>

record unicode =
  letter :: "nat \<Rightarrow> bool"
  fold_case :: "nat \<Rightarrow> nat"
  lower_text :: "codes \<Rightarrow> codes"

definition month_names :: "unicode \<Rightarrow> Formats \<Rightarrow> string \<Rightarrow> codes list" where
  "month_names U fs locale = (let m = monthsFor fs locale in map (lower_text U) (short m) @ map (lower_text U) (long m))"

definition month_regex :: "unicode \<Rightarrow> codes list \<Rightarrow> nat regex" where
  "month_regex U names = seqs
     [Grp 1 (Star True Dot), Alt Start (Cls (\<lambda>c. \<not> letter U c)),
      Grp 2 (alts (map (\<lambda>n. seqs (map (\<lambda>x. Cls (\<lambda>c. fold_case U c = fold_case U x)) n)) names)),
      Star True (Cls (\<lambda>c. c \<noteq> 32)),
      Alt (seqs [Lit 32, Grp 3 (Star True Dot), End]) End]"

section \<open>Reading\<close>

record ParsedDate =
  order :: string
  year :: "codes option"
  month :: "int option"
  day :: "int option"
  part_of :: "codes option"

definition no_date :: ParsedDate where
  "no_date = \<lparr>order = '''', year = None, month = None, day = None, part_of = None\<rparr>"

text \<open>Where a part stands: \<open>true\<close> is beside everything, a letter beside that one.\<close>

datatype side = Everything | Beside char

record Part =
  part_text :: codes
  before :: "side option"
  after :: "side option"

abbreviation plain_part :: "codes \<Rightarrow> Part" where
  "plain_part t \<equiv> \<lparr>part_text = t, before = None, after = None\<rparr>"

definition insertOrderPart :: "string \<Rightarrow> char \<Rightarrow> Part \<Rightarrow> string" where
  "insertOrderPart ord p w =
     (if ord = '''' then [p]
      else if before w = Some Everything then p # ord
      else if after w = Some Everything then ord @ [p]
      else case before w of
        Some (Beside b) \<Rightarrow> if b \<notin> set ord then ord
          else takeWhile (\<lambda>c. c \<noteq> b) ord @ p # dropWhile (\<lambda>c. c \<noteq> b) ord
      | _ \<Rightarrow> (case after w of
          Some (Beside a) \<Rightarrow> if a \<notin> set ord then ord @ [p]
            else takeWhile (\<lambda>c. c \<noteq> a) ord @ a # p # tl (dropWhile (\<lambda>c. c \<noteq> a) ord)
        | _ \<Rightarrow> ord @ [p]))"

text \<open>The groups of a match; one that took no part reads as the empty text where only its truth counts.\<close>

definition grp :: "nat \<Rightarrow> nat place \<Rightarrow> codes" where
  "grp n m = (case group n m of Some t \<Rightarrow> t | None \<Rightarrow> [])"

definition nonempty :: "codes option \<Rightarrow> codes option" where
  "nonempty t = (if t = Some [] then None else t)"

subsection \<open>Numbers between separators\<close>

text \<open>Whether a match of \<open>SLASH\<close> is a date: its separators agree, and it is three numbers or nothing
  but numbers.\<close>

definition is_slash_date :: "nat place \<Rightarrow> bool" where
  "is_slash_date m \<longleftrightarrow>
     (grp 5 m = [] \<or> grp 3 m = [] \<or> grp 3 m = grp 5 m \<or> (grp 3 m = [year_sign] \<and> grp 5 m = [month_sign])) \<and>
     ((grp 2 m \<noteq> [] \<and> grp 4 m \<noteq> [] \<and> grp 6 m \<noteq> []) \<or> (grp 1 m = [] \<and> grp 7 m = []))"

definition letter_if :: "char \<Rightarrow> codes option \<Rightarrow> string" where
  "letter_if c t = (if nonempty t = None then '''' else [c])"

record numbers =
  n_order :: string
  n_year :: "codes option"
  n_month :: "codes option"
  n_day :: "codes option"

definition assign_numbers :: "string \<Rightarrow> nat place \<Rightarrow> numbers" where
  "assign_numbers locale m =
     (let y = CHR ''y''; mo = CHR ''m''; d = CHR ''d'';
          m2 = Some (grp 2 m); m4 = group 4 m; m6 = group 6 m in
      if length (grp 2 m) = 3 \<or> length (grp 2 m) = 4 \<or> grp 3 m = [year_sign] then
        \<lparr>n_order = letter_if y m2 @ letter_if mo m4 @ letter_if d m6, n_year = m2, n_month = m4, n_day = m6\<rparr>
      else if grp 2 m \<noteq> [] \<and> nonempty m4 = None \<and> nonempty m6 \<noteq> None then
        \<lparr>n_order = letter_if mo m2 @ letter_if y m6, n_year = m6, n_month = m2, n_day = None\<rparr>
      else
        (let country = (if drop 3 locale = '''' then ''US'' else drop 3 locale);
             yr = (if m6 = None then '''' else [y]) in
         if country \<in> MONTH_FIRST then
           \<lparr>n_order = letter_if mo m2 @ letter_if d m4 @ yr, n_year = m6, n_month = m2, n_day = m4\<rparr>
         else
           \<lparr>n_order = letter_if d m2 @ letter_if mo m4 @ yr, n_year = m6, n_month = m4, n_day = m2\<rparr>))"

definition swap_order :: "string \<Rightarrow> string" where
  "swap_order ord =
     replace_once (CHR ''M'') (CHR ''m'') (replace_once (CHR ''D'') (CHR ''d'')
       (replace_once (CHR ''d'') (CHR ''M'') (replace_once (CHR ''m'') (CHR ''D'') ord)))"

text \<open>A number of two digits is read against the century of \<open>today\<close>.\<close>

definition full_year :: "int \<Rightarrow> bool \<Rightarrow> int \<Rightarrow> int" where
  "full_year current longYear y =
     (if y \<noteq> 0 \<and> y < 100 \<and> \<not> longYear then
        (let twoDigit = current mod 100; century = current - twoDigit in
         if y \<le> twoDigit then century + y else century - 100 + y)
      else y)"

text \<open>A number is there when it is neither missing nor zero.\<close>

definition is_number :: "int option \<Rightarrow> bool" where
  "is_number n \<longleftrightarrow> n \<noteq> None \<and> n \<noteq> Some 0"

definition read_numbers :: "int \<Rightarrow> string \<Rightarrow> codes \<Rightarrow> nat place \<Rightarrow> ParsedDate \<times> Part list" where
  "read_numbers current locale string m =
     (let ns = assign_numbers locale m;
          longYear = (case n_year ns of None \<Rightarrow> False | Some t \<Rightarrow> 2 < length t);
          y = map_option parse_digits (nonempty (n_year ns));
          d = map_option parse_digits (nonempty (n_day ns));
          mo = map_option parse_digits (nonempty (n_month ns));
          swapped = (case mo of None \<Rightarrow> False | Some k \<Rightarrow> 12 < k);
          mo' = (if swapped then d else mo);
          d' = (if swapped then mo else d);
          ord = (if swapped then swap_order (n_order ns) else n_order ns) in
      if (\<not> is_number mo' \<or> the mo' \<le> 12) \<and> (\<not> is_number d' \<or> the d' \<le> 31) then
        (\<lparr>order = ord, year = map_option (\<lambda>k. show_number (full_year current longYear k)) y,
          month = (if is_number mo' then Some (the mo' - 1) else None),
          day = (if is_number d' then d' else None), part_of = None\<rparr>,
         [\<lparr>part_text = grp 1 m, before = Some Everything, after = None\<rparr>, plain_part (grp 7 m)])
      else (no_date, [plain_part string]))"

subsection \<open>Looking in what is left\<close>

text \<open>The first part with an answer, between the parts before it and those after.\<close>

fun first_part :: "(codes \<Rightarrow> 'a option) \<Rightarrow> Part list \<Rightarrow> (Part list \<times> Part \<times> 'a \<times> Part list) option" where
  "first_part f [] = None"
| "first_part f (p # ps) = (case f (part_text p) of
     Some a \<Rightarrow> Some ([], p, a, ps)
   | None \<Rightarrow> map_option (\<lambda>(pre, q, a, post). (p # pre, q, a, post)) (first_part f ps))"

definition find_year :: "ParsedDate \<times> Part list \<Rightarrow> ParsedDate \<times> Part list" where
  "find_year = (\<lambda>(d, parts).
     if nonempty (year d) \<noteq> None then (d, parts)
     else case first_part (exec YEAR) parts of
       None \<Rightarrow> (d, parts)
     | Some (pre, p, (_, m), post) \<Rightarrow>
         (d\<lparr>year := Some (grp 2 m), order := insertOrderPart (order d) (CHR ''y'') p\<rparr>,
          pre @ [\<lparr>part_text = grp 1 m, before = Some Everything, after = None\<rparr>, plain_part (grp 3 m)] @ post))"

text \<open>\<open>indexOf\<close> is \<open>-1\<close> when there is none, and \<open>%\<close> keeps the sign.\<close>

definition month_of :: "codes list \<Rightarrow> codes \<Rightarrow> int" where
  "month_of names t = (case find_index (\<lambda>n. n = t) names of None \<Rightarrow> - 1 | Some i \<Rightarrow> int (i mod 12))"

definition find_month :: "unicode \<Rightarrow> Formats \<Rightarrow> string \<Rightarrow> ParsedDate \<times> Part list \<Rightarrow> ParsedDate \<times> Part list" where
  "find_month U fs locale = (\<lambda>(d, parts).
     if month d \<noteq> None then (d, parts)
     else let names = month_names U fs locale in
       case first_part (exec (month_regex U names)) parts of
         None \<Rightarrow> (d, parts)
       | Some (pre, p, (_, m), post) \<Rightarrow>
           (d\<lparr>month := Some (month_of names (lower_text U (grp 2 m))), order := insertOrderPart (order d) (CHR ''m'') p\<rparr>,
            pre @ [\<lparr>part_text = grp 1 m, before = Some (Beside (CHR ''m'')), after = None\<rparr>,
                   \<lparr>part_text = grp 3 m, before = None, after = Some (Beside (CHR ''m''))\<rparr>] @ post))"

text \<open>A match whose number is no day of a month leaves its part as it is.\<close>

definition day_match :: "codes \<Rightarrow> (codes \<times> nat place) option" where
  "day_match t = (case exec DAY t of
     Some (u, m) \<Rightarrow> if parse_digits (grp 1 m) \<le> 31 then Some (u, m) else None
   | None \<Rightarrow> None)"

definition find_day :: "ParsedDate \<times> Part list \<Rightarrow> ParsedDate \<times> Part list" where
  "find_day = (\<lambda>(d, parts).
     if is_number (day d) then (d, parts)
     else case first_part day_match parts of
       None \<Rightarrow> (d, parts)
     | Some (pre, p, (u, m), post) \<Rightarrow>
         (d\<lparr>day := Some (parse_digits (grp 1 m)), order := insertOrderPart (order d) (CHR ''d'') p\<rparr>,
          pre @ [plain_part (if u \<noteq> [] then u @ (if grp 2 m \<noteq> [] then 32 # grp 2 m else []) else grp 2 m)] @ post))"

subsection \<open>The whole\<close>

definition left_over :: "Part list \<Rightarrow> codes" where
  "left_over parts =
     (let junk = Many1 (Cls (\<lambda>c. \<not> alphanumeric c)) in
      replace_all (Alt (Seq Start junk) (Seq junk End)) (\<lambda>_. []) (concat (map (\<lambda>p. part_text p @ [32]) parts)))"

definition begin_reading :: "int \<Rightarrow> string \<Rightarrow> codes \<Rightarrow> ParsedDate \<times> Part list" where
  "begin_reading current locale string = (case exec SLASH string of
       Some (_, m) \<Rightarrow> if is_slash_date m then read_numbers current locale string m else (no_date, [plain_part string])
     | None \<Rightarrow> (no_date, [plain_part string]))"

definition strToDate :: "unicode \<Rightarrow> Formats \<Rightarrow> int \<Rightarrow> string \<Rightarrow> codes \<Rightarrow> ParsedDate" where
  "strToDate U fs current locale value =
     (let string = trim_text (replace_all (Many1 (Cls white)) (\<lambda>_. [32]) value) in
      if string = [] then no_date
      else let (d, parts) = find_day (find_month U fs locale (find_year (begin_reading current locale string)));
           rest = left_over parts in
        d\<lparr>part_of := (if rest = [] then None else Some rest)\<rparr>)"

definition dateOrder :: "unicode \<Rightarrow> Formats \<Rightarrow> int \<Rightarrow> string \<Rightarrow> codes \<Rightarrow> string" where
  "dateOrder U fs current locale value = join_with '' '' (map (\<lambda>c. [c]) (order (strToDate U fs current locale value)))"

section \<open>What is found is in the order shown\<close>

lemma replace_once_map:
  "distinct s \<Longrightarrow> y \<notin> set s \<Longrightarrow> replace_once x y s = map (\<lambda>c. if c = x then y else c) s \<and> distinct (replace_once x y s)"
proof (induction s)
  case (Cons c s)
  moreover have "map (\<lambda>c. if c = x then y else c) s = s" if "x \<notin> set s" using that by (induction s) auto
  ultimately show ?case by auto
qed simp

lemma swap_order_set:
  assumes "set ord \<subseteq> set ''ymd''" "distinct ord"
  shows "set (swap_order ord) \<subseteq> set ''ymd''" "CHR ''y'' \<in> set (swap_order ord) \<longleftrightarrow> CHR ''y'' \<in> set ord"
    "CHR ''m'' \<in> set (swap_order ord) \<longleftrightarrow> CHR ''d'' \<in> set ord" "CHR ''d'' \<in> set (swap_order ord) \<longleftrightarrow> CHR ''m'' \<in> set ord"
proof -
  let ?f = "\<lambda>x y c. if c = x then y else c :: char"
  from assms have c: "CHR ''D'' \<notin> set ord" "CHR ''M'' \<notin> set ord" by auto
  define o1 where "o1 = map (?f (CHR ''m'') (CHR ''D'')) ord"
  define o2 where "o2 = map (?f (CHR ''d'') (CHR ''M'')) o1"
  define o3 where "o3 = map (?f (CHR ''D'') (CHR ''d'')) o2"
  have 1: "replace_once (CHR ''m'') (CHR ''D'') ord = o1 \<and> distinct o1" using replace_once_map [OF assms(2) c(1)] by (metis o1_def)
  have "CHR ''M'' \<notin> set o1" using c by (auto simp: o1_def)
  with 1 have 2: "replace_once (CHR ''d'') (CHR ''M'') o1 = o2 \<and> distinct o2" using replace_once_map [of o1] by (metis o2_def)
  have "CHR ''d'' \<notin> set o2" by (auto simp: o2_def split: if_splits)
  with 2 have 3: "replace_once (CHR ''D'') (CHR ''d'') o2 = o3 \<and> distinct o3" using replace_once_map [of o2] by (metis o3_def)
  have "CHR ''m'' \<notin> set o3" by (auto simp: o3_def o2_def o1_def split: if_splits)
  with 3 have 4: "replace_once (CHR ''M'') (CHR ''m'') o3 = map (?f (CHR ''M'') (CHR ''m'')) o3" using replace_once_map [of o3] by metis
  from 1 2 3 4 have "swap_order ord = map (?f (CHR ''M'') (CHR ''m'')) o3" by (simp add: swap_order_def)
  also have "\<dots> = map (\<lambda>c. if c = CHR ''m'' then CHR ''d'' else if c = CHR ''d'' then CHR ''m'' else c) ord"
    using c by (auto simp: o3_def o2_def o1_def)
  finally have "swap_order ord = map (\<lambda>c. if c = CHR ''m'' then CHR ''d'' else if c = CHR ''d'' then CHR ''m'' else c) ord" .
  with assms(1) show "set (swap_order ord) \<subseteq> set ''ymd''" "CHR ''y'' \<in> set (swap_order ord) \<longleftrightarrow> CHR ''y'' \<in> set ord"
    "CHR ''m'' \<in> set (swap_order ord) \<longleftrightarrow> CHR ''d'' \<in> set ord" "CHR ''d'' \<in> set (swap_order ord) \<longleftrightarrow> CHR ''m'' \<in> set ord"
    by (force split: if_splits)+
qed

definition date_ok :: "ParsedDate \<Rightarrow> bool" where
  "date_ok d \<longleftrightarrow> set (order d) \<subseteq> set ''ymd'' \<and>
     (nonempty (year d) \<noteq> None \<longrightarrow> CHR ''y'' \<in> set (order d)) \<and>
     (\<forall>n. month d = Some n \<longrightarrow> CHR ''m'' \<in> set (order d) \<and> - 1 \<le> n \<and> n \<le> 11) \<and>
     (\<forall>n. day d = Some n \<longrightarrow> CHR ''d'' \<in> set (order d) \<and> 0 \<le> n \<and> n \<le> 31)"

text \<open>Every part that stands beside a letter stands beside one that is there.\<close>

definition beside_ok :: "ParsedDate \<times> Part list \<Rightarrow> bool" where
  "beside_ok = (\<lambda>(d, parts). date_ok d \<and> (\<forall>p\<in>set parts. \<forall>b. before p = Some (Beside b) \<or> after p = Some (Beside b) \<longrightarrow> b \<in> set (order d)))"

lemma insertOrderPart_set:
  assumes "\<And>b. before w = Some (Beside b) \<or> after w = Some (Beside b) \<Longrightarrow> b \<in> set ord"
  shows "set (insertOrderPart ord p w) = insert p (set ord)"
proof -
  have split: "set (takeWhile P ord) \<union> set (dropWhile P ord) = set ord" for P
    by (metis set_append takeWhile_dropWhile_id)
  have put: "set (takeWhile P ord @ p # dropWhile P ord) = insert p (set ord)" for P
    using split [of P] unfolding set_append list.set by blast
  have put': "set (takeWhile (\<lambda>c. c \<noteq> a) ord @ a # p # tl (dropWhile (\<lambda>c. c \<noteq> a) ord)) = insert p (set ord)" if "a \<in> set ord" for a
  proof -
    from that have "dropWhile (\<lambda>c. c \<noteq> a) ord = a # tl (dropWhile (\<lambda>c. c \<noteq> a) ord)"
      by (induction ord) auto
    with split [of "\<lambda>c. c \<noteq> a"] have "set ord = set (takeWhile (\<lambda>c. c \<noteq> a) ord) \<union> set (a # tl (dropWhile (\<lambda>c. c \<noteq> a) ord))"
      by metis
    then show ?thesis unfolding set_append list.set by blast
  qed
  have snoc: "set (ord @ [p]) = insert p (set ord)" by simp
  show ?thesis
  proof (cases "before w")
    case None
    then show ?thesis
      using assms put' snoc by (cases "after w"; cases "the (after w)") (auto simp: insertOrderPart_def simp del: set_append)
  next
    case (Some b)
    then show ?thesis
      using assms put snoc by (cases b) (auto simp: insertOrderPart_def simp del: set_append)
  qed
qed

lemma assign_numbers_order:
  "let ns = assign_numbers locale m in
     set (n_order ns) \<subseteq> set ''ymd'' \<and> distinct (n_order ns) \<and>
     (CHR ''y'' \<in> set (n_order ns) \<or> nonempty (n_year ns) = None) \<and>
     (CHR ''m'' \<in> set (n_order ns) \<longleftrightarrow> nonempty (n_month ns) \<noteq> None) \<and>
     (CHR ''d'' \<in> set (n_order ns) \<longleftrightarrow> nonempty (n_day ns) \<noteq> None)"
  by (auto simp: assign_numbers_def letter_if_def nonempty_def Let_def)

lemma read_numbers_ok: "beside_ok (read_numbers current loc s m)"
proof -
  define ns where "ns = assign_numbers loc m"
  note a = assign_numbers_order [of loc m, folded ns_def, unfolded Let_def]
  define mo where "mo = map_option parse_digits (nonempty (n_month ns))"
  define d where "d = map_option parse_digits (nonempty (n_day ns))"
  define y where "y = map_option parse_digits (nonempty (n_year ns))"
  define swapped where "swapped = (case mo of None \<Rightarrow> False | Some k \<Rightarrow> 12 < k)"
  define ord where "ord = (if swapped then swap_order (n_order ns) else n_order ns)"
  have o: "set ord \<subseteq> set ''ymd''" "CHR ''y'' \<in> set ord \<or> y = None"
    "CHR ''m'' \<in> set ord \<longleftrightarrow> (if swapped then d else mo) \<noteq> None" "CHR ''d'' \<in> set ord \<longleftrightarrow> (if swapped then mo else d) \<noteq> None"
    using a swap_order_set [of "n_order ns"] by (auto simp: ord_def y_def mo_def d_def)
  have nn: "mo = Some n \<Longrightarrow> 0 \<le> n" "d = Some n \<Longrightarrow> 0 \<le> n" for n
    by (auto simp: mo_def d_def parse_digits_nonneg)
  have "date_ok \<lparr>order = ord, year = map_option f y, month = (if is_number mo' then Some (the mo' - 1) else None),
      day = (if is_number d' then d' else None), part_of = None\<rparr>"
    if "mo' = (if swapped then d else mo)" "d' = (if swapped then mo else d)"
      "(\<not> is_number mo' \<or> the mo' \<le> 12) \<and> (\<not> is_number d' \<or> the d' \<le> 31)" for f mo' d'
    using o nn that unfolding date_ok_def is_number_def nonempty_def
    by (cases "swapped"; cases mo; cases d) (auto split: if_splits)
  then show ?thesis
    unfolding read_numbers_def ns_def [symmetric] Let_def mo_def [symmetric] d_def [symmetric] y_def [symmetric]
      swapped_def [symmetric] ord_def [symmetric] beside_ok_def
    by (simp add: date_ok_def no_date_def nonempty_def del: show_number_not_Nil)
qed

lemma first_part_mem: "first_part f ps = Some (pre, p, a, post) \<Longrightarrow> ps = pre @ p # post \<and> f (part_text p) = Some a"
  by (induction ps arbitrary: pre) (auto split: option.splits)

lemma inserted:
  assumes "beside_ok (d, pre @ p # post)" "c \<in> set ''ymd''"
  shows "set (insertOrderPart (order d) c p) = insert c (set (order d))" "set (order d) \<subseteq> set ''ymd''"
  using assms insertOrderPart_set [of p "order d" c] by (auto simp: beside_ok_def date_ok_def)

lemma find_year_ok:
  assumes "beside_ok s"
  shows "beside_ok (find_year s)"
proof -
  obtain d parts where s: "s = (d, parts)" by (cases s)
  show ?thesis
  proof (cases "nonempty (year d) = None \<and> first_part (exec YEAR) parts \<noteq> None")
    case True
    then obtain pre p u m post where f: "first_part (exec YEAR) parts = Some (pre, p, (u, m), post)" by auto
    from first_part_mem [OF f] have parts: "parts = pre @ p # post" by simp
    show ?thesis
      using assms inserted [of d pre p post "CHR ''y''"] True
      unfolding s parts find_year_def prod.case f [unfolded parts] by (auto simp: beside_ok_def date_ok_def)
  next
    case False
    with assms show ?thesis by (cases "first_part (exec YEAR) parts") (auto simp: s find_year_def)
  qed
qed

lemma month_of_range: "- 1 \<le> month_of names t \<and> month_of names t \<le> 11"
proof (cases "find_index (\<lambda>n. n = t) names")
  case (Some i)
  have "i mod 12 < 12" by simp
  then have "i mod 12 \<le> 11" by simp
  with Some show ?thesis by (simp add: month_of_def)
qed (simp add: month_of_def)

lemma find_month_ok:
  assumes "beside_ok s"
  shows "beside_ok (find_month U fs loc s)"
proof -
  obtain d parts where s: "s = (d, parts)" by (cases s)
  let ?f = "exec (month_regex U (month_names U fs loc))"
  show ?thesis
  proof (cases "month d = None \<and> first_part ?f parts \<noteq> None")
    case True
    then obtain pre p u m post where f: "first_part ?f parts = Some (pre, p, (u, m), post)" by auto
    from first_part_mem [OF f] have parts: "parts = pre @ p # post" by simp
    show ?thesis
      using assms inserted [of d pre p post "CHR ''m''"] True month_of_range
      unfolding s parts find_month_def prod.case f [unfolded parts] Let_def by (auto simp: beside_ok_def date_ok_def)
  next
    case False
    with assms show ?thesis by (cases "first_part ?f parts") (auto simp: s find_month_def)
  qed
qed

lemma find_day_ok:
  assumes "beside_ok s"
  shows "beside_ok (find_day s)"
proof -
  obtain d parts where s: "s = (d, parts)" by (cases s)
  show ?thesis
  proof (cases "\<not> is_number (day d) \<and> first_part day_match parts \<noteq> None")
    case True
    then obtain pre p u m post where f: "first_part day_match parts = Some (pre, p, (u, m), post)" by auto
    from first_part_mem [OF f] have parts: "parts = pre @ p # post" and dm: "parse_digits (grp 1 m) \<le> 31"
      by (auto simp: day_match_def split: option.splits if_splits)
    show ?thesis
      using assms inserted [of d pre p post "CHR ''d''"] True dm parse_digits_nonneg
      unfolding s parts find_day_def prod.case f [unfolded parts] by (auto simp: beside_ok_def date_ok_def)
  next
    case False
    with assms show ?thesis by (cases "first_part day_match parts") (auto simp: s find_day_def)
  qed
qed

text \<open>Whatever was typed, in whatever locale: every letter of the order shown stands for a part that
  can be written, every part found has its letter in the order, a month is one of twelve (or \<open>-1\<close>,
  when the name matched only by a way of ignoring case that \<open>toLowerCase\<close> does not know), and
  a day is at most 31.\<close>

theorem parts_in_order:
  shows "let d = strToDate U fs current loc value in
    set (order d) \<subseteq> set ''ymd'' \<and>
    (nonempty (year d) \<noteq> None \<longrightarrow> CHR ''y'' \<in> set (order d)) \<and>
    (\<forall>n. month d = Some n \<longrightarrow> CHR ''m'' \<in> set (order d) \<and> - 1 \<le> n \<and> n \<le> 11) \<and>
    (\<forall>n. day d = Some n \<longrightarrow> CHR ''d'' \<in> set (order d) \<and> 0 \<le> n \<and> n \<le> 31)"
proof -
  have "beside_ok (no_date, [plain_part t])" for t by (simp add: beside_ok_def date_ok_def no_date_def nonempty_def)
  then have "beside_ok (begin_reading current loc t)" for t
    by (auto simp: begin_reading_def read_numbers_ok split: option.split)
  then have b: "beside_ok (find_day (find_month U fs loc (find_year (begin_reading current loc t))))" for t
    by (intro find_day_ok find_month_ok find_year_ok)
  define t where "t = trim_text (replace_all (Many1 (Cls white)) (\<lambda>_. [32]) value)"
  obtain d parts where dp: "find_day (find_month U fs loc (find_year (begin_reading current loc t))) = (d, parts)" by fastforce
  with b [of t] have "date_ok d" by (simp add: beside_ok_def)
  moreover have "date_ok no_date" by (simp add: date_ok_def no_date_def nonempty_def)
  ultimately have "date_ok (strToDate U fs current loc value)"
    unfolding strToDate_def t_def [symmetric] Let_def dp by (simp add: date_ok_def)
  then show ?thesis by (simp add: date_ok_def Let_def)
qed

section \<open>Dates of three numbers\<close>

abbreviation "separator c \<equiv> c \<in> {45, 47, 46 :: nat}"

definition digits :: "nat \<Rightarrow> nat \<Rightarrow> codes \<Rightarrow> bool" where
  "digits lo hi t \<longleftrightarrow> list_all numeral_digit t \<and> lo \<le> length t \<and> length t \<le> hi"

lemma digits_not_Nil: "digits lo hi t \<Longrightarrow> 0 < lo \<Longrightarrow> t \<noteq> []"
  by (auto simp: digits_def)

lemma separator_no_digit: "separator c \<Longrightarrow> \<not> numeral_digit c" "separator c \<Longrightarrow> \<not> white c"
  by (auto simp: numeral_digit_def white_def)

lemma firstly_digits:
  "digits 1 n u \<Longrightarrow> length u = n \<or> r = [] \<or> \<not> numeral_digit (hd r) \<Longrightarrow>
   firstly (Grp k (between 1 n Digit)) (b, u @ r, c) (rev u @ b, r, (k, u) # c)"
  unfolding Digit_def by (intro firstly_Grp firstly_between) (auto simp: digits_def)

lemma slash_way:
  assumes "digits 1 4 u" "digits 1 2 v" "digits 1 4 w" "separator s"
  shows "firstly SLASH ([], u @ s # v @ s # w, []) (rev w @ s # rev v @ s # rev u, [], [(7, []), (6, w), (5, [s]), (4, v), (3, [s]), (2, u), (1, [])])"
proof -
  have nd: "\<not> numeral_digit s" using assms(4) separator_no_digit by blast
  let ?r = "u @ s # v @ s # w"
  have u: "u \<noteq> []" "v \<noteq> []" "w \<noteq> []" using assms(1-3) by (auto simp: digits_def)
  have "numeral_digit (hd u)" using u(1) assms(1) by (cases u) (auto simp: digits_def)
  then have b1: "at_bound word_code ([], ?r, c)" for c
    using u(1) by (cases u) (auto simp: at_bound_def word_code_def)
  have "numeral_digit (last w)" using u(3) assms(3) by (auto simp: digits_def list_all_iff)
  then have b2: "at_bound word_code (rev w @ b, [], c)" for b c
    using u(3) by (cases w rule: rev_cases) (auto simp: at_bound_def word_code_def)
  have 1: "firstly (Grp 1 (Star False Dot)) ([], ?r, []) ([], ?r, [(1, [])])"
    using firstly_Grp [of "Star False Dot" "[]" "[]" ?r "[]" "[]" "[]" 1] by (simp add: firstly_here)
  have 2: "firstly (Grp 2 (between 1 4 Digit)) ([], ?r, c) (rev u, s # v @ s # w, (2, u) # c)" for c
    using firstly_digits [OF assms(1), of "s # v @ s # w" 2 "[]" c] nd by simp
  have sep: "firstly (Grp k (Cls P)) (b, s # r, c) (s # b, r, (k, [s]) # c)" if "P s" for k P b r c
    using firstly_Grp [of "Cls P" b "[s]" r c "s # b" c k] firstly_Cls [of P s b r c] that by simp
  have 3: "firstly (Opt (Seq (Grp 3 (Cls (\<lambda>c. c \<in> {45, 47, 46, year_sign}))) (Grp 4 (between 1 2 Digit))))
      (rev u, s # v @ s # w, c) (rev v @ s # rev u, s # w, (4, v) # (3, [s]) # c)" for c
    using assms(4) nd by (intro firstly_Alt1 firstly_Seq [OF sep firstly_digits [OF assms(2)]]) auto
  have 4: "firstly (Opt (Seq (Grp 5 (Cls (\<lambda>c. c \<in> {45, 47, 46, month_sign}))) (Grp 6 (between 1 4 Digit))))
      (rev v @ s # rev u, s # w, c) (rev w @ s # rev v @ s # rev u, [], (6, w) # (5, [s]) # c)" for c
    using assms(4) firstly_digits [OF assms(3), of "[]" 6] by (intro firstly_Alt1 firstly_Seq [OF sep]) auto
  have 5: "firstly (Grp 7 (Seq (Alt (Bound word_code) (Cls (\<lambda>c. \<not> numeral_digit c))) (Star False Dot)))
      (rev w @ b, [], c) (rev w @ b, [], (7, []) # c)" for b c
  proof -
    have "firstly (Seq (Alt (Bound word_code) (Cls (\<lambda>c. \<not> numeral_digit c))) (Star False Dot)) (rev w @ b, [], c) (rev w @ b, [], c)"
      by (rule firstly_Seq [OF firstly_Alt1 [OF firstly_here(5) [OF b2]] firstly_here(4)])
    with firstly_Grp [of _ _ "[]" "[]"] show ?thesis by fastforce
  qed
  show ?thesis
    unfolding SLASH_def seqs.simps
    by (rule firstly_Seq firstly_here(2) 1 firstly_here(5) b1 2 3 4 5 firstly_here(3))+
qed

lemma slash_exec:
  assumes "digits 1 4 u" "digits 1 2 v" "digits 1 4 w" "separator s"
  obtains b c where "exec SLASH (u @ s # v @ s # w) = Some ([], (b, [], c))"
    "map_of c 1 = Some []" "map_of c 2 = Some u" "map_of c 3 = Some [s]" "map_of c 4 = Some v" "map_of c 5 = Some [s]"
    "map_of c 6 = Some w" "map_of c 7 = Some []"
  using firstly_exec [OF slash_way [OF assms]] by (auto intro: that)

text \<open>Text without white space is read as it is; nothing is left of two empty parts.\<close>

lemma no_white: "list_all (\<lambda>c. \<not> white c) t \<Longrightarrow> trim_text (replace_all (Many1 (Cls white)) f t) = t"
proof -
  assume n: "list_all (\<lambda>c. \<not> white c) t"
  then have "dropWhile white t = t" "dropWhile white (rev t) = rev t"
    by (auto simp: list_all_iff dropWhile_eq_self_iff hd_rev)
  with n show ?thesis by (simp add: replace_all_def replace_none trim_text_def)
qed

lemma nothing_left: "left_over [\<lparr>part_text = [], before = x, after = y\<rparr>, plain_part []] = []"
proof -
  have j: "run (Grp 0 (Alt (Seq Start (Many1 (Cls (\<lambda>c. \<not> alphanumeric c)))) e)) ([], [32, 32], []) \<noteq> [] \<and>
    ahead (hd (run (Grp 0 (Alt (Seq Start (Many1 (Cls (\<lambda>c. \<not> alphanumeric c)))) e)) ([], [32, 32], []))) = []" for e :: "nat regex"
    by (simp add: run_Star ahead_def alphanumeric_def numeral_digit_def)
  let ?e = "Alt (Seq Start (Many1 (Cls (\<lambda>c. \<not> alphanumeric c)))) (Seq (Many1 (Cls (\<lambda>c. \<not> alphanumeric c))) End)"
  obtain p ps where p: "run (Grp 0 ?e) ([], [32, 32], []) = p # ps" using j by (metis list.exhaust)
  with j have "ahead p = []" by (metis list.sel(1))
  moreover have "run (Grp 0 ?e) (b, [], []) = []" if "b \<noteq> []" for b using that by simp
  moreover have "fst p \<noteq> []" using p run_lang [of p "Grp 0 ?e" "([], [32, 32], [])"] \<open>ahead p = []\<close> by (auto simp: ahead_def)
  ultimately show ?thesis
    unfolding left_over_def Let_def replace_all_def
    by (simp add: replace_from.simps [of _ _ "[]" "[32, 32]"] replace_from.simps [of _ _ _ "[]"] p del: run.simps)
qed

lemma full_year_long [simp]: "full_year current True y = y"
  by (simp add: full_year_def)

text \<open>A reading whose three numbers are all there is the date.\<close>

lemma read_complete:
  assumes "list_all (\<lambda>c. \<not> white c) t" "t \<noteq> []"
    "begin_reading current loc t = (d, [\<lparr>part_text = [], before = x, after = z\<rparr>, plain_part []])"
    "nonempty (year d) \<noteq> None" "month d \<noteq> None" "is_number (day d)"
  shows "strToDate U fs current loc t = d\<lparr>part_of := None\<rparr>"
  using assms
  by (simp add: strToDate_def no_white find_year_def find_month_def find_day_def nothing_left Let_def)

lemma slash_no_white:
  assumes "digits 1 4 u" "digits 1 2 v" "digits 1 4 w" "separator s"
  shows "list_all (\<lambda>c. \<not> white c) (u @ s # v @ s # w)"
proof -
  have "numeral_digit c \<Longrightarrow> \<not> white c" for c by (auto simp: numeral_digit_def white_def)
  with assms separator_no_digit(2) show ?thesis by (auto simp: digits_def list_all_iff)
qed

definition month_first :: "string \<Rightarrow> bool" where
  "month_first loc \<longleftrightarrow> (if drop 3 loc = '''' then ''US'' else drop 3 loc) \<in> MONTH_FIRST"

text \<open>Which of two numbers is the month: the one the country puts there, unless it is over twelve.\<close>

definition day_and_month :: "string \<Rightarrow> int \<Rightarrow> int \<Rightarrow> int \<times> int \<times> string" where
  "day_and_month loc a b =
     (if month_first loc then (if a \<le> 12 then (b, a, ''mdy'') else (a, b, ''dmy''))
      else (if b \<le> 12 then (a, b, ''dmy'') else (b, a, ''mdy'')))"

lemma slash_groups:
  assumes "digits 1 4 u" "digits 1 2 v" "digits 1 4 w" "separator s"
  obtains m where "begin_reading current loc (u @ s # v @ s # w) = read_numbers current loc (u @ s # v @ s # w) m"
    "group 1 m = Some []" "group 2 m = Some u" "group 3 m = Some [s]" "group 4 m = Some v" "group 5 m = Some [s]"
    "group 6 m = Some w" "group 7 m = Some []"
proof -
  from slash_exec [OF assms] obtain b c where e: "exec SLASH (u @ s # v @ s # w) = Some ([], (b, [], c))"
    and g: "map_of c 1 = Some []" "map_of c 2 = Some u" "map_of c 3 = Some [s]" "map_of c 4 = Some v" "map_of c 5 = Some [s]"
    "map_of c 6 = Some w" "map_of c 7 = Some []" by metis
  from assms(1-3) have "u \<noteq> []" "v \<noteq> []" "w \<noteq> []" by (auto simp: digits_def)
  then have "is_slash_date (b, [], c)" using g by (simp add: is_slash_date_def grp_def group_def)
  with e g show ?thesis by (intro that [of "(b, [], c)"]) (simp_all add: begin_reading_def group_def)
qed

lemma numbers_in_range:
  assumes "assign_numbers loc m = \<lparr>n_order = ord, n_year = Some y, n_month = Some a, n_day = Some b\<rparr>"
    "group 1 m = Some []" "group 7 m = Some []" "length y = 4" "a \<noteq> []" "b \<noteq> []"
    "1 \<le> parse_digits (if parse_digits a \<le> 12 then a else b)" "parse_digits (if parse_digits a \<le> 12 then a else b) \<le> 12"
    "1 \<le> parse_digits (if parse_digits a \<le> 12 then b else a)" "parse_digits (if parse_digits a \<le> 12 then b else a) \<le> 31"
  shows "read_numbers current loc t m =
    (\<lparr>order = (if parse_digits a \<le> 12 then ord else swap_order ord), year = Some (show_number (parse_digits y)),
      month = Some (parse_digits (if parse_digits a \<le> 12 then a else b) - 1),
      day = Some (parse_digits (if parse_digits a \<le> 12 then b else a)), part_of = None\<rparr>,
     [\<lparr>part_text = [], before = Some Everything, after = None\<rparr>, plain_part []])"
  using assms by (cases "parse_digits a \<le> 12") (auto simp: read_numbers_def nonempty_def is_number_def grp_def Let_def)

text \<open>Three numbers between dashes, strokes or dots are read as they are cited: with a year of four
  digits in front as year, month and day, whatever the language; with the year last in the order
  of the country of the language, except that a number over twelve where a month is expected is
  the day.  Nothing is left over, no name of a month is looked up, and the year is not moved to
  another century.\<close>

theorem written_dates:
  assumes "digits 4 4 y" "digits 1 2 a" "digits 1 2 b" "separator s"
  shows "(1 \<le> parse_digits a \<and> parse_digits a \<le> 12 \<and> 1 \<le> parse_digits b \<and> parse_digits b \<le> 31 \<longrightarrow>
      strToDate U fs current loc (y @ s # a @ s # b) =
        \<lparr>order = ''ymd'', year = Some (show_number (parse_digits y)), month = Some (parse_digits a - 1),
         day = Some (parse_digits b), part_of = None\<rparr>) \<and>
    (case day_and_month loc (parse_digits a) (parse_digits b) of (d, m, ord) \<Rightarrow>
      1 \<le> d \<and> d \<le> 31 \<and> 1 \<le> m \<and> m \<le> 12 \<longrightarrow>
      strToDate U fs current loc (a @ s # b @ s # y) =
        \<lparr>order = ord, year = Some (show_number (parse_digits y)), month = Some (m - 1), day = Some d, part_of = None\<rparr>)"
proof -
  have s: "s \<noteq> year_sign" using assms(4) by (auto simp: year_sign_def)
  have ly: "length y = 4" and ne: "y \<noteq> []" "a \<noteq> []" "b \<noteq> []" using assms(1-3) by (auto simp: digits_def)
  have la: "length a \<noteq> 3 \<and> length a \<noteq> 4" using assms(2) by (auto simp: digits_def)
  have d: "digits 1 4 y" "digits 1 4 a" "digits 1 4 b" using assms(1-3) by (auto simp: digits_def)
  have iso: "strToDate U fs current loc (y @ s # a @ s # b) = \<lparr>order = ''ymd'', year = Some (show_number (parse_digits y)),
      month = Some (parse_digits a - 1), day = Some (parse_digits b), part_of = None\<rparr>"
    if r: "1 \<le> parse_digits a" "parse_digits a \<le> 12" "1 \<le> parse_digits b" "parse_digits b \<le> 31"
  proof -
    obtain m where m: "begin_reading current loc (y @ s # a @ s # b) = read_numbers current loc (y @ s # a @ s # b) m"
      "group 1 m = Some []" "group 2 m = Some y" "group 3 m = Some [s]" "group 4 m = Some a" "group 6 m = Some b" "group 7 m = Some []"
      using slash_groups [OF d(1) assms(2) d(3) assms(4)] by metis
    have "assign_numbers loc m = \<lparr>n_order = ''ymd'', n_year = Some y, n_month = Some a, n_day = Some b\<rparr>"
      using m ly ne by (simp add: assign_numbers_def grp_def letter_if_def nonempty_def Let_def)
    note n = numbers_in_range [OF this m(2,7) ly ne(2,3)]
    have "begin_reading current loc (y @ s # a @ s # b) = (\<lparr>order = ''ymd'', year = Some (show_number (parse_digits y)),
        month = Some (parse_digits a - 1), day = Some (parse_digits b), part_of = None\<rparr>,
        [\<lparr>part_text = [], before = Some Everything, after = None\<rparr>, plain_part []])"
      using m(1) n r by simp
    from read_complete [OF slash_no_white [OF d(1) assms(2) d(3) assms(4)] _ this] r(3) show ?thesis
      by (simp add: nonempty_def is_number_def)
  qed
  have written: "strToDate U fs current loc (a @ s # b @ s # y) =
        \<lparr>order = ord, year = Some (show_number (parse_digits y)), month = Some (k - 1), day = Some dd, part_of = None\<rparr>"
    if c: "day_and_month loc (parse_digits a) (parse_digits b) = (dd, k, ord)"
      and r: "1 \<le> dd" "dd \<le> 31" "1 \<le> k" "k \<le> 12" for dd k ord
  proof -
    obtain m where m: "begin_reading current loc (a @ s # b @ s # y) = read_numbers current loc (a @ s # b @ s # y) m"
      "group 1 m = Some []" "group 2 m = Some a" "group 3 m = Some [s]" "group 4 m = Some b" "group 6 m = Some y" "group 7 m = Some []"
      using slash_groups [OF d(2) assms(3) d(1) assms(4)] by metis
    let ?mo = "if month_first loc then a else b" let ?da = "if month_first loc then b else a"
    have "assign_numbers loc m = \<lparr>n_order = (if month_first loc then ''mdy'' else ''dmy''), n_year = Some y, n_month = Some ?mo, n_day = Some ?da\<rparr>"
      using m la ne s by (simp add: assign_numbers_def grp_def letter_if_def nonempty_def month_first_def Let_def)
    note n = numbers_in_range [OF this m(2,7) ly, of current "a @ s # b @ s # y"]
    have sw: "swap_order ''mdy'' = ''dmy''" "swap_order ''dmy'' = ''mdy''" by (simp_all add: swap_order_def)
    have "begin_reading current loc (a @ s # b @ s # y) = (\<lparr>order = ord, year = Some (show_number (parse_digits y)),
        month = Some (k - 1), day = Some dd, part_of = None\<rparr>,
        [\<lparr>part_text = [], before = Some Everything, after = None\<rparr>, plain_part []])"
      using c r n ne m(1) by (auto simp: day_and_month_def sw split: if_splits)
    from read_complete [OF slash_no_white [OF d(2) assms(3) d(1) assms(4)] _ this] r(1) show ?thesis
      by (simp add: nonempty_def is_number_def)
  qed
  show ?thesis using iso written by (auto split: prod.splits)
qed

theorem written_dates_witness:
  "\<forall>U fs. dateOrder U fs 2026 ''de-DE'' (ascii ''26.10.2026'') = ''d m y'' \<and> dateOrder U fs 2026 ''en-US'' (ascii ''2026-10-26'') = ''y m d''"
  using written_dates [of "ascii ''2026''" "ascii ''26''" "ascii ''10''" 46 _ _ 2026 "''de-DE''"]
    written_dates [of "ascii ''2026''" "ascii ''10''" "ascii ''26''" 45 _ _ 2026 "''en-US''"]
  by (simp add: dateOrder_def ascii_def digits_def numeral_digit_def parse_digits_def day_and_month_def month_first_def MONTH_FIRST_def)

theorem parts_in_order_witness:
  "\<forall>U fs. set (order (strToDate U fs 2026 ''en-US'' (ascii ''May 2001''))) \<subseteq> set ''ymd''"
  using parts_in_order [of _ _ 2026 "''en-US''" "ascii ''May 2001''"] by (simp add: Let_def)

end
