(* ===== verification/Items.thy ===== *)
theory Items
  imports Regex LibraryData
begin

text \<open>
  How items are named and ordered: the names of types and fields that the server's schema gives
  (items/labels.ts), the title of an item and the preview of a note (items/titles.ts), the order of
  tags (items/tags.ts), the choices of a merge (items/merging.ts), the name of a library
  (librarylabel.ts) and the icons (icons.ts, items/icons.ts, items/sidebaricons.ts).  The browser's
  parser of HTML and SVG, the reading of dates and the comparing of two words in a language
  (\<open>localeCompare\<close>) are arguments, and so is whether a text shows an emoji.
\<close>

section \<open>Names from the schema\<close>

subsection \<open>Words of a camel case name\<close>

definition lower_or_digit :: "char \<Rightarrow> bool" where
  "lower_or_digit c \<longleftrightarrow> digit c \<or> (let n = (of_char c :: nat) in 97 \<le> n \<and> n \<le> 122)"

definition capital :: "char \<Rightarrow> bool" where
  "capital c \<longleftrightarrow> (let n = (of_char c :: nat) in 65 \<le> n \<and> n \<le> 90)"

definition small :: "char \<Rightarrow> bool" where
  "small c \<longleftrightarrow> (let n = (of_char c :: nat) in 97 \<le> n \<and> n \<le> 122)"

definition text_group :: "nat \<Rightarrow> char place \<Rightarrow> string" where
  "text_group n p = (case group n p of Some t \<Rightarrow> t | None \<Rightarrow> '''')"

text \<open>The replacement \<open>$1 $2\<close>.\<close>

definition spaced :: "char place \<Rightarrow> string" where
  "spaced p = text_group 1 p @ '' '' @ text_group 2 p"

definition humanize :: "string \<Rightarrow> string" where
  "humanize name =
     (let a = replace_all (Seq (Grp 1 (Cls lower_or_digit)) (Grp 2 (Cls capital))) spaced name;
          b = replace_all (Seq (Grp 1 (Many1 (Cls capital))) (Grp 2 (Seq (Cls capital) (Cls small)))) spaced a;
          words = trim b
      in case words of [] \<Rightarrow> [] | c # cs \<Rightarrow> upper_char c # cs)"

subsection \<open>The names in hand\<close>

record TypeOutline =
  outline_fields :: "string list"
  outline_creators :: "string list"

text \<open>Objects of the schema are tables; a name every JavaScript object inherits is not in them.\<close>

record DisplayNames =
  itemTypes :: "(string \<times> string) list"
  fieldNames :: "(string \<times> string) list"
  creatorTypes :: "(string \<times> string) list"
  mappings :: "(string \<times> (string \<times> string) list) list"
  types :: "(string \<times> TypeOutline) list"

definition no_names :: DisplayNames where
  "no_names = \<lparr>itemTypes = [], fieldNames = [], creatorTypes = [], mappings = [], types = []\<rparr>"

text \<open>The module: the names shown, the language they were asked for, the request that counts, and the
  requests sent so far, each with the language it asks for.\<close>

record labels =
  names :: DisplayNames
  wanted :: "string option"
  pending :: "nat option"
  sent :: "string list"

definition fresh_labels :: labels where
  "fresh_labels = \<lparr>names = no_names, wanted = None, pending = None, sent = []\<rparr>"

definition loadLabels :: "string option \<Rightarrow> labels \<Rightarrow> labels" where
  "loadLabels locale s =
     (let asked = (case locale of None \<Rightarrow> '''' | Some l \<Rightarrow> l) in
      if pending s \<noteq> None \<and> wanted s = Some asked then s
      else s\<lparr>wanted := Some asked, pending := Some (length (sent s)), sent := sent s @ [asked]\<rparr>)"

text \<open>A part the answer leaves out is empty.\<close>

record schema_answer =
  a_itemTypes :: "(string \<times> string) list option"
  a_fields :: "(string \<times> string) list option"
  a_creatorTypes :: "(string \<times> string) list option"
  a_mappings :: "(string \<times> (string \<times> string) list) list option"
  a_types :: "(string \<times> TypeOutline) list option"

definition or_empty :: "'a list option \<Rightarrow> 'a list" where
  "or_empty v = (case v of None \<Rightarrow> [] | Some x \<Rightarrow> x)"

definition names_of :: "schema_answer \<Rightarrow> DisplayNames" where
  "names_of a = \<lparr>itemTypes = or_empty (a_itemTypes a), fieldNames = or_empty (a_fields a),
     creatorTypes = or_empty (a_creatorTypes a), mappings = or_empty (a_mappings a), types = or_empty (a_types a)\<rparr>"

definition labels_answered :: "nat \<Rightarrow> schema_answer option \<Rightarrow> labels \<Rightarrow> labels" where
  "labels_answered i answer s =
     (if pending s \<noteq> Some i then s
      else case answer of
        Some a \<Rightarrow> s\<lparr>names := names_of a\<rparr>
      | None \<Rightarrow> s\<lparr>pending := None, wanted := None\<rparr>)"

definition resetLabels :: "labels \<Rightarrow> labels" where
  "resetLabels s = s\<lparr>names := no_names, pending := None, wanted := None\<rparr>"

definition fieldLabel :: "labels \<Rightarrow> string \<Rightarrow> string" where
  "fieldLabel s name = (case map_of (fieldNames (names s)) name of Some l \<Rightarrow> l
     | None \<Rightarrow> (case map_of (creatorTypes (names s)) name of Some l \<Rightarrow> l | None \<Rightarrow> humanize name))"

definition itemTypeLabel :: "labels \<Rightarrow> string \<Rightarrow> string" where
  "itemTypeLabel s name = (case map_of (itemTypes (names s)) name of Some l \<Rightarrow> l | None \<Rightarrow> humanize name)"

definition typeOutline :: "labels \<Rightarrow> string \<Rightarrow> TypeOutline option" where
  "typeOutline s itemType = map_of (types (names s)) itemType"

definition regularItemTypes :: "labels \<Rightarrow> string list" where
  "regularItemTypes s = map fst (types (names s))"

definition base_field :: "labels \<Rightarrow> string \<Rightarrow> string \<Rightarrow> string" where
  "base_field s itemType property =
     (case map_of (mappings (names s)) itemType of
        None \<Rightarrow> property
      | Some m \<Rightarrow> (case map_of m property of None \<Rightarrow> property | Some f \<Rightarrow> f))"

definition getBaseMappedValue :: "labels \<Rightarrow> object \<Rightarrow> string \<Rightarrow> json option" where
  "getBaseMappedValue s d property =
     get_prop d (base_field s (case get_prop d ''itemType'' of Some (JStr t) \<Rightarrow> t | _ \<Rightarrow> '''') property)"

definition titleField :: "labels \<Rightarrow> string \<Rightarrow> string" where
  "titleField s itemType = base_field s itemType ''title''"

section \<open>Titles\<close>

text \<open>\<open>/(<\/(h\d|p|div)+>)/g\<close> and \<open>/<br\s*\/?>/g\<close>.\<close>

definition BLOCK_END :: "char regex" where
  "BLOCK_END = Grp 1 (seqs [Word ''</'', Many1 (Grp 2 (alts [Seq (Lit (CHR ''h'')) (Cls digit), Word ''p'', Word ''div''])), Word ''>''])"

definition LINE_BREAK :: "char regex" where
  "LINE_BREAK = seqs [Word ''<br'', Many (Cls is_space), Opt (Lit (CHR ''/'')), Lit (CHR ''>'')]"

text \<open>\<open>/^<[^>\n]+[^/]>\n/\<close>\<close>

definition OPENING_LINE :: "char regex" where
  "OPENING_LINE = seqs [Start, Lit (CHR ''<''), Many1 (Cls (\<lambda>c. c \<noteq> CHR ''>'' \<and> c \<noteq> CHR 0x0A)),
     Cls (\<lambda>c. c \<noteq> CHR ''/''), Lit (CHR ''>''), Lit (CHR 0x0A)]"

definition SPACES :: "char regex" where
  "SPACES = seqs [Lit (CHR '' ''), Many1 (Lit (CHR '' ''))]"

definition unescapeHTML :: "(string \<Rightarrow> string option) \<Rightarrow> string \<Rightarrow> string" where
  "unescapeHTML textContent html =
     (if CHR ''<'' \<notin> set html \<and> CHR ''&'' \<notin> set html then html
      else replace_all SPACES (\<lambda>_. '' '') (case textContent html of Some t \<Rightarrow> t | None \<Rightarrow> ''''))"

definition MAX_TITLE_LENGTH :: nat where
  "MAX_TITLE_LENGTH = 120"

definition noteToTitle :: "(string \<Rightarrow> string option) \<Rightarrow> string \<Rightarrow> bool \<Rightarrow> string" where
  "noteToTitle textContent html stopAtLineBreak =
     (let t1 = trim html;
          t2 = replace_all BLOCK_END (\<lambda>p. text_group 1 p @ [CHR 0x0A]) t1;
          t3 = replace_all LINE_BREAK (\<lambda>_. if stopAtLineBreak then [CHR 0x0A] else '' '') t2;
          t4 = unescapeHTML textContent t3;
          t5 = (if test OPENING_LINE html then trim t4 else t4);
          title = take MAX_TITLE_LENGTH t5
      in case find_index (\<lambda>c. c = CHR 0x0A) title of
           Some ln \<Rightarrow> if ln < MAX_TITLE_LENGTH then take ln title else title
         | None \<Rightarrow> title)"

text \<open>The titles of notes kept by the identity of an item's data.\<close>

type_synonym title_cache = "nat \<Rightarrow> (string \<times> string) option"

definition getItemTitle :: "(string \<Rightarrow> string option) \<Rightarrow> labels \<Rightarrow> nat \<Rightarrow> object \<Rightarrow> title_cache \<Rightarrow> title_cache \<times> string" where
  "getItemTitle textContent s ident d cache =
     (if get_prop d ''itemType'' = Some (JStr ''note'') then
        (let source = (case get_prop d ''note'' of Some (JStr t) \<Rightarrow> t | _ \<Rightarrow> '''');
             fresh = (source, noteToTitle textContent source False)
         in case cache ident of
              None \<Rightarrow> (cache(ident \<mapsto> fresh), snd fresh)
            | Some old \<Rightarrow> if fst old \<noteq> source then (cache(ident \<mapsto> fresh), snd fresh) else (cache, snd old))
      else (cache, case getBaseMappedValue s d ''title'' of Some (JStr t) \<Rightarrow> t | _ \<Rightarrow> ''''))"

section \<open>Tags\<close>

record TagColor =
  tag_name :: string
  tag_color :: string

definition colorIndex :: "TagColor list \<Rightarrow> (string \<times> string \<times> nat) list" where
  "colorIndex colors = map_from (map (\<lambda>(position, entry). (tag_name entry, tag_color entry, position)) (enumerate 0 colors))"

definition compareTags :: "(string \<Rightarrow> bool) \<Rightarrow> (string \<Rightarrow> string \<Rightarrow> int) \<Rightarrow> (string \<times> string \<times> nat) list \<Rightarrow> string \<Rightarrow> string \<Rightarrow> int" where
  "compareTags containsEmoji localeCompare colors a b =
     (case (map_of colors a, map_of colors b) of
        (Some _, None) \<Rightarrow> - 1
      | (None, Some _) \<Rightarrow> 1
      | (Some (_, i), Some (_, j)) \<Rightarrow> int i - int j
      | (None, None) \<Rightarrow>
          if containsEmoji a \<noteq> containsEmoji b then (if containsEmoji a then - 1 else 1)
          else localeCompare a b)"

section \<open>Merging\<close>

text \<open>The desktop starts with the oldest item; a date that cannot be read counts as the first.\<close>

definition item_date :: "(string \<Rightarrow> int option) \<Rightarrow> ItemEnvelope \<Rightarrow> int" where
  "item_date parse item = (case parse (case get_prop (data item) ''dateAdded'' of Some (JStr t) \<Rightarrow> t | _ \<Rightarrow> '''') of
     Some d \<Rightarrow> d | None \<Rightarrow> 0)"

definition oldestFirst :: "(string \<Rightarrow> int option) \<Rightarrow> (string \<Rightarrow> string \<Rightarrow> int) \<Rightarrow> ItemEnvelope list \<Rightarrow> ItemEnvelope list" where
  "oldestFirst parse localeCompare items = sort_by (\<lambda>a b.
     if item_date parse a - item_date parse b \<noteq> 0 then item_date parse a - item_date parse b
     else localeCompare (itemKey a) (itemKey b)) items"

text \<open>A creator as the merge compares it: one name or two, without what else it may carry.  An
  attribute that is undefined is left out of the JSON.\<close>

definition merge_creator :: "json \<Rightarrow> json" where
  "merge_creator c = (case c of JObj o' \<Rightarrow>
       JObj (prop_json ''creatorType'' id (get_prop o' ''creatorType'') @
         (case get_prop o' ''name'' of
            Some n \<Rightarrow> [(''name'', n)]
          | None \<Rightarrow> [(''firstName'', or_else (get_prop o' ''firstName'') (JStr '''')),
                    (''lastName'', or_else (get_prop o' ''lastName'') (JStr ''''))]))
     | _ \<Rightarrow> JObj [(''firstName'', JStr ''''), (''lastName'', JStr '''')])"

definition mergeValue :: "(json \<Rightarrow> string) \<Rightarrow> ItemEnvelope \<Rightarrow> string \<Rightarrow> json" where
  "mergeValue String item name =
     (if name \<noteq> ''creators'' then JStr (String (or_else (get_prop (data item) name) (JStr '''')))
      else JArr (map merge_creator (case or_else (get_prop (data item) ''creators'') (JArr []) of JArr cs \<Rightarrow> cs | _ \<Rightarrow> [])))"

definition distinct_values :: "json list \<Rightarrow> json list" where
  "distinct_values vs = map snd (map_from (map (\<lambda>v. (stringify v, v)) vs))"

definition mergeFields :: "(json \<Rightarrow> string) \<Rightarrow> ItemEnvelope list \<Rightarrow> TypeOutline \<Rightarrow> (string \<times> json list) list" where
  "mergeFields String items outline =
     concat (map (\<lambda>name. let vs = distinct_values (map (\<lambda>item. mergeValue String item name) items) in
         if 1 < length vs then [(name, vs)] else [])
       (filter (\<lambda>n. n \<noteq> ''accessDate'') (outline_fields outline) @ [''creators'']))"

section \<open>Names of libraries and icons\<close>

definition libraryLabel :: "(string \<Rightarrow> (string \<times> int) list \<Rightarrow> string) \<Rightarrow> string \<Rightarrow> string \<Rightarrow> int \<Rightarrow> string" where
  "libraryLabel t type name ownerId =
     (if type = ''user'' then t ''My Library'' [] else if name \<noteq> '''' then name else t ''Group {id}'' [(''id'', ownerId)])"

record SvgIcon =
  attributes :: "(string \<times> string) list"
  markup :: string
  label :: string

text \<open>A parsed file: the name of its root, whether the parser reported an error, its title, its
  attributes, and its markup without the title.\<close>

record svg_file =
  localName :: string
  parsererror :: bool
  svg_title :: "string option"
  svg_attributes :: "(string \<times> string) list"
  untitled :: string

definition icon_name :: "string \<Rightarrow> string" where
  "icon_name path =
     (let base = rev (takeWhile (\<lambda>c. c \<noteq> CHR ''/'') (rev path)) in
      if drop (length base - 4) base = ''.svg'' then take (length base - 4) base else base)"

definition load_icon :: "svg_file \<Rightarrow> SvgIcon option" where
  "load_icon f =
     (if localName f \<noteq> ''svg'' \<or> parsererror f then None
      else Some \<lparr>attributes = filter (\<lambda>(n, _). n \<notin> {''xmlns'', ''width'', ''height''}) (svg_attributes f),
        markup = untitled f, label = (case svg_title f of Some t \<Rightarrow> t | None \<Rightarrow> '''')\<rparr>)"

fun loadIcons :: "(string \<Rightarrow> svg_file) \<Rightarrow> (string \<times> string) list \<Rightarrow> string + (string \<times> SvgIcon) list" where
  "loadIcons parse [] = Inr []"
| "loadIcons parse ((path, source) # files) = (case load_icon (parse source) of
     None \<Rightarrow> Inl (''Invalid icon SVG: '' @ path)
   | Some icon \<Rightarrow> (case loadIcons parse files of Inl e \<Rightarrow> Inl e
       | Inr icons \<Rightarrow> Inr (map_from ((icon_name path, icon) # icons))))"

definition iconFor :: "(string \<times> SvgIcon) list \<Rightarrow> string \<Rightarrow> string \<Rightarrow> SvgIcon option" where
  "iconFor icons fallback itemType = (case map_of icons itemType of Some i \<Rightarrow> Some i | None \<Rightarrow> map_of icons fallback)"

section \<open>The names shown\<close>

datatype label_event = Load "string option" | Answered nat "schema_answer option" | Reset

fun label_step :: "label_event \<Rightarrow> labels \<Rightarrow> labels" where
  "label_step (Load l) s = loadLabels l s"
| "label_step (Answered i a) s = (if i < length (sent s) then labels_answered i a s else s)"
| "label_step Reset s = resetLabels s"

inductive labels_reachable :: "labels \<Rightarrow> bool" where
  "labels_reachable fresh_labels"
| "labels_reachable s \<Longrightarrow> labels_reachable (label_step e s)"

definition newest_counts :: "labels \<Rightarrow> bool" where
  "newest_counts s \<longleftrightarrow> (\<forall>i. pending s = Some i \<longrightarrow> Suc i = length (sent s) \<and> wanted s = Some (sent s ! i)) \<and> (pending s = None \<longleftrightarrow> wanted s = None)"

lemma newest_counts_step: "newest_counts s \<Longrightarrow> newest_counts (label_step e s)"
  by (cases e) (auto simp: newest_counts_def loadLabels_def labels_answered_def resetLabels_def Let_def nth_append split: option.splits)

lemma newest_counts_reachable: "labels_reachable s \<Longrightarrow> newest_counts s"
  by (induction rule: labels_reachable.induct) (auto simp: newest_counts_step, simp add: newest_counts_def fresh_labels_def)

text \<open>However requests for the names of a language are made and answered: the answer to any but the
  latest request changes nothing; the latest one asks for the language asked for last, which is not
  asked for again while its answer is out or in; a failure leaves the names and lets the language be
  asked for again; and an answer shows just its names, a part it leaves out being empty.\<close>

theorem names_of_the_last_language:
  assumes "labels_reachable s"
  shows "(Suc i \<noteq> length (sent s) \<longrightarrow> labels_answered i answer s = s) \<and>
    (\<forall>l. wanted s = Some l \<longrightarrow> l = last (sent s) \<and> loadLabels (Some l) s = s) \<and>
    (\<forall>l. wanted s \<noteq> Some l \<longrightarrow> last (sent (loadLabels (Some l) s)) = l \<and>
      (let t = loadLabels (Some l) s in
        names (labels_answered (length (sent s)) (Some a) t) = names_of a \<and>
        labels_answered (length (sent s)) None t = t\<lparr>pending := None, wanted := None\<rparr> \<and> names t = names s))"
proof -
  have i: "newest_counts s" by (rule newest_counts_reachable [OF assms])
  then have "wanted s = Some l \<Longrightarrow> l = last (sent s) \<and> pending s \<noteq> None" for l
    by (cases "pending s"; cases "sent s" rule: rev_cases) (auto simp: newest_counts_def nth_append)
  with i show ?thesis
    by (auto simp: newest_counts_def labels_answered_def loadLabels_def Let_def)
qed

theorem names_of_the_last_language_witness:
  "\<forall>a b. (let s = label_step (Load (Some ''de'')) (label_step (Load (Some ''en'')) fresh_labels) in
     labels_answered 0 a s = s \<and> names (labels_answered 1 (Some b) s) = names_of b)"
proof -
  let ?s = "label_step (Load (Some ''en'')) fresh_labels"
  have r: "labels_reachable ?s" "labels_reachable (label_step (Load (Some ''de'')) ?s)" by (intro labels_reachable.intros)+
  have e: "sent ?s = [''en'']" "wanted ?s = Some ''en''" "sent (label_step (Load (Some ''de'')) ?s) = [''en'', ''de'']"
    by (simp_all add: loadLabels_def fresh_labels_def Let_def)
  show ?thesis
    using names_of_the_last_language [OF r(2), of 0] names_of_the_last_language [OF r(1)] e
    by (auto simp: Let_def)
qed

section \<open>Words\<close>

lemma spaced_words:
  assumes "p \<in> set (run (Grp 0 (Seq (Grp 1 e) (Grp 2 f))) (b, r, []))" "1 \<notin> captures f"
  shows "filter (\<lambda>c. \<not> is_space c) (spaced p) @ filter (\<lambda>c. \<not> is_space c) (ahead p) = filter (\<lambda>c. \<not> is_space c) r"
proof -
  from assms(1) obtain q where q: "q \<in> set (run (Seq (Grp 1 e) (Grp 2 f)) (b, r, []))"
    and p: "ahead p = ahead q" "group 1 p = group 1 q" "group 2 p = group 2 q"
    unfolding run.simps(6) [of 0] by (auto simp: ahead_def group_def simp del: run.simps)
  from q obtain m where m: "m \<in> set (run (Grp 1 e) (b, r, []))" "q \<in> set (run (Grp 2 f) m)"
    unfolding run.simps(3) by (auto split: if_splits simp del: run.simps)
  from run_Grp [OF m(1)] obtain u where u: "r = u @ ahead m" "group 1 m = Some u" by (auto simp: ahead_def)
  from run_Grp [OF m(2)] obtain v where v: "ahead m = v @ ahead q" "group 2 q = Some v" by blast
  have "group 1 q = Some u" using run_other_groups [OF m(2)] assms(2) u(2) by simp
  with u v p show ?thesis by (simp add: spaced_def text_group_def is_space_def)
qed

lemma upper_space: "is_space (upper_char c) \<longleftrightarrow> is_space c"
proof (cases "let n = (of_char c :: nat) in (97 \<le> n \<and> n \<le> 122) \<or> (224 \<le> n \<and> n \<le> 254 \<and> n \<noteq> 247)")
  case True
  then have "of_char (upper_char c) = (of_char c - 32 :: nat)" by (auto simp: upper_char_def Let_def)
  with True show ?thesis by (auto simp: is_space_def Let_def)
next
  case False
  then have "upper_char c = c" unfolding upper_char_def Let_def by presburger
  then show ?thesis by simp
qed

text \<open>Humanizing a name only parts its words: without the spaces it is the name as it was, with the
  first letter a capital.\<close>

lemma humanize_words:
  "filter (\<lambda>c. \<not> is_space c) (humanize name) = (case filter (\<lambda>c. \<not> is_space c) name of [] \<Rightarrow> [] | c # cs \<Rightarrow> upper_char c # cs)"
proof -
  let ?ns = "\<lambda>c. \<not> is_space c"
  have "filter ?ns (replace_all (Seq (Grp 1 (Cls lower_or_digit)) (Grp 2 (Cls capital))) spaced t) = filter ?ns t" for t
    unfolding replace_all_def by (rule replace_from_keeps, erule spaced_words, simp)
  moreover have "filter ?ns (replace_all (Seq (Grp 1 (Many1 (Cls capital))) (Grp 2 (Seq (Cls capital) (Cls small)))) spaced t) = filter ?ns t" for t
    unfolding replace_all_def by (rule replace_from_keeps, erule spaced_words, simp)
  moreover define t where "t = trim (replace_all (Seq (Grp 1 (Many1 (Cls capital))) (Grp 2 (Seq (Cls capital) (Cls small)))) spaced
      (replace_all (Seq (Grp 1 (Cls lower_or_digit)) (Grp 2 (Cls capital))) spaced name))"
  ultimately have f: "filter ?ns name = filter ?ns t" by (simp add: filter_trim)
  have h: "humanize name = (case t of [] \<Rightarrow> [] | c # cs \<Rightarrow> upper_char c # cs)" by (simp add: humanize_def t_def)
  show ?thesis
  proof (cases t)
    case (Cons c cs)
    then have "\<not> is_space c" unfolding t_def by (rule hd_trim)
    then show ?thesis unfolding f h Cons by (simp add: upper_space)
  qed (simp add: f h)
qed

text \<open>A title is at most 120 characters of one line, and keeping titles of notes by the identity of the
  data gives what making them anew gives.\<close>

lemma noteToTitle_line: "length (noteToTitle tc html b) \<le> 120 \<and> CHR 0x0A \<notin> set (noteToTitle tc html b)"
proof -
  define t where "t = (if test OPENING_LINE html then trim (unescapeHTML tc (replace_all LINE_BREAK (\<lambda>_. if b then [CHR 0x0A] else '' '')
      (replace_all BLOCK_END (\<lambda>p. text_group 1 p @ [CHR 0x0A]) (trim html))))
    else unescapeHTML tc (replace_all LINE_BREAK (\<lambda>_. if b then [CHR 0x0A] else '' '')
      (replace_all BLOCK_END (\<lambda>p. text_group 1 p @ [CHR 0x0A]) (trim html))))"
  have n: "noteToTitle tc html b = (case find_index (\<lambda>c. c = CHR 0x0A) (take 120 t) of
      Some ln \<Rightarrow> if ln < 120 then take ln (take 120 t) else take 120 t | None \<Rightarrow> take 120 t)"
    unfolding noteToTitle_def Let_def MAX_TITLE_LENGTH_def t_def ..
  show ?thesis
  proof (cases "find_index (\<lambda>c. c = CHR 0x0A) (take 120 t)")
    case None
    then have "\<forall>x\<in>set (take 120 t). x \<noteq> CHR 0x0A" by (simp only: find_index_None simp_thms)
    moreover have "noteToTitle tc html b = take 120 t" unfolding n None by simp
    ultimately show ?thesis by auto
  next
    case (Some ln)
    from find_index_Some [OF Some] have ln: "ln < 120" and no: "\<And>j. j < ln \<Longrightarrow> take 120 t ! j \<noteq> CHR 0x0A" by auto
    then have "CHR 0x0A \<notin> set (take ln (take 120 t))" by (auto simp: in_set_conv_nth)
    with Some ln show ?thesis by (simp add: n)
  qed
qed

section \<open>Titles that are kept\<close>

definition item_title :: "(string \<Rightarrow> string option) \<Rightarrow> labels \<Rightarrow> object \<Rightarrow> string" where
  "item_title tc s d =
     (if get_prop d ''itemType'' = Some (JStr ''note'') then noteToTitle tc (case get_prop d ''note'' of Some (JStr t) \<Rightarrow> t | _ \<Rightarrow> '''') False
      else case getBaseMappedValue s d ''title'' of Some (JStr t) \<Rightarrow> t | _ \<Rightarrow> '''')"

fun item_titles :: "(string \<Rightarrow> string option) \<Rightarrow> labels \<Rightarrow> (nat \<times> object) list \<Rightarrow> title_cache \<Rightarrow> string list" where
  "item_titles tc s [] cache = []"
| "item_titles tc s ((i, d) # rows) cache = (case getItemTitle tc s i d cache of (cache', t) \<Rightarrow> t # item_titles tc s rows cache')"

definition cache_ok :: "(string \<Rightarrow> string option) \<Rightarrow> title_cache \<Rightarrow> bool" where
  "cache_ok tc cache \<longleftrightarrow> (\<forall>i src t. cache i = Some (src, t) \<longrightarrow> t = noteToTitle tc src False)"

lemma getItemTitle_ok: "cache_ok tc cache \<Longrightarrow> cache_ok tc (fst (getItemTitle tc s i d cache)) \<and> snd (getItemTitle tc s i d cache) = item_title tc s d"
  by (cases "cache i") (auto simp: getItemTitle_def item_title_def cache_ok_def Let_def)

lemma item_titles_ok: "cache_ok tc cache \<Longrightarrow> item_titles tc s rows cache = map (\<lambda>(i, d). item_title tc s d) rows"
proof (induction rows arbitrary: cache)
  case (Cons row rows)
  obtain i d where "row = (i, d)" by fastforce
  with Cons getItemTitle_ok [of tc cache s i d] show ?case by (cases "getItemTitle tc s i d cache") auto
qed simp

text \<open>Whichever items are drawn in whatever order, again and again, also when the note of an item has
  changed in place: the titles kept for notes give what making each title anew gives, and the title
  of a note is one line of at most 120 characters.\<close>

theorem note_titles:
  "item_titles tc s rows Map.empty = map (\<lambda>(i, d). item_title tc s d) rows \<and>
   (\<forall>html stop. length (noteToTitle tc html stop) \<le> 120 \<and> CHR 0x0A \<notin> set (noteToTitle tc html stop))"
  using item_titles_ok [of tc Map.empty s rows] noteToTitle_line by (simp add: cache_ok_def)

section \<open>The order of tags\<close>

lemma colorIndex_position: "map_of (colorIndex cs) t = Some (c, i) \<Longrightarrow> i < length cs"
proof -
  assume "map_of (colorIndex cs) t = Some (c, i)"
  then have "(c, i) \<in> snd ` set (colorIndex cs)" using map_of_SomeD by force
  also have "\<dots> \<subseteq> snd ` set (map (\<lambda>(position, entry). (tag_name entry, tag_color entry, position)) (enumerate 0 cs))"
    unfolding colorIndex_def by (rule map_from_values)
  finally show ?thesis by (auto simp: in_set_enumerate_eq)
qed

text \<open>Where a tag stands: at the place of its colour, else with the emoji, else with the rest.\<close>

definition tag_rank :: "(string \<Rightarrow> bool) \<Rightarrow> TagColor list \<Rightarrow> string \<Rightarrow> nat" where
  "tag_rank em cs t = (case map_of (colorIndex cs) t of Some (_, i) \<Rightarrow> i
     | None \<Rightarrow> if em t then length cs else length cs + 1)"

lemma compareTags_rank:
  "compareTags em lc (colorIndex cs) a b \<le> 0 \<longleftrightarrow>
     tag_rank em cs a < tag_rank em cs b \<or>
     tag_rank em cs a = tag_rank em cs b \<and> (tag_rank em cs a < length cs \<or> lc a b \<le> 0)"
  using colorIndex_position [of cs a] colorIndex_position [of cs b]
  by (cases "map_of (colorIndex cs) a"; cases "map_of (colorIndex cs) b") (auto simp: compareTags_def tag_rank_def)

lemma orders_by_rank:
  fixes r :: "'a \<Rightarrow> nat" and n :: nat
  assumes "orders lc"
  defines "le a b \<equiv> r a < r b \<or> r a = r b \<and> (r a < n \<or> lc a b \<le> 0)"
  shows "(\<forall>a b. le a b \<or> le b a) \<and> (\<forall>a b c. le a b \<longrightarrow> le b c \<longrightarrow> le a c)"
proof (intro conjI allI impI)
  fix a b show "le a b \<or> le b a" using assms(1) unfolding le_def orders_def by (metis nat_neq_iff)
next
  fix a b c assume "le a b" "le b c"
  then show "le a c" using assms(1) unfolding le_def orders_def by (metis order.strict_trans)
qed

text \<open>Tags are drawn with the coloured ones first, in the order the colours were assigned, then those
  with an emoji, then the rest, and those of one kind without a colour in the order of the
  language; the comparison is an order, so sorting by it is the same in every browser.\<close>

theorem tags_in_order:
  assumes "orders lc"
  shows "orders (compareTags em lc (colorIndex cs)) \<and>
    sorted_wrt (\<lambda>a b. tag_rank em cs a < tag_rank em cs b \<or>
      tag_rank em cs a = tag_rank em cs b \<and> (tag_rank em cs a < length cs \<or> lc a b \<le> 0)) (sort_by (compareTags em lc (colorIndex cs)) tags)"
proof -
  have o: "orders (compareTags em lc (colorIndex cs))"
    using orders_by_rank [OF assms, where r = "tag_rank em cs" and n = "length cs"] unfolding compareTags_rank orders_def .
  from sorted_sort_by [OF o] show ?thesis using o by (simp add: compareTags_rank)
qed

theorem tags_in_order_witness:
  "let cs = [\<lparr>tag_name = ''todo'', tag_color = ''red''\<rparr>]; lc = (\<lambda>a b. int (length a) - int (length b)) in
   sorted_wrt (\<lambda>a b. tag_rank (\<lambda>_. False) cs a < tag_rank (\<lambda>_. False) cs b \<or>
      tag_rank (\<lambda>_. False) cs a = tag_rank (\<lambda>_. False) cs b \<and> (tag_rank (\<lambda>_. False) cs a < length cs \<or> lc a b \<le> 0))
    (sort_by (compareTags (\<lambda>_. False) lc (colorIndex cs)) [''b'', ''todo'', ''a''])"
proof -
  have "orders (\<lambda>a b. int (length a) - int (length b))" by (auto simp: orders_def)
  from tags_in_order [OF this, of "\<lambda>_. False" "[\<lparr>tag_name = ''todo'', tag_color = ''red''\<rparr>]" "[''b'', ''todo'', ''a'']"]
  show ?thesis unfolding Let_def by (rule conjunct2)
qed

section \<open>The choices of a merge\<close>

lemma map_from_own_keys:
  assumes "inj k"
  shows "foldl (\<lambda>m v. map_set (k v) v m) (map (\<lambda>v. (k v, v)) us) vs =
    map (\<lambda>v. (k v, v)) (foldl (\<lambda>us v. if v \<in> set us then us else us @ [v]) us vs)"
proof (induction vs arbitrary: us)
  case (Cons v vs)
  have "map_set (k v) v (map (\<lambda>v. (k v, v)) us) = map (\<lambda>v. (k v, v)) (if v \<in> set us then us else us @ [v])"
    using assms by (induction us) (auto simp: inj_eq)
  then show ?case by (simp only: foldl_Cons Cons.IH)
qed simp

lemma collected: "set (foldl (\<lambda>us v. if v \<in> set us then us else us @ [v]) us vs) = set us \<union> set vs"
  by (induction vs arbitrary: us) auto

lemma collected_distinct: "distinct us \<Longrightarrow> distinct (foldl (\<lambda>us v. if v \<in> set us then us else us @ [v]) us vs)"
  by (induction vs arbitrary: us) auto

lemma distinct_values: "set (distinct_values vs) = set vs" "distinct (distinct_values vs)"
proof -
  have f: "foldl (\<lambda>m (k, v). map_set k v m) m (map (\<lambda>v. (stringify v, v)) vs) = foldl (\<lambda>m v. map_set (stringify v) v m) m vs" for m
    by (induction vs arbitrary: m) auto
  have "distinct_values vs = foldl (\<lambda>us v. if v \<in> set us then us else us @ [v]) [] vs"
    using map_from_own_keys [of stringify "[]" vs] unfolding distinct_values_def map_from_def f by (simp add: inj_def comp_def)
  then show "set (distinct_values vs) = set vs" "distinct (distinct_values vs)"
    using collected [of "[]" vs] collected_distinct [of "[]" vs] by simp_all
qed

text \<open>A merge offers a choice for just the fields of the type, other than the date of access, and the
  creators in which two of the items differ; the choices are all the values there are, each once.\<close>

theorem merge_choices:
  "set (mergeFields String items outline) =
     {(name, distinct_values (map (\<lambda>item. mergeValue String item name) items)) | name.
        (name = ''creators'' \<or> name \<in> set (outline_fields outline) \<and> name \<noteq> ''accessDate'') \<and>
        (\<exists>a\<in>set items. \<exists>b\<in>set items. mergeValue String a name \<noteq> mergeValue String b name)} \<and>
   (\<forall>vs. distinct (distinct_values vs) \<and> set (distinct_values vs) = set vs)"
proof -
  have "1 < length (distinct_values vs) \<longleftrightarrow> (\<exists>a\<in>set vs. \<exists>b\<in>set vs. a \<noteq> b)" for vs
    using card_le_Suc0_iff_eq [of "set vs"] distinct_card [of "distinct_values vs"] distinct_values [of vs] by auto
  then have "1 < length (distinct_values (map (\<lambda>item. mergeValue String item name) items)) \<longleftrightarrow>
      (\<exists>a\<in>set items. \<exists>b\<in>set items. mergeValue String a name \<noteq> mergeValue String b name)" for name
    by simp
  note m = this
  have "set (mergeFields String items outline) = {(name, distinct_values (map (\<lambda>item. mergeValue String item name) items)) | name.
      (name = ''creators'' \<or> name \<in> set (outline_fields outline) \<and> name \<noteq> ''accessDate'') \<and>
      1 < length (distinct_values (map (\<lambda>item. mergeValue String item name) items))}"
    unfolding mergeFields_def Let_def by auto
  with m distinct_values show ?thesis by simp
qed

end
