(* ===== verification/DateText.thy ===== *)
theory DateText
  imports Json
begin

text \<open>
  Dates and times as the reader writes them (formats.ts): a timestamp is read and written by
  \<open>Intl\<close>, whose formatters are kept by what they were made from.  Making a formatter may throw, for a
  locale or a zone the browser does not know, and then the browser's own defaults are used.  Reading
  a date, making a formatter and formatting are arguments.
\<close>

section \<open>Formatters\<close>

record ('f, 'd) intl =
  construct :: "string \<Rightarrow> string \<Rightarrow> json \<Rightarrow> 'f option"
  defaults :: "json \<Rightarrow> 'f"
  format :: "'f \<Rightarrow> 'd \<Rightarrow> string"
  read_date :: "string \<Rightarrow> 'd option"

type_synonym 'f cache = "string \<Rightarrow> 'f option"

definition cache_key :: "string \<Rightarrow> string \<Rightarrow> json \<Rightarrow> string" where
  "cache_key loc zone options = loc @ ''|'' @ zone @ ''|'' @ stringify options"

definition made :: "('f, 'd) intl \<Rightarrow> string \<Rightarrow> string \<Rightarrow> json \<Rightarrow> 'f" where
  "made I loc zone options = (case construct I loc zone options of Some f \<Rightarrow> f | None \<Rightarrow> defaults I options)"

definition formatter :: "('f, 'd) intl \<Rightarrow> string \<Rightarrow> string \<Rightarrow> json \<Rightarrow> 'f cache \<Rightarrow> 'f cache \<times> 'f" where
  "formatter I loc zone options cache = (let key = cache_key loc zone options in
     case cache key of
       Some found \<Rightarrow> (cache, found)
     | None \<Rightarrow> (let found = made I loc zone options in (cache(key \<mapsto> found), found)))"

definition clearFormatterCache :: "'f cache \<Rightarrow> 'f cache" where
  "clearFormatterCache cache = Map.empty"

section \<open>Dates\<close>

datatype 'd moment = Missing | Written string | Exactly 'd

text \<open>A date that is not a number is \<open>None\<close> of the reading; one given as a \<open>Date\<close> may be so too.\<close>

definition parse_moment :: "('f, 'd) intl \<Rightarrow> ('d \<Rightarrow> bool) \<Rightarrow> 'd moment \<Rightarrow> 'd option" where
  "parse_moment I valid v = (case v of
     Missing \<Rightarrow> None
   | Written t \<Rightarrow> if t = '''' then None else read_date I t
   | Exactly d \<Rightarrow> if valid d then Some d else None)"

datatype style = LongDate | MediumShort | MediumLong

fun style_options :: "style \<Rightarrow> json" where
  "style_options LongDate = JObj [(''dateStyle'', JStr ''long'')]"
| "style_options MediumShort = JObj [(''dateStyle'', JStr ''medium''), (''timeStyle'', JStr ''short'')]"
| "style_options MediumLong = JObj [(''dateStyle'', JStr ''medium''), (''timeStyle'', JStr ''long'')]"

definition format_moment :: "('f, 'd) intl \<Rightarrow> ('d \<Rightarrow> bool) \<Rightarrow> string \<Rightarrow> string \<Rightarrow> style \<Rightarrow> 'd moment \<Rightarrow> 'f cache \<Rightarrow> 'f cache \<times> string" where
  "format_moment I valid loc zone st v cache = (case parse_moment I valid v of
     None \<Rightarrow> (cache, '''')
   | Some d \<Rightarrow> (case formatter I loc zone (style_options st) cache of (cache', f) \<Rightarrow> (cache', format I f d)))"

definition formatDate :: "('f, 'd) intl \<Rightarrow> ('d \<Rightarrow> bool) \<Rightarrow> string \<Rightarrow> string \<Rightarrow> 'd moment \<Rightarrow> 'f cache \<Rightarrow> 'f cache \<times> string" where
  "formatDate I valid loc zone = format_moment I valid loc zone LongDate"

definition formatDateTime :: "('f, 'd) intl \<Rightarrow> ('d \<Rightarrow> bool) \<Rightarrow> string \<Rightarrow> string \<Rightarrow> 'd moment \<Rightarrow> 'f cache \<Rightarrow> 'f cache \<times> string" where
  "formatDateTime I valid loc zone = format_moment I valid loc zone MediumShort"

definition formatDateTimeWithZone :: "('f, 'd) intl \<Rightarrow> ('d \<Rightarrow> bool) \<Rightarrow> string \<Rightarrow> string \<Rightarrow> 'd moment \<Rightarrow> 'f cache \<Rightarrow> 'f cache \<times> string" where
  "formatDateTimeWithZone I valid loc zone = format_moment I valid loc zone MediumLong"

section \<open>The cache changes nothing\<close>

text \<open>Locales and zones, which hold no bar, have keys of their own.\<close>

definition plain_name :: "string \<Rightarrow> bool" where
  "plain_name s \<longleftrightarrow> CHR ''|'' \<notin> set s"

lemma before_bar: "CHR ''|'' \<notin> set u \<Longrightarrow> CHR ''|'' \<notin> set v \<Longrightarrow> u @ CHR ''|'' # r = v @ CHR ''|'' # t \<Longrightarrow> u = v \<and> r = t"
  by (induction u arbitrary: v) (auto simp: Cons_eq_append_conv append_eq_Cons_conv)

lemma cache_key_eq:
  "plain_name l \<Longrightarrow> plain_name z \<Longrightarrow> plain_name l' \<Longrightarrow> plain_name z' \<Longrightarrow>
   cache_key l z o1 = cache_key l' z' o2 \<longleftrightarrow> l = l' \<and> z = z' \<and> o1 = o2"
  using before_bar [of l l' "z @ CHR ''|'' # stringify o1" "z' @ CHR ''|'' # stringify o2"]
    before_bar [of z z' "stringify o1" "stringify o2"]
  by (auto simp: cache_key_def plain_name_def)

definition cache_true :: "('f, 'd) intl \<Rightarrow> 'f cache \<Rightarrow> bool" where
  "cache_true I cache \<longleftrightarrow> (\<forall>l z opts f. plain_name l \<longrightarrow> plain_name z \<longrightarrow> cache (cache_key l z opts) = Some f \<longrightarrow> f = made I l z opts)"

lemma formatter_true:
  "cache_true I cache \<Longrightarrow> plain_name l \<Longrightarrow> plain_name z \<Longrightarrow>
   cache_true I (fst (formatter I l z opts cache)) \<and> snd (formatter I l z opts cache) = made I l z opts"
  by (auto simp: formatter_def cache_true_def Let_def cache_key_eq split: option.split)

text \<open>What is asked for: the style, the locale, the zone and the value.\<close>

type_synonym 'd asked = "style \<times> string \<times> string \<times> 'd moment"

fun formats :: "('f, 'd) intl \<Rightarrow> ('d \<Rightarrow> bool) \<Rightarrow> 'd asked list \<Rightarrow> 'f cache \<Rightarrow> string list" where
  "formats I valid [] cache = []"
| "formats I valid ((st, l, z, v) # as) cache =
     (case format_moment I valid l z st v cache of (cache', t) \<Rightarrow> t # formats I valid as cache')"

definition format_anew :: "('f, 'd) intl \<Rightarrow> ('d \<Rightarrow> bool) \<Rightarrow> 'd asked \<Rightarrow> string" where
  "format_anew I valid a = (case a of (st, l, z, v) \<Rightarrow>
     (case parse_moment I valid v of None \<Rightarrow> '''' | Some d \<Rightarrow> format I (made I l z (style_options st)) d))"

lemma formats_true:
  "cache_true I cache \<Longrightarrow> list_all (\<lambda>(st, l, z, v). plain_name l \<and> plain_name z) as \<Longrightarrow>
   formats I valid as cache = map (format_anew I valid) as"
proof (induction as arbitrary: cache)
  case (Cons a as)
  obtain st l z v where a: "a = (st, l, z, v)" by (cases a)
  with Cons.prems formatter_true [of I cache l z "style_options st"] Cons.IH show ?case
    by (auto simp: format_moment_def format_anew_def split: option.split prod.split)
qed simp

text \<open>However many dates are written, in whatever languages, zones and styles and in whatever order:
  each is written as a formatter made anew would write it, the browser's defaults standing in where
  making it throws; what is no date is written as nothing.  Languages and zones hold no bar, which
  is what keeps their keys apart.\<close>

theorem formats_as_anew:
  assumes "list_all (\<lambda>(st, l, z, v). plain_name l \<and> plain_name z) as"
  shows "formats I valid as (clearFormatterCache cache) = map (format_anew I valid) as"
  by (rule formats_true [OF _ assms]) (simp add: cache_true_def clearFormatterCache_def)

theorem formats_as_anew_witness:
  "let I = \<lparr>construct = (\<lambda>l z opts. if l = ''xx'' then None else Some (l @ z)), defaults = (\<lambda>_. ''?''), format = (\<lambda>f d. f @ d), read_date = Some\<rparr> in
   formats I (\<lambda>_. True) [(LongDate, ''de'', ''UTC'', Written ''1''), (LongDate, ''xx'', ''UTC'', Written ''2''), (LongDate, ''de'', ''UTC'', Missing)]
     (clearFormatterCache Map.empty) = [''deUTC1'', ''?2'', '''']"
  unfolding Let_def
  by (subst formats_as_anew) (simp_all add: plain_name_def format_anew_def parse_moment_def made_def)

end
