(* ===== verification/NoteNodes.thy ===== *)
theory NoteNodes
  imports Sanitize Codes Urls
begin

text \<open>
  The attributes of the nodes and marks of notes, read from HTML and written to it (notes/nodes.ts,
  notes/marks.ts).  What the browser reads out of a style attribute is an argument, a function of the
  attribute and the property; so are \<open>JSON.parse\<close> after \<open>decodeURIComponent\<close>, and \<open>Number\<close> of an
  attribute.  The content a node may have and the order of rules are data that ProseMirror
  interprets; they are left out.
\<close>

section \<open>Elements\<close>

type_synonym attrs = "(string \<times> string) list"

record browser =
  css :: "string \<Rightarrow> string \<Rightarrow> string"
  page_dir :: string
  decodeObject :: "string option \<Rightarrow> json option"
  to_number :: "string \<Rightarrow> int option"

definition style_of :: "browser \<Rightarrow> attrs \<Rightarrow> string \<Rightarrow> string" where
  "style_of B a property = (case map_of a ''style'' of None \<Rightarrow> '''' | Some st \<Rightarrow> css B st property)"

text \<open>The property \<open>dir\<close> of an element reflects only the directions there are.\<close>

definition dom_dir :: "attrs \<Rightarrow> string" where
  "dom_dir a = (case map_of a ''dir'' of
     None \<Rightarrow> ''''
   | Some v \<Rightarrow> if to_lower v \<in> {''ltr'', ''rtl'', ''auto''} then to_lower v else '''')"

text \<open>What a \<open>toDOM\<close> gives: an attribute that is null is not written.\<close>

definition present :: "(string \<times> string option) list \<Rightarrow> attrs" where
  "present as = List.map_filter (\<lambda>(k, v). map_option (Pair k) v) as"

definition int_text :: "int option \<Rightarrow> string option" where
  "int_text = map_option show_int"

section \<open>Reading\<close>

definition MAX_INDENT :: int where
  "MAX_INDENT = 7"

definition INDENT_WIDTH :: int where
  "INDENT_WIDTH = 40"

definition getInteger :: "string option \<Rightarrow> int option" where
  "getInteger v = (case given v of None \<Rightarrow> None | Some t \<Rightarrow> parseInt (ascii t))"

definition getIndent :: "browser \<Rightarrow> attrs \<Rightarrow> int option" where
  "getIndent B a =
     (let value = (if style_of B a ''padding-left'' \<noteq> '''' then style_of B a ''padding-left'' else style_of B a ''padding-right'');
          by_attribute = (case given (map_of a ''data-indent'') of
            None \<Rightarrow> None
          | Some t \<Rightarrow> (case parseInt (ascii t) of Some indent \<Rightarrow> if 1 \<le> indent then Some indent else None | None \<Rightarrow> None))
      in case parseInt (ascii value) of
           Some num \<Rightarrow> if show_int num @ ''px'' = value \<and> 0 < num \<and> num mod INDENT_WIDTH = 0 then Some (num div INDENT_WIDTH) else by_attribute
         | None \<Rightarrow> by_attribute)"

definition getAlign :: "browser \<Rightarrow> attrs \<Rightarrow> string option" where
  "getAlign B a = (let v = style_of B a ''text-align'' in
     if v \<noteq> '''' \<and> to_lower v \<in> {''left'', ''right'', ''center'', ''justify''} then Some (to_lower v) else None)"

definition getDir :: "attrs \<Rightarrow> string option" where
  "getDir a = (let v = dom_dir a in if v \<noteq> '''' \<and> to_lower v \<in> {''ltr'', ''rtl''} then Some (to_lower v) else None)"

section \<open>Writing\<close>

definition style :: "(string \<times> string option) list \<Rightarrow> string option" where
  "style ss = (let l = List.map_filter (\<lambda>(n, v). map_option (\<lambda>t. n @ '': '' @ t) (given v)) ss in
     if l = [] then None else given (Some (join_with '';'' l)))"

definition backCompIndent :: "browser \<Rightarrow> int option \<Rightarrow> string option \<Rightarrow> (string \<times> string option) list" where
  "backCompIndent B indent dir =
     (if indent \<noteq> None \<and> indent \<noteq> Some 0 then
        (let d = (case given dir of Some d \<Rightarrow> d | None \<Rightarrow> page_dir B); w = show_int (the indent * INDENT_WIDTH) @ ''px'' in
         [(if d = ''rtl'' then ''padding-right'' else ''padding-left'', Some w)])
      else [])"

section \<open>Blocks\<close>

record block_attrs =
  indent :: "int option"
  align :: "string option"
  dir :: "string option"

text \<open>A heading has its level and an \<open>id\<close> besides.\<close>

record heading_attrs = block_attrs +
  level :: nat
  ident :: "string option"

definition paragraph_attrs :: "browser \<Rightarrow> attrs \<Rightarrow> block_attrs" where
  "paragraph_attrs B a = \<lparr>indent = getIndent B a, align = getAlign B a, dir = getDir a\<rparr>"

definition paragraph_dom :: "browser \<Rightarrow> block_attrs \<Rightarrow> string \<times> attrs" where
  "paragraph_dom B n = (''p'', present [(''style'', style ((''text-align'', align n) # backCompIndent B (indent n) (dir n))),
     (''dir'', dir n), (''data-indent'', int_text (indent n))])"

definition heading_attrs_of :: "browser \<Rightarrow> nat \<Rightarrow> attrs \<Rightarrow> heading_attrs" where
  "heading_attrs_of B l a = \<lparr>indent = getIndent B a, align = getAlign B a, dir = getDir a, level = l, ident = map_of a ''id''\<rparr>"

definition heading_dom :: "browser \<Rightarrow> heading_attrs \<Rightarrow> string \<times> attrs" where
  "heading_dom B n = (''h'' @ show_nat (level n),
     present [(''style'', style ((''text-align'', align n) # backCompIndent B (indent n) (dir n))), (''id'', ident n),
       (''dir'', dir n), (''data-indent'', int_text (indent n))])"

text \<open>A code block has no alignment.\<close>

definition codeBlock_attrs :: "browser \<Rightarrow> attrs \<Rightarrow> block_attrs" where
  "codeBlock_attrs B a = \<lparr>indent = getIndent B a, align = None, dir = getDir a\<rparr>"

definition codeBlock_dom :: "browser \<Rightarrow> block_attrs \<Rightarrow> string \<times> attrs" where
  "codeBlock_dom B n = (''pre'', present [(''style'', style (backCompIndent B (indent n) (dir n))), (''dir'', dir n),
     (''data-indent'', int_text (indent n))])"

definition orderedList_attrs :: "browser \<Rightarrow> attrs \<Rightarrow> int option \<times> string option" where
  "orderedList_attrs B a = ((case map_of a ''start'' of Some t \<Rightarrow> to_number B t | None \<Rightarrow> Some 1), getDir a)"

definition number_text :: "int option \<Rightarrow> string" where
  "number_text n = (case n of Some k \<Rightarrow> show_int k | None \<Rightarrow> ''NaN'')"

definition orderedList_dom :: "int option \<times> string option \<Rightarrow> string \<times> attrs" where
  "orderedList_dom n = (''ol'', present (if fst n = Some 1 then [(''dir'', snd n)] else [(''start'', Some (number_text (fst n))), (''dir'', snd n)]))"

definition bulletList_dom :: "string option \<Rightarrow> string \<times> attrs" where
  "bulletList_dom d = (''ul'', present [(''dir'', d)])"

section \<open>Mathematics\<close>

definition math_text :: "string \<Rightarrow> string \<Rightarrow> string" where
  "math_text mark textContent =
     (let t = trim textContent; n = length mark in
      if take n t = mark \<and> drop (length t - n) t = mark then drop n (take (length t - n) t) else t)"

definition math_dom :: "string \<Rightarrow> string \<Rightarrow> string" where
  "math_dom mark t = mark @ t @ mark"

section \<open>Cells\<close>

record cell_attrs =
  colspan :: "int option"
  rowspan :: "int option"
  colwidth :: "int option list option"
  background :: "string option"

definition COLWIDTHS :: "char regex" where
  "COLWIDTHS = seqs [Start, Many1 (Cls digit), Many (Seq (Lit (CHR '','')) (Many1 (Cls digit))), End]"

definition number_or_one :: "browser \<Rightarrow> string option \<Rightarrow> int option" where
  "number_or_one B t = (case given t of Some s \<Rightarrow> to_number B s | None \<Rightarrow> Some 1)"

definition getCellAttrs :: "browser \<Rightarrow> attrs \<Rightarrow> cell_attrs" where
  "getCellAttrs B a =
     (let w = given (map_of a ''data-colwidth'');
          widths = (case w of Some t \<Rightarrow> if test COLWIDTHS t then Some (map (to_number B) (split_at (CHR '','') t)) else None | None \<Rightarrow> None);
          cs = number_or_one B (map_of a ''colspan'')
      in \<lparr>colspan = cs, rowspan = number_or_one B (map_of a ''rowspan''),
          colwidth = (case widths of Some ws \<Rightarrow> if cs = Some (int (length ws)) then Some ws else None | None \<Rightarrow> None),
          background = given (Some (style_of B a ''background-color''))\<rparr>)"

definition setCellAttrs :: "cell_attrs \<Rightarrow> attrs" where
  "setCellAttrs n = present
     [(''colspan'', if colspan n \<noteq> Some 1 then Some (number_text (colspan n)) else None),
      (''rowspan'', if rowspan n \<noteq> Some 1 then Some (number_text (rowspan n)) else None),
      (''data-colwidth'', map_option (\<lambda>ws. join_with '','' (map number_text ws)) (colwidth n)),
      (''style'', map_option (\<lambda>c. ''background-color: '' @ c @ '';'') (given (background n)))]"

section \<open>Annotations and citations\<close>

definition encodeObject :: "json \<Rightarrow> string option" where
  "encodeObject v = (case v of JNum _ \<Rightarrow> None | JStr _ \<Rightarrow> None | JBool _ \<Rightarrow> None | _ \<Rightarrow> Some (encodeURIComponent (stringify v)))"

fun remove_prop :: "string \<Rightarrow> object \<Rightarrow> object" where
  "remove_prop k ob = filter (\<lambda>(n, _). n \<noteq> k) ob"

definition migrateAnnotationURI :: "json \<Rightarrow> json" where
  "migrateAnnotationURI annotation = (case annotation of
     JObj ob \<Rightarrow> if truthy (get_prop ob ''uri'') then JObj (remove_prop ''uri'' (map_set ''attachmentURI'' (the (get_prop ob ''uri'')) ob)) else annotation
   | _ \<Rightarrow> annotation)"

text \<open>An element whose annotation cannot be read is no highlight: the rule is refused.\<close>

definition highlight_attrs :: "browser \<Rightarrow> attrs \<Rightarrow> json option" where
  "highlight_attrs B a = (case decodeObject B (map_of a ''data-annotation'') of
     Some (JObj ob) \<Rightarrow> Some (migrateAnnotationURI (JObj (remove_prop ''text'' ob)))
   | Some annotation \<Rightarrow> if truthy (Some annotation) then Some annotation else None
   | None \<Rightarrow> None)"

definition underline_annotation_attrs :: "browser \<Rightarrow> attrs \<Rightarrow> json option" where
  "underline_annotation_attrs B a = (case decodeObject B (map_of a ''data-annotation'') of
     Some annotation \<Rightarrow> if truthy (Some annotation) then Some annotation else None
   | None \<Rightarrow> None)"

definition annotation_dom :: "string \<Rightarrow> json \<Rightarrow> string \<times> attrs" where
  "annotation_dom cls annotation = (''span'', present [(''class'', Some cls), (''data-annotation'', encodeObject annotation)])"

definition no_citation :: json where
  "no_citation = JObj [(''citationItems'', JArr []), (''properties'', JObj [])]"

definition citation_attrs :: "browser \<Rightarrow> attrs \<Rightarrow> json" where
  "citation_attrs B a = (case decodeObject B (map_of a ''data-citation'') of
     Some c \<Rightarrow> if truthy (Some c) then c else no_citation | None \<Rightarrow> no_citation)"

definition citation_dom :: "json \<Rightarrow> string \<times> attrs" where
  "citation_dom c = (''span'', present [(''class'', Some ''citation''), (''data-citation'', encodeObject c)])"

record image_attrs =
  src :: "string option"
  alt :: string
  img_title :: "string option"
  width :: "int option"
  height :: "int option"
  attachmentKey :: "string option"
  annotation :: "json option"

definition image_attrs_of :: "browser \<Rightarrow> attrs \<Rightarrow> image_attrs" where
  "image_attrs_of B a = \<lparr>src = map_of a ''src'', alt = (case map_of a ''alt'' of Some t \<Rightarrow> t | None \<Rightarrow> ''''), img_title = map_of a ''title'',
     width = getInteger (map_of a ''width''), height = getInteger (map_of a ''height''), attachmentKey = map_of a ''data-attachment-key'',
     annotation = map_option migrateAnnotationURI (decodeObject B (map_of a ''data-annotation''))\<rparr>"

text \<open>\<open>annotation && encodeObject(annotation)\<close>: what is false is written as itself, null not at all.\<close>

definition image_annotation :: "json \<Rightarrow> string option" where
  "image_annotation j = (if truthy (Some j) then encodeObject j
     else case j of JNum _ \<Rightarrow> Some ''0'' | JStr _ \<Rightarrow> Some '''' | JBool _ \<Rightarrow> Some ''false'' | _ \<Rightarrow> None)"

definition image_dom :: "image_attrs \<Rightarrow> string \<times> attrs" where
  "image_dom n = (''img'', present [(''src'', src n), (''alt'', Some (alt n)), (''title'', img_title n), (''width'', int_text (width n)),
     (''height'', int_text (height n)), (''data-attachment-key'', attachmentKey n),
     (''data-annotation'', Option.bind (annotation n) image_annotation)])"

section \<open>Attributes that come back\<close>

definition declarations :: "(string \<times> string option) list \<Rightarrow> (string \<times> string) list" where
  "declarations ss = List.map_filter (\<lambda>(n, v). map_option (Pair n) (given v)) ss"

lemma style_declarations:
  "style ss = (if declarations ss = [] then None else Some (join_with '';'' (map style_text (declarations ss))))"
proof -
  have m: "List.map_filter (\<lambda>(n, v). map_option (\<lambda>t. n @ '': '' @ t) (given v)) ss = map style_text (declarations ss)"
    by (induction ss) (auto simp: declarations_def List.map_filter_simps style_text_def split: option.split)
  have "join_with '';'' (map style_text ds) \<noteq> ''''" if "ds \<noteq> []" for ds
    using that by (cases ds; cases "tl ds") (auto simp: style_text_def)
  then show ?thesis unfolding style_def m Let_def by (simp add: given_def)
qed

lemma map_of_present: "distinct (map fst as) \<Longrightarrow> map_of (present as) k = (case map_of as k of Some v \<Rightarrow> v | None \<Rightarrow> None)"
proof (induction as)
  case (Cons a as)
  obtain j v where a: "a = (j, v)" by fastforce
  from Cons.prems a have "map_of as j = None" by (force simp: map_of_eq_None_iff)
  with Cons a show ?case
    by (cases v) (auto simp: present_def List.map_filter_simps)
qed (simp add: present_def List.map_filter_def)

text \<open>The values the editor writes.\<close>

definition written_value :: "string \<Rightarrow> string \<Rightarrow> bool" where
  "written_value property v \<longleftrightarrow>
     property = ''text-align'' \<and> v \<in> {''left'', ''right'', ''center'', ''justify''} \<or>
     property \<in> {''padding-left'', ''padding-right''} \<and> (\<exists>n>0. v = show_int n @ ''px'')"

text \<open>What is relied on in a browser: of the declarations the editor writes it reads back each property.\<close>

definition reads_styles :: "browser \<Rightarrow> bool" where
  "reads_styles B \<longleftrightarrow> (\<forall>ds k. ds \<noteq> [] \<longrightarrow> distinct (map fst ds) \<longrightarrow> (\<forall>(n, v)\<in>set ds. written_value n v) \<longrightarrow>
     css B (join_with '';'' (map style_text ds)) k = (case map_of ds k of Some v \<Rightarrow> v | None \<Rightarrow> ''''))"

definition proper_block :: "block_attrs \<Rightarrow> bool" where
  "proper_block n \<longleftrightarrow> align n \<in> {None, Some ''left'', Some ''right'', Some ''center'', Some ''justify''} \<and>
     dir n \<in> {None, Some ''ltr'', Some ''rtl''} \<and> (\<forall>k. indent n = Some k \<longrightarrow> 1 \<le> k)"

lemma parseInt_px: "0 < n \<Longrightarrow> parseInt (ascii (show_int n @ ''px'')) = Some n"
proof -
  assume n: "0 < n"
  let ?t = "ascii (show_nat (nat n))"
  have d: "list_all numeral_digit ?t" "?t \<noteq> []" using digits_show [of "nat n"] by (auto simp: ascii_def)
  obtain c cs where t: "?t = c # cs" using d(2) by (cases ?t) auto
  with d(1) have c: "numeral_digit c" "list_all numeral_digit cs" by auto
  then have "\<not> white c" "c \<noteq> 45" "c \<noteq> 43" by (auto simp: numeral_digit_def white_def)
  moreover have "take 2 (?t @ [112, 120]) \<notin> {[48, 120], [48, 88]}"
    using c(2) unfolding t by (cases cs) (auto simp: numeral_digit_def)
  moreover have "takeWhile numeral_digit (?t @ [112, 120]) = ?t"
    using d(1) by (subst takeWhile_append2) (auto simp: list_all_iff numeral_digit_def)
  ultimately have u: "parse_unsigned (?t @ [112, 120]) = Some (parse_digits ?t)" "\<not> white c" "c \<noteq> 45" "c \<noteq> 43"
    using d(2) unfolding parse_unsigned_def Let_def by presburger+
  then have "parseInt (?t @ [112, 120]) = Some (parse_digits ?t)"
    by (simp add: parseInt_def t)
  with n show ?thesis by (simp add: show_int_def parse_digits_show) (simp add: ascii_def)
qed

lemma backComp_declarations:
  assumes "proper_block n"
  shows "\<forall>(k, v)\<in>set (declarations (backCompIndent B (indent n) (dir n))). written_value k v"
    "declarations (backCompIndent B (indent n) (dir n)) =
      (case indent n of None \<Rightarrow> [] | Some i \<Rightarrow>
        [(if (case given (dir n) of Some d \<Rightarrow> d | None \<Rightarrow> page_dir B) = ''rtl'' then ''padding-right'' else ''padding-left'', show_int (i * 40) @ ''px'')])"
proof -
  have "show_int i @ ''px'' \<noteq> ''''" for i by simp
  then show d: "declarations (backCompIndent B (indent n) (dir n)) =
      (case indent n of None \<Rightarrow> [] | Some i \<Rightarrow>
        [(if (case given (dir n) of Some d \<Rightarrow> d | None \<Rightarrow> page_dir B) = ''rtl'' then ''padding-right'' else ''padding-left'', show_int (i * 40) @ ''px'')])"
    using assms by (auto simp: declarations_def backCompIndent_def proper_block_def List.map_filter_simps given_def INDENT_WIDTH_def split: option.split)
  show "\<forall>(k, v)\<in>set (declarations (backCompIndent B (indent n) (dir n))). written_value k v"
  proof (cases "indent n")
    case (Some i)
    with assms have "0 < i * 40" by (simp add: proper_block_def)
    with Some show ?thesis unfolding d written_value_def by (auto intro!: exI [of _ "i * 40"])
  qed (simp add: declarations_def backCompIndent_def List.map_filter_simps)
qed

lemma style_of_written:
  assumes "reads_styles B" "map_of a ''style'' = style ss" "distinct (map fst (declarations ss))" "\<forall>(n, v)\<in>set (declarations ss). written_value n v"
  shows "style_of B a k = (case map_of (declarations ss) k of Some v \<Rightarrow> v | None \<Rightarrow> '''')"
  using assms by (auto simp: style_of_def style_declarations reads_styles_def)

text \<open>The styles of a block: the alignment, if it has one, and the indent.\<close>

definition block_styles :: "browser \<Rightarrow> string option \<Rightarrow> block_attrs \<Rightarrow> (string \<times> string option) list" where
  "block_styles B al n = (''text-align'', al) # backCompIndent B (indent n) (dir n)"

lemma block_styles_written:
  assumes "proper_block n" "al \<in> {None, align n}"
  shows "distinct (map fst (declarations (block_styles B al n)))" "\<forall>(k, v)\<in>set (declarations (block_styles B al n)). written_value k v"
    "map_of (declarations (block_styles B al n)) ''text-align'' = al"
    "\<And>k. k \<in> {''padding-left'', ''padding-right''} \<Longrightarrow>
       map_of (declarations (block_styles B al n)) k =
         (if indent n \<noteq> None \<and> (k = ''padding-right'') = ((case given (dir n) of Some d \<Rightarrow> d | None \<Rightarrow> page_dir B) = ''rtl'')
          then Some (show_int (the (indent n) * 40) @ ''px'') else None)"
proof -
  have d: "declarations (block_styles B al n) =
      (case al of None \<Rightarrow> [] | Some v \<Rightarrow> [(''text-align'', v)]) @ declarations (backCompIndent B (indent n) (dir n))"
    using assms by (auto simp: block_styles_def declarations_def List.map_filter_simps given_def proper_block_def split: option.split)
  note b = backComp_declarations [OF assms(1), of B]
  show "distinct (map fst (declarations (block_styles B al n)))" "map_of (declarations (block_styles B al n)) ''text-align'' = al"
    unfolding d b(2) by (auto split: option.split)
  have "al = Some v \<Longrightarrow> written_value ''text-align'' v" for v
    using assms by (auto simp: proper_block_def written_value_def)
  with b(1) show "\<forall>(k, v)\<in>set (declarations (block_styles B al n)). written_value k v"
    unfolding d by (auto split: option.split)
  fix k assume "k \<in> {''padding-left'', ''padding-right''}"
  then show "map_of (declarations (block_styles B al n)) k =
         (if indent n \<noteq> None \<and> (k = ''padding-right'') = ((case given (dir n) of Some d \<Rightarrow> d | None \<Rightarrow> page_dir B) = ''rtl'')
          then Some (show_int (the (indent n) * 40) @ ''px'') else None)"
    unfolding d b(2) by (auto split: option.split)
qed

lemma block_read_back:
  assumes "reads_styles B" "proper_block n" "al \<in> {None, align n}" "map_of a ''style'' = style (block_styles B al n)"
    "map_of a ''dir'' = dir n" "map_of a ''data-indent'' = int_text (indent n)"
  shows "getIndent B a = indent n" "getAlign B a = al" "getDir a = dir n"
proof -
  note w = block_styles_written [OF assms(2,3), where B = B]
  note s = style_of_written [OF assms(1,4) w(1,2)]
  have v: "to_lower ''left'' = ''left''" "to_lower ''right'' = ''right''" "to_lower ''center'' = ''center''" "to_lower ''justify'' = ''justify''"
    "to_lower ''ltr'' = ''ltr''" "to_lower ''rtl'' = ''rtl''"
    by (simp_all add: to_lower_def lower_char_def)
  have "al \<in> {None, Some ''left'', Some ''right'', Some ''center'', Some ''justify''}" using assms(2,3) by (auto simp: proper_block_def)
  then show "getAlign B a = al" using v by (auto simp: getAlign_def s w(3) Let_def)
  have "dir n \<in> {None, Some ''ltr'', Some ''rtl''}" using assms(2) by (simp add: proper_block_def)
  then show "getDir a = dir n" using v by (auto simp: getDir_def dom_dir_def assms(5) Let_def)
  show "getIndent B a = indent n"
  proof (cases "indent n")
    case None
    then have "style_of B a ''padding-left'' = ''''" "style_of B a ''padding-right'' = ''''" by (simp_all add: s w(4))
    with None show ?thesis by (simp add: getIndent_def parseInt_def ascii_def assms(6) int_text_def given_def)
  next
    case (Some i)
    let ?px = "show_int (i * 40) @ ''px''"
    from assms(2) Some have i: "1 \<le> i" by (simp add: proper_block_def)
    have "(if style_of B a ''padding-left'' \<noteq> '''' then style_of B a ''padding-left'' else style_of B a ''padding-right'') = ?px"
      using Some by (simp add: s w(4))
    moreover have "parseInt (ascii ?px) = Some (i * 40)" using i by (intro parseInt_px) simp
    ultimately show ?thesis using i Some by (simp add: getIndent_def INDENT_WIDTH_def Let_def)
  qed
qed

lemma written_survives: "written_value k v \<Longrightarrow> surviving (styles NOTE) (k, v)"
proof -
  assume w: "written_value k v"
  have px: "list_all plain_char (show_int n @ ''px'')" "trim (show_int n @ ''px'') = show_int n @ ''px''" if "0 < n" for n
  proof -
    have d: "list_all is_digit (show_nat (nat n))" "show_nat (nat n) \<noteq> []" using show_nat_digits [of "nat n"] by (auto simp: list_all_iff)
    have "is_digit c \<Longrightarrow> plain_char c \<and> \<not> is_space c" for c
      by (auto simp: plain_char_def word_char_def is_digit_def is_space_def Let_def)
    with d that show "list_all plain_char (show_int n @ ''px'')"
      by (auto simp: show_int_def list_all_iff plain_char_def word_char_def)
    from d \<open>\<And>c. is_digit c \<Longrightarrow> plain_char c \<and> \<not> is_space c\<close> that show "trim (show_int n @ ''px'') = show_int n @ ''px''"
      by (cases "show_nat (nat n)") (auto simp: trim_def show_int_def is_space_def)
  qed
  have k: "k \<in> {''text-align'', ''padding-left'', ''padding-right''}" using w by (auto simp: written_value_def)
  then have "k \<in> set (styles NOTE) \<and> to_lower k = k \<and> trim k = k \<and> CHR '';'' \<notin> set k \<and> CHR '':'' \<notin> set k"
    by (auto simp: NOTE_def to_lower_def lower_char_def trim_def is_space_def)
  moreover have "v \<noteq> '''' \<and> trim v = v \<and> ok_setting v"
    using w px by (auto simp: written_value_def ok_setting_def plain_test)
      (auto simp: plain_char_def word_char_def trim_def is_space_def)
  ultimately show ?thesis by (simp add: surviving_def)
qed

lemma kept_joined:
  assumes "\<And>d. d \<in> set ds \<Longrightarrow> surviving allowed d"
  shows "kept_declarations (join_with '';'' (map style_text ds)) allowed = ds"
proof (cases "ds = []")
  case True
  then show ?thesis by (simp add: kept_declarations_def List.map_filter_def keep_declaration_def)
next
  case False
  have "CHR '';'' \<notin> set (style_text d)" if "d \<in> set ds" for d
    using style_text_no_semicolon assms that by blast
  then have "split_at (CHR '';'') (join_with '';'' (map style_text ds)) = map style_text ds"
    using False by (intro split_join) auto
  moreover have "d \<in> set ds \<Longrightarrow> keep_declaration allowed (style_text d) = Some d" for d
    using surviving_kept [of allowed d "[]"] assms by simp
  then have "List.map_filter (keep_declaration allowed) (map style_text ds) = ds" by (rule map_filter_Some)
  ultimately show ?thesis by (simp add: kept_declarations_def)
qed

text \<open>The blocks of a note come back from their HTML as they were, whatever their indent, alignment,
  direction and level and whatever the direction of the page they were written on: the indent
  is read from the padding on either side.  And cleaning for display keeps every declaration written
  for a block, since it reads them out of the style just as they were written.\<close>

theorem blocks_come_back:
  assumes "reads_styles B" "proper_block n" "proper_block (block_attrs.truncate h)"
  shows "paragraph_attrs B (snd (paragraph_dom B n)) = n \<and>
    heading_attrs_of B (level h) (snd (heading_dom B h)) = h \<and>
    codeBlock_attrs B (snd (codeBlock_dom B n)) = n\<lparr>align := None\<rparr> \<and>
    (\<forall>st. map_of (snd (paragraph_dom B n)) ''style'' = Some st \<longrightarrow>
      kept_declarations st (styles NOTE) = declarations (block_styles B (align n) n))"
proof -
  let ?h = "block_attrs.truncate h"
  have f: "indent ?h = indent h" "align ?h = align h" "dir ?h = dir h" by (simp_all add: block_attrs.truncate_def)
  have "paragraph_attrs B (snd (paragraph_dom B n)) = n"
    using block_read_back [OF assms(1,2), of "align n" "snd (paragraph_dom B n)"]
    by (simp add: paragraph_attrs_def paragraph_dom_def map_of_present block_styles_def)
  moreover have "codeBlock_attrs B (snd (codeBlock_dom B n)) = n\<lparr>align := None\<rparr>"
  proof -
    have "style (backCompIndent B (indent n) (dir n)) = style (block_styles B None n)"
      by (simp add: block_styles_def style_def List.map_filter_simps given_def)
    then show ?thesis
      using block_read_back [OF assms(1,2), of None "snd (codeBlock_dom B n)"]
      by (simp add: codeBlock_attrs_def codeBlock_dom_def map_of_present)
  qed
  moreover have "heading_attrs_of B (level h) (snd (heading_dom B h)) = h"
    using block_read_back [OF assms(1,3), of "align ?h" "snd (heading_dom B h)"]
    by (simp add: heading_attrs_of_def heading_dom_def map_of_present block_styles_def f)
  moreover have "kept_declarations st (styles NOTE) = declarations (block_styles B (align n) n)"
    if "map_of (snd (paragraph_dom B n)) ''style'' = Some st" for st
  proof -
    let ?ds = "declarations (block_styles B (align n) n)"
    from that have st: "?ds \<noteq> []" "st = join_with '';'' (map style_text ?ds)"
      by (auto simp: paragraph_dom_def map_of_present style_declarations block_styles_def split: if_splits)
    show ?thesis unfolding st(2)
      using block_styles_written(2) [OF assms(2), of "align n" B] by (intro kept_joined) (auto intro!: written_survives)
  qed
  ultimately show ?thesis by blast
qed

definition plain_browser :: browser where
  "plain_browser = \<lparr>css = (\<lambda>st k. case map_of (kept_declarations st (styles NOTE)) k of Some v \<Rightarrow> v | None \<Rightarrow> ''''),
     page_dir = ''rtl'', decodeObject = (\<lambda>_. None), to_number = (\<lambda>_. None)\<rparr>"

lemma reads_styles_plain: "reads_styles plain_browser"
proof -
  have "kept_declarations (join_with '';'' (map style_text ds)) (styles NOTE) = ds" if "\<forall>(n, v)\<in>set ds. written_value n v" for ds
    using that by (intro kept_joined) (auto intro!: written_survives)
  then show ?thesis by (simp add: reads_styles_def plain_browser_def)
qed

theorem blocks_come_back_witness:
  "(let n = \<lparr>indent = Some 2, align = Some ''center'', dir = None\<rparr>; h = \<lparr>indent = None, align = Some ''left'', dir = Some ''rtl'', level = 3, ident = None\<rparr> in
    paragraph_attrs plain_browser (snd (paragraph_dom plain_browser n)) = n \<and>
    heading_attrs_of plain_browser (level h) (snd (heading_dom plain_browser h)) = h \<and>
    map_of (snd (paragraph_dom plain_browser n)) ''style'' = Some ''text-align: center;padding-right: 80px'')"
proof -
  let ?n = "\<lparr>indent = Some 2, align = Some ''center'', dir = None\<rparr>" and ?h = "\<lparr>indent = None, align = Some ''left'', dir = Some ''rtl'', level = 3, ident = None\<rparr>"
  have "proper_block ?n" "proper_block (block_attrs.truncate ?h)" by (simp_all add: proper_block_def block_attrs.truncate_def)
  note c = blocks_come_back [OF reads_styles_plain this]
  moreover have "map_of (snd (paragraph_dom plain_browser ?n)) ''style'' = Some ''text-align: center;padding-right: 80px''"
    by (simp add: paragraph_dom_def plain_browser_def backCompIndent_def present_def List.map_filter_simps style_def given_def INDENT_WIDTH_def
        int_text_def show_int_def show_nat.simps digit_char_def char_of_def bit_0)
  ultimately show ?thesis unfolding Let_def by fastforce
qed

section \<open>Marks\<close>

definition HIGHLIGHT_COLORS :: "(string \<times> string) list" where
  "HIGHLIGHT_COLORS =
     [(''red'', ''#ff666680''), (''orange'', ''#f1983780''), (''yellow'', ''#ffd40080''), (''green'', ''#5fb23680''),
      (''purple'', ''#a28ae580''), (''magenta'', ''#e56eee80''), (''blue'', ''#2ea8e580''), (''gray'', ''#aaaaaa80'')]"

definition TEXT_COLORS :: "(string \<times> string) list" where
  "TEXT_COLORS =
     [(''red'', ''#ff2020''), (''orange'', ''#ff7700''), (''yellow'', ''#ffcb00''), (''green'', ''#4eb31c''),
      (''purple'', ''#7953e3''), (''magenta'', ''#eb52f7''), (''blue'', ''#05a2ef''), (''gray'', ''#7e8386'')]"

datatype mark =
  Strong
| Em
| Underline string
| Strike
| Subsup string
| TextColor string
| BackgroundColor string
| Link string "string option"
| InlineCode

fun mark_dom :: "mark \<Rightarrow> string \<times> attrs" where
  "mark_dom Strong = (''strong'', [])"
| "mark_dom Em = (''em'', [])"
| "mark_dom (Underline color) = (''u'', if color = '''' then [] else [(''style'', ''text-decoration-color: '' @ color @ '';'')])"
| "mark_dom Strike = (''span'', [(''style'', ''text-decoration: line-through'')])"
| "mark_dom (Subsup type) = (type, [])"
| "mark_dom (TextColor color) = (''span'', [(''style'', ''color: '' @ color)])"
| "mark_dom (BackgroundColor color) = (''span'', [(''style'', ''background-color: '' @ color)])"
| "mark_dom (Link href title) = (''a'', (''href'', href) # present [(''title'', title)] @ [(''rel'', ''noopener noreferrer nofollow'')])"
| "mark_dom InlineCode = (''code'', [])"

text \<open>The rules that go by the element, and those that go by one property of its style.\<close>

definition tag_mark :: "browser \<Rightarrow> string \<Rightarrow> attrs \<Rightarrow> mark option" where
  "tag_mark B tag a =
     (if tag \<in> {''strong'', ''dt''} then Some Strong
      else if tag = ''b'' then if style_of B a ''font-weight'' \<noteq> ''normal'' then Some Strong else None
      else if tag \<in> {''i'', ''em'', ''cite'', ''dfn'', ''q''} then Some Em
      else if tag = ''u'' then Some (Underline (style_of B a ''text-decoration-color''))
      else if tag \<in> {''s'', ''strike'', ''del''} then Some Strike
      else if tag \<in> {''sub'', ''sup''} then Some (Subsup tag)
      else if tag = ''a'' then map_option (\<lambda>h. Link h (map_of a ''title'')) (map_of a ''href'')
      else if tag \<in> {''code'', ''tt'', ''kbd'', ''samp'', ''var''} then Some InlineCode
      else None)"

definition BOLD :: "char regex" where
  "BOLD = seqs [Start, Alt (Seq (Word ''bold'') (Opt (Word ''er'')))
     (seqs [Cls (\<lambda>c. c \<in> set ''56789''), Cls digit, Many1 (Cls digit)]), End]"

definition background_color :: "string \<Rightarrow> string" where
  "background_color value =
     (let color = to_lower value in if color \<in> set (map (\<lambda>x. take 7 (snd x)) HIGHLIGHT_COLORS) then color @ ''80'' else color)"

definition monospace :: "string \<Rightarrow> bool" where
  "monospace value = sublist ''monospace'' (to_lower value)"

definition style_mark :: "string \<Rightarrow> string \<Rightarrow> mark option" where
  "style_mark property value =
     (if property = ''font-weight'' then if test BOLD value then Some Strong else None
      else if property = ''font-style'' then if value = ''italic'' then Some Em else None
      else if property \<in> {''text-decoration'', ''text-decoration-line''} then
        (if value = ''underline'' then Some (Underline '''') else if value = ''line-through'' then Some Strike else None)
      else if property = ''vertical-align'' then
        (if value = ''sub'' then Some (Subsup ''sub'') else if value = ''super'' then Some (Subsup ''sup'') else None)
      else if property = ''color'' then Some (TextColor value)
      else if property = ''background-color'' then Some (BackgroundColor (background_color value))
      else if property = ''background'' then if length (split_at (CHR '' '') value) = 1 then Some (BackgroundColor value) else None
      else if property = ''font-family'' then if monospace value then Some InlineCode else None
      else if property = ''white-space'' then if value = ''pre'' then Some InlineCode else None
      else None)"

definition STYLE_RULES :: "string list" where
  "STYLE_RULES = [''font-weight'', ''font-style'', ''text-decoration'', ''text-decoration-line'', ''vertical-align'', ''color'',
     ''background-color'', ''background'', ''font-family'', ''white-space'']"

text \<open>What ProseMirror makes of an element with these rules: the mark of its tag and those of its style.\<close>

definition read_marks :: "browser \<Rightarrow> string \<times> attrs \<Rightarrow> mark list" where
  "read_marks B e = remdups (case_option [] (\<lambda>m. [m]) (tag_mark B (fst e) (snd e)) @
     List.map_filter (\<lambda>p. case style_of B (snd e) p of [] \<Rightarrow> None | v \<Rightarrow> style_mark p v) STYLE_RULES)"

fun mark_setting :: "mark \<Rightarrow> (string \<times> string) option" where
  "mark_setting (Underline color) = (if color = '''' then None else Some (''text-decoration-color'', color))"
| "mark_setting Strike = Some (''text-decoration'', ''line-through'')"
| "mark_setting (TextColor color) = Some (''color'', color)"
| "mark_setting (BackgroundColor color) = Some (''background-color'', color)"
| "mark_setting _ = None"

text \<open>What is relied on in a browser: what is set is read, and in the longhand too.\<close>

definition reads_setting :: "browser \<Rightarrow> string \<Rightarrow> string \<Rightarrow> bool" where
  "reads_setting B p v \<longleftrightarrow> (\<forall>k end. end \<in> {'''', '';''} \<longrightarrow> css B (p @ '': '' @ v @ end) k =
     (if k = p \<or> p = ''text-decoration'' \<and> k = ''text-decoration-line'' then v else ''''))"

definition proper_mark :: "mark \<Rightarrow> bool" where
  "proper_mark m \<longleftrightarrow> (case m of
     Subsup type \<Rightarrow> type \<in> {''sub'', ''sup''}
   | BackgroundColor color \<Rightarrow> background_color color = color
   | _ \<Rightarrow> True) \<and> (\<forall>p v. mark_setting m = Some (p, v) \<longrightarrow> v \<noteq> '''' \<and> trim v = v \<and> ok_setting v)"

lemma lower_char_idem [simp]: "lower_char (lower_char c) = lower_char c"
proof (cases "of_char c \<in> {65..90::nat}")
  case True
  then have "of_char c + 32 < (256::nat)" by simp
  with True show ?thesis by (simp add: lower_char_def Let_def of_char_of)
next
  case False
  then show ?thesis by (auto simp: lower_char_def Let_def)
qed

lemma to_lower_idem [simp]: "to_lower (to_lower s) = to_lower s"
  by (simp add: to_lower_def)

lemma background_color_once: "background_color (background_color v) = background_color v"
proof (cases "to_lower v \<in> set (map (\<lambda>x. take 7 (snd x)) HIGHLIGHT_COLORS)")
  case True
  have "list_all (\<lambda>c. background_color (c @ ''80'') = c @ ''80'') (map (\<lambda>x. take 7 (snd x)) HIGHLIGHT_COLORS)"
    by code_simp
  then have "background_color (to_lower v @ ''80'') = to_lower v @ ''80''" using True unfolding list_all_iff by blast
  moreover from True have "background_color v = to_lower v @ ''80''" by (simp add: background_color_def Let_def)
  ultimately show ?thesis by simp
next
  case False
  then show ?thesis by (simp add: background_color_def Let_def)
qed

lemma mark_survives:
  assumes "proper_mark m" "mark_setting m = Some (p, v)" "p \<noteq> ''text-decoration-color''"
  shows "surviving (styles NOTE) (p, v)"
proof -
  have "p \<in> {''text-decoration'', ''color'', ''background-color''}" using assms(2,3) by (cases m) (auto split: if_splits)
  moreover have "\<forall>p\<in>{''text-decoration'', ''color'', ''background-color''}.
      p \<in> set (styles NOTE) \<and> to_lower (trim p) = p \<and> CHR '';'' \<notin> set p \<and> CHR '':'' \<notin> set p"
    by (simp add: NOTE_def to_lower_def lower_char_def trim_def is_space_def)
  moreover have "v \<noteq> '''' \<and> trim v = v \<and> ok_setting v" using assms(1,2) by (simp add: proper_mark_def)
  ultimately show ?thesis unfolding surviving_def fst_conv snd_conv by metis
qed

lemma setting_joined:
  assumes "surviving allowed (p, v)"
  shows "kept_declarations (p @ '': '' @ v) allowed = [(p, v)]"
  using kept_joined [of "[(p, v)]" allowed] assms by (simp add: style_text_def)


definition mark_browser :: browser where
  "mark_browser = \<lparr>css = (\<lambda>st k. if st = ''background-color: #ffd40080'' \<or> st = ''background-color: #ffd40080;'' then if k = ''background-color'' then ''#ffd40080'' else '''' else ''''),
     page_dir = ''ltr'', decodeObject = (\<lambda>_. None), to_number = (\<lambda>_. None)\<rparr>"


end
