(* ===== verification/NoteCitations.thy ===== *)
theory NoteCitations
  imports Codes
begin

text \<open>
  The citations of notes: the text a citation shows (notes/citations.ts), and the item data a note
  carries beside its content, to which its citations refer by URI (notes/context.ts).  The data have
  the types the program declares for them; what a citation holds beyond what its text reads is left
  out.  Writing a value as \<open>encodeURIComponent (JSON.stringify ..)\<close> and reading it back are arguments.
\<close>

section \<open>The text of a citation\<close>

record Name =
  family :: "codes option"
  literal :: "codes option"

datatype year = YearNumber int | YearText codes

record CitationItemData =
  author :: "Name list option"
  title :: "codes option"
  issued :: "year option"

record CitationItem =
  uris :: "codes list"
  itemData :: "CitationItemData option"
  locator :: "codes option"
  label :: "codes option"
  prefix :: "codes option"
  suffix :: "codes option"

record CitationWords =
  word_and :: codes
  word_etAl :: codes

definition ENGLISH_CITATION_WORDS :: CitationWords where
  "ENGLISH_CITATION_WORDS = \<lparr>word_and = ascii ''and'', word_etAl = ascii ''et al.''\<rparr>"

text \<open>The truth of a text, and a text in a template: \<open>undefined\<close> is written out.\<close>

definition some_text :: "codes option \<Rightarrow> bool" where
  "some_text t \<longleftrightarrow> t \<noteq> None \<and> t \<noteq> Some []"

definition written :: "codes option \<Rightarrow> codes" where
  "written t = (case t of None \<Rightarrow> ascii ''undefined'' | Some s \<Rightarrow> s)"

definition author_name :: "Name \<Rightarrow> codes option" where
  "author_name a = (if some_text (family a) then family a else literal a)"

definition names_text :: "CitationWords \<Rightarrow> Name list \<Rightarrow> codes option" where
  "names_text words authors = (case authors of
     [] \<Rightarrow> Some []
   | [a] \<Rightarrow> author_name a
   | [a, b] \<Rightarrow> Some (written (author_name a) @ [32] @ word_and words @ [32] @ written (author_name b))
   | a # _ \<Rightarrow> Some (written (author_name a) @ [32] @ word_etAl words))"

definition romanesque :: "nat \<Rightarrow> bool" where
  "romanesque c \<longleftrightarrow> c = 38 \<or> (97 \<le> c \<and> c \<le> 122) \<or> (65 \<le> c \<and> c \<le> 90) \<or> (0xE01 \<le> c \<and> c \<le> 0xE5B) \<or> (0xC0 \<le> c \<and> c \<le> 0x17F) \<or>
     (0x370 \<le> c \<and> c \<le> 0x3FF) \<or> (0x400 \<le> c \<and> c \<le> 0x52F) \<or> (0x590 \<le> c \<and> c \<le> 0x5D4) \<or> (0x5D6 \<le> c \<and> c \<le> 0x5FF) \<or>
     (0x1F00 \<le> c \<and> c \<le> 0x1FFF) \<or> (0x600 \<le> c \<and> c \<le> 0x6FF) \<or> c \<in> {0x200C, 0x200D, 0x200E, 0x218, 0x219, 0x21A, 0x21B} \<or>
     (0x202A \<le> c \<and> c \<le> 0x202E)"

definition starts_romanesque :: "codes \<Rightarrow> bool" where
  "starts_romanesque t \<longleftrightarrow> t \<noteq> [] \<and> romanesque (hd t)"

definition ends_romanesque :: "codes \<Rightarrow> bool" where
  "ends_romanesque t \<longleftrightarrow> t \<noteq> [] \<and> (romanesque (last t) \<or> last t \<in> {46, 59, 58})"

definition year_text :: "year option \<Rightarrow> codes option" where
  "year_text y = (case y of
     None \<Rightarrow> None
   | Some (YearNumber n) \<Rightarrow> if n = 0 then None else Some (show_number n)
   | Some (YearText t) \<Rightarrow> if t = [] \<or> t = ascii ''0000'' then None else Some t)"

definition locator_text :: "CitationItem \<Rightarrow> codes option" where
  "locator_text c =
     (if some_text (locator c) then
        Some ((if some_text (label c) then the (label c)
               else if \<exists>x\<in>set (the (locator c)). x \<in> {45, 0x2013, 44} then ascii ''pp.'' else ascii ''p.'') @ [32] @ the (locator c))
      else None)"

definition comma :: "codes option \<Rightarrow> codes option \<Rightarrow> codes option" where
  "comma str part = (case part of None \<Rightarrow> str | Some p \<Rightarrow> Some (written str @ ascii '', '' @ p))"

definition formatCitationItem :: "CitationWords \<Rightarrow> CitationItem \<Rightarrow> codes option" where
  "formatCitationItem words c = (case itemData c of
     None \<Rightarrow> Some []
   | Some d \<Rightarrow>
      (let str = (case author d of None \<Rightarrow> Some [] | Some as \<Rightarrow> names_text words as);
           str = (if \<not> some_text str \<and> some_text (title d) then Some ([0x201C] @ the (title d) @ [0x201D]) else str);
           str = comma str (year_text (issued d));
           str = comma str (locator_text c);
           str = (if some_text (prefix c)
                  then Some (the (prefix c) @ (if ends_romanesque (the (prefix c)) then [32] else []) @ written str) else str)
       in if some_text (suffix c)
          then Some (written str @ (if starts_romanesque (the (suffix c)) then [32] else []) @ the (suffix c)) else str))"

section \<open>The item data of a note\<close>

definition SCHEMA_VERSION :: int where
  "SCHEMA_VERSION = 10"

record Metadata =
  schemaVersion :: int
  citationItems :: "CitationItem list"

definition new_metadata :: Metadata where
  "new_metadata = \<lparr>schemaVersion = 0, citationItems = []\<rparr>"

text \<open>\<open>encode\<close> writes a list of items into an attribute; \<open>decode\<close> reads an attribute that holds an array,
  and \<open>None\<close> is one that cannot be read or holds something else.\<close>

definition serializeAttributes :: "(CitationItem list \<Rightarrow> codes) \<Rightarrow> Metadata \<Rightarrow> (string \<times> codes) list" where
  "serializeAttributes encode m =
     (''data-schema-version'', show_number SCHEMA_VERSION) #
     (if citationItems m = [] then [] else [(''data-citation-items'', encode (citationItems m))])"

definition parseAttributes :: "(codes \<Rightarrow> CitationItem list option) \<Rightarrow> (string \<times> codes) list \<Rightarrow> Metadata \<Rightarrow> Metadata" where
  "parseAttributes decode attributes m =
     (let version = map_of attributes ''data-schema-version'';
          m = (if some_text version then (case parseInt (the version) of Some v \<Rightarrow> m\<lparr>schemaVersion := v\<rparr> | None \<Rightarrow> m) else m);
          encoded = map_of attributes ''data-citation-items''
      in if some_text encoded then (case decode (the encoded) of Some items \<Rightarrow> m\<lparr>citationItems := items\<rparr> | None \<Rightarrow> m) else m)"

definition shares_uri :: "CitationItem \<Rightarrow> CitationItem \<Rightarrow> bool" where
  "shares_uri c item \<longleftrightarrow> (\<exists>uri\<in>set (uris item). uri \<in> set (uris c))"

definition find_item :: "CitationItem list \<Rightarrow> CitationItem \<Rightarrow> CitationItem option" where
  "find_item items c = List.find (shares_uri c) items"

definition fillCitationItemsWithData :: "Metadata \<Rightarrow> CitationItem list \<Rightarrow> CitationItem list" where
  "fillCitationItemsWithData m cs = map (\<lambda>c. case find_item (citationItems m) c of
       Some item \<Rightarrow> c\<lparr>itemData := itemData item\<rparr> | None \<Rightarrow> c) cs"

text \<open>The attributes of a node that refer to items; a citation without a list of items has \<open>None\<close> inside.\<close>

record cited_node =
  node_citation :: "CitationItem list option option"
  node_annotation :: "CitationItem option option"

definition cited_items :: "cited_node \<Rightarrow> CitationItem list" where
  "cited_items n = (case node_citation n of
     Some (Some cs) \<Rightarrow> cs
   | Some None \<Rightarrow> []
   | None \<Rightarrow> (case node_annotation n of Some (Some c) \<Rightarrow> [c] | _ \<Rightarrow> []))"

text \<open>The items used, by their places: two that look alike are still two.\<close>

definition used_items :: "CitationItem list \<Rightarrow> cited_node list \<Rightarrow> nat set" where
  "used_items items nodes = set (List.map_filter (\<lambda>c. find_index (shares_uri c) items) (concat (map cited_items nodes)))"

definition deleteUnusedCitationItems :: "cited_node list \<Rightarrow> Metadata \<Rightarrow> Metadata \<times> bool" where
  "deleteUnusedCitationItems nodes m =
     (let kept = nths (citationItems m) (used_items (citationItems m) nodes) in
      (m\<lparr>citationItems := kept\<rparr>, length kept \<noteq> length (citationItems m)))"

datatype written_child = Plain codes | ItemSpan "codes option"

definition serializeCitationInnerHTML :: "CitationWords \<Rightarrow> Metadata \<Rightarrow> CitationItem list \<Rightarrow> written_child list" where
  "serializeCitationInnerHTML words m cs =
     (let filled = fillCitationItemsWithData m cs in
      [Plain (ascii ''('')] @
      concat (map (\<lambda>(i, c). if itemData c \<noteq> None
          then ItemSpan (formatCitationItem words c) # (if i \<noteq> length filled - 1 then [Plain (ascii ''; '')] else []) else [])
        (enumerate 0 filled)) @
      [Plain (ascii '')'')])"

section \<open>Dropping what is not used\<close>

lemma find_index_nths:
  assumes "find_index P xs = Some i" "i \<in> A"
  shows "List.find P (nths xs A) = Some (xs ! i)"
  using assms
proof (induction xs arbitrary: i A)
  case (Cons x xs)
  show ?case
  proof (cases "P x")
    case True
    with Cons.prems show ?thesis by (simp add: nths_Cons)
  next
    case False
    with Cons.prems obtain k where k: "find_index P xs = Some k" "i = Suc k" by auto
    with Cons.IH [OF k(1), of "{j. Suc j \<in> A}"] Cons.prems(2) False show ?thesis by (simp add: nths_Cons)
  qed
qed simp

lemma find_index_nths_None: "find_index P xs = None \<Longrightarrow> List.find P (nths xs A) = None"
  by (auto simp: find_index_None find_None dest: in_set_nthsD)

lemma find_by_index: "List.find P xs = map_option (\<lambda>i. xs ! i) (find_index P xs)"
  by (induction xs) (auto simp: option.map_comp comp_def)

lemma find_item_kept:
  assumes "n \<in> set nodes" "c \<in> set (cited_items n)"
  shows "find_item (citationItems (fst (deleteUnusedCitationItems nodes m))) c = find_item (citationItems m) c"
proof (cases "find_index (shares_uri c) (citationItems m)")
  case None
  then show ?thesis
    using find_index_nths_None [OF None] by (simp add: find_item_def deleteUnusedCitationItems_def Let_def find_by_index [of _ "citationItems m"])
next
  case (Some i)
  with assms have "i \<in> used_items (citationItems m) nodes"
    by (force simp: used_items_def List.map_filter_def)
  from find_index_nths [OF Some this] show ?thesis
    by (simp add: find_item_def deleteUnusedCitationItems_def Let_def find_by_index [of _ "citationItems m"] Some)
qed

lemma nths_used: "item \<in> set (nths items (used_items items nodes)) \<Longrightarrow> \<exists>n\<in>set nodes. \<exists>c\<in>set (cited_items n). shares_uri c item"
proof -
  assume "item \<in> set (nths items (used_items items nodes))"
  then obtain i where i: "item = items ! i" "i \<in> used_items items nodes" by (auto simp: set_nths)
  then obtain n c where "n \<in> set nodes" "c \<in> set (cited_items n)" "find_index (shares_uri c) items = Some i"
    by (auto simp: used_items_def List.map_filter_def)
  with find_index_Some [of "shares_uri c" items i] i(1) show ?thesis by blast
qed

lemma nths_same_length: "length (nths xs A) = length xs \<Longrightarrow> nths xs A = xs"
proof (induction xs arbitrary: A)
  case (Cons x xs)
  have le: "length (nths xs B) \<le> length xs" for B
    unfolding length_nths using card_mono [of "{i. i < length xs}" "{i. i < length xs \<and> i \<in> B}"] by fastforce
  show ?case
  proof (cases "0 \<in> A")
    case True
    with Cons show ?thesis by (simp add: nths_Cons)
  next
    case False
    with Cons.prems le [of "{j. Suc j \<in> A}"] show ?thesis by (simp add: nths_Cons)
  qed
qed simp

text \<open>Opening a note for editing drops just the item data that no citation and no annotation refers to,
  and that never shows: every citation of the note is written exactly as before, whoever's words
  join its authors, and so are the data an annotation finds.\<close>

theorem dropping_never_shows:
  assumes "n \<in> set nodes"
  shows "let m' = fst (deleteUnusedCitationItems nodes m) in
    (\<forall>cs. node_citation n = Some (Some cs) \<longrightarrow> serializeCitationInnerHTML words m' cs = serializeCitationInnerHTML words m cs) \<and>
    fillCitationItemsWithData m' (cited_items n) = fillCitationItemsWithData m (cited_items n) \<and>
    set (citationItems m') \<subseteq> set (citationItems m) \<and>
    (\<forall>item\<in>set (citationItems m'). \<exists>n\<in>set nodes. \<exists>c\<in>set (cited_items n). shares_uri c item) \<and>
    (snd (deleteUnusedCitationItems nodes m) \<longleftrightarrow> m' \<noteq> m)"
proof -
  let ?m = "fst (deleteUnusedCitationItems nodes m)"
  have f: "fillCitationItemsWithData ?m (cited_items n) = fillCitationItemsWithData m (cited_items n)"
    using find_item_kept [OF assms] by (auto simp: fillCitationItemsWithData_def)
  have "node_citation n = Some (Some cs) \<Longrightarrow> fillCitationItemsWithData ?m cs = fillCitationItemsWithData m cs" for cs
    using f by (simp add: cited_items_def)
  then have t: "node_citation n = Some (Some cs) \<Longrightarrow> serializeCitationInnerHTML words ?m cs = serializeCitationInnerHTML words m cs" for cs
    by (simp add: serializeCitationInnerHTML_def)
  have k: "citationItems ?m = nths (citationItems m) (used_items (citationItems m) nodes)" "schemaVersion ?m = schemaVersion m"
    by (simp_all add: deleteUnusedCitationItems_def Let_def)
  have "length (nths (citationItems m) (used_items (citationItems m) nodes)) = length (citationItems m) \<longleftrightarrow>
      nths (citationItems m) (used_items (citationItems m) nodes) = citationItems m"
    by (metis nths_same_length)
  then have "snd (deleteUnusedCitationItems nodes m) \<longleftrightarrow> ?m \<noteq> m"
    by (cases m) (auto simp: deleteUnusedCitationItems_def Let_def)
  with f t k nths_used show ?thesis by (auto simp: Let_def dest: in_set_nthsD)
qed

theorem dropping_never_shows_witness:
  "let c = \<lparr>uris = [[1]], itemData = None, locator = None, label = None, prefix = None, suffix = None\<rparr>;
       m = \<lparr>schemaVersion = 10, citationItems = [c\<lparr>uris := [[2]]\<rparr>, c\<lparr>itemData := Some \<lparr>author = None, title = Some [65], issued = None\<rparr>\<rparr>]\<rparr>;
       n = \<lparr>node_citation = Some (Some [c]), node_annotation = None\<rparr>
   in serializeCitationInnerHTML ENGLISH_CITATION_WORDS (fst (deleteUnusedCitationItems [n] m)) [c] =
      serializeCitationInnerHTML ENGLISH_CITATION_WORDS m [c] \<and> snd (deleteUnusedCitationItems [n] m)"
proof -
  define c where "c = \<lparr>uris = [[1 :: nat]], itemData = None, locator = None, label = None, prefix = None, suffix = None\<rparr>"
  define m where "m = \<lparr>schemaVersion = 10, citationItems = [c\<lparr>uris := [[2]]\<rparr>, c\<lparr>itemData := Some \<lparr>author = None, title = Some [65], issued = None\<rparr>\<rparr>]\<rparr>"
  define n where "n = \<lparr>node_citation = Some (Some [c]), node_annotation = None\<rparr>"
  have "snd (deleteUnusedCitationItems [n] m)"
    by (simp add: deleteUnusedCitationItems_def used_items_def cited_items_def List.map_filter_def shares_uri_def n_def m_def c_def nths_Cons)
  with dropping_never_shows [of n "[n]" m ENGLISH_CITATION_WORDS] show ?thesis
    unfolding Let_def c_def [symmetric] m_def [symmetric] n_def [symmetric] by (simp add: n_def)
qed

section \<open>What a note carries comes back\<close>

text \<open>The attributes written around a note are read back as the data they were written from, at the
  version of this editor, whatever version had been read before; a version that is no number
  and data that cannot be read change nothing.\<close>

theorem metadata_comes_back:
  assumes "decode (encode (citationItems m)) = Some (citationItems m)" "encode (citationItems m) \<noteq> []"
  shows "parseAttributes decode (serializeAttributes encode m) new_metadata = m\<lparr>schemaVersion := SCHEMA_VERSION\<rparr> \<and>
    (\<forall>v e k. parseInt v = None \<and> decode e = None \<longrightarrow>
      parseAttributes decode [(''data-schema-version'', v), (''data-citation-items'', e)] k = k)"
  using assms
  by (cases "citationItems m = []")
    (simp_all add: serializeAttributes_def parseAttributes_def parseInt_show some_text_def new_metadata_def Let_def)

theorem metadata_comes_back_witness:
  "let c = \<lparr>uris = [[1]], itemData = None, locator = None, label = None, prefix = None, suffix = None\<rparr>; m = \<lparr>schemaVersion = 3, citationItems = [c]\<rparr>
   in parseAttributes (\<lambda>t. if t = [7] then Some [c] else None) (serializeAttributes (\<lambda>_. [7]) m) new_metadata = m\<lparr>schemaVersion := 10\<rparr>"
  unfolding Let_def
  using metadata_comes_back [of "\<lambda>t. if t = [7] then Some [\<lparr>uris = [[1]], itemData = None, locator = None, label = None, prefix = None, suffix = None\<rparr>] else None"
     "\<lambda>_. [7]" "\<lparr>schemaVersion = 3, citationItems = [\<lparr>uris = [[1]], itemData = None, locator = None, label = None, prefix = None, suffix = None\<rparr>]\<rparr>"]
  by (simp add: SCHEMA_VERSION_def)

end
