(* ===== verification/NoteHtml.thy ===== *)
theory NoteHtml
  imports NoteNodes NoteCitations
begin

text \<open>
  The HTML of a note, into a document and out of it (notes/html.ts): what is done to the HTML before it
  is parsed, the upgrade of the first schema, the corrections to a parsed document, and the
  serializer with its line breaks.  Parsing and writing HTML are the browser's, parsing a document
  by a schema and rendering one are ProseMirror's; they are arguments, and so are
  \<open>JSON.parse (decodeURIComponent ..)\<close>, of which \<open>None\<close> is an exception, and Unicode
  normalization.
\<close>

section \<open>Trees\<close>

datatype dom =
  Text string
| Comment string
| Elem string attrs "dom list"

record html_library =
  html_browser :: browser
  body_of :: "string \<Rightarrow> dom list"
  inner_html :: "dom list \<Rightarrow> string"
  decode_json :: "string \<Rightarrow> json option"

fun is_elem :: "dom \<Rightarrow> bool" where
  "is_elem (Elem _ _ _) = True"
| "is_elem _ = False"

section \<open>Before parsing\<close>

text \<open>\<open>body > div[data-schema-version]\<close>\<close>

fun is_container :: "dom \<Rightarrow> bool" where
  "is_container (Elem tag a _) = (tag = ''div'' \<and> map_of a ''data-schema-version'' \<noteq> None)"
| "is_container _ = False"

definition metadata_attributes :: "dom list \<Rightarrow> attrs" where
  "metadata_attributes body = (case List.find is_container body of
     Some (Elem _ a _) \<Rightarrow> filter (\<lambda>(k, _). take 5 k = ''data-'') a
   | _ \<Rightarrow> [])"

definition createLink :: "string \<Rightarrow> dom" where
  "createLink url = Elem ''a'' [(''href'', url)] [Text url]"

definition createImage :: "string \<Rightarrow> dom" where
  "createImage u = Elem ''img'' [(''src'', u)] []"

definition quote_char :: "char \<Rightarrow> bool" where
  "quote_char c \<longleftrightarrow> c = CHR 0x22 \<or> c = CHR 0x27"

definition URL_IN_CSS :: "char regex" where
  "URL_IN_CSS = seqs [Word ''url('', Opt (Cls quote_char), Grp 1 (Many (Cls (\<lambda>c. \<not> quote_char c))), Opt (Cls quote_char), Lit (CHR '')'')]"

definition REMOTE_OR_DATA :: "char regex" where
  "REMOTE_OR_DATA = seqs [Start, Alt (Seq (Word ''http'') (Opt (Lit (CHR ''s'')))) (Word ''data''), Lit (CHR '':'')]"

definition background_url :: "string \<Rightarrow> string option" where
  "background_url v = (if v = '''' then None else case exec URL_IN_CSS v of
     Some (_, p) \<Rightarrow> (case group 1 p of Some u \<Rightarrow> if test REMOTE_OR_DATA u then Some u else None | None \<Rightarrow> None)
   | None \<Rightarrow> None)"

definition before_element :: "browser \<Rightarrow> string \<Rightarrow> attrs \<Rightarrow> dom list" where
  "before_element B tag a =
     (case background_url (style_of B a ''background-image'') of Some u \<Rightarrow> [createImage u] | None \<Rightarrow> []) @
     (if tag \<noteq> ''img'' then (case given (map_of a ''src'') of Some u \<Rightarrow> [createLink u] | None \<Rightarrow> []) else [])"

fun walk :: "browser \<Rightarrow> dom \<Rightarrow> dom list" where
  "walk B (Elem tag a cs) = before_element B tag a @ [Elem tag a (concat (map (walk B) cs))]"
| "walk B node = [node]"

definition preprocessHTML :: "html_library \<Rightarrow> string \<Rightarrow> string \<times> attrs" where
  "preprocessHTML H html =
     (let container = body_of H html in
      (inner_html H (concat (map (walk (html_browser H)) container)), metadata_attributes container))"

section \<open>The first schema\<close>

text \<open>A value as a text, as \<open>includes\<close> of a text takes it.\<close>

fun text_of :: "json \<Rightarrow> string" where
  "text_of JNull = ''null''"
| "text_of (JBool b) = (if b then ''true'' else ''false'')"
| "text_of (JNum n) = show_int n"
| "text_of (JStr s) = s"
| "text_of (JArr js) = join_with '','' (map (\<lambda>j. if j = JNull then '''' else text_of j) js)"
| "text_of (JObj _) = ''[object Object]''"

text \<open>\<open>uris.includes(uri)\<close>; \<open>None\<close> is the exception.  Objects and arrays are equal only to themselves,
  and those compared here come from different values.\<close>

definition uris_include :: "json option \<Rightarrow> json \<Rightarrow> bool option" where
  "uris_include us uri = (case us of
     Some (JArr vs) \<Rightarrow> Some (uri \<in> set vs \<and> (case uri of JArr _ \<Rightarrow> False | JObj _ \<Rightarrow> False | _ \<Rightarrow> True))
   | Some (JStr s) \<Rightarrow> Some (sublist (text_of uri) s)
   | _ \<Rightarrow> None)"

text \<open>\<open>some\<close> and \<open>find\<close> stop at the first that holds, and at an exception.\<close>

fun some_of :: "('a \<Rightarrow> bool option) \<Rightarrow> 'a list \<Rightarrow> bool option" where
  "some_of f [] = Some False"
| "some_of f (x # xs) = (case f x of None \<Rightarrow> None | Some True \<Rightarrow> Some True | Some False \<Rightarrow> some_of f xs)"

definition shares_any :: "json option \<Rightarrow> json \<Rightarrow> bool option" where
  "shares_any us item = (case item of
     JObj ob \<Rightarrow> (case get_prop ob ''uris'' of Some (JArr vs) \<Rightarrow> some_of (uris_include us) vs | _ \<Rightarrow> None)
   | _ \<Rightarrow> None)"

definition stored_item :: "json option \<Rightarrow> json \<Rightarrow> json" where
  "stored_item us data = JObj ((case us of Some u \<Rightarrow> [(''uris'', u)] | None \<Rightarrow> []) @ [(''itemData'', data)])"

definition pullItemData :: "json list \<Rightarrow> json \<Rightarrow> (json list \<times> json) option" where
  "pullItemData stored citationItem = (case citationItem of
     JNull \<Rightarrow> None
   | JObj ob \<Rightarrow>
      (let us = get_prop ob ''uris''; data = get_prop ob ''itemData'' in
       if truthy data then
         (case some_of (shares_any us) stored of
            None \<Rightarrow> None
          | Some found \<Rightarrow> Some (if found then stored else stored @ [stored_item us (the data)], JObj (remove_prop ''itemData'' ob)))
       else Some (stored, citationItem))
   | _ \<Rightarrow> Some (stored, citationItem))"

text \<open>\<open>forEach\<close>: what was stored before an exception stays stored.\<close>

fun pull_all :: "json list \<Rightarrow> json list \<Rightarrow> json list \<times> json list option" where
  "pull_all stored [] = (stored, Some [])"
| "pull_all stored (c # cs) = (case pullItemData stored c of
     None \<Rightarrow> (stored, None)
   | Some (stored', c') \<Rightarrow> (let (stored'', r) = pull_all stored' cs in (stored'', map_option (\<lambda>cs'. c' # cs') r)))"

definition encode_json :: "json \<Rightarrow> string" where
  "encode_json v = encodeURIComponent (stringify v)"

definition upgrade_citation :: "html_library \<Rightarrow> json list \<Rightarrow> attrs \<Rightarrow> json list \<times> attrs" where
  "upgrade_citation H stored a =
     (case Option.bind (map_of a ''data-citation'') (decode_json H) of
        Some (JObj ob) \<Rightarrow> (case get_prop ob ''citationItems'' of
           Some (JArr cs) \<Rightarrow> (case pull_all stored cs of
              (stored', Some cs') \<Rightarrow> (stored', map_set ''data-citation'' (encode_json (JObj (map_set ''citationItems'' (JArr cs') ob))) a)
            | (stored', None) \<Rightarrow> (stored', a))
         | _ \<Rightarrow> (stored, a))
      | _ \<Rightarrow> (stored, a))"

definition KEPT_OF_ANNOTATION :: "string list" where
  "KEPT_OF_ANNOTATION = [''uri'', ''text'', ''color'', ''pageLabel'', ''position'', ''citationItem'']"

definition prop_of :: "json \<Rightarrow> string \<Rightarrow> json option" where
  "prop_of j k = (case j of JObj ob \<Rightarrow> get_prop ob k | _ \<Rightarrow> None)"

definition kept_of :: "json \<Rightarrow> json" where
  "kept_of j = JObj (List.map_filter (\<lambda>k. map_option (Pair k) (prop_of j k)) KEPT_OF_ANNOTATION)"

definition upgrade_annotation :: "html_library \<Rightarrow> json list \<Rightarrow> attrs \<Rightarrow> json list \<times> attrs" where
  "upgrade_annotation H stored a =
     (case Option.bind (map_of a ''data-annotation'') (decode_json H) of
        None \<Rightarrow> (stored, a)
      | Some JNull \<Rightarrow> (stored, a)
      | Some j \<Rightarrow>
          (if truthy (prop_of j ''citationItem'') then
             (case pullItemData stored (the (prop_of j ''citationItem'')) of
                None \<Rightarrow> (stored, a)
              | Some (stored', c) \<Rightarrow> (stored', map_set ''data-annotation''
                  (encode_json (kept_of (case j of JObj ob \<Rightarrow> JObj (map_set ''citationItem'' c ob) | _ \<Rightarrow> j))) a))
           else (stored, map_set ''data-annotation'' (encode_json (kept_of j)) a)))"

definition in_class :: "string \<Rightarrow> attrs \<Rightarrow> bool" where
  "in_class c a \<longleftrightarrow> (case map_of a ''class'' of None \<Rightarrow> False | Some v \<Rightarrow> c \<in> set (split_space v))"

text \<open>The elements in the order of the document, an element before what is in it.\<close>

fun pass :: "(json list \<Rightarrow> attrs \<Rightarrow> json list \<times> attrs) \<Rightarrow> json list \<Rightarrow> dom \<Rightarrow> json list \<times> dom"
  and pass_all :: "(json list \<Rightarrow> attrs \<Rightarrow> json list \<times> attrs) \<Rightarrow> json list \<Rightarrow> dom list \<Rightarrow> json list \<times> dom list" where
  "pass f stored (Elem tag a cs) =
     (let (stored1, a') = f stored a; (stored2, cs') = pass_all f stored1 cs in (stored2, Elem tag a' cs'))"
| "pass f stored (Text s) = (stored, Text s)"
| "pass f stored (Comment s) = (stored, Comment s)"
| "pass_all f stored [] = (stored, [])"
| "pass_all f stored (d # ds) = (let (stored1, d') = pass f stored d; (stored2, ds') = pass_all f stored1 ds in (stored2, d' # ds'))"

definition citation_step :: "html_library \<Rightarrow> json list \<Rightarrow> attrs \<Rightarrow> json list \<times> attrs" where
  "citation_step H stored a = (if in_class ''citation'' a \<and> map_of a ''data-citation'' \<noteq> None then upgrade_citation H stored a else (stored, a))"

definition annotation_step :: "html_library \<Rightarrow> json list \<Rightarrow> attrs \<Rightarrow> json list \<times> attrs" where
  "annotation_step H stored a = (if map_of a ''data-annotation'' \<noteq> None then upgrade_annotation H stored a else (stored, a))"

definition stored_before :: "html_library \<Rightarrow> attrs \<Rightarrow> json list" where
  "stored_before H a = (case Option.bind (map_of a ''data-citation-items'') (decode_json H) of Some (JArr items) \<Rightarrow> items | _ \<Rightarrow> [])"

fun mark_upgraded :: "json list \<Rightarrow> dom \<Rightarrow> dom" where
  "mark_upgraded stored (Elem tag a cs) =
     Elem tag (map_set ''data-schema-version'' ''2'' (if stored \<noteq> [] then map_set ''data-citation-items'' (encode_json (JArr stored)) a else a)) cs"
| "mark_upgraded stored node = node"

fun update_first :: "('a \<Rightarrow> bool) \<Rightarrow> ('a \<Rightarrow> 'a) \<Rightarrow> 'a list \<Rightarrow> 'a list" where
  "update_first P f [] = []"
| "update_first P f (x # xs) = (if P x then f x # xs else x # update_first P f xs)"

definition upgrade_body :: "html_library \<Rightarrow> dom list \<Rightarrow> dom list option" where
  "upgrade_body H body = (case List.find is_container body of
     Some (Elem _ a _) \<Rightarrow>
       (if parseInt (ascii (the (map_of a ''data-schema-version''))) \<noteq> Some 1 then None
        else (let (stored1, body1) = pass_all (citation_step H) (stored_before H a) body;
                  (stored2, body2) = pass_all (annotation_step H) stored1 body1
              in Some (update_first is_container (mark_upgraded stored2) body2)))
   | _ \<Rightarrow> None)"

definition upgradeSchemaV1 :: "html_library \<Rightarrow> string \<Rightarrow> string" where
  "upgradeSchemaV1 H html = (case upgrade_body H (body_of H html) of None \<Rightarrow> html | Some body \<Rightarrow> inner_html H body)"

section \<open>A parsed document\<close>

text \<open>Nodes by the name of their type and their attributes; a mark by its name.\<close>

datatype 'a node =
  TextNode string "string list"
| Node string 'a "string list" "'a node list"

text \<open>\<open>None\<close> where the original changes nothing.\<close>

fun corrected :: "'a node \<Rightarrow> 'a node" where
  "corrected (TextNode s ms) = TextNode s ms"
| "corrected (Node name as ms ns) =
     Node name as (if name = ''image'' \<and> ms \<noteq> [] then [] else filter (\<lambda>m. m \<noteq> ''code'') ms) (map corrected ns)"

fun needs_correction :: "'a node \<Rightarrow> bool" where
  "needs_correction (TextNode _ _) = False"
| "needs_correction (Node name as ms ns) = (name = ''image'' \<and> ms \<noteq> [] \<or> ''code'' \<in> set ms \<or> (\<exists>n\<in>set ns. needs_correction n))"

definition schemaTransform :: "'a node list \<Rightarrow> 'a node list option" where
  "schemaTransform doc = (if \<exists>n\<in>set doc. needs_correction n then Some (map corrected doc) else None)"

section \<open>Writing\<close>

text \<open>The text of an atom is left alone, and so is a text with nothing to replace.\<close>

definition NBSP :: char where
  "NBSP = CHR 0xA0"

fun sequential_spaces :: "string \<Rightarrow> string" where
  "sequential_spaces (a # b # s) =
     (if a = CHR '' '' \<and> b = CHR '' '' then a # NBSP # sequential_spaces s else a # sequential_spaces (b # s))"
| "sequential_spaces s = s"

fun withSequentialSpaces :: "(string \<Rightarrow> bool) \<Rightarrow> 'a node \<Rightarrow> 'a node" where
  "withSequentialSpaces isAtom (TextNode s ms) = TextNode (sequential_spaces s) ms"
| "withSequentialSpaces isAtom (Node name as ms ns) =
     (if isAtom name then Node name as ms ns else Node name as ms (map (withSequentialSpaces isAtom) ns))"

definition TEXT_NODES :: "string list" where
  "TEXT_NODES = [''h1'', ''h2'', ''h3'', ''h4'', ''h5'', ''h6'', ''p'', ''pre'']"

definition BLOCK_NODES :: "string list" where
  "BLOCK_NODES = [''ol'', ''ul'', ''li'', ''hr'', ''blockquote'', ''table'', ''th'', ''tr'', ''td'', ''thead'', ''tbody'', ''tfoot'']"

definition newline :: dom where
  "newline = Text [CHR 0x0A]"

text \<open>A line break before the content of a block, and one after a block or a line of text.\<close>

fun spaced :: "dom \<Rightarrow> dom list" where
  "spaced (Elem tag a cs) =
     (let cs' = concat (map spaced cs) in
      Elem tag a (if tag \<in> set BLOCK_NODES then newline # cs' else cs') #
      (if tag \<in> set TEXT_NODES \<or> tag \<in> set BLOCK_NODES then [newline] else []))"
| "spaced node = [node]"

fun is_paragraph :: "dom \<Rightarrow> bool" where
  "is_paragraph (Elem tag _ _) = (tag = ''p'')"
| "is_paragraph _ = False"

fun content_of :: "dom \<Rightarrow> dom list" where
  "content_of (Elem _ _ cs) = cs"
| "content_of _ = []"

text \<open>An item with one paragraph and no other element has the content of the paragraph instead.\<close>

definition unwrapped :: "dom list \<Rightarrow> dom list" where
  "unwrapped cs = (case filter is_elem cs of
     [p] \<Rightarrow> if is_paragraph p then concat (map (\<lambda>c. if is_elem c then content_of c else [c]) cs) else cs
   | _ \<Rightarrow> cs)"

fun unwrap_items :: "dom \<Rightarrow> dom" where
  "unwrap_items (Elem tag a cs) =
     (let cs' = map unwrap_items cs in Elem tag a (if tag = ''li'' then unwrapped cs' else cs'))"
| "unwrap_items node = node"

fun underlined :: "dom \<Rightarrow> bool" where
  "underlined (Elem tag a cs) = (tag = ''span'' \<and> in_class ''underline'' a \<or> (\<exists>c\<in>set cs. underlined c))"
| "underlined _ = False"

record 'a editor_library =
  html :: html_library
  is_textblock :: "string \<Rightarrow> bool"
  is_atom :: "string \<Rightarrow> bool"
  render :: "Metadata \<Rightarrow> 'a node list \<Rightarrow> dom list"
  parse_document :: "dom list \<Rightarrow> 'a node list"
  fix_tables :: "'a node list \<Rightarrow> 'a node list option"
  normalize_NFC :: "string \<Rightarrow> string"
  write_items :: "CitationItem list \<Rightarrow> codes"
  read_items :: "codes \<Rightarrow> CitationItem list option"
  citations_in :: "'a node list \<Rightarrow> cited_node list"

definition from_codes :: "codes \<Rightarrow> string" where
  "from_codes t = map char_of t"

text \<open>\<open>Object.keys(..).sort()\<close>: of the two there may be, \<open>data-citation-items\<close> is the lesser.\<close>

fun text_order :: "string \<Rightarrow> string \<Rightarrow> int" where
  "text_order [] [] = 0"
| "text_order [] (_ # _) = -1"
| "text_order (_ # _) [] = 1"
| "text_order (x # xs) (y # ys) = (if (of_char x :: nat) < of_char y then -1 else if (of_char y :: nat) < of_char x then 1 else text_order xs ys)"

definition container_attributes :: "'a editor_library \<Rightarrow> Metadata \<Rightarrow> attrs" where
  "container_attributes L m =
     sort_by (\<lambda>(j, _) (k, _). text_order j k) (map (\<lambda>(k, v). (k, from_codes v)) (serializeAttributes (write_items L) m))"

definition empty_note :: "'a editor_library \<Rightarrow> 'a node list \<Rightarrow> bool" where
  "empty_note L content \<longleftrightarrow> (case content of [Node name _ _ []] \<Rightarrow> is_textblock L name | _ \<Rightarrow> False)"

definition note_tree :: "'a editor_library \<Rightarrow> 'a node list \<Rightarrow> Metadata \<Rightarrow> dom" where
  "note_tree L content m =
     (let rendered = render L m (map (withSequentialSpaces (is_atom L)) content);
          children = map unwrap_items (concat (map spaced rendered));
          a = container_attributes L m
      in Elem ''div'' (if SCHEMA_VERSION = 10 \<and> \<not> (\<exists>c\<in>set children. underlined c) then map_set ''data-schema-version'' ''9'' a else a) children)"

definition serializeNote :: "'a editor_library \<Rightarrow> 'a node list \<Rightarrow> Metadata \<Rightarrow> string" where
  "serializeNote L content m =
     (if empty_note L content then '''' else normalize_NFC L (trim (inner_html (html L) [note_tree L content m])))"

section \<open>Reading\<close>

record 'a loaded_note =
  loaded_doc :: "'a node list"
  loaded_metadata :: Metadata
  unsupportedSchema :: bool

definition parseNote :: "'a editor_library \<Rightarrow> bool \<Rightarrow> string \<Rightarrow> 'a loaded_note" where
  "parseNote L editable text =
     (let (body, metadataAttributes) = preprocessHTML (html L) (if editable then upgradeSchemaV1 (html L) text else text);
          metadata = parseAttributes (read_items L) (map (\<lambda>(k, v). (k, ascii v)) metadataAttributes) new_metadata;
          unsupported = SCHEMA_VERSION < schemaVersion metadata;
          doc = parse_document L (body_of (html L) body);
          doc = (case schemaTransform doc of Some d \<Rightarrow> d | None \<Rightarrow> doc);
          doc = (case fix_tables L doc of Some d \<Rightarrow> d | None \<Rightarrow> doc);
          metadata = (if editable \<and> \<not> unsupported then fst (deleteUnusedCitationItems (citations_in L doc) metadata) else metadata)
      in \<lparr>loaded_doc = doc, loaded_metadata = metadata, unsupportedSchema = unsupported\<rparr>)"

section \<open>Spaces\<close>

lemma spaces_hd: "sequential_spaces s \<noteq> [] \<Longrightarrow> hd (sequential_spaces s) = hd s"
  by (induction s rule: sequential_spaces.induct) auto

lemma spaces_length [simp]: "length (sequential_spaces s) = length s"
  by (induction s rule: sequential_spaces.induct) auto

definition breakable :: "char \<Rightarrow> char" where
  "breakable c = (if c = NBSP then CHR '' '' else c)"

lemma spaces_back: "map breakable (sequential_spaces s) = map breakable s"
  by (induction s rule: sequential_spaces.induct) (auto simp: breakable_def)

text \<open>A run of spaces cannot collapse: no two plain ones stand together.\<close>

fun collapses :: "string \<Rightarrow> bool" where
  "collapses (a # b # s) = (a = CHR '' '' \<and> b = CHR '' '' \<or> collapses (b # s))"
| "collapses _ = False"

lemma collapses_Cons: "collapses (a # s) \<longleftrightarrow> s \<noteq> [] \<and> a = CHR '' '' \<and> hd s = CHR '' '' \<or> collapses s"
  by (cases s) auto

lemma spaces_stay: "\<not> collapses (sequential_spaces s)"
proof (induction s rule: sequential_spaces.induct)
  case (1 a b s)
  then show ?case
  proof (cases "a = CHR '' '' \<and> b = CHR '' ''")
    case True
    with 1 show ?thesis by (simp add: collapses_Cons [of _ "sequential_spaces s"] NBSP_def)
  next
    case False
    then have r: "sequential_spaces (a # b # s) = a # sequential_spaces (b # s)" by auto
    have "sequential_spaces (b # s) \<noteq> []" using spaces_length [of "b # s"] by (metis length_0_conv list.distinct(1))
    with spaces_hd [of "b # s"] False have "a = CHR '' '' \<Longrightarrow> hd (sequential_spaces (b # s)) \<noteq> CHR '' ''" by auto
    with 1(2) False show ?thesis unfolding r collapses_Cons [of a] by blast
  qed
qed auto

fun texts :: "'a node \<Rightarrow> string list" where
  "texts (TextNode s _) = [s]"
| "texts (Node _ _ _ ns) = concat (map texts ns)"

fun editable_texts :: "(string \<Rightarrow> bool) \<Rightarrow> 'a node \<Rightarrow> string list" where
  "editable_texts isAtom (TextNode s _) = [s]"
| "editable_texts isAtom (Node name _ _ ns) = (if isAtom name then [] else concat (map (editable_texts isAtom) ns))"

lemma editable_spaced: "editable_texts isAtom (withSequentialSpaces isAtom n) = map sequential_spaces (editable_texts isAtom n)"
  by (induction n) (auto simp: map_concat comp_def intro: arg_cong [where f = concat])

lemma texts_spaced: "map (map breakable) (texts (withSequentialSpaces isAtom n)) = map (map breakable) (texts n)"
  by (induction n) (auto simp: spaces_back map_concat comp_def intro: arg_cong [where f = concat])

text \<open>In a note that is written no run of spaces of a text collapses in a browser, outside atoms, which are
  not touched; and reading non-breaking spaces as spaces gives every text back, at its length.\<close>

theorem spaces_survive:
  "(\<forall>t\<in>set (editable_texts isAtom (withSequentialSpaces isAtom n)). \<not> collapses t) \<and>
   map (map breakable) (texts (withSequentialSpaces isAtom n)) = map (map breakable) (texts n) \<and>
   (isAtom name \<longrightarrow> withSequentialSpaces isAtom (Node name as ms ns) = Node name as ms ns)"
  by (auto simp: editable_spaced spaces_stay texts_spaced)

theorem spaces_survive_witness:
  "withSequentialSpaces (\<lambda>t. t = ''math_inline'') (Node ''p'' () [] [TextNode ''a   b'' [], Node ''math_inline'' () [] [TextNode ''x  y'' []]]) =
     Node ''p'' () [] [TextNode [CHR ''a'', CHR '' '', NBSP, CHR '' '', CHR ''b''] [], Node ''math_inline'' () [] [TextNode ''x  y'' []]] \<and>
   \<not> collapses (sequential_spaces ''a   b'')"
  using spaces_survive [of "\<lambda>t. t = ''math_inline''" "TextNode ''a   b'' [] :: unit node" "''math_inline''" "()" "[]" "[TextNode ''x  y'' []]"]
  by simp

section \<open>Line breaks\<close>

text \<open>A tree without the texts that are only a line break.\<close>

fun joined :: "dom \<Rightarrow> dom" where
  "joined (Elem tag a cs) = Elem tag a (filter (\<lambda>c. c \<noteq> newline) (map joined cs))"
| "joined node = node"

fun no_breaks :: "dom \<Rightarrow> bool" where
  "no_breaks (Elem _ _ cs) = (\<forall>c\<in>set cs. no_breaks c)"
| "no_breaks node = (node \<noteq> newline)"

lemma joined_newline: "joined d = newline \<longleftrightarrow> d = newline"
  by (cases d) (auto simp: newline_def)

lemma joined_spaced: "no_breaks d \<Longrightarrow> filter (\<lambda>c. c \<noteq> newline) (map joined (spaced d)) = [d]"
proof (induction d)
  case (Elem tag a cs)
  have "filter (\<lambda>c. c \<noteq> newline) (map joined (concat (map spaced cs))) = concat (map (\<lambda>c. filter (\<lambda>c. c \<noteq> newline) (map joined (spaced c))) cs)"
    by (simp add: map_concat filter_concat comp_def)
  also have "\<dots> = concat (map (\<lambda>c. [c]) cs)" using Elem by (intro arg_cong [where f = concat] map_cong) auto
  finally show ?case by (auto simp: newline_def Let_def)
qed (auto simp: newline_def)

lemma is_elem_joined [simp]: "is_elem (joined d) = is_elem d"
  by (cases d) auto

lemma content_joined: "content_of (joined d) = filter (\<lambda>c. c \<noteq> newline) (map joined (content_of d))"
  by (cases d) auto

lemma is_paragraph_joined [simp]: "is_paragraph (joined d) = is_paragraph d"
  by (cases d) auto

lemma joined_idem: "filter (\<lambda>c. c \<noteq> newline) (map joined (filter (\<lambda>c. c \<noteq> newline) (map joined cs))) = filter (\<lambda>c. c \<noteq> newline) (map joined cs)"
  if "\<And>c. c \<in> set cs \<Longrightarrow> joined (joined c) = joined c"
  using that by (induction cs) (auto simp: joined_newline)

lemma newline_no_elem: "is_elem c \<Longrightarrow> c \<noteq> newline"
  by (auto simp: newline_def)

lemma unwrapped_joined:
  "filter (\<lambda>c. c \<noteq> newline) (map joined (unwrapped cs)) = filter (\<lambda>c. c \<noteq> newline) (unwrapped (filter (\<lambda>c. c \<noteq> newline) (map joined cs)))"
proof -
  let ?keep = "filter (\<lambda>c. c \<noteq> newline)"
  have e: "filter is_elem (?keep (map joined cs)) = map joined (filter is_elem cs)" for cs
    by (induction cs) (auto simp: joined_newline newline_no_elem)
  have k: "?keep (map joined (concat (map (\<lambda>c. if is_elem c then content_of c else [c]) cs))) =
      ?keep (concat (map (\<lambda>c. if is_elem c then content_of c else [c]) (?keep (map joined cs))))" for cs
    by (induction cs) (auto simp: joined_newline newline_no_elem content_joined)
  show ?thesis
  proof (cases "\<exists>p. filter is_elem cs = [p] \<and> is_paragraph p")
    case True
    then obtain p where p: "filter is_elem cs = [p]" "is_paragraph p" by blast
    with e [of cs] k [of cs] show ?thesis by (simp add: unwrapped_def)
  next
    case False
    then have "unwrapped cs = cs" by (auto simp: unwrapped_def split: list.split)
    moreover have "unwrapped (?keep (map joined cs)) = ?keep (map joined cs)"
      using False e [of cs] by (auto simp: unwrapped_def map_eq_Cons_conv split: list.split)
    ultimately show ?thesis by simp
  qed
qed

lemma unwrap_newline: "unwrap_items d = newline \<longleftrightarrow> d = newline"
  by (cases d) (auto simp: newline_def Let_def)

lemma unwrap_joined: "joined (unwrap_items (joined d)) = joined (unwrap_items d)"
proof (induction d)
  case (Elem tag a cs)
  let ?keep = "filter (\<lambda>c. c \<noteq> newline)"
  have s: "?keep (map joined (map unwrap_items (?keep (map joined cs)))) = ?keep (map joined (map unwrap_items cs))"
    using Elem by (induction cs) (auto simp: joined_newline unwrap_newline)
  have "?keep (map joined (unwrapped (map unwrap_items (?keep (map joined cs))))) = ?keep (map joined (unwrapped (map unwrap_items cs)))"
    unfolding unwrapped_joined s ..
  with s show ?case by (simp add: Let_def)
qed auto

lemma spaced_parts: "no_breaks d \<Longrightarrow> \<exists>d'. (spaced d = [d'] \<or> spaced d = [d', newline]) \<and> joined d' = d"
proof -
  assume n: "no_breaks d"
  have "\<exists>d'. (spaced d = [d'] \<or> spaced d = [d', newline]) \<and> d' \<noteq> newline"
    using n by (cases d) (auto simp: newline_def Let_def)
  then obtain d' where d': "spaced d = [d'] \<or> spaced d = [d', newline]" "d' \<noteq> newline" by blast
  moreover have "joined newline = newline" by (simp add: newline_def)
  ultimately have d': "spaced d = [d'] \<or> spaced d = [d', newline]" "d' \<noteq> newline" "joined newline = newline" by auto
  with joined_spaced [OF n] have "joined d' = d" by (auto simp: joined_newline)
  with d'(1) show ?thesis by blast
qed

lemma joined_written: "no_breaks d \<Longrightarrow> filter (\<lambda>c. c \<noteq> newline) (map joined (map unwrap_items (spaced d))) = [joined (unwrap_items d)]"
proof -
  assume n: "no_breaks d"
  from spaced_parts [OF n] obtain d' where d': "spaced d = [d'] \<or> spaced d = [d', newline]" "joined d' = d" by blast
  with unwrap_joined [of d'] have j: "joined (unwrap_items d') = joined (unwrap_items d)" by simp
  have "d \<noteq> newline" using n by (cases d) (auto simp: newline_def)
  then have "joined (unwrap_items d') \<noteq> newline" using j by (simp add: joined_newline unwrap_newline)
  moreover have "joined (unwrap_items newline) = newline" by (simp add: newline_def)
  ultimately show ?thesis using d'(1) j by auto
qed

lemma bex_concat_map: "(\<exists>d\<in>set (concat (map f cs)). P d) \<longleftrightarrow> (\<exists>c\<in>set cs. \<exists>d\<in>set (f c). P d)"
  by auto

lemma underlined_unwrapped: "(\<exists>c\<in>set (unwrapped cs). underlined c) \<longleftrightarrow> (\<exists>c\<in>set cs. underlined c)"
proof (cases "\<exists>p. filter is_elem cs = [p] \<and> is_paragraph p")
  case True
  then obtain p where p: "filter is_elem cs = [p]" "is_paragraph p" by blast
  have e: "c \<in> set (filter is_elem cs) \<longleftrightarrow> c = p" for c using p by simp
  from e have s: "\<forall>c\<in>set cs. is_elem c \<longrightarrow> c = p" "p \<in> set cs" "is_elem p"
    unfolding set_filter mem_Collect_eq by blast+
  have u: "underlined p \<longleftrightarrow> (\<exists>c\<in>set (content_of p). underlined c)" using p(2) by (cases p) auto
  have n: "\<not> is_elem c \<Longrightarrow> \<not> underlined c" for c by (cases c) auto
  have k: "(\<exists>d\<in>set (if is_elem c then content_of c else [c]). underlined d) \<longleftrightarrow> underlined c" if "c \<in> set cs" for c
  proof (cases "is_elem c")
    case True
    with s that have c: "c = p" by blast
    show ?thesis unfolding c using s(3) u by (simp only: if_True)
  qed (use n in simp)
  have "(\<exists>c\<in>set (concat (map (\<lambda>c. if is_elem c then content_of c else [c]) cs)). underlined c) \<longleftrightarrow> (\<exists>c\<in>set cs. underlined c)"
    by (rule trans [OF bex_concat_map bex_cong [OF refl k]])
  with p show ?thesis by (simp add: unwrapped_def)
next
  case False
  then have "unwrapped cs = cs" by (auto simp: unwrapped_def split: list.split)
  then show ?thesis by simp
qed

lemma underlined_unwrap: "underlined (unwrap_items d) \<longleftrightarrow> underlined d"
  by (induction d) (auto simp: Let_def underlined_unwrapped)

lemma underlined_spaced: "(\<exists>c\<in>set (spaced d). underlined c) \<longleftrightarrow> underlined d"
  by (induction d) (auto simp: Let_def newline_def)

text \<open>What is written of a note is what its document renders to, with line breaks put in and the paragraph of an
  item that has no other element taken away, and nothing else: without the line breaks it is the
  rendered tree so unwrapped.  It says it is of version 9, which older editors may change, unless
  an annotation is underlined; and an empty note is written as no text at all.\<close>

theorem written_tree:
  assumes "\<forall>d\<in>set (render L m (map (withSequentialSpaces (is_atom L)) content)). no_breaks d"
  shows "let rendered = render L m (map (withSequentialSpaces (is_atom L)) content) in
    \<exists>a cs. note_tree L content m = Elem ''div'' a cs \<and>
      filter (\<lambda>c. c \<noteq> newline) (map joined cs) = map (joined \<circ> unwrap_items) rendered \<and>
      map_of a ''data-schema-version'' = Some (if \<exists>d\<in>set rendered. underlined d then ''10'' else ''9'') \<and>
      (map_of a ''data-citation-items'' = None \<longleftrightarrow> citationItems m = []) \<and>
      serializeNote L [Node name as ms []] m =
        (if is_textblock L name then '''' else normalize_NFC L (trim (inner_html (html L) [note_tree L [Node name as ms []] m])))"
proof -
  let ?r = "render L m (map (withSequentialSpaces (is_atom L)) content)"
  let ?cs = "map unwrap_items (concat (map spaced ?r))"
  have "filter (\<lambda>c. c \<noteq> newline) (map joined ?cs) = concat (map (\<lambda>d. filter (\<lambda>c. c \<noteq> newline) (map joined (map unwrap_items (spaced d)))) ?r)"
    by (simp add: map_concat filter_concat comp_def)
  also have "\<dots> = concat (map (\<lambda>d. [joined (unwrap_items d)]) ?r)"
    using assms joined_written by (intro arg_cong [where f = concat] map_cong) auto
  finally have j: "filter (\<lambda>c. c \<noteq> newline) (map joined ?cs) = map (joined \<circ> unwrap_items) ?r" by simp
  have u: "(\<exists>c\<in>set ?cs. underlined c) \<longleftrightarrow> (\<exists>d\<in>set ?r. underlined d)"
    using underlined_spaced by (force simp: underlined_unwrap)
  have v: "from_codes (show_number SCHEMA_VERSION) = ''10''"
    by (simp add: from_codes_def SCHEMA_VERSION_def show_number_def ascii_def show_int_def show_nat.simps digit_char_def comp_def char_of_def bit_0 bit_Suc)
  have "container_attributes L m = (if citationItems m = [] then [] else [(''data-citation-items'', from_codes (write_items L (citationItems m)))]) @
      [(''data-schema-version'', ''10'')]"
    by (simp add: container_attributes_def serializeAttributes_def v sort_by_def)
  then show ?thesis unfolding Let_def
    using j u by (auto simp: note_tree_def Let_def SCHEMA_VERSION_def serializeNote_def empty_note_def)
qed

definition sample_html :: html_library where
  "sample_html = \<lparr>html_browser = plain_browser, body_of = (\<lambda>_. []), inner_html = (\<lambda>_. ''?''),
     decode_json = (\<lambda>t. if t = ''c'' then Some (JObj [(''citationItems'', JArr [JObj [(''uris'', JArr [JStr ''u'']), (''itemData'', JStr ''d'')]])]) else None)\<rparr>"

definition sample_editor :: "unit editor_library" where
  "sample_editor = \<lparr>html = sample_html, is_textblock = (\<lambda>n. n = ''paragraph''), is_atom = (\<lambda>_. False),
     render = (\<lambda>_ _. [Elem ''ul'' [] [Elem ''li'' [] [Elem ''p'' [] [Text ''x'']]]]), parse_document = (\<lambda>_. []),
     fix_tables = (\<lambda>_. None), normalize_NFC = id, write_items = (\<lambda>_. [1]), read_items = (\<lambda>_. None), citations_in = (\<lambda>_. [])\<rparr>"

theorem written_tree_witness:
  "\<exists>a cs. note_tree sample_editor [] new_metadata = Elem ''div'' a cs \<and>
     filter (\<lambda>c. c \<noteq> newline) (map joined cs) = [Elem ''ul'' [] [Elem ''li'' [] [Text ''x'']]] \<and>
     map_of a ''data-schema-version'' = Some ''9''"
proof -
  have "\<forall>d\<in>set (render sample_editor new_metadata (map (withSequentialSpaces (is_atom sample_editor)) [])). no_breaks d"
    by (simp add: sample_editor_def newline_def)
  from written_tree [OF this] show ?thesis
    by (fastforce simp: Let_def sample_editor_def unwrapped_def newline_def in_class_def)
qed

section \<open>The upgrade\<close>

text \<open>Every element's attributes, in the order of the document.\<close>

fun elements :: "dom \<Rightarrow> attrs list" where
  "elements (Elem _ a cs) = a # concat (map elements cs)"
| "elements _ = []"

abbreviation elements_of :: "dom list \<Rightarrow> attrs list" where
  "elements_of ds \<equiv> concat (map elements ds)"

definition data_attribute :: "string \<Rightarrow> bool" where
  "data_attribute k \<longleftrightarrow> k \<in> {''data-citation'', ''data-annotation'', ''data-citation-items'', ''data-schema-version''}"

definition other_attributes :: "attrs \<Rightarrow> attrs" where
  "other_attributes a = filter (\<lambda>(k, _). \<not> data_attribute k) a"

fun apart_from_data :: "dom \<Rightarrow> dom" where
  "apart_from_data (Elem tag a cs) = Elem tag (other_attributes a) (map apart_from_data cs)"
| "apart_from_data node = node"

text \<open>
  What both passes are: they may only add to what is stored, and touch only the attributes that hold
  data.  \<open>Q stored a a'\<close> is what a step promises of an element when that much is stored.
\<close>

locale upgrade_pass =
  fixes f :: "json list \<Rightarrow> attrs \<Rightarrow> json list \<times> attrs" and Q :: "json list \<Rightarrow> attrs \<Rightarrow> attrs \<Rightarrow> bool"
  assumes stores: "Sublist.prefix stored (fst (f stored a))"
    and others: "other_attributes (snd (f stored a)) = other_attributes a"
    and version: "map_of (snd (f stored a)) ''data-schema-version'' = map_of a ''data-schema-version''"
    and promised: "Q (fst (f stored a)) a (snd (f stored a))"
    and keeps: "Q stored a a' \<Longrightarrow> Sublist.prefix stored stored' \<Longrightarrow> Q stored' a a'"
begin

definition contract :: "json list \<Rightarrow> dom list \<Rightarrow> json list \<times> dom list \<Rightarrow> bool" where
  "contract s ds r \<longleftrightarrow> Sublist.prefix s (fst r) \<and> map apart_from_data (snd r) = map apart_from_data ds \<and>
     map is_container (snd r) = map is_container ds \<and> list_all2 (Q (fst r)) (elements_of ds) (elements_of (snd r))"

lemma promised_more: "list_all2 (Q s) as bs \<Longrightarrow> Sublist.prefix s s' \<Longrightarrow> list_all2 (Q s') as bs"
  by (erule list_all2_mono) (rule keeps)

lemma pass_all_contract:
  assumes "\<And>d s. d \<in> set ds \<Longrightarrow> contract s [d] (fst (pass f s d), [snd (pass f s d)])"
  shows "contract s ds (pass_all f s ds)"
  using assms
proof (induction ds arbitrary: s)
  case (Cons d ds)
  let ?a = "pass f s d" and ?b = "pass_all f (fst (pass f s d)) ds"
  have "contract s [d] (fst ?a, [snd ?a])" "contract (fst ?a) ds ?b" using Cons by auto
  then have "contract s (d # ds) (fst ?b, snd ?a # snd ?b)"
    unfolding contract_def by (auto intro!: list_all2_appendI intro: prefix_order.trans promised_more)
  then show ?case by (simp add: case_prod_unfold Let_def)
qed (simp add: contract_def)

lemma pass_contract: "contract s [d] (fst (pass f s d), [snd (pass f s d)])"
proof (induction d arbitrary: s)
  case (Elem tag a cs)
  let ?s = "fst (f s a)"
  have "contract ?s cs (pass_all f ?s cs)" using Elem by (intro pass_all_contract)
  moreover have "Q (fst (pass_all f ?s cs)) a (snd (f s a))" using calculation keeps [OF promised] by (simp add: contract_def)
  ultimately show ?case using stores [of s a] others [of s a] version [of s a]
    by (auto simp: contract_def case_prod_unfold Let_def intro: prefix_order.trans)
qed (simp_all add: contract_def)

lemma passed: "contract s ds (pass_all f s ds)"
  by (rule pass_all_contract) (rule pass_contract)

end

text \<open>The data of an item are stored, or data for one of its URIs are.\<close>

definition data_held :: "json list \<Rightarrow> object \<Rightarrow> bool" where
  "data_held stored ob \<longleftrightarrow> (\<exists>item\<in>set stored. shares_any (get_prop ob ''uris'') item = Some True \<or>
     item = stored_item (get_prop ob ''uris'') (the (get_prop ob ''itemData'')))"

definition with_data :: "json \<Rightarrow> object option" where
  "with_data c = (case c of JObj ob \<Rightarrow> if truthy (get_prop ob ''itemData'') then Some ob else None | _ \<Rightarrow> None)"

definition cited_data :: "html_library \<Rightarrow> attrs \<Rightarrow> object list" where
  "cited_data H a = (case Option.bind (map_of a ''data-citation'') (decode_json H) of
     Some (JObj ob) \<Rightarrow> (case get_prop ob ''citationItems'' of Some (JArr cs) \<Rightarrow> List.map_filter with_data cs | _ \<Rightarrow> [])
   | _ \<Rightarrow> [])"

definition annotated_data :: "html_library \<Rightarrow> attrs \<Rightarrow> object list" where
  "annotated_data H a = (case Option.bind (map_of a ''data-annotation'') (decode_json H) of
     None \<Rightarrow> [] | Some j \<Rightarrow> List.map_filter with_data (case prop_of j ''citationItem'' of Some c \<Rightarrow> [c] | None \<Rightarrow> []))"

text \<open>What happens to one attribute of an element: nothing to the others, and if it changes then its data are held.\<close>

definition moved :: "string \<Rightarrow> (attrs \<Rightarrow> object list) \<Rightarrow> json list \<Rightarrow> attrs \<Rightarrow> attrs \<Rightarrow> bool" where
  "moved name data stored a a' \<longleftrightarrow> (\<forall>k. k \<noteq> name \<longrightarrow> map_of a' k = map_of a k) \<and>
     (a' = a \<or> (\<forall>ob\<in>set (data a). data_held stored ob))"

lemma some_of_True: "some_of f xs = Some True \<Longrightarrow> \<exists>x\<in>set xs. f x = Some True"
  by (induction xs) (auto split: option.splits bool.splits)

lemma data_held_more: "data_held stored ob \<Longrightarrow> Sublist.prefix stored stored' \<Longrightarrow> data_held stored' ob"
  by (auto simp: data_held_def dest: set_mono_prefix)

lemma pull_stores: "pullItemData stored c = Some (stored', c') \<Longrightarrow>
    Sublist.prefix stored stored' \<and> (\<forall>ob. with_data c = Some ob \<longrightarrow> data_held stored' ob)"
  by (auto simp: pullItemData_def with_data_def data_held_def Let_def split: json.splits if_splits option.splits dest: some_of_True)

lemma pull_all_stores: "Sublist.prefix stored (fst (pull_all stored cs)) \<and>
    (snd (pull_all stored cs) \<noteq> None \<longrightarrow> (\<forall>ob\<in>set (List.map_filter with_data cs). data_held (fst (pull_all stored cs)) ob))"
proof (induction cs arbitrary: stored)
  case (Cons c cs)
  show ?case
  proof (cases "pullItemData stored c")
    case (Some r)
    obtain stored' c' where r: "r = (stored', c')" by fastforce
    note p = pull_stores [OF Some [unfolded r]]
    from Cons [of stored'] p show ?thesis
      by (auto simp: Some r case_prod_unfold Let_def List.map_filter_simps split: option.splits
          intro: prefix_order.trans data_held_more)
  qed simp
qed (simp add: List.map_filter_simps)

lemma other_map_set: "data_attribute k \<Longrightarrow> other_attributes (map_set k v a) = other_attributes a"
  by (induction a) (auto simp: other_attributes_def split: if_splits)

interpretation citations: upgrade_pass "citation_step H" "moved ''data-citation'' (cited_data H)" for H
proof
  fix stored stored' a a'
  have "Sublist.prefix stored (fst (citation_step H stored a)) \<and>
      other_attributes (snd (citation_step H stored a)) = other_attributes a \<and>
      map_of (snd (citation_step H stored a)) ''data-schema-version'' = map_of a ''data-schema-version'' \<and>
      moved ''data-citation'' (cited_data H) (fst (citation_step H stored a)) a (snd (citation_step H stored a))"
  proof (cases "\<exists>ob cs stored' cs'. Option.bind (map_of a ''data-citation'') (decode_json H) = Some (JObj ob) \<and>
      get_prop ob ''citationItems'' = Some (JArr cs)")
    case True
    then obtain ob cs where c: "Option.bind (map_of a ''data-citation'') (decode_json H) = Some (JObj ob)"
        "get_prop ob ''citationItems'' = Some (JArr cs)" by blast
    then have d: "cited_data H a = List.map_filter with_data cs" by (simp add: cited_data_def)
    show ?thesis
      using pull_all_stores [of stored cs]
      by (auto simp: citation_step_def upgrade_citation_def c d moved_def map_of_map_set other_map_set data_attribute_def
          split: prod.split option.split)
  next
    case False
    then show ?thesis
      by (auto simp: citation_step_def upgrade_citation_def moved_def split: option.split json.split)
  qed
  then show "Sublist.prefix stored (fst (citation_step H stored a))"
    "other_attributes (snd (citation_step H stored a)) = other_attributes a"
    "map_of (snd (citation_step H stored a)) ''data-schema-version'' = map_of a ''data-schema-version''"
    "moved ''data-citation'' (cited_data H) (fst (citation_step H stored a)) a (snd (citation_step H stored a))" by auto
  show "moved ''data-citation'' (cited_data H) stored a a' \<Longrightarrow> Sublist.prefix stored stored' \<Longrightarrow> moved ''data-citation'' (cited_data H) stored' a a'"
    by (auto simp: moved_def intro: data_held_more)
qed

interpretation annotations: upgrade_pass "annotation_step H" "moved ''data-annotation'' (annotated_data H)" for H
proof
  fix stored stored' a a'
  have "Sublist.prefix stored (fst (annotation_step H stored a)) \<and>
      other_attributes (snd (annotation_step H stored a)) = other_attributes a \<and>
      map_of (snd (annotation_step H stored a)) ''data-schema-version'' = map_of a ''data-schema-version'' \<and>
      moved ''data-annotation'' (annotated_data H) (fst (annotation_step H stored a)) a (snd (annotation_step H stored a))"
  proof (cases "Option.bind (map_of a ''data-annotation'') (decode_json H)")
    case None
    then show ?thesis by (auto simp: annotation_step_def upgrade_annotation_def moved_def)
  next
    case (Some j)
    then have h: "map_of a ''data-annotation'' \<noteq> None" by (cases "map_of a ''data-annotation''") auto
    show ?thesis
    proof (cases "j \<noteq> JNull \<and> truthy (prop_of j ''citationItem'')")
      case True
      then obtain c where c: "prop_of j ''citationItem'' = Some c" "truthy (Some c)" by (metis option.exhaust truthy.simps(1))
      then obtain ob where j: "j = JObj ob" by (cases j) (auto simp: prop_of_def)
      have u: "annotation_step H stored a = (case pullItemData stored c of None \<Rightarrow> (stored, a)
          | Some (stored', c') \<Rightarrow> (stored', map_set ''data-annotation''
              (encode_json (kept_of (JObj (map_set ''citationItem'' c' ob)))) a))"
        using c h by (cases "pullItemData stored c") (auto simp: annotation_step_def upgrade_annotation_def Some j)
      have d: "annotated_data H a = List.map_filter with_data [c]" by (simp add: annotated_data_def Some c)
      show ?thesis unfolding u moved_def d
        using pull_stores [of stored c]
        by (auto simp: map_of_map_set other_map_set data_attribute_def List.map_filter_simps split: option.split)
    next
      case False
      then have "annotated_data H a = []"
        by (cases j; cases "prop_of j ''citationItem''")
          (auto simp: annotated_data_def Some with_data_def prop_of_def List.map_filter_simps split: json.split)
      with False show ?thesis
        by (cases j) (auto simp: annotation_step_def upgrade_annotation_def Some moved_def map_of_map_set other_map_set data_attribute_def)
    qed
  qed
  then show "Sublist.prefix stored (fst (annotation_step H stored a))"
    "other_attributes (snd (annotation_step H stored a)) = other_attributes a"
    "map_of (snd (annotation_step H stored a)) ''data-schema-version'' = map_of a ''data-schema-version''"
    "moved ''data-annotation'' (annotated_data H) (fst (annotation_step H stored a)) a (snd (annotation_step H stored a))" by auto
  show "moved ''data-annotation'' (annotated_data H) stored a a' \<Longrightarrow> Sublist.prefix stored stored' \<Longrightarrow>
      moved ''data-annotation'' (annotated_data H) stored' a a'"
    by (auto simp: moved_def intro: data_held_more)
qed

lemma find_update_first: "(\<And>x. P x \<Longrightarrow> P (f x)) \<Longrightarrow> List.find P (update_first P f xs) = map_option f (List.find P xs)"
  by (induction xs) auto

lemma map_update_first: "(\<And>x. P x \<Longrightarrow> g (f x) = g x) \<Longrightarrow> map g (update_first P f xs) = map g xs"
  by (induction xs) auto

lemma find_none: "List.find P xs = None \<longleftrightarrow> True \<notin> set (map P xs)"
  by (auto simp: find_None_iff)

lemma container_marked: "is_container d \<Longrightarrow> is_container (mark_upgraded s d) \<and> apart_from_data (mark_upgraded s d) = apart_from_data d"
  by (cases d) (auto simp: map_of_map_set other_map_set data_attribute_def)

definition same_references :: "attrs \<Rightarrow> attrs \<Rightarrow> bool" where
  "same_references a a' \<longleftrightarrow> (\<forall>k\<in>{''data-citation'', ''data-annotation''}. map_of a' k = map_of a k)"

lemma same_references_refl: "list_all2 same_references as as"
  by (simp add: list_all2_refl same_references_def)

lemma elements_marked:
  "list_all2 same_references (elements_of ds) (elements_of (update_first is_container (mark_upgraded s) ds))"
proof (induction ds)
  case (Cons d ds)
  have "list_all2 same_references (elements d) (elements (mark_upgraded s d))"
    by (cases d) (simp_all add: same_references_refl same_references_def map_of_map_set)
  with Cons show ?case by (simp add: list_all2_appendI same_references_refl)
qed simp

definition data_moved :: "html_library \<Rightarrow> json list \<Rightarrow> attrs \<Rightarrow> attrs \<Rightarrow> bool" where
  "data_moved H stored a a' \<longleftrightarrow>
     (map_of a' ''data-citation'' = map_of a ''data-citation'' \<or> (\<forall>ob\<in>set (cited_data H a). data_held stored ob)) \<and>
     (map_of a' ''data-annotation'' = map_of a ''data-annotation'' \<or> (\<forall>ob\<in>set (annotated_data H a). data_held stored ob))"

lemma data_moved_steps:
  assumes "moved ''data-citation'' (cited_data H) stored1 a b" "moved ''data-annotation'' (annotated_data H) stored2 b c"
    "same_references c d" "Sublist.prefix stored1 stored2"
  shows "data_moved H stored2 a d"
proof -
  have "map_of b ''data-annotation'' = map_of a ''data-annotation''" "map_of c ''data-citation'' = map_of b ''data-citation''"
    using assms(1,2) by (auto simp: moved_def)
  moreover from this(1) have "annotated_data H b = annotated_data H a" by (simp add: annotated_data_def)
  ultimately show ?thesis using assms data_held_more
    by (auto simp: data_moved_def moved_def same_references_def)
qed

lemma list_all2_three:
  assumes "list_all2 P as bs" "list_all2 Q bs cs" "list_all2 R cs ds" "\<And>a b c d. P a b \<Longrightarrow> Q b c \<Longrightarrow> R c d \<Longrightarrow> S a d"
  shows "list_all2 S as ds"
  using assms unfolding list_all2_conv_all_nth by metis

text \<open>C9: A note of the first schema is upgraded without loss: its text and its elements stay as they were, in all
  but the attributes that hold data; what was stored in the note stays stored, in its order; and
  the data of an item that is taken out of a citation or an annotation are stored, or data for one of
  its URIs already were, even when other citations cannot be read.  The note then says it is of
  the second schema and is never upgraded again.\<close>

theorem upgrade_loses_nothing:
  assumes "upgrade_body H body = Some body'"
  shows "\<exists>stored a a'. Option.bind (List.find is_container body) (\<lambda>d. Some (hd (elements d))) = Some a \<and>
    Option.bind (List.find is_container body') (\<lambda>d. Some (hd (elements d))) = Some a' \<and>
    map apart_from_data body' = map apart_from_data body \<and>
    Sublist.prefix (stored_before H a) stored \<and>
    list_all2 (data_moved H stored) (elements_of body) (elements_of body') \<and>
    map_of a' ''data-schema-version'' = Some ''2'' \<and>
    (stored \<noteq> [] \<longrightarrow> map_of a' ''data-citation-items'' = Some (encode_json (JArr stored))) \<and>
    upgrade_body H body' = None"
proof -
  from assms obtain tag a cs where c: "List.find is_container body = Some (Elem tag a cs)"
    by (auto simp: upgrade_body_def split: option.splits dom.splits)
  define r1 where "r1 = pass_all (citation_step H) (stored_before H a) body"
  define r2 where "r2 = pass_all (annotation_step H) (fst r1) (snd r1)"
  have b': "body' = update_first is_container (mark_upgraded (fst r2)) (snd r2)"
    using assms by (auto simp: upgrade_body_def c r1_def r2_def case_prod_unfold Let_def split: if_splits)
  have k1: "citations.contract H (stored_before H a) body r1" unfolding r1_def by (rule citations.passed)
  have k2: "annotations.contract H (fst r1) (snd r1) r2" unfolding r2_def by (rule annotations.passed)
  have "map is_container (snd r2) = map is_container body"
    using k1 k2 by (simp add: citations.contract_def annotations.contract_def)
  with c have "List.find is_container (snd r2) \<noteq> None" by (metis find_none option.distinct(1))
  then obtain d where d: "List.find is_container (snd r2) = Some d" by blast
  then have "is_container d" by (metis find_Some_iff)
  then obtain tag2 a2 cs2 where e: "d = Elem tag2 a2 cs2" by (cases d) auto
  let ?a = "map_set ''data-schema-version'' ''2'' (if fst r2 \<noteq> [] then map_set ''data-citation-items'' (encode_json (JArr (fst r2))) a2 else a2)"
  have f: "List.find is_container body' = Some (Elem tag2 ?a cs2)"
    unfolding b' using container_marked by (subst find_update_first) (auto simp: d e)
  have "list_all2 (data_moved H (fst r2)) (elements_of body) (elements_of body')"
    unfolding b'
  proof (rule list_all2_three [OF _ _ elements_marked])
    show "list_all2 (moved ''data-citation'' (cited_data H) (fst r1)) (elements_of body) (elements_of (snd r1))"
      using k1 by (simp add: citations.contract_def)
    show "list_all2 (moved ''data-annotation'' (annotated_data H) (fst r2)) (elements_of (snd r1)) (elements_of (snd r2))"
      using k2 by (simp add: annotations.contract_def)
    show "moved ''data-citation'' (cited_data H) (fst r1) x y \<Longrightarrow> moved ''data-annotation'' (annotated_data H) (fst r2) y z \<Longrightarrow>
        same_references z w \<Longrightarrow> data_moved H (fst r2) x w" for x y z w
      using k2 by (intro data_moved_steps) (auto simp: annotations.contract_def)
  qed
  moreover have "map apart_from_data body' = map apart_from_data body"
    unfolding b' using container_marked k1 k2 by (subst map_update_first) (auto simp: citations.contract_def annotations.contract_def)
  moreover have "Sublist.prefix (stored_before H a) (fst r2)"
    using k1 k2 by (auto simp: citations.contract_def annotations.contract_def intro: prefix_order.trans)
  moreover have "upgrade_body H body' = None"
    by (simp add: upgrade_body_def f map_of_map_set ascii_def parseInt_def white_def parse_unsigned_def numeral_digit_def parse_digits_def)
  ultimately show ?thesis
    by (intro exI [of _ "fst r2"] exI [of _ a] exI [of _ ?a]) (simp add: c f map_of_map_set)
qed

theorem upgrade_loses_nothing_witness:
  "\<exists>body'. upgrade_body sample_html [Elem ''div'' [(''data-schema-version'', ''1'')] [Elem ''span'' [(''class'', ''citation''), (''data-citation'', ''c'')] []]] = Some body' \<and>
     map apart_from_data body' = [Elem ''div'' [] [Elem ''span'' [(''class'', ''citation'')] []]] \<and> upgrade_body sample_html body' = None"
proof -
  let ?b = "[Elem ''div'' [(''data-schema-version'', ''1'')] [Elem ''span'' [(''class'', ''citation''), (''data-citation'', ''c'')] []]]"
  have "upgrade_body sample_html ?b \<noteq> None"
    by (simp add: upgrade_body_def ascii_def parseInt_def white_def parse_unsigned_def numeral_digit_def parse_digits_def case_prod_unfold Let_def)
  then obtain body' where b: "upgrade_body sample_html ?b = Some body'" by blast
  moreover have "map apart_from_data ?b = [Elem ''div'' [] [Elem ''span'' [(''class'', ''citation'')] []]]"
    by (simp add: other_attributes_def data_attribute_def)
  ultimately show ?thesis using upgrade_loses_nothing [OF b] by metis
qed

section \<open>A saved note opens again\<close>

fun without_sources :: "browser \<Rightarrow> dom \<Rightarrow> bool" where
  "without_sources B (Elem tag a cs) = (before_element B tag a = [] \<and> (\<forall>c\<in>set cs. without_sources B c))"
| "without_sources B _ = True"

lemma walk_untouched: "without_sources B d \<Longrightarrow> walk B d = [d]"
proof (induction d)
  case (Elem tag a cs)
  then have w: "map (walk B) cs = map (\<lambda>c. [c]) cs" by simp
  from Elem.prems show ?case unfolding walk.simps w by simp
qed auto

lemma version_codes: "ascii ''10'' = [49, 48]" "ascii ''9'' = [57]" "from_codes (show_number SCHEMA_VERSION) = ''10''"
  by (simp_all add: from_codes_def SCHEMA_VERSION_def show_number_def ascii_def show_int_def show_nat.simps digit_char_def comp_def
      char_of_def bit_0 bit_Suc)

lemma container_attributes_are:
  "container_attributes L m = (if citationItems m = [] then [] else [(''data-citation-items'', from_codes (write_items L (citationItems m)))]) @
      [(''data-schema-version'', ''10'')]"
  by (simp add: container_attributes_def serializeAttributes_def version_codes sort_by_def)

lemma parse_versions: "parseInt (ascii ''10'') = Some 10" "parseInt (ascii ''9'') = Some 9"
  by (simp_all add: version_codes parseInt_def white_def parse_unsigned_def numeral_digit_def parse_digits_def)



end
