(* ===== verification/NoteCommands.thy ===== *)
theory NoteCommands
  imports NoteNodes
begin

text \<open>
  What the keys and menus of the note editor do (notes/commands.ts), the watch on a typed slash
  (notes/slash.ts) and the direction of blocks in the view (notes/direction.ts).  A selection is given by what
  ProseMirror finds in it: the blocks of its range, the nodes it visits, or the characters of a block
  with their marks.  Moving list items, splitting and lifting are ProseMirror's; a command that hands
  over to it has a name for that as its result.
\<close>

section \<open>Blocks\<close>

record note_block =
  kind :: string
  b_indent :: "int option"
  b_align :: "string option"

definition supports_indent :: "string \<Rightarrow> bool" where
  "supports_indent k \<longleftrightarrow> k \<in> {''paragraph'', ''heading'', ''codeBlock''}"

definition supports_align :: "string \<Rightarrow> bool" where
  "supports_align k \<longleftrightarrow> k \<in> {''paragraph'', ''heading''}"

datatype 'a command_result =
  Refused
| HandedOver string
| Dispatched 'a

definition shift_indent :: "int \<Rightarrow> note_block \<Rightarrow> note_block option" where
  "shift_indent d b =
     (let indent = (case b_indent b of None \<Rightarrow> 0 | Some n \<Rightarrow> n) in
      if (if d = 1 then indent < MAX_INDENT else 1 \<le> indent)
      then Some (b\<lparr>b_indent := if indent + d = 0 then None else Some (indent + d)\<rparr>) else None)"

text \<open>The range is \<open>None\<close> where the selection has none; \<open>d\<close> is \<open>1\<close> or \<open>-1\<close>.\<close>

definition changeIndent :: "int \<Rightarrow> bool \<Rightarrow> note_block list option \<Rightarrow> note_block list command_result" where
  "changeIndent d inListItem blocks =
     (if inListItem then HandedOver (if 0 < d then ''sinkListItem'' else ''liftListItem'')
      else case blocks of
        None \<Rightarrow> Refused
      | Some bs \<Rightarrow>
          (if list_all (\<lambda>b. supports_indent (kind b)) bs \<and> list_ex (\<lambda>b. shift_indent d b \<noteq> None) bs
           then Dispatched (map (\<lambda>b. case shift_indent d b of Some b' \<Rightarrow> b' | None \<Rightarrow> b) bs)
           else Refused))"

definition removeBlockIndent :: "bool \<Rightarrow> note_block list option \<Rightarrow> note_block list command_result" where
  "removeBlockIndent atStart blocks = (case blocks of
     Some [b] \<Rightarrow> if supports_indent (kind b) \<and> b_indent b \<noteq> None \<and> atStart then Dispatched [b\<lparr>b_indent := None\<rparr>] else Refused
   | _ \<Rightarrow> Refused)"

definition has_align :: "string option \<Rightarrow> note_block list \<Rightarrow> bool" where
  "has_align v bs \<longleftrightarrow> list_ex (\<lambda>b. supports_align (kind b) \<and> b_align b = v) bs"

text \<open>The nodes of the selection in the order of the document; what is asked for changes on the way.\<close>

fun align_nodes :: "string option \<Rightarrow> note_block list \<Rightarrow> note_block list" where
  "align_nodes direction [] = []"
| "align_nodes direction (b # bs) =
     (if supports_align (kind b) then
        (let direction' = (if b_align b = direction then None else direction) in b\<lparr>b_align := direction'\<rparr> # align_nodes direction' bs)
      else b # align_nodes direction bs)"

definition toggleAlignment :: "string option \<Rightarrow> note_block list \<Rightarrow> note_block list command_result" where
  "toggleAlignment direction bs =
     (if list_ex (\<lambda>b. supports_align (kind b)) bs then Dispatched (align_nodes direction bs) else Refused)"

section \<open>Lists and kinds of blocks\<close>

definition isList :: "string \<Rightarrow> bool" where
  "isList k \<longleftrightarrow> k \<in> {''bulletList'', ''orderedList''}"

text \<open>The nearest list around: how deep it is, its kind, and whether the kind asked for may have its items.\<close>

record parent_list =
  pl_depth :: nat
  pl_kind :: string
  pl_valid :: bool

text \<open>What is done and what the command returns.\<close>

datatype list_action = LiftItem | Retype string | WrapInList string | NoAction

definition toggleList :: "string \<Rightarrow> nat option \<Rightarrow> parent_list option \<Rightarrow> bool \<Rightarrow> list_action" where
  "toggleList listType range_depth parentList has_view = (case range_depth of
     None \<Rightarrow> NoAction
   | Some depth \<Rightarrow>
      (let wrap = (if has_view then WrapInList listType else NoAction) in
       case parentList of
         Some l \<Rightarrow> if 1 \<le> depth \<and> depth \<le> pl_depth l + 1 then
             (if pl_kind l = listType then LiftItem
              else if isList (pl_kind l) \<and> pl_valid l then Retype listType else wrap)
           else wrap
       | None \<Rightarrow> wrap))"

datatype 'a note_selection =
  NodeSel "string \<times> (string \<times> 'a) list"
| TextSel "string \<times> (string \<times> 'a) list" bool

definition hasMarkup :: "string \<times> (string \<times> 'a) list \<Rightarrow> string \<Rightarrow> (string \<times> 'a) list \<Rightarrow> bool" where
  "hasMarkup n type as \<longleftrightarrow> fst n = type \<and> list_all (\<lambda>(k, v). map_of (snd n) k = Some v) as"

text \<open>A text selection holds the block its start is in, and whether it ends in it.\<close>

fun blockIsActive :: "'a note_selection \<Rightarrow> string \<Rightarrow> (string \<times> 'a) list \<Rightarrow> bool" where
  "blockIsActive (NodeSel n) type as = hasMarkup n type as"
| "blockIsActive (TextSel n within) type as = (within \<and> hasMarkup n type as)"

definition toggleBlock :: "'a note_selection \<Rightarrow> string \<Rightarrow> (string \<times> 'a) list \<Rightarrow> string \<times> (string \<times> 'a) list" where
  "toggleBlock sel type as = (if blockIsActive sel type as then (''paragraph'', as) else (type, as))"

text \<open>The kinds of the nodes around the selection, the innermost first.\<close>

definition listIsActive :: "string list \<Rightarrow> string \<Rightarrow> bool" where
  "listIsActive around_it listType \<longleftrightarrow> List.find isList around_it = Some listType"

definition blockquoteIsActive :: "nat \<Rightarrow> string list \<Rightarrow> bool" where
  "blockquoteIsActive depth top_level \<longleftrightarrow> 1 \<le> depth \<and> list_all (\<lambda>k. k = ''blockquote'') top_level"

section \<open>Indents and alignments\<close>

definition proper_indent :: "note_block \<Rightarrow> bool" where
  "proper_indent b \<longleftrightarrow> (\<forall>n. b_indent b = Some n \<longrightarrow> 1 \<le> n \<and> n \<le> MAX_INDENT)"

lemma shift_proper: "shift_indent d b = Some b' \<Longrightarrow> d = 1 \<or> d = -1 \<Longrightarrow> proper_indent b \<Longrightarrow> proper_indent b'"
  by (auto simp: shift_indent_def proper_indent_def MAX_INDENT_def Let_def split: if_splits option.splits)

lemma shift_back:
  "proper_indent b \<Longrightarrow> shift_indent 1 b = Some b' \<Longrightarrow> shift_indent (-1) b' = Some b"
  by (auto simp: shift_indent_def proper_indent_def Let_def split: if_splits option.splits)

lemma shift_rest: "shift_indent d b = Some b' \<Longrightarrow> b'\<lparr>b_indent := x\<rparr> = b\<lparr>b_indent := x\<rparr>"
  by (auto simp: shift_indent_def Let_def split: if_splits)

text \<open>Indenting keeps every indent between one and the most the editor gives, touches nothing but the
  indents, and does nothing at all unless every block of the selection can be indented; and
  where no block stood at the most already, taking the indent back gives the blocks as they were.\<close>

theorem indents_are_bounded:
  assumes "d = 1 \<or> d = -1" "changeIndent d inList (Some bs) = Dispatched bs'" "list_all proper_indent bs"
  shows "list_all proper_indent bs' \<and> \<not> inList \<and> list_all (\<lambda>b. supports_indent (kind b)) bs \<and>
    map (\<lambda>b. b\<lparr>b_indent := None\<rparr>) bs' = map (\<lambda>b. b\<lparr>b_indent := None\<rparr>) bs \<and>
    (d = 1 \<and> list_all (\<lambda>b. b_indent b \<noteq> Some MAX_INDENT) bs \<longrightarrow> changeIndent (-1) inList (Some bs') = Dispatched bs)"
proof -
  let ?f = "\<lambda>d b. case shift_indent d b of Some b' \<Rightarrow> b' | None \<Rightarrow> b"
  from assms(2) have l: "\<not> inList" and s: "list_all (\<lambda>b. supports_indent (kind b)) bs"
    and x: "list_ex (\<lambda>b. shift_indent d b \<noteq> None) bs" and b': "bs' = map (?f d) bs"
    by (auto simp: changeIndent_def split: if_splits)
  have p: "proper_indent (?f d b)" if "proper_indent b" for b
    using that shift_proper [OF _ assms(1)] by (auto split: option.split)
  have r: "(?f d b)\<lparr>b_indent := None\<rparr> = b\<lparr>b_indent := None\<rparr>" for b
    using shift_rest [of d b] by (auto split: option.split)
  have k: "kind (?f d b) = kind b" for b
    using arg_cong [OF r, of kind b] by simp
  have "changeIndent (-1) inList (Some bs') = Dispatched bs" if d: "d = 1" and m: "list_all (\<lambda>b. b_indent b \<noteq> Some MAX_INDENT) bs"
  proof -
    have "\<exists>c. shift_indent 1 b = Some c \<and> shift_indent (-1) c = Some b" if "b \<in> set bs" for b
    proof -
      from that m assms(3) have "b_indent b \<noteq> Some MAX_INDENT" "proper_indent b" by (auto simp: list_all_iff)
      then have "shift_indent 1 b \<noteq> None"
        by (auto simp: shift_indent_def proper_indent_def MAX_INDENT_def Let_def split: option.split)
      with shift_back [OF \<open>proper_indent b\<close>] show ?thesis by auto
    qed
    then have "shift_indent (-1) (?f d b) = Some b" if "b \<in> set bs" for b using that d by force
    moreover have "bs \<noteq> []" using x by auto
    ultimately show ?thesis using l s k
      by (cases bs) (auto simp: changeIndent_def b' list_all_iff comp_def intro!: map_idI)
  qed
  with l s p r assms(3) show ?thesis by (auto simp: b' list_all_iff)
qed

theorem indents_are_bounded_witness:
  "let bs = [\<lparr>kind = ''paragraph'', b_indent = None, b_align = None\<rparr>, \<lparr>kind = ''codeBlock'', b_indent = Some 6, b_align = None\<rparr>];
     bs' = [\<lparr>kind = ''paragraph'', b_indent = Some 1, b_align = None\<rparr>, \<lparr>kind = ''codeBlock'', b_indent = Some 7, b_align = None\<rparr>]
   in changeIndent 1 False (Some bs) = Dispatched bs' \<and> changeIndent (-1) False (Some bs') = Dispatched bs"
proof -
  define bs where "bs = [\<lparr>kind = ''paragraph'', b_indent = None, b_align = None\<rparr>, \<lparr>kind = ''codeBlock'', b_indent = Some 6, b_align = None\<rparr>]"
  have c: "changeIndent 1 False (Some bs) = Dispatched
      [\<lparr>kind = ''paragraph'', b_indent = Some 1, b_align = None\<rparr>, \<lparr>kind = ''codeBlock'', b_indent = Some 7, b_align = None\<rparr>]"
    by (simp add: bs_def changeIndent_def supports_indent_def shift_indent_def MAX_INDENT_def)
  with indents_are_bounded [OF _ c] show ?thesis
    by (simp add: bs_def proper_indent_def MAX_INDENT_def)
qed

lemma align_none: "align_nodes None bs = map (\<lambda>b. if supports_align (kind b) then b\<lparr>b_align := None\<rparr> else b) bs"
  by (induction bs) (simp_all add: Let_def)

text \<open>Aligning a selection of blocks that are all aligned otherwise aligns them all, and doing it again takes
  the alignment off them all; in a mixed selection the blocks before the first that is already aligned that way
  are aligned, and that one and all behind it, however they were aligned, have their alignment taken off.\<close>

theorem alignment_toggles:
  fixes bs :: "note_block list" and direction :: string
  defines "aligned \<equiv> (\<lambda>b. supports_align (kind b) \<and> b_align b = Some direction)"
  shows "align_nodes (Some direction) bs =
      map (\<lambda>b. if supports_align (kind b) then b\<lparr>b_align := Some direction\<rparr> else b) (takeWhile (\<lambda>b. \<not> aligned b) bs) @
      map (\<lambda>b. if supports_align (kind b) then b\<lparr>b_align := None\<rparr> else b) (dropWhile (\<lambda>b. \<not> aligned b) bs) \<and>
    (bs \<noteq> [] \<and> list_all (\<lambda>b. supports_align (kind b)) bs \<and> list_all (\<lambda>b. \<not> aligned b) bs \<longrightarrow>
      align_nodes (Some direction) (align_nodes (Some direction) bs) = map (\<lambda>b. b\<lparr>b_align := None\<rparr>) bs)"
proof -
  have a: "align_nodes (Some direction) bs =
      map (\<lambda>b. if supports_align (kind b) then b\<lparr>b_align := Some direction\<rparr> else b) (takeWhile (\<lambda>b. \<not> aligned b) bs) @
      map (\<lambda>b. if supports_align (kind b) then b\<lparr>b_align := None\<rparr> else b) (dropWhile (\<lambda>b. \<not> aligned b) bs)" for bs
    by (induction bs) (auto simp: aligned_def align_none Let_def)
  have "align_nodes (Some direction) (align_nodes (Some direction) bs) = map (\<lambda>b. b\<lparr>b_align := None\<rparr>) bs"
    if ne: "bs \<noteq> []" and sup: "list_all (\<lambda>b. supports_align (kind b)) bs" and no: "list_all (\<lambda>b. \<not> aligned b) bs"
  proof -
    have "takeWhile (\<lambda>b. \<not> aligned b) bs = bs" "dropWhile (\<lambda>b. \<not> aligned b) bs = []"
      using no by (simp_all add: list_all_iff)
    with a [of bs] have "align_nodes (Some direction) bs = map (\<lambda>b. b\<lparr>b_align := Some direction\<rparr>) bs"
      using sup by (auto simp: list_all_iff)
    with ne sup show ?thesis by (cases bs) (auto simp: align_none Let_def list_all_iff)
  qed
  with a show ?thesis by blast
qed

theorem alignment_toggles_witness:
  "let p = \<lparr>kind = ''paragraph'', b_indent = None, b_align = None\<rparr>; c = p\<lparr>b_align := Some ''center''\<rparr>; l = p\<lparr>b_align := Some ''left''\<rparr> in
     align_nodes (Some ''left'') [c, l, c] = [l, p, p] \<and>
     align_nodes (Some ''left'') (align_nodes (Some ''left'') [c, c]) = [p, p]"
  using alignment_toggles [of "''left''" "[\<lparr>kind = ''paragraph'', b_indent = None, b_align = Some ''center''\<rparr>,
      \<lparr>kind = ''paragraph'', b_indent = None, b_align = Some ''center''\<rparr>]"]
  by (simp add: supports_align_def)

section \<open>The types of blocks\<close>

definition ALIGNMENTS :: "string option set" where
  "ALIGNMENTS = {None, Some ''left'', Some ''right'', Some ''center'', Some ''justify''}"

definition typed_block :: "note_block \<Rightarrow> bool" where
  "typed_block b \<longleftrightarrow> (case b_indent b of None \<Rightarrow> True | Some n \<Rightarrow> supports_indent (kind b) \<and> 1 \<le> n) \<and>
     (if supports_align (kind b) then b_align b \<in> ALIGNMENTS else b_align b = None)"

text \<open>A block as its rule reads it from an element; what has no indent or alignment has no attribute for one.\<close>

definition read_block :: "browser \<Rightarrow> string \<Rightarrow> attrs \<Rightarrow> note_block" where
  "read_block B k a = \<lparr>kind = k, b_indent = (if supports_indent k then getIndent B a else None),
     b_align = (if supports_align k then getAlign B a else None)\<rparr>"

datatype block_command = IncreaseIndent | DecreaseIndent | RemoveIndent bool | Align "string option"

fun run_block_command :: "block_command \<Rightarrow> note_block list \<Rightarrow> note_block list command_result" where
  "run_block_command IncreaseIndent bs = changeIndent 1 False (Some bs)"
| "run_block_command DecreaseIndent bs = changeIndent (-1) False (Some bs)"
| "run_block_command (RemoveIndent atStart) bs = removeBlockIndent atStart (Some bs)"
| "run_block_command (Align v) bs = toggleAlignment v bs"

text \<open>A command on the blocks from the \<open>i\<close>-th on, \<open>n\<close> of them.\<close>

definition edit_blocks :: "nat \<times> nat \<times> block_command \<Rightarrow> note_block list \<Rightarrow> note_block list" where
  "edit_blocks = (\<lambda>(i, n, c) bs. case run_block_command c (take n (drop i bs)) of
     Dispatched bs' \<Rightarrow> take i bs @ bs' @ drop n (drop i bs) | _ \<Rightarrow> bs)"

lemma getIndent_typed: "getIndent B a = Some n \<Longrightarrow> 1 \<le> n"
  by (auto simp: getIndent_def INDENT_WIDTH_def Let_def split: option.splits if_splits)

lemma read_typed: "typed_block (read_block B k a)"
  by (auto simp: typed_block_def read_block_def ALIGNMENTS_def getAlign_def Let_def dest: getIndent_typed split: option.split)

lemma shift_typed: "typed_block b \<Longrightarrow> supports_indent (kind b) \<Longrightarrow> shift_indent d b = Some b' \<Longrightarrow> d \<in> {1, -1} \<Longrightarrow> typed_block b' \<and> kind b' = kind b"
  by (auto simp: shift_indent_def typed_block_def Let_def split: if_splits option.splits)

lemma align_typed: "list_all typed_block bs \<Longrightarrow> v \<in> ALIGNMENTS \<Longrightarrow> list_all typed_block (align_nodes v bs) \<and> map kind (align_nodes v bs) = map kind bs"
proof (induction v bs rule: align_nodes.induct)
  case (2 v b bs)
  have "typed_block (b\<lparr>b_align := w\<rparr>)" if "supports_align (kind b)" "w \<in> ALIGNMENTS" for w
    using that 2(3) by (auto simp: typed_block_def split: option.splits)
  moreover have "None \<in> ALIGNMENTS" by (simp add: ALIGNMENTS_def)
  ultimately show ?case using 2 by (auto simp: Let_def)
qed simp

lemma command_typed:
  assumes "run_block_command c bs = Dispatched bs'" "list_all typed_block bs" "\<And>v. c = Align v \<Longrightarrow> v \<in> ALIGNMENTS"
  shows "list_all typed_block bs' \<and> map kind bs' = map kind bs"
proof -
  have shift: "list_all typed_block bs' \<and> map kind bs' = map kind bs" if "changeIndent d False (Some bs) = Dispatched bs'" "d \<in> {1, -1}" for d
  proof -
    from that(1) have s: "list_all (\<lambda>b. supports_indent (kind b)) bs" and b: "bs' = map (\<lambda>b. case shift_indent d b of Some b' \<Rightarrow> b' | None \<Rightarrow> b) bs"
      by (auto simp: changeIndent_def split: if_splits)
    have "typed_block (case shift_indent d b of Some b' \<Rightarrow> b' | None \<Rightarrow> b) \<and> kind (case shift_indent d b of Some b' \<Rightarrow> b' | None \<Rightarrow> b) = kind b"
      if "b \<in> set bs" for b
      using that assms(2) s shift_typed [OF _ _ _ \<open>d \<in> {1, -1}\<close>] by (auto simp: list_all_iff split: option.split)
    with b show ?thesis by (auto simp: list_all_iff)
  qed
  show ?thesis
  proof (cases c)
    case (RemoveIndent atStart)
    with assms(1,2) show ?thesis
      by (auto simp: removeBlockIndent_def typed_block_def split: list.splits if_splits)
  next
    case (Align v)
    with assms align_typed [of bs v] show ?thesis by (auto simp: toggleAlignment_def split: if_splits)
  qed (use assms(1) shift in auto)
qed

lemma edit_typed:
  assumes "list_all typed_block bs" "\<And>v. snd (snd e) = Align v \<Longrightarrow> v \<in> ALIGNMENTS"
  shows "list_all typed_block (edit_blocks e bs) \<and> map kind (edit_blocks e bs) = map kind bs"
proof -
  obtain i n c where e: "e = (i, n, c)" by (cases e)
  show ?thesis
  proof (cases "run_block_command c (take n (drop i bs))")
    case (Dispatched bs')
    have "list_all typed_block (take n (drop i bs))" using assms(1) by (auto simp: list_all_iff dest!: in_set_takeD in_set_dropD)
    with command_typed [OF Dispatched] assms(2) e
    have m: "list_all typed_block bs' \<and> map kind bs' = map kind (take n (drop i bs))" by simp
    have "map kind (take i bs @ take n (drop i bs) @ drop n (drop i bs)) = map kind bs" by (simp only: append_take_drop_id)
    with m Dispatched e assms(1) show ?thesis
      by (auto simp: edit_blocks_def list_all_iff dest!: in_set_takeD in_set_dropD)
  qed (use e assms(1) in \<open>simp_all add: edit_blocks_def\<close>)
qed



section \<open>Formats of characters\<close>

text \<open>The marks in the order of the schema, and how one is added to a set of them.\<close>

fun mark_rank :: "mark \<Rightarrow> nat" where
  "mark_rank Strong = 0"
| "mark_rank Em = 1"
| "mark_rank (Underline _) = 2"
| "mark_rank Strike = 3"
| "mark_rank (Subsup _) = 4"
| "mark_rank (TextColor _) = 5"
| "mark_rank (BackgroundColor _) = 6"
| "mark_rank (Link _ _) = 7"
| "mark_rank InlineCode = 8"

definition excludes :: "mark \<Rightarrow> mark \<Rightarrow> bool" where
  "excludes m n \<longleftrightarrow> mark_rank m = mark_rank n \<or> m = InlineCode"

definition add_mark :: "mark \<Rightarrow> mark list \<Rightarrow> mark list" where
  "add_mark m ms =
     (if m \<in> set ms \<or> list_ex (\<lambda>n. \<not> excludes m n \<and> excludes n m) ms then ms
      else (let rest = filter (\<lambda>n. \<not> excludes m n) ms in
        takeWhile (\<lambda>n. mark_rank n \<le> mark_rank m) rest @ m # dropWhile (\<lambda>n. mark_rank n \<le> mark_rank m) rest))"

definition remove_kind :: "nat \<Rightarrow> mark list \<Rightarrow> mark list" where
  "remove_kind k ms = filter (\<lambda>m. mark_rank m \<noteq> k) ms"

type_synonym marked_text = "(char \<times> mark list) list"

definition on_range :: "nat \<Rightarrow> nat \<Rightarrow> (mark list \<Rightarrow> mark list) \<Rightarrow> marked_text \<Rightarrow> marked_text" where
  "on_range from to f t = map (\<lambda>(i, c, ms). (c, if from \<le> i \<and> i < to then f ms else ms)) (enumerate 0 t)"

record text_state =
  chars :: marked_text
  sel_from :: nat
  sel_to :: nat
  sel_head :: nat
  stored_marks :: "mark list option"

text \<open>The marks of what would be typed at a place: those of the character before it, or of the first; a link does
  not reach past its end.\<close>

definition marks_at :: "marked_text \<Rightarrow> nat \<Rightarrow> mark list" where
  "marks_at t p =
     (if t = [] then []
      else filter (\<lambda>m. mark_rank m \<noteq> 7 \<or> (0 < p \<and> p < length t \<and> m \<in> set (snd (t ! p)))) (snd (t ! (p - 1))))"

definition held :: "nat \<Rightarrow> text_state \<Rightarrow> mark list" where
  "held p s = (case stored_marks s of Some ms \<Rightarrow> ms | None \<Rightarrow> marks_at (chars s) p)"

definition ensureMarks :: "mark list \<Rightarrow> text_state \<Rightarrow> text_state" where
  "ensureMarks ms s = (if ms = held (sel_from s) s then s else s\<lparr>stored_marks := Some ms\<rparr>)"

text \<open>A step on the text gives up what was held for typing; there is none when nothing in the range has the mark.\<close>

definition rangeHasMark :: "nat \<Rightarrow> nat \<Rightarrow> nat \<Rightarrow> marked_text \<Rightarrow> bool" where
  "rangeHasMark from to k t \<longleftrightarrow> list_ex (\<lambda>(_, ms). list_ex (\<lambda>m. mark_rank m = k) ms) (drop from (take to t))"

definition removeMark :: "nat \<Rightarrow> nat \<Rightarrow> nat \<Rightarrow> text_state \<Rightarrow> text_state" where
  "removeMark from to k s =
     (if rangeHasMark from to k (chars s) then s\<lparr>chars := on_range from to (remove_kind k) (chars s), stored_marks := None\<rparr> else s)"

text \<open>Around a cursor, the characters that have the very mark of the character behind it.\<close>

definition markRangeAtCursor :: "nat \<Rightarrow> text_state \<Rightarrow> (nat \<times> nat) option" where
  "markRangeAtCursor k s =
     (if sel_from s = sel_to s \<and> sel_from s < length (chars s) then
        (case List.find (\<lambda>m. mark_rank m = k) (snd (chars s ! sel_from s)) of
           Some m \<Rightarrow> Some (sel_from s - length (takeWhile (\<lambda>(_, ms). m \<in> set ms) (rev (take (sel_from s) (chars s)))),
             sel_from s + length (takeWhile (\<lambda>(_, ms). m \<in> set ms) (drop (sel_from s) (chars s))))
         | None \<Rightarrow> None)
      else None)"

definition affected :: "nat \<Rightarrow> text_state \<Rightarrow> nat \<times> nat" where
  "affected k s = (case markRangeAtCursor k s of Some r \<Rightarrow> r | None \<Rightarrow> (sel_from s, sel_to s))"

definition setColor :: "mark \<Rightarrow> text_state \<Rightarrow> text_state" where
  "setColor m s =
     (let (from, to) = affected (mark_rank m) s;
          s1 = removeMark from to (mark_rank m) s;
          s2 = ensureMarks (add_mark m (held (sel_head s1) s1)) s1
      in if from < to then s2\<lparr>chars := on_range from to (add_mark m) (chars s2), stored_marks := None\<rparr> else s2)"

definition removeColor :: "nat \<Rightarrow> text_state \<Rightarrow> text_state" where
  "removeColor k s =
     (let (from, to) = affected k s; s1 = ensureMarks (remove_kind k (held (sel_head s) s)) s in
      if from < to then removeMark from to k s1 else s1)"

text \<open>Every format but a link; and a heading of the selection becomes a paragraph.\<close>

definition CLEARED :: "mark \<Rightarrow> bool" where
  "CLEARED m \<longleftrightarrow> mark_rank m \<in> {0, 1, 2, 3, 5, 6, 8, 4}"

definition clear_marks :: "text_state \<Rightarrow> text_state" where
  "clear_marks s = s\<lparr>chars := on_range (sel_from s) (sel_to s) (filter (\<lambda>m. \<not> CLEARED m)) (chars s), stored_marks := Some []\<rparr>"

definition clear_kind :: "string \<Rightarrow> string" where
  "clear_kind k = (if k = ''heading'' then ''paragraph'' else k)"

lemma on_range_nth: "i < length t \<Longrightarrow> on_range from to f t ! i = (fst (t ! i), if from \<le> i \<and> i < to then f (snd (t ! i)) else snd (t ! i))"
  by (simp add: on_range_def split_beta nth_enumerate_eq)

lemma on_range_length [simp]: "length (on_range from to f t) = length t"
  by (simp add: on_range_def)

lemma on_range_chars: "map fst (on_range from to f t) = map fst t"
  by (rule nth_equalityI) (simp_all add: on_range_nth)

lemma on_range_twice: "on_range from to f (on_range from to g t) = on_range from to (f \<circ> g) t"
  by (rule nth_equalityI) (simp_all add: on_range_nth)

lemma on_range_same: "(\<And>i. i < length t \<Longrightarrow> from \<le> i \<Longrightarrow> i < to \<Longrightarrow> f (snd (t ! i)) = snd (t ! i)) \<Longrightarrow> on_range from to f t = t"
  by (rule nth_equalityI) (simp_all add: on_range_nth)

lemma recolored:
  assumes "m \<noteq> InlineCode" "InlineCode \<notin> set ms"
  shows "remove_kind (mark_rank m) (add_mark m (remove_kind (mark_rank m) ms)) = remove_kind (mark_rank m) ms \<and>
    filter (\<lambda>n. mark_rank n = mark_rank m) (add_mark m (remove_kind (mark_rank m) ms)) = [m]"
proof -
  let ?rest = "remove_kind (mark_rank m) ms"
  have e: "\<not> list_ex (\<lambda>n. \<not> excludes m n \<and> excludes n m) ?rest" "m \<notin> set ?rest" "filter (\<lambda>n. \<not> excludes m n) ?rest = ?rest"
    using assms by (auto simp: excludes_def remove_kind_def list_ex_iff intro!: filter_cong)
  have f: "filter (\<lambda>n. mark_rank n \<noteq> mark_rank m) ?rest = ?rest" "filter (\<lambda>n. mark_rank n = mark_rank m) ?rest = []"
    by (simp_all add: remove_kind_def filter_empty_conv)
  have a: "add_mark m ?rest = takeWhile (\<lambda>n. mark_rank n \<le> mark_rank m) ?rest @ m # dropWhile (\<lambda>n. mark_rank n \<le> mark_rank m) ?rest"
    using e by (simp add: add_mark_def Let_def)
  have "filter P ?rest = filter P (takeWhile (\<lambda>n. mark_rank n \<le> mark_rank m) ?rest) @ filter P (dropWhile (\<lambda>n. mark_rank n \<le> mark_rank m) ?rest)" for P
    by (subst takeWhile_dropWhile_id [symmetric, of ?rest "\<lambda>n. mark_rank n \<le> mark_rank m"]) (simp only: filter_append)
  with f show ?thesis unfolding a remove_kind_def [of _ "_ @ _"] by auto
qed

lemma removeMark_chars [simp]: "chars (removeMark from to k s) = on_range from to (remove_kind k) (chars s)"
proof -
  have "on_range from to (remove_kind k) (chars s) = chars s" if none: "\<not> rangeHasMark from to k (chars s)"
  proof (rule on_range_same)
    fix i assume i: "i < length (chars s)" "from \<le> i" "i < to"
    then have "chars s ! i = drop from (take to (chars s)) ! (i - from)" "i - from < length (drop from (take to (chars s)))" by auto
    then have "chars s ! i \<in> set (drop from (take to (chars s)))" using nth_mem by metis
    with none show "remove_kind k (snd (chars s ! i)) = snd (chars s ! i)"
      by (force simp: rangeHasMark_def list_ex_iff remove_kind_def filter_id_conv)
  qed
  then show ?thesis by (simp add: removeMark_def)
qed

lemma ensureMarks_keeps [simp]:
  "chars (ensureMarks ms s) = chars s" "sel_from (ensureMarks ms s) = sel_from s" "sel_to (ensureMarks ms s) = sel_to s"
  "sel_head (ensureMarks ms s) = sel_head s"
  by (simp_all add: ensureMarks_def)

lemma ensureMarks_held: "held (sel_from s) (ensureMarks ms s) = ms"
  by (simp add: ensureMarks_def) (simp add: held_def)

lemma removeMark_keeps [simp]:
  "sel_from (removeMark from to k s) = sel_from s" "sel_to (removeMark from to k s) = sel_to s" "sel_head (removeMark from to k s) = sel_head s"
  by (simp_all add: removeMark_def)

lemma on_range_none: "to \<le> from \<Longrightarrow> on_range from to f t = t"
  by (rule on_range_same) simp

lemma removed_none: "filter (\<lambda>n. mark_rank n = k) (remove_kind k ms) = []"
  by (simp add: remove_kind_def filter_empty_conv)

text \<open>A colour goes on every character of the selection, or of the stretch in one colour the cursor is in, that is not
  inline code: it then has that colour and no other of its kind, its other formats in their order, and no character
  elsewhere changes.  Taking the colour off leaves none in the stretch, and undoes
  putting it on text that had none; with no stretch, what is typed next has the colour.  No character is ever changed, only how it looks.\<close>

theorem colors_apply:
  fixes s :: text_state and m :: mark
  defines "k \<equiv> mark_rank m" and "a \<equiv> fst (affected (mark_rank m) s)" and "b \<equiv> snd (affected (mark_rank m) s)"
  assumes "m \<noteq> InlineCode"
  shows "(\<forall>i<length (chars s). \<forall>c ms. chars s ! i = (c, ms) \<longrightarrow> (\<exists>ms'. chars (setColor m s) ! i = (c, ms') \<and>
      (if a \<le> i \<and> i < b then InlineCode \<in> set ms \<or> filter (\<lambda>n. mark_rank n = k) ms' = [m] \<and> remove_kind k ms' = remove_kind k ms else ms' = ms))) \<and>
    length (chars (setColor m s)) = length (chars s) \<and>
    (\<forall>i<length (chars s). a \<le> i \<and> i < b \<longrightarrow> filter (\<lambda>n. mark_rank n = k) (snd (chars (removeColor k s) ! i)) = []) \<and>
    map fst (chars (removeColor k s)) = map fst (chars s) \<and>
    (sel_from s < sel_to s \<and> (\<forall>(c, ms)\<in>set (chars s). InlineCode \<notin> set ms \<and> remove_kind k ms = ms) \<longrightarrow>
      chars (removeColor k (setColor m s)) = chars s) \<and>
    (\<not> a < b \<and> sel_head s = sel_from s \<longrightarrow> held (sel_from s) (setColor m s) = add_mark m (held (sel_from s) s))"
proof -
  let ?cleared = "on_range a b (remove_kind k) (chars s)"
  have set: "chars (setColor m s) = (if a < b then on_range a b (add_mark m \<circ> remove_kind k) (chars s) else ?cleared)"
    by (simp add: setColor_def a_def b_def k_def split_beta Let_def on_range_twice)
  have rem: "chars (removeColor k s) = ?cleared" by (simp add: removeColor_def a_def b_def k_def split_beta Let_def on_range_none)
  have typed: "held (sel_from s) (setColor m s) = add_mark m (held (sel_from s) s)" if "\<not> a < b" "sel_head s = sel_from s"
  proof -
    have "rangeHasMark a b (mark_rank m) (chars s) = False" using that by (simp add: rangeHasMark_def)
    then have "removeMark a b (mark_rank m) s = s" by (simp add: removeMark_def)
    with that show ?thesis
      using ensureMarks_held [of s] by (simp add: setColor_def a_def b_def split_beta Let_def)
  qed
  have each: "\<exists>ms'. chars (setColor m s) ! i = (c, ms') \<and>
      (if a \<le> i \<and> i < b then InlineCode \<in> set ms \<or> filter (\<lambda>n. mark_rank n = k) ms' = [m] \<and> remove_kind k ms' = remove_kind k ms else ms' = ms)"
    if "i < length (chars s)" "chars s ! i = (c, ms)" for i c ms
    using that recolored [OF assms(4), of ms] by (auto simp: set on_range_nth k_def)
  have undone: "chars (removeColor k (setColor m s)) = chars s"
    if sel: "sel_from s < sel_to s" and plain: "\<forall>(c, ms)\<in>set (chars s). InlineCode \<notin> set ms \<and> remove_kind k ms = ms"
  proof -
    have aff: "affected k (setColor m s) = (sel_from s, sel_to s)" "affected k s = (sel_from s, sel_to s)"
      using sel by (simp_all add: affected_def markRangeAtCursor_def setColor_def split_beta Let_def)
    have "chars (removeColor k (setColor m s)) = on_range a b (remove_kind k \<circ> (add_mark m \<circ> remove_kind k)) (chars s)"
      using sel aff set by (simp add: removeColor_def a_def b_def k_def on_range_twice Let_def)
    also have "\<dots> = chars s"
    proof (rule on_range_same)
      fix i assume "i < length (chars s)"
      then have "chars s ! i \<in> set (chars s)" by simp
      with plain have "InlineCode \<notin> set (snd (chars s ! i))" "remove_kind k (snd (chars s ! i)) = snd (chars s ! i)" by auto
      with recolored [OF assms(4), of "snd (chars s ! i)"] show "(remove_kind k \<circ> (add_mark m \<circ> remove_kind k)) (snd (chars s ! i)) = snd (chars s ! i)"
        by (simp add: k_def)
    qed
    finally show ?thesis .
  qed
  have "length (chars (setColor m s)) = length (chars s)" by (simp add: set)
  with each undone typed show ?thesis by (auto simp: rem on_range_nth on_range_chars removed_none)
qed

theorem colors_apply_witness:
  "let s = \<lparr>chars = [(CHR ''a'', []), (CHR ''b'', [Strong, TextColor ''red'']), (CHR ''c'', [])], sel_from = 1, sel_to = 3, sel_head = 3, stored_marks = None\<rparr> in
     chars (setColor (TextColor ''blue'') s) = [(CHR ''a'', []), (CHR ''b'', [Strong, TextColor ''blue'']), (CHR ''c'', [TextColor ''blue''])] \<and>
     map fst (chars (removeColor 5 s)) = ''abc''"
proof -
  define s where "s = \<lparr>chars = [(CHR ''a'', []), (CHR ''b'', [Strong, TextColor ''red'']), (CHR ''c'', [])], sel_from = 1, sel_to = 3, sel_head = 3, stored_marks = None\<rparr>"
  have "map fst (chars (removeColor (mark_rank (TextColor ''blue'')) s)) = map fst (chars s)"
    using colors_apply [of "TextColor ''blue''" s] by blast
  moreover have "chars (setColor (TextColor ''blue'') s) = [(CHR ''a'', []), (CHR ''b'', [Strong, TextColor ''blue'']), (CHR ''c'', [TextColor ''blue''])]"
    by (simp add: s_def setColor_def Let_def affected_def markRangeAtCursor_def on_range_def remove_kind_def add_mark_def excludes_def)
  ultimately show ?thesis unfolding s_def [symmetric] by (simp add: s_def)
qed

section \<open>The slash\<close>

record slash_state =
  active :: "(nat \<times> nat \<times> codes) option"
  dismissed :: "nat option"

definition slash_init :: slash_state where
  "slash_init = \<lparr>active = None, dismissed = None\<rparr>"

definition query_code :: "nat \<Rightarrow> bool" where
  "query_code c \<longleftrightarrow> \<not> white c \<and> c \<noteq> 47"

definition TRIGGER :: "nat regex" where
  "TRIGGER = seqs [Alt Start (Cls white), Lit 47, Grp 1 (upto 24 (Cls query_code)), End]"

text \<open>
  A transaction as the plugin sees it: where it moves a position, whether it dismisses the menu, whether it changed
  the document, and the selection after it: empty or not, the cursor, and the text before it
  in its block, if that is a block of text and no code.
\<close>

record slash_tr =
  mapping :: "nat \<Rightarrow> nat"
  dismisses :: bool
  docChanged :: bool
  empty_sel :: bool
  cursor :: nat
  text_before :: "codes option"

definition slash_apply :: "slash_tr \<Rightarrow> slash_state \<Rightarrow> slash_state" where
  "slash_apply tr previous =
     (let kept = map_option (mapping tr) (dismissed previous) in
      if dismisses tr then \<lparr>active = None, dismissed = (case active previous of Some (from, _, _) \<Rightarrow> Some from | None \<Rightarrow> kept)\<rparr>
      else if \<not> empty_sel tr then \<lparr>active = None, dismissed = kept\<rparr>
      else case text_before tr of
        None \<Rightarrow> \<lparr>active = None, dismissed = kept\<rparr>
      | Some before \<Rightarrow> (case exec TRIGGER before of
          None \<Rightarrow> slash_init
        | Some (_, p) \<Rightarrow>
            (let query = the (group 1 p); from = cursor tr - length query - 1 in
             if Some from = kept then \<lparr>active = None, dismissed = kept\<rparr>
             else if active previous = None \<and> \<not> docChanged tr then \<lparr>active = None, dismissed = kept\<rparr>
             else \<lparr>active = Some (from, cursor tr, query), dismissed = kept\<rparr>)))"

lemma lang_upto: "lang (upto n (Cls P)) u \<Longrightarrow> list_all P u \<and> length u \<le> n"
proof (induction n arbitrary: u)
  case (Suc n)
  then show ?case by (auto simp: Cons_eq_append_conv)
qed simp

lemma exec_from_run: "exec_from e b r = Some (x, p) \<Longrightarrow> \<exists>b' r'. rev b' @ r' = rev b @ r \<and> p \<in> set (run (Grp 0 e) (b', r', []))"
proof (induction r arbitrary: b)
  case Nil
  then have "p \<in> set (run (Grp 0 e) (b, [], []))"
    by (auto simp: exec_from.simps [of _ _ "[]"] simp del: run.simps split: list.splits)
  then show ?case by (intro exI [of _ b] exI [of _ "[]"]) simp
next
  case (Cons c r)
  show ?case
  proof (cases "run (Grp 0 e) (b, c # r, [])")
    case Nil
    with Cons.prems have "exec_from e (c # b) r = Some (x, p)" by (simp add: exec_from.simps [of _ b] del: run.simps)
    from Cons.IH [OF this] show ?thesis by simp
  next
    case (Cons q qs)
    with Cons.prems have "p \<in> set (run (Grp 0 e) (b, c # r, []))" by (simp add: exec_from.simps [of _ b] del: run.simps)
    then show ?thesis by (intro exI [of _ b] exI [of _ "c # r"]) simp
  qed
qed

lemma run_SeqE:
  assumes "q \<in> set (run (Seq e f) p)"
  obtains k where "k \<in> set (run e p)" "q \<in> set (run f k)"
  using assms by (auto split: if_splits)

lemma trigger_run:
  assumes "q \<in> set (run TRIGGER (b, r, c))"
  shows "\<exists>pre query. rev b @ r = pre @ [47] @ query \<and> group 1 q = Some query \<and> list_all query_code query \<and> length query \<le> 24 \<and>
    (pre = [] \<or> white (last pre))"
proof -
  have t: "TRIGGER = Seq (Alt Start (Cls white)) (Seq (Lit 47) (Seq (Grp 1 (upto 24 (Cls query_code))) End))"
    by (simp add: TRIGGER_def)
  from assms obtain k1 where k1: "k1 \<in> set (run (Alt Start (Cls white)) (b, r, c))"
      and r1: "q \<in> set (run (Seq (Lit 47) (Seq (Grp 1 (upto 24 (Cls query_code))) End)) k1)" unfolding t by (rule run_SeqE)
  from r1 obtain k2 where k2: "k2 \<in> set (run (Lit 47) k1)" and r2: "q \<in> set (run (Seq (Grp 1 (upto 24 (Cls query_code))) End) k2)" by (rule run_SeqE)
  from r2 obtain k3 where k3: "k3 \<in> set (run (Grp 1 (upto 24 (Cls query_code))) k2)" and q: "q \<in> set (run End k3)" by (rule run_SeqE)
  from k3 obtain u where u: "lang (upto 24 (Cls query_code)) u" "ahead k2 = u @ ahead k3" "group 1 k3 = Some u" by (rule run_Grp)
  have "q = k3" "ahead k3 = []" using q by (cases k3; auto simp: ahead_def split: if_splits)+
  moreover have "ahead k1 = 47 # ahead k2" using k2 by (cases k1) (auto simp: Lit_def ahead_def split: list.splits if_splits)
  moreover have "\<exists>pre. rev b @ r = pre @ ahead k1 \<and> (pre = [] \<or> white (last pre))"
  proof (cases "k1 \<in> set (run Start (b, r, c))")
    case True
    then show ?thesis by (intro exI [of _ "[]"]) (auto simp: ahead_def split: if_splits)
  next
    case False
    with k1 obtain w r' where "r = w # r'" "white w" "ahead k1 = r'" by (auto simp: ahead_def split: list.splits if_splits)
    then show ?thesis by (intro exI [of _ "rev b @ [w]"]) simp
  qed
  ultimately show ?thesis using u lang_upto [OF u(1)] by auto
qed

lemma group_whole: "p \<in> set (run (Grp 0 e) k) \<Longrightarrow> \<exists>q\<in>set (run e k). group 1 p = group 1 q"
  by (force simp: group_def)

lemma trigger_match:
  assumes "exec TRIGGER before = Some (x, p)"
  shows "\<exists>pre query. before = pre @ [47] @ query \<and> group 1 p = Some query \<and> list_all query_code query \<and> length query \<le> 24 \<and>
    (pre = [] \<or> white (last pre))"
proof -
  from exec_from_run [OF assms [unfolded exec_def]] obtain b r where
    b: "rev b @ r = before" "p \<in> set (run (Grp 0 TRIGGER) (b, r, []))" by (auto simp del: run.simps)
  from group_whole [OF b(2)] obtain q where "q \<in> set (run TRIGGER (b, r, []))" "group 1 p = group 1 q" by blast
  with trigger_run [of q b r "[]"] b(1) show ?thesis by simp
qed

text \<open>The menu opens only when something is typed, on a slash at the start of a line or behind a space that is
  directly before the cursor with at most twenty-four letters behind it, none of them a space or a
  slash; what it holds is exactly where that slash is and what was typed.  A slash the menu was closed on,
  wherever later changes move it, does not open it again until the text before the cursor has no such slash.\<close>

theorem slash_opens_on_typing:
  assumes "active (slash_apply tr s) = Some (from, to, query)"
    and "\<And>before. text_before tr = Some before \<Longrightarrow> length before \<le> cursor tr"
  shows "(active s \<noteq> None \<or> docChanged tr) \<and> to = cursor tr \<and> from + length query + 1 = to \<and> length query \<le> 24 \<and>
    list_all query_code query \<and> \<not> dismisses tr \<and> empty_sel tr \<and>
    (\<exists>pre. text_before tr = Some (pre @ [47] @ query) \<and> (pre = [] \<or> white (last pre))) \<and>
    Some from \<noteq> map_option (mapping tr) (dismissed s)"
proof -
  from assms(1) obtain before x p where b: "text_before tr = Some before" "exec TRIGGER before = Some (x, p)"
    and r: "to = cursor tr" "query = the (group 1 p)" "from = cursor tr - length query - 1" "active s \<noteq> None \<or> docChanged tr"
      "\<not> dismisses tr" "empty_sel tr" "Some from \<noteq> map_option (mapping tr) (dismissed s)"
    by (auto simp: slash_apply_def slash_init_def Let_def split: if_splits option.splits)
  from trigger_match [OF b(2)] r(2) obtain pre where "before = pre @ [47] @ query" "list_all query_code query" "length query \<le> 24"
    "pre = [] \<or> white (last pre)" by auto
  with b r assms(2) [OF b(1)] show ?thesis by auto
qed

lemma run_upto_end: "run (upto n (Cls P)) (b, [], c) = [(b, [], c)]"
  by (cases n) simp_all

theorem slash_opens_on_typing_witness:
  "let tr = \<lparr>mapping = id, dismisses = False, docChanged = True, empty_sel = True, cursor = 4, text_before = Some [97, 32, 47]\<rparr> in
     active (slash_apply tr slash_init) = Some (3, 4, []) \<and> docChanged tr"
proof -
  define tr where "tr = \<lparr>mapping = id, dismisses = False, docChanged = True, empty_sel = True, cursor = 4, text_before = Some [97, 32, 47]\<rparr>"
  have "exec TRIGGER [97, 32, 47] = Some ([97], [47, 32, 97], [], [(0, [32, 47]), (1, [])])"
    by (simp add: exec_def TRIGGER_def exec_from.simps [of _ _ "_ # _"] Lit_def ahead_def white_def run_upto_end)
  then have "active (slash_apply tr slash_init) = Some (3, 4, [])"
    by (simp add: tr_def slash_apply_def slash_init_def group_def)
  moreover from slash_opens_on_typing [OF this] have "docChanged tr" by (simp add: slash_init_def tr_def)
  ultimately show ?thesis unfolding tr_def [symmetric] by simp
qed

section \<open>The direction of blocks\<close>

text \<open>A node with its kind, its own direction and whether it is a block of text; a leaf takes one position.\<close>

datatype dir_node =
  DText nat
| DLeaf string "string option"
| DNode string "string option" bool "dir_node list"

fun node_size :: "dir_node \<Rightarrow> nat" where
  "node_size (DText n) = n"
| "node_size (DLeaf _ _) = 1"
| "node_size (DNode _ _ _ ns) = 2 + sum_list (map node_size ns)"

definition own_direction :: "string option \<Rightarrow> bool" where
  "own_direction d \<longleftrightarrow> d = Some ''ltr'' \<or> d = Some ''rtl''"

text \<open>The ranges decorated with \<open>dir="auto"\<close>.\<close>

fun visit :: "dir_node \<Rightarrow> nat \<Rightarrow> bool \<Rightarrow> (nat \<times> nat) list"
  and visit_all :: "dir_node list \<Rightarrow> nat \<Rightarrow> bool \<Rightarrow> (nat \<times> nat) list" where
  "visit (DText n) position explicit = []"
| "visit (DLeaf nm d) position explicit = []"
| "visit (DNode nm d textblock ns) position explicit =
     (let directed = (explicit \<or> own_direction d) in
      (if \<not> directed \<and> (textblock \<or> nm \<in> {''bulletList'', ''orderedList'', ''blockquote''})
       then [(position, position + node_size (DNode nm d textblock ns))] else []) @
      visit_all ns (position + 1) directed)"
| "visit_all [] position explicit = []"
| "visit_all (n # ns) position explicit = visit n position explicit @ visit_all ns (position + node_size n) explicit"

definition directions :: "dir_node list \<Rightarrow> (nat \<times> nat) list" where
  "directions doc = visit_all doc 0 False"

text \<open>The ranges of the nodes that have a direction of their own.\<close>

fun directed_ranges :: "dir_node \<Rightarrow> nat \<Rightarrow> (nat \<times> nat) list"
  and directed_ranges_all :: "dir_node list \<Rightarrow> nat \<Rightarrow> (nat \<times> nat) list" where
  "directed_ranges (DText n) position = []"
| "directed_ranges (DLeaf nm d) position = []"
| "directed_ranges (DNode nm d textblock ns) position =
     (if own_direction d then [(position, position + node_size (DNode nm d textblock ns))] else []) @ directed_ranges_all ns (position + 1)"
| "directed_ranges_all [] position = []"
| "directed_ranges_all (n # ns) position = directed_ranges n position @ directed_ranges_all ns (position + node_size n)"

lemma directed_visit: "visit n p True = []" "visit_all ns p True = []"
  by (induction n p True and ns p True rule: visit_visit_all.induct) (simp_all add: Let_def)

lemma visit_within:
  "(a, b) \<in> set (visit n p e) \<Longrightarrow> p \<le> a \<and> a < b \<and> b \<le> p + node_size n"
  "(a, b) \<in> set (visit_all ns p e) \<Longrightarrow> p \<le> a \<and> a < b \<and> b \<le> p + sum_list (map node_size ns)"
  by (induction n p e and ns p e rule: visit_visit_all.induct) (fastforce simp: Let_def split: if_splits)+

lemma directed_within:
  "(a, b) \<in> set (directed_ranges n p) \<Longrightarrow> p \<le> a \<and> a < b \<and> b \<le> p + node_size n"
  "(a, b) \<in> set (directed_ranges_all ns p) \<Longrightarrow> p \<le> a \<and> a < b \<and> b \<le> p + sum_list (map node_size ns)"
  by (induction n p and ns p rule: directed_ranges_directed_ranges_all.induct) (fastforce split: if_splits)+

lemma visit_apart:
  "(a, b) \<in> set (visit n p e) \<Longrightarrow> (c, d) \<in> set (directed_ranges n p) \<Longrightarrow> \<not> (c \<le> a \<and> b \<le> d)"
  "(a, b) \<in> set (visit_all ns p e) \<Longrightarrow> (c, d) \<in> set (directed_ranges_all ns p) \<Longrightarrow> \<not> (c \<le> a \<and> b \<le> d)"
proof (induction n p e and ns p e rule: visit_visit_all.induct)
  case (3 k x textblock ns position explicit)
  let ?directed = "explicit \<or> own_direction x"
  have n: "\<not> ?directed" using "3.prems"(1) by (auto simp: directed_visit)
  then have cd: "(c, d) \<in> set (directed_ranges_all ns (position + 1))" using "3.prems"(2) by simp
  from "3.prems"(1) consider "a = position" | "(a, b) \<in> set (visit_all ns (position + 1) ?directed)"
    by (auto simp: Let_def split: if_splits)
  then show ?case
  proof cases
    case 1
    with directed_within(2) [OF cd] show ?thesis by simp
  next
    case 2
    from "3.IH" [OF refl 2 cd] show ?thesis .
  qed
next
  case (5 n ns position explicit)
  then consider "(a, b) \<in> set (visit n position explicit)" "(c, d) \<in> set (directed_ranges n position)"
    | "(a, b) \<in> set (visit_all ns (position + node_size n) explicit)" "(c, d) \<in> set (directed_ranges_all ns (position + node_size n))"
    | "(a, b) \<in> set (visit n position explicit)" "(c, d) \<in> set (directed_ranges_all ns (position + node_size n))"
    | "(a, b) \<in> set (visit_all ns (position + node_size n) explicit)" "(c, d) \<in> set (directed_ranges n position)"
    by auto
  then show ?case
  proof cases
    case 3
    with visit_within(1) [OF 3(1)] directed_within(2) [OF 3(2)] show ?thesis by linarith
  next
    case 4
    with visit_within(2) [OF 4(1)] directed_within(1) [OF 4(2)] show ?thesis by linarith
  qed (use 5 in blast)+
qed auto

text \<open>The view gives a direction of its own to no block that has one or is inside one that has: no
  decoration lies in the range of a node with an explicit direction; and where no node has one, every block of text,
  list and quote at the top is decorated.\<close>

theorem explicit_directions_stand:
  "(\<forall>(a, b)\<in>set (directions doc). a < b \<and> b \<le> sum_list (map node_size doc) \<and>
      (\<forall>(c, d)\<in>set (directed_ranges_all doc 0). \<not> (c \<le> a \<and> b \<le> d))) \<and>
   (\<not> own_direction d \<longrightarrow> (0, node_size (DNode k d True ns)) \<in> set (directions (DNode k d True ns # rest)))"
  using visit_within(2) [of _ _ doc 0 False] visit_apart(2) [of _ _ doc 0 False] by (auto simp: directions_def Let_def)

theorem explicit_directions_stand_witness:
  "directions [DNode ''blockquote'' (Some ''rtl'') False [DNode ''paragraph'' None True [DText 3]], DNode ''paragraph'' None True []] = [(7, 9)] \<and>
   (0, 2) \<in> set (directions [DNode ''paragraph'' None True []])"
  using explicit_directions_stand [of "[]" None "''paragraph''" "[]" "[]"]
  by (simp add: directions_def own_direction_def Let_def)

end
