(* ===== verification/NoteEditor.thy ===== *)
theory NoteEditor
  imports NoteHtml NoteCommands
begin

text \<open>
  The note editor around its schema: what it opens and saves and what its view draws
  (notes/editor.ts), its keys and the rules that run while typing (notes/behaviour.ts), and its
  tools (notes/formatting.ts).  What a tool or a key runs is named; the commands of the editor's own are in
  NoteCommands, the others are ProseMirror's.  The parser of URLs is an argument.
\<close>

section \<open>Links\<close>

text \<open>\<open>new URL(href, page)\<close>: the protocol and the whole address, or the exception.\<close>

definition safeHref :: "(string \<Rightarrow> (string \<times> string) option) \<Rightarrow> string option \<Rightarrow> string option" where
  "safeHref parse_url href = (case Option.bind href parse_url of
     Some (protocol, whole) \<Rightarrow> if protocol \<in> {''http:'', ''https:'', ''mailto:''} then Some whole else None
   | None \<Rightarrow> None)"

definition letter :: "char \<Rightarrow> bool" where
  "letter c \<longleftrightarrow> (let n = (of_char c :: nat) in 65 \<le> n \<and> n \<le> 90 \<or> 97 \<le> n \<and> n \<le> 122)"

definition SCHEME :: "char regex" where
  "SCHEME = seqs [Start, Cls letter, Many (Cls (\<lambda>c. letter c \<or> digit c \<or> c \<in> set ''+.-'')), Lit (CHR '':'')]"

definition address :: "string \<Rightarrow> string" where
  "address typed = (let v = trim typed in if test SCHEME v then v else ''https://'' @ v)"

record link_tools =
  linkEditing :: bool
  linkDraft :: string

definition openLink :: "bool \<Rightarrow> string option \<Rightarrow> link_tools \<Rightarrow> link_tools" where
  "openLink editable currentLink s =
     (if editable then \<lparr>linkEditing = True, linkDraft = (case currentLink of Some l \<Rightarrow> l | None \<Rightarrow> '''')\<rparr> else s)"

datatype link_command = UnsetLink | InsertLink string string | SetLink string

definition applyLink :: "bool \<Rightarrow> string option \<Rightarrow> link_tools \<Rightarrow> link_tools \<times> link_command" where
  "applyLink no_selection currentLink s =
     (let v = trim (linkDraft s); s' = s\<lparr>linkEditing := False\<rparr> in
      if v = '''' then (s', UnsetLink)
      else if no_selection \<and> given currentLink = None then (s', InsertLink v (address v))
      else (s', SetLink (address v)))"

definition cancelLink :: "link_tools \<Rightarrow> link_tools" where
  "cancelLink s = s\<lparr>linkEditing := False\<rparr>"

text \<open>The address a window is opened at, if one is.\<close>

definition followLink :: "(string \<Rightarrow> (string \<times> string) option) \<Rightarrow> string option \<Rightarrow> string option" where
  "followLink parse_url currentLink = given (safeHref parse_url currentLink)"

section \<open>What is drawn\<close>

definition heading_id :: "string option \<Rightarrow> string option" where
  "heading_id i = map_option (\<lambda>t. ''user-content-'' @ t) (given i)"

definition image_src :: "(string \<Rightarrow> string) \<Rightarrow> image_attrs \<Rightarrow> string option" where
  "image_src imageUrl n = (case given (attachmentKey n) of
     Some key \<Rightarrow> Some (imageUrl key)
   | None \<Rightarrow> (case src n of Some u \<Rightarrow> if Sublist.prefix ''data:image/'' u then Some u else None | None \<Rightarrow> None))"

text \<open>A link in the note is never followed by the browser.\<close>

definition on_click :: "string list \<Rightarrow> bool" where
  "on_click tags_around \<longleftrightarrow> ''a'' \<in> set tags_around"

section \<open>Opening and saving\<close>

record 'a note_editor =
  ed_doc :: "'a node list"
  ed_metadata :: Metadata
  ed_editable :: bool
  ed_unsupported :: bool

definition createNoteEditor :: "'a editor_library \<Rightarrow> bool \<Rightarrow> string \<Rightarrow> 'a note_editor" where
  "createNoteEditor L editable text =
     (let loaded = parseNote L editable text in
      \<lparr>ed_doc = loaded_doc loaded, ed_metadata = loaded_metadata loaded, ed_editable = editable \<and> \<not> unsupportedSchema loaded,
       ed_unsupported = unsupportedSchema loaded\<rparr>)"

text \<open>A change of the document: it is cleaned up, and \<open>onChange\<close> is called with what would be saved, or not at all.\<close>

definition onUpdate :: "'a editor_library \<Rightarrow> 'a node list \<Rightarrow> 'a note_editor \<Rightarrow> 'a note_editor \<times> string option" where
  "onUpdate L doc e =
     (let doc' = (case schemaTransform doc of Some d \<Rightarrow> d | None \<Rightarrow> doc); e' = e\<lparr>ed_doc := doc'\<rparr> in
      (e', if ed_editable e then Some (serializeNote L doc' (ed_metadata e)) else None))"

definition editor_html :: "'a editor_library \<Rightarrow> 'a note_editor \<Rightarrow> string" where
  "editor_html L e = serializeNote L (ed_doc e) (ed_metadata e)"

fun updates :: "'a editor_library \<Rightarrow> 'a node list list \<Rightarrow> 'a note_editor \<Rightarrow> 'a note_editor \<times> string list" where
  "updates L [] e = (e, [])"
| "updates L (d # ds) e =
     (let (e1, s) = onUpdate L d e; (e2, ss) = updates L ds e1 in (e2, (case s of Some t \<Rightarrow> [t] | None \<Rightarrow> []) @ ss))"

section \<open>Keys\<close>

text \<open>Keys and the commands bound to them, in the order they are bound.\<close>

definition keys_bound :: "bool \<Rightarrow> (string \<times> string) list" where
  "keys_bound mac =
     [(''Mod-z'', ''undoCommand''), (''Shift-Mod-z'', ''redoCommand''), (''Backspace'', ''undoInputRule''), (''Backspace'', ''removeBlockIndent'')] @
     (if mac then [] else [(''Ctrl-y'', ''redoCommand'')]) @
     [(''Alt-F10'', ''focusToolbar''), (''Alt-ArrowUp'', ''joinUp''), (''Alt-ArrowDown'', ''joinDown''), (''Mod-BracketLeft'', ''lift''),
      (''Mod-b'', ''toggleMark strong''), (''Mod-B'', ''toggleMark strong''), (''Mod-i'', ''toggleMark em''), (''Mod-I'', ''toggleMark em''),
      (''Mod-u'', ''toggleMark underline''), (''Mod-U'', ''toggleMark underline''), (''Mod-`'', ''toggleMark code''),
      (''Mod-k'', ''toggleLink''), (''Mod-K'', ''toggleLink''),
      (''Shift-Ctrl-8'', ''wrapInList bulletList''), (''Shift-Ctrl-9'', ''wrapInList orderedList''), (''Ctrl->'', ''wrapIn blockquote''),
      (''Mod-Enter'', ''hardBreak''), (''Shift-Enter'', ''hardBreak''),
      (''Shift-Tab'', ''goToNextCell -1, changeIndent -1''), (''Tab'', ''goToNextCell 1, changeIndent 1''),
      (''Shift-Ctrl-0'', ''setBlockType paragraph''), (''Shift-Ctrl-'' @ [CHR 0x5C], ''setBlockType codeBlock'')] @
     map (\<lambda>l. (''Shift-Ctrl-'' @ show_nat l, ''setBlockType heading '' @ show_nat l)) [1..<7] @
     [(''Mod-_'', ''horizontalRule''),
      (''Enter'', ''splitListItem, newlineInCode, createParagraphNear, liftEmptyBlock, customSplitBlock'')]"

definition buildKeymap :: "bool \<Rightarrow> (string \<times> string) list" where
  "buildKeymap mac = map_from (keys_bound mac)"

section \<open>Rules for what is typed\<close>

text \<open>
  \<open>markInputRule\<close> on the characters before the cursor, the last one typed not among them: \<open>start\<close> is where
  the match begins, \<open>g1\<close> its first group.
\<close>

definition markInputRule :: "mark \<Rightarrow> nat \<Rightarrow> nat \<Rightarrow> string option \<Rightarrow> bool \<Rightarrow> marked_text \<Rightarrow> marked_text option" where
  "markInputRule m n start g1 math t =
     (let to = length t;
          from = (case given g1 of Some g \<Rightarrow> to + 1 - length g | None \<Rightarrow> start)
      in if from < to \<and> InlineCode \<in> set (snd (t ! from)) then None
         else if math then None
         else (let marked = on_range from to (add_mark m) t;
                   short = (if 1 < n then take (to - (n - 1)) marked else marked)
               in Some (take from short @ drop (from + n) short)))"

section \<open>Menus\<close>

text \<open>
  What the bars show and run (notes/formatting.ts).  The place of the selection is what the commands read of it;
  \<open>t\<close> looks a word up in the language shown.
\<close>

datatype entry_kind = Radio | Check | Action

record NoteMenuEntry =
  e_id :: string
  e_label :: string
  e_kind :: entry_kind
  e_checked :: bool
  e_swatch :: "string option"
  e_separated :: bool
  e_sample :: "string option"

record note_place =
  np_sel :: "nat note_selection"
  np_around :: "string list"
  np_depth :: nat
  np_top :: "string list"
  np_range :: "nat option"
  np_list :: "parent_list option"

definition BLOCK_LABELS :: "(string \<times> string) list" where
  "BLOCK_LABELS =
     [(''paragraph'', ''Paragraph''), (''heading1'', ''Heading 1''), (''heading2'', ''Heading 2''), (''heading3'', ''Heading 3''),
      (''codeBlock'', ''Monospaced''), (''bulletList'', ''Bulleted List''), (''orderedList'', ''Numbered List''), (''blockquote'', ''Block Quote'')]"

definition SAMPLES :: "(string \<times> string) list" where
  "SAMPLES = [(''heading1'', ''h1''), (''heading2'', ''h2''), (''heading3'', ''h3''), (''codeBlock'', ''code'')]"

text \<open>A block type that is a kind of node by itself, with its attributes.\<close>

definition text_block :: "string \<Rightarrow> (string \<times> (string \<times> nat) list) option" where
  "text_block i = map_of [(''paragraph'', (''paragraph'', [])), (''heading1'', (''heading'', [(''level'', 1)])), (''heading2'', (''heading'', [(''level'', 2)])),
     (''heading3'', (''heading'', [(''level'', 3)])), (''codeBlock'', (''codeBlock'', []))] i"

definition activeBlocks :: "note_place \<Rightarrow> string \<Rightarrow> bool" where
  "activeBlocks p i =
     (let inList = listIsActive (np_around p) ''bulletList'' \<or> listIsActive (np_around p) ''orderedList'';
          inQuote = blockquoteIsActive (np_depth p) (np_top p)
      in case text_block i of
           Some (k, as) \<Rightarrow> blockIsActive (np_sel p) k as \<and> (i = ''paragraph'' \<longrightarrow> \<not> inList \<and> \<not> inQuote)
         | None \<Rightarrow> if i = ''blockquote'' then inQuote else listIsActive (np_around p) i)"

definition shown_block :: "note_place \<Rightarrow> string" where
  "shown_block p =
     (let active = filter (activeBlocks p) (map fst BLOCK_LABELS) in
      case List.find (\<lambda>i. i \<noteq> ''paragraph'') active of
        Some i \<Rightarrow> i
      | None \<Rightarrow> (case active of i # _ \<Rightarrow> i | [] \<Rightarrow> ''paragraph''))"

definition currentBlock :: "(string \<Rightarrow> string) \<Rightarrow> note_place \<Rightarrow> string" where
  "currentBlock t p = t (the (map_of BLOCK_LABELS (shown_block p)))"

definition blockEntries :: "(string \<Rightarrow> string) \<Rightarrow> note_place \<Rightarrow> NoteMenuEntry list" where
  "blockEntries t p = map (\<lambda>(i, l). \<lparr>e_id = i, e_label = t l, e_kind = Radio, e_checked = activeBlocks p i, e_swatch = None,
     e_separated = False, e_sample = map_of SAMPLES i\<rparr>) BLOCK_LABELS"

datatype note_action =
  SetBlock string "(string \<times> nat) list"
| ListAction list_action
| LiftQuote
| WrapQuote
| ToggleMark string "(string \<times> string) list"

definition blockCommand :: "note_place \<Rightarrow> string \<Rightarrow> note_action" where
  "blockCommand p i = (case text_block i of
     Some (k, as) \<Rightarrow> (case toggleBlock (np_sel p) k as of (k', as') \<Rightarrow> SetBlock k' as')
   | None \<Rightarrow> if i = ''blockquote'' then (if blockquoteIsActive (np_depth p) (np_top p) then LiftQuote else WrapQuote)
       else ListAction (toggleList i (np_range p) (np_list p) True))"

definition MARKS :: "(string \<times> string \<times> (string \<times> string) list) list" where
  "MARKS =
     [(''strong'', ''strong'', []), (''em'', ''em'', []), (''underline'', ''underline'', []), (''strike'', ''strike'', []),
      (''sub'', ''subsup'', [(''type'', ''sub'')]), (''sup'', ''subsup'', [(''type'', ''sup'')]), (''code'', ''code'', [])]"

definition MARK_LABELS :: "(string \<times> string) list" where
  "MARK_LABELS =
     [(''strong'', ''Bold''), (''em'', ''Italic''), (''underline'', ''Underline''), (''strike'', ''Strikethrough''), (''sub'', ''Subscript''),
      (''sup'', ''Superscript''), (''code'', ''Monospaced'')]"

text \<open>\<open>on\<close> is what the editor says of a mark with such attributes.\<close>

definition markEntries :: "(string \<Rightarrow> string) \<Rightarrow> (string \<Rightarrow> (string \<times> string) list \<Rightarrow> bool) \<Rightarrow> string list \<Rightarrow> bool \<Rightarrow> NoteMenuEntry list" where
  "markEntries t on ids separated = map (\<lambda>(n, i). \<lparr>e_id = i, e_label = t (the (map_of MARK_LABELS i)), e_kind = Check,
     e_checked = (case map_of MARKS i of Some (name, as) \<Rightarrow> on name as | None \<Rightarrow> False), e_swatch = None,
     e_separated = (separated \<and> n = 0), e_sample = map_of [(''underline'', ''underline''), (''strike'', ''strike''), (''code'', ''code'')] i\<rparr>) (enumerate 0 ids)"

definition formatEntries :: "(string \<Rightarrow> string) \<Rightarrow> (string \<Rightarrow> (string \<times> string) list \<Rightarrow> bool) \<Rightarrow> note_place \<Rightarrow> NoteMenuEntry list" where
  "formatEntries t on p = blockEntries t p @ markEntries t on [''underline'', ''strike'', ''sub'', ''sup'', ''code''] True"

definition format_chosen :: "note_place \<Rightarrow> string \<Rightarrow> note_action" where
  "format_chosen p i = (case map_of MARKS i of Some (name, as) \<Rightarrow> ToggleMark name as | None \<Rightarrow> blockCommand p i)"

definition COLOR_NAMES :: "(string \<times> string) list" where
  "COLOR_NAMES = [(''red'', ''Red''), (''orange'', ''Orange''), (''yellow'', ''Yellow''), (''green'', ''Green''), (''purple'', ''Purple''),
     (''magenta'', ''Magenta''), (''blue'', ''Blue''), (''gray'', ''Gray'')]"

definition colorName :: "(string \<Rightarrow> string) \<Rightarrow> string \<Rightarrow> string" where
  "colorName t name = (case map_of COLOR_NAMES name of Some w \<Rightarrow> t w | None \<Rightarrow> name)"

definition colorEntries :: "(string \<Rightarrow> string) \<Rightarrow> string option \<Rightarrow> (string \<times> string) list \<Rightarrow> NoteMenuEntry list" where
  "colorEntries t attr colors =
     (let current = (case attr of Some c \<Rightarrow> to_lower c | None \<Rightarrow> '''') in
      \<lparr>e_id = '''', e_label = t ''Remove Color'', e_kind = Action, e_checked = False, e_swatch = None, e_separated = False, e_sample = None\<rparr> #
      map (\<lambda>(name, code). \<lparr>e_id = code, e_label = colorName t name, e_kind = Radio, e_checked = (current = code), e_swatch = Some code,
        e_separated = (name = ''red''), e_sample = None\<rparr>) colors)"

record color_tools =
  lastText :: "string option"
  lastHighlight :: "string option"

definition color :: "bool \<Rightarrow> string \<Rightarrow> text_state \<times> color_tools \<Rightarrow> text_state \<times> color_tools" where
  "color highlight code z =
     (let m = (if highlight then BackgroundColor code else TextColor code); (s, c) = z in
      if code \<noteq> '''' then (setColor m s, if highlight then c\<lparr>lastHighlight := Some code\<rparr> else c\<lparr>lastText := Some code\<rparr>)
      else (removeColor (mark_rank m) s, c))"

definition alignEntries :: "(string \<Rightarrow> string) \<Rightarrow> note_block list \<Rightarrow> NoteMenuEntry list" where
  "alignEntries t selected =
     (let e = \<lambda>i l. \<lparr>e_id = i, e_label = t l, e_kind = Radio, e_checked = has_align (Some i) selected, e_swatch = None, e_separated = False, e_sample = None\<rparr>
      in [e ''left'' ''Align Left'', e ''center'' ''Align Center'', e ''right'' ''Align Right'',
          \<lparr>e_id = ''outdent'', e_label = t ''Decrease Indent'', e_kind = Action, e_checked = False, e_swatch = None, e_separated = True, e_sample = None\<rparr>,
          \<lparr>e_id = ''indent'', e_label = t ''Increase Indent'', e_kind = Action, e_checked = False, e_swatch = None, e_separated = False, e_sample = None\<rparr>])"

text \<open>\<open>align_chosen\<close> runs on the blocks of the range or on those of the selection.\<close>

definition align_chosen :: "string \<Rightarrow> bool \<Rightarrow> note_block list option \<Rightarrow> note_block list \<Rightarrow> note_block list command_result" where
  "align_chosen i in_item blocks selected =
     (if i = ''indent'' then changeIndent 1 in_item blocks
      else if i = ''outdent'' then changeIndent (-1) in_item blocks
      else toggleAlignment (Some i) selected)"

section \<open>What holds\<close>

lemma run_Seq_some: "q \<in> set (run e p) \<Longrightarrow> run f q \<noteq> [] \<Longrightarrow> run (Seq e f) p \<noteq> []"
  using run_shrinks [of q e p] by (force simp: concat_eq_Nil_conv)

lemma scheme_test:
  assumes "letter c" "list_all (\<lambda>c. letter c \<or> digit c \<or> c \<in> set ''+.-'') u"
  shows "test SCHEME (c # u @ CHR '':'' # r)"
proof -
  let ?P = "\<lambda>c. letter c \<or> digit c \<or> c \<in> set ''+.-''"
  have "\<not> ?P (CHR '':'')" by (simp add: letter_def digit_def)
  with assms(2) have t: "takeWhile ?P (u @ CHR '':'' # r) = u" by (simp add: list_all_iff takeWhile_append2)
  have "(rev (take (length u) (u @ CHR '':'' # r)) @ [c], drop (length u) (u @ CHR '':'' # r), []) \<in>
      set (run (Star True (Cls ?P)) ([c], u @ CHR '':'' # r, []))"
    unfolding run_star_class t by (force simp del: upt_Suc intro: rev_image_eqI [of "length u"])
  then have "(rev u @ [c], CHR '':'' # r, []) \<in> set (run (Star True (Cls ?P)) ([c], u @ CHR '':'' # r, []))" by simp
  then have "run (Seq (Star True (Cls ?P)) (Lit (CHR '':''))) ([c], u @ CHR '':'' # r, []) \<noteq> []"
    by (rule run_Seq_some) (simp add: Lit_def ahead_def)
  then have "run (Seq (Cls letter) (Seq (Star True (Cls ?P)) (Lit (CHR '':'')))) ([], c # u @ CHR '':'' # r, []) \<noteq> []"
    by (rule run_Seq_some [rotated]) (use assms(1) in \<open>simp add: ahead_def\<close>)
  then show ?thesis unfolding SCHEME_def by (simp only: seqs.simps test_start not_False_eq_True)
qed

lemma trim_fixed: "s \<noteq> '''' \<Longrightarrow> \<not> is_space (hd s) \<Longrightarrow> \<not> is_space (last s) \<Longrightarrow> trim s = s"
proof -
  assume s: "s \<noteq> ''''" "\<not> is_space (hd s)" "\<not> is_space (last s)"
  then have "dropWhile is_space s = s" by (cases s) auto
  moreover have "dropWhile is_space (rev s) = rev s" using s by (cases s rule: rev_cases) auto
  ultimately show ?thesis by (simp add: trim_def)
qed

lemma trimmed_last: "t \<noteq> '''' \<Longrightarrow> trim s = t \<Longrightarrow> \<not> is_space (last t)"
  using trim_ends(2) [of s] hd_dropWhile [of is_space "rev t"] by (auto simp: hd_rev)

lemma https_scheme: "test SCHEME (''https://'' @ t)"
  using scheme_test [of "CHR ''h''" "''ttps''" "''//'' @ t"] by (simp add: letter_def)

lemma address_trimmed: "trim (address v) = address v"
proof (cases "test SCHEME (trim v)")
  case False
  have "\<not> is_space (last (''https://'' @ trim v))"
    using trimmed_last [of "trim v" v] by (cases "trim v = ''''") (auto simp: is_space_def)
  with False show ?thesis unfolding address_def Let_def by (auto intro!: trim_fixed simp: is_space_def)
qed (simp add: address_def)

text \<open>Whatever a note holds as a link and whatever is typed for one, a window is opened only at an address
  of the web or of mail, never at a script or data; what is typed without a scheme becomes an address of the
  web, once; and a link that is emptied is taken off.\<close>

theorem links_are_safe:
  "(\<forall>l u. followLink parse_url l = Some u \<longrightarrow>
      (\<exists>typed protocol. l = Some typed \<and> parse_url typed = Some (protocol, u) \<and> protocol \<in> {''http:'', ''https:'', ''mailto:''})) \<and>
   test SCHEME (address v) \<and> address (address v) = address v \<and>
   (test SCHEME (trim v) \<longrightarrow> address v = trim v) \<and>
   (\<forall>l s. snd (applyLink no_selection l s) =
      (if trim (linkDraft s) = '''' then UnsetLink
       else if no_selection \<and> given l = None then InsertLink (trim (linkDraft s)) (address (linkDraft s)) else SetLink (address (linkDraft s)))) \<and>
   (\<forall>l s. openLink False l s = s)"
proof -
  have "test SCHEME (address v)" for v
    by (simp add: address_def Let_def https_scheme [simplified])
  moreover from this have "address (address v) = address v"
    using address_trimmed [of v] by (simp add: address_def [of "address v"] Let_def)
  moreover have "address (trim w) = address w" for w by (simp add: address_def)
  moreover have "test SCHEME (trim v) \<longrightarrow> address v = trim v" by (simp add: address_def)
  moreover have "\<forall>l s. openLink False l s = s" by (simp add: openLink_def)
  ultimately show ?thesis
    by (simp add: applyLink_def Let_def) (auto simp: followLink_def safeHref_def given_def bind_eq_Some_conv split: if_splits option.splits)
qed

lemma saved_in_turn:
  "snd (updates L docs e) = (if ed_editable e
     then map (\<lambda>k. editor_html L (fst (updates L (take (Suc k) docs) e))) [0..<length docs] else [])"
proof (induction docs arbitrary: e)
  case (Cons d ds)
  have "ed_editable (fst (onUpdate L d e)) = ed_editable e"
    "snd (onUpdate L d e) = (if ed_editable e then Some (editor_html L (fst (onUpdate L d e))) else None)"
    by (simp_all add: onUpdate_def Let_def editor_html_def)
  with Cons [of "fst (onUpdate L d e)"] show ?case
    by (simp add: split_beta Let_def upt_rec [of 0] map_Suc_upt [symmetric] o_def del: upt_Suc)
qed simp

text \<open>A note its reader may not change, or one that a newer editor wrote, is never saved, whatever happens to the
  document; of any other each change is passed on once, as the note that would be saved then.\<close>

theorem only_editable_notes_are_saved:
  "(let e = createNoteEditor L editable stored in
    snd (updates L docs e) =
      (if editable \<and> \<not> unsupportedSchema (parseNote L editable stored)
       then map (\<lambda>k. editor_html L (fst (updates L (take (Suc k) docs) e))) [0..<length docs] else []))"
  unfolding saved_in_turn Let_def by (simp add: createNoteEditor_def Let_def)

text \<open>Typing the end of a mark leaves what stood between its two ends, with the mark, and nothing of the ends; what stood
  before is untouched, and inside inline code nothing happens at all.\<close>

theorem typed_marks:
  assumes "length mk1 = n" "length mk2 = n - 1" "1 \<le> n" "body \<noteq> []"
    and "g1 = None \<and> start = length pre \<or> (\<exists>g. g1 = Some g \<and> length g = 2 * n + length body)"
  shows "markInputRule m n start g1 False (pre @ mk1 @ body @ mk2) =
    (if InlineCode \<in> set (snd (hd mk1)) then None
     else Some (pre @ map (\<lambda>(c, ms). (c, add_mark m ms)) body))"
proof -
  let ?t = "pre @ mk1 @ body @ mk2"
  have at: "(case given g1 of Some g \<Rightarrow> length ?t + 1 - length g | None \<Rightarrow> start) = length pre"
    using assms by (auto simp: given_def)
  have o: "mk1 \<noteq> []" using assms by auto
  have l: "length ?t - (n - 1) = length pre + n + length body" using assms by simp
  have r: "on_range (length pre) (length ?t) f ?t = pre @ map (\<lambda>(c, ms). (c, f ms)) (mk1 @ body @ mk2)" for f
    by (rule nth_equalityI) (auto simp: on_range_nth nth_append split_beta)
  have s: "(if 1 < n then take (length ?t - (n - 1)) (pre @ map f (mk1 @ body @ mk2)) else pre @ map f (mk1 @ body @ mk2)) =
      take (length pre + n + length body) (pre @ map f (mk1 @ body @ mk2))" for f :: "char \<times> mark list \<Rightarrow> char \<times> mark list"
    unfolding l using assms(1-3) by (simp del: take_append append_take_drop_id)
  have "take (length pre) (take (length pre + n + length body) (pre @ map f (mk1 @ body @ mk2))) = pre" 
    "drop (length pre + n) (take (length pre + n + length body) (pre @ map f (mk1 @ body @ mk2))) = map f body"
    for f :: "char \<times> mark list \<Rightarrow> char \<times> mark list"
    using assms(1) by (simp_all add: drop_take)
  moreover have "snd (?t ! length pre) = snd (hd mk1)" "length pre < length ?t"
    using o by (simp_all add: nth_append hd_conv_nth)
  ultimately show ?thesis unfolding markInputRule_def Let_def at r s
    by (simp del: take_append drop_append map_append)
qed

lemma block_ids: "map fst BLOCK_LABELS = [''paragraph'', ''heading1'', ''heading2'', ''heading3'', ''codeBlock'', ''bulletList'', ''orderedList'', ''blockquote'']"
  by (simp add: BLOCK_LABELS_def)

lemma one_block_type:
  "text_block i = Some (k, as) \<Longrightarrow> text_block j = Some (l, bs) \<Longrightarrow> blockIsActive sel k as \<Longrightarrow> blockIsActive sel l bs \<Longrightarrow> i = j"
  by (cases sel) (auto simp: text_block_def hasMarkup_def split: if_splits)

lemma find_filter_hd: "List.find P xs = (case filter P xs of [] \<Rightarrow> None | x # _ \<Rightarrow> Some x)"
  by (induction xs) auto

text \<open>The menu of blocks marks at most one kind of text, and the name on the bar is always one it marks, and not the
  paragraph's when it marks another; with nothing marked it is the paragraph's.  Choosing a heading or the
  monospaced block that is marked makes a paragraph of it, and one that is not marked makes that.\<close>

theorem block_menu:
  "(\<forall>i j. text_block i \<noteq> None \<and> text_block j \<noteq> None \<and> activeBlocks p i \<and> activeBlocks p j \<longrightarrow> i = j) \<and>
   (if \<exists>i\<in>set (map fst BLOCK_LABELS). activeBlocks p i then activeBlocks p (shown_block p) \<and> shown_block p \<in> set (map fst BLOCK_LABELS)
    else shown_block p = ''paragraph'') \<and>
   ((\<exists>i\<in>set (map fst BLOCK_LABELS). i \<noteq> ''paragraph'' \<and> activeBlocks p i) \<longrightarrow> shown_block p \<noteq> ''paragraph'') \<and>
   (\<forall>i k as. text_block i = Some (k, as) \<and> i \<noteq> ''paragraph'' \<longrightarrow>
     blockCommand p i = (if activeBlocks p i then SetBlock ''paragraph'' as else SetBlock k as))"
proof -
  have one: "i = j" if "text_block i \<noteq> None" "text_block j \<noteq> None" "activeBlocks p i" "activeBlocks p j" for i j
    using that one_block_type by (fastforce simp: activeBlocks_def Let_def)
  have command: "blockCommand p i = (if activeBlocks p i then SetBlock ''paragraph'' as else SetBlock k as)"
    if "text_block i = Some (k, as)" "i \<noteq> ''paragraph''" for i k as
    using that by (simp add: blockCommand_def activeBlocks_def toggleBlock_def Let_def)
  define act where "act = filter (activeBlocks p) (map fst BLOCK_LABELS)"
  have shown: "if \<exists>i\<in>set (map fst BLOCK_LABELS). activeBlocks p i then activeBlocks p (shown_block p) \<and> shown_block p \<in> set (map fst BLOCK_LABELS)
    else shown_block p = ''paragraph''"
    "(\<exists>i\<in>set (map fst BLOCK_LABELS). i \<noteq> ''paragraph'' \<and> activeBlocks p i) \<longrightarrow> shown_block p \<noteq> ''paragraph''"
  proof -
    have in_act: "i \<in> set act \<longleftrightarrow> i \<in> set (map fst BLOCK_LABELS) \<and> activeBlocks p i" for i by (auto simp: act_def)
    have sb: "shown_block p = (case filter (\<lambda>i. i \<noteq> ''paragraph'') act of x # _ \<Rightarrow> x | [] \<Rightarrow> (case act of x # _ \<Rightarrow> x | [] \<Rightarrow> ''paragraph''))"
      by (simp add: shown_block_def act_def Let_def find_filter_hd split: list.split)
    have three: "act = [] \<and> shown_block p = ''paragraph'' \<or> shown_block p \<in> set act \<and> (shown_block p \<noteq> ''paragraph'' \<or> set act \<subseteq> {''paragraph''})"
    proof (cases "filter (\<lambda>i. i \<noteq> ''paragraph'') act")
      case Nil
      then have "set act \<subseteq> {''paragraph''}" by (auto simp: filter_empty_conv)
      with Nil show ?thesis by (cases act) (simp_all add: sb)
    next
      case (Cons x xs)
      then have "x \<in> set (filter (\<lambda>i. i \<noteq> ''paragraph'') act)" by (simp only: list.set_intros)
      then have "x \<in> set act" "x \<noteq> ''paragraph''" by auto
      with Cons show ?thesis by (simp add: sb)
    qed
    then show "if \<exists>i\<in>set (map fst BLOCK_LABELS). activeBlocks p i then activeBlocks p (shown_block p) \<and> shown_block p \<in> set (map fst BLOCK_LABELS)
      else shown_block p = ''paragraph''"
      using in_act by (metis list.set(1) empty_iff)
    from three show "(\<exists>i\<in>set (map fst BLOCK_LABELS). i \<noteq> ''paragraph'' \<and> activeBlocks p i) \<longrightarrow> shown_block p \<noteq> ''paragraph''"
    proof (intro impI, elim bexE conjE)
      fix i assume "i \<in> set (map fst BLOCK_LABELS)" "i \<noteq> ''paragraph''" "activeBlocks p i"
      then have "i \<in> set act" "\<not> set act \<subseteq> {''paragraph''}" "act \<noteq> []" using in_act [of i] by auto
      with three show "shown_block p \<noteq> ''paragraph''" by blast
    qed
  qed
  show ?thesis using one command by (intro conjI shown) simp_all
qed

lemma color_menu:
  "map e_id (colorEntries t attr colors) = '''' # map snd colors"
  "distinct (map snd colors) \<Longrightarrow> length (filter e_checked (colorEntries t attr colors)) \<le> 1"
proof -
  show "map e_id (colorEntries t attr colors) = '''' # map snd colors" by (auto simp: colorEntries_def Let_def)
  show "length (filter e_checked (colorEntries t attr colors)) \<le> 1" if "distinct (map snd colors)"
    using that by (induction colors) (auto simp: colorEntries_def Let_def filter_map o_def filter_empty_conv split_beta image_iff split: option.splits)
qed

text \<open>The witnesses.\<close>

theorem links_are_safe_witness:
  "followLink (\<lambda>t. Some (takeWhile (\<lambda>c. c \<noteq> CHR '':'') t @ '':'', t)) (Some ''javascript:alert(1)'') = None \<and>
   followLink (\<lambda>t. Some (takeWhile (\<lambda>c. c \<noteq> CHR '':'') t @ '':'', t)) (Some ''https://a.org'') = Some ''https://a.org'' \<and>
   test SCHEME (address '' a.org '')"
proof -
  have "test SCHEME (address '' a.org '')"
    using links_are_safe [of "\<lambda>_. None" "'' a.org ''" True] by blast
  then show ?thesis by (simp add: followLink_def safeHref_def given_def)
qed

theorem typed_marks_witness:
  "markInputRule Strong 2 0 None False [(CHR ''*'', []), (CHR ''*'', []), (CHR ''a'', [Em]), (CHR ''*'', [])] =
     Some [(CHR ''a'', add_mark Strong [Em])]"
  using typed_marks [of "[(CHR ''*'', []), (CHR ''*'', [])]" 2 "[(CHR ''*'', [])]" "[(CHR ''a'', [Em])]" None 0 "[]" Strong] by simp

theorem block_menu_witness:
  "shown_block \<lparr>np_sel = TextSel (''heading'', [(''level'', 2)]) True, np_around = [''doc''], np_depth = 1, np_top = [''heading''],
     np_range = Some 0, np_list = None\<rparr> = ''heading2''"
proof -
  let ?p = "\<lparr>np_sel = TextSel (''heading'', [(''level'', 2)]) True, np_around = [''doc''], np_depth = 1, np_top = [''heading''],
     np_range = Some 0, np_list = None\<rparr> :: note_place"
  have "text_block ''heading2'' \<noteq> None" "activeBlocks ?p ''heading2''" "text_block ''heading1'' \<noteq> None"
    by (simp_all add: text_block_def activeBlocks_def hasMarkup_def)
  then have "\<not> activeBlocks ?p ''heading1''" 
    using block_menu [of ?p, THEN conjunct1, rule_format, of "''heading2''" "''heading1''"] by auto
  moreover have "shown_block ?p = ''heading2''" by code_simp
  ultimately show ?thesis by simp
qed

end
