(* ===== verification/ServiceWorker.thy ===== *)
theory ServiceWorker
  imports Toasts
begin

text \<open>
  The service worker (serviceworker/routes.ts, serviceworker/sw.ts) and the page's side of it
  (serviceworker/register.ts).  The worker's handlers are programs on the caches of the browser, which
  every build's worker shares; at each wait any other handler may run, and each operation of a
  cache may be refused.  A cache that is deleted while a handler holds it goes on existing for
  that handler only.  A URL is its origin, its path and the rest, as \<open>new URL\<close> reads it.
\<close>

section \<open>What is done with a request\<close>

record sw_request =
  origin_of :: string
  pathname :: string
  rest_of :: string
  sw_method :: string
  sw_mode :: string

definition SCOPE :: string where
  "SCOPE = ''/app/''"

definition SHELL :: string where
  "SHELL = ''/app/''"

datatype Route = Asset | Shell | Pass

definition route :: "sw_request \<Rightarrow> string \<Rightarrow> Route" where
  "route req origin =
     (if sw_method req \<noteq> ''GET'' then Pass
      else if origin_of req \<noteq> origin then Pass
      else if Sublist.prefix (SCOPE @ ''assets/'') (pathname req) then Asset
      else if sw_mode req = ''navigate'' \<and> (pathname req = ''/app'' \<or> Sublist.prefix SCOPE (pathname req)) then Shell
      else Pass)"

definition cacheName :: "string \<Rightarrow> string" where
  "cacheName build = ''altero-'' @ build"

section \<open>The caches\<close>

record sw_response =
  resp_ok :: bool
  redirected :: bool
  content_type :: "string option"
  content :: string

type_synonym url = "string \<times> string \<times> string"

definition url_of :: "sw_request \<Rightarrow> url" where
  "url_of req = (origin_of req, pathname req, rest_of req)"

definition shell_url :: "string \<Rightarrow> url" where
  "shell_url origin = (origin, SHELL, '''')"

record caches =
  cache_names :: "(string \<times> nat) list"
  cached_at :: "nat \<Rightarrow> (url \<times> sw_response) list"
  next_cache :: nat

definition no_caches :: caches where
  "no_caches = \<lparr>cache_names = [], cached_at = (\<lambda>_. []), next_cache = 0\<rparr>"

definition open_cache :: "string \<Rightarrow> caches \<Rightarrow> caches \<times> nat" where
  "open_cache name s = (case map_of (cache_names s) name of
     Some i \<Rightarrow> (s, i)
   | None \<Rightarrow> (s\<lparr>cache_names := cache_names s @ [(name, next_cache s)], cached_at := (cached_at s)(next_cache s := []),
        next_cache := Suc (next_cache s)\<rparr>, next_cache s))"

definition cache_match :: "nat \<Rightarrow> url \<Rightarrow> caches \<Rightarrow> caches \<times> sw_response option" where
  "cache_match i u s = (s, map_of (cached_at s i) u)"

definition cache_put :: "nat \<Rightarrow> url \<Rightarrow> sw_response \<Rightarrow> caches \<Rightarrow> caches \<times> unit" where
  "cache_put i u r s = (s\<lparr>cached_at := (cached_at s)(i := map_set u r (cached_at s i))\<rparr>, ())"

definition cache_delete :: "string \<Rightarrow> caches \<Rightarrow> caches \<times> unit" where
  "cache_delete name s = (s\<lparr>cache_names := filter (\<lambda>(n, _). n \<noteq> name) (cache_names s)\<rparr>, ())"

definition cache_keys :: "caches \<Rightarrow> caches \<times> string list" where
  "cache_keys s = (s, map fst (cache_names s))"

section \<open>The handlers\<close>

datatype sw_call = CacheCall | Fetch sw_request | Claim

type_synonym 'r handler = "(caches, sw_call, unit + sw_response, unit, 'r) async"

text \<open>An operation of the cache takes effect when the wait for it is over.\<close>

definition cached :: "(caches \<Rightarrow> caches \<times> 'r) \<Rightarrow> 'r handler" where
  "cached f = bind (await id (\<lambda>_. ()) CacheCall) (\<lambda>_ s. case f s of (s', r) \<Rightarrow> (s', Done r))"

definition fetch :: "sw_request \<Rightarrow> sw_response handler" where
  "fetch req = await id id (Fetch req)"

definition asset :: "string \<Rightarrow> sw_request \<Rightarrow> sw_response handler" where
  "asset CACHE req =
     bind (cached (open_cache CACHE)) (\<lambda>cache.
     bind (cached (cache_match cache (url_of req))) (\<lambda>kept. case kept of
       Some r \<Rightarrow> ret r
     | None \<Rightarrow> bind (fetch req) (\<lambda>response.
         seq (if resp_ok response then cached (cache_put cache (url_of req) response) else ret ()) (ret response))))"

definition is_page :: "sw_response \<Rightarrow> bool" where
  "is_page r \<longleftrightarrow> resp_ok r \<and> \<not> redirected r \<and> (case content_type r of Some t \<Rightarrow> Sublist.prefix ''text/html'' t | None \<Rightarrow> False)"

definition shell :: "string \<Rightarrow> string \<Rightarrow> sw_request \<Rightarrow> sw_response handler" where
  "shell origin CACHE req =
     bind (cached (open_cache CACHE)) (\<lambda>cache.
     try_catch
       (bind (fetch req) (\<lambda>response.
          seq (if is_page response then cached (cache_put cache (shell_url origin) response) else ret ()) (ret response)))
       (\<lambda>offline. bind (cached (cache_match cache (shell_url origin))) (\<lambda>kept. case kept of
          Some r \<Rightarrow> ret r
        | None \<Rightarrow> throw offline)))"

fun delete_old :: "string \<Rightarrow> string list \<Rightarrow> unit handler" where
  "delete_old CACHE [] = ret ()"
| "delete_old CACHE (name # names) =
     seq (if Sublist.prefix ''altero-'' name \<and> name \<noteq> CACHE then cached (cache_delete name) else ret ()) (delete_old CACHE names)"

definition activate :: "string \<Rightarrow> unit handler" where
  "activate CACHE = bind (cached cache_keys) (\<lambda>names. seq (delete_old CACHE names) (await id (\<lambda>_. ()) Claim))"

text \<open>\<open>respondWith\<close>, or the browser's own business.\<close>

definition on_fetch :: "string \<Rightarrow> string \<Rightarrow> sw_request \<Rightarrow> sw_response handler option" where
  "on_fetch build origin req = (case route req origin of
     Asset \<Rightarrow> Some (asset (cacheName build) req)
   | Shell \<Rightarrow> Some (shell origin (cacheName build) req)
   | Pass \<Rightarrow> None)"

text \<open>What the workers of all builds may start.\<close>

definition sw_programs :: "string \<Rightarrow> unit handler set" where
  "sw_programs origin = {void m | m build req. on_fetch build origin req = Some m} \<union> range (\<lambda>build. activate (cacheName build))"

section \<open>What is kept\<close>

definition may_be_kept :: "string \<Rightarrow> url \<Rightarrow> sw_response \<Rightarrow> bool" where
  "may_be_kept origin u r \<longleftrightarrow> u = shell_url origin \<and> is_page r \<or>
     fst u = origin \<and> Sublist.prefix ''/app/assets/'' (fst (snd u)) \<and> resp_ok r"

definition only_app :: "string \<Rightarrow> caches \<Rightarrow> bool" where
  "only_app origin s \<longleftrightarrow> (\<forall>i. \<forall>(u, r)\<in>set (cached_at s i). may_be_kept origin u r)"

lemma stretches_cached:
  assumes "\<And>s. I s \<Longrightarrow> I (fst (f s))"
  shows "stretches (keeps I) (cached f)"
proof -
  have "stretches (keeps I) (\<lambda>s. case f s of (s', r) \<Rightarrow> (s', Done r))"
    unfolding stretches_def keeps_def by (auto simp: split_beta dest: assms)
  then show ?thesis unfolding cached_def by (intro stretches_bind stretches_await preorder_keeps)
qed

lemma in_map_set: "(u, r) \<in> set (map_set k v m) \<Longrightarrow> (u, r) = (k, v) \<or> (u, r) \<in> set m"
  by (induction m) (auto split: if_splits)

lemma only_app_operations:
  "only_app origin s \<Longrightarrow> only_app origin (fst (open_cache name s))"
  "only_app origin s \<Longrightarrow> only_app origin (fst (cache_match i u s))"
  "only_app origin s \<Longrightarrow> only_app origin (fst (cache_delete name s))"
  "only_app origin s \<Longrightarrow> only_app origin (fst (cache_keys s))"
  "may_be_kept origin u r \<Longrightarrow> only_app origin s \<Longrightarrow> only_app origin (fst (cache_put i u r s))"
  by (auto simp: only_app_def open_cache_def cache_match_def cache_delete_def cache_keys_def cache_put_def
      split: option.split if_splits dest!: in_map_set)

lemmas kept_rules = stretches_bind stretches_seq stretches_catch stretches_await stretches_ret stretches_throw
  stretches_option stretches_if stretches_void stretches_cached only_app_operations preorder_keeps

lemma stretches_asset:
  "route req origin = Asset \<Longrightarrow> stretches (keeps (only_app origin)) (asset CACHE req)"
  unfolding asset_def fetch_def
  by (intro kept_rules) (auto simp: route_def may_be_kept_def url_of_def SCOPE_def split: if_splits)

lemma stretches_shell: "stretches (keeps (only_app origin)) (shell origin CACHE req)"
  unfolding shell_def fetch_def by (intro kept_rules) (auto simp: may_be_kept_def)

lemma stretches_delete_old: "stretches (keeps (only_app origin)) (delete_old CACHE names)"
  by (induction names) (auto intro!: kept_rules)

lemma stretches_activate: "stretches (keeps (only_app origin)) (activate CACHE)"
  unfolding activate_def by (intro kept_rules stretches_delete_old)

interpretation workers: store_invariant "only_app origin" "sw_programs origin" for origin
proof
  fix m :: "unit handler"
  assume "m \<in> sw_programs origin"
  then consider n build req where "m = void n" "on_fetch build origin req = Some n" | build where "m = activate (cacheName build)"
    by (auto simp: sw_programs_def)
  then show "stretches (keeps (only_app origin)) m"
  proof cases
    case 1
    then show ?thesis
      by (cases "route req origin") (auto simp: on_fetch_def intro!: kept_rules stretches_asset stretches_shell)
  qed (simp add: stretches_activate)
qed

text \<open>C10: Whatever handlers of whatever builds' workers run, in whatever order, and whatever of it fails, all that
  the caches ever hold is the page under its one key, as the server gave it and not a redirect, and good
  answers for the fingerprinted files: nothing under \<open>/web\<close>, nothing of the API or
  of another origin, and no other page of the interface.\<close>

theorem nothing_private_kept:
  assumes "reachable (sw_programs origin) no_caches (s, ps)" "(u, r) \<in> set (cached_at s i)"
  shows "resp_ok r \<and> fst u = origin \<and>
    (fst (snd u) = ''/app/'' \<and> snd (snd u) = '''' \<and> \<not> redirected r \<or> Sublist.prefix ''/app/assets/'' (fst (snd u))) \<and>
    \<not> Sublist.prefix ''/web'' (fst (snd u))"
proof -
  have "only_app origin s"
    using workers.always [OF assms(1)] by (simp add: only_app_def no_caches_def)
  with assms(2) have "may_be_kept origin u r" by (auto simp: only_app_def)
  then show ?thesis by (auto simp: may_be_kept_def shell_url_def is_page_def SHELL_def prefix_def)
qed

definition sample_page :: sw_request where
  "sample_page = \<lparr>origin_of = ''https://a.org'', pathname = ''/app/library'', rest_of = '''', sw_method = ''GET'', sw_mode = ''navigate''\<rparr>"

definition sample_html_answer :: sw_response where
  "sample_html_answer = \<lparr>resp_ok = True, redirected = False, content_type = Some ''text/html; charset=utf-8'', content = ''page''\<rparr>"

definition kept_after :: "caches" where
  "kept_after = fst (feed [Inr sample_html_answer, Inr sample_html_answer, Inr sample_html_answer]
     (void (shell ''https://a.org'' ''altero-1'' sample_page) no_caches))"

lemma kept_after_eq: "cached_at kept_after 0 = [((''https://a.org'', ''/app/'', ''''), sample_html_answer)]"
  by (simp add: kept_after_def shell_def void_def cached_def fetch_def async_simps open_cache_def cache_put_def no_caches_def
      shell_url_def SHELL_def is_page_def sample_html_answer_def)

theorem nothing_private_kept_witness:
  "((''https://a.org'', ''/app/'', ''''), sample_html_answer) \<in> set (cached_at kept_after 0) \<and> resp_ok sample_html_answer"
proof -
  have "void (shell ''https://a.org'' ''altero-1'' sample_page) \<in> sw_programs ''https://a.org''"
    by (auto simp: sw_programs_def on_fetch_def route_def sample_page_def SCOPE_def cacheName_def intro!: exI [of _ "''1''"] exI [of _ sample_page])
  from reachable_feed [OF this] obtain ps where "reachable (sw_programs ''https://a.org'') no_caches (kept_after, ps)"
    unfolding kept_after_def by blast
  from nothing_private_kept [OF this, of _ _ 0] show ?thesis by (simp add: kept_after_eq)
qed

section \<open>What is answered\<close>

definition is_old :: "string \<Rightarrow> string \<Rightarrow> bool" where
  "is_old CACHE name \<longleftrightarrow> Sublist.prefix ''altero-'' name \<and> name \<noteq> CACHE"

lemma delete_old_run:
  "\<exists>n. \<forall>as. feed (replicate n (Inr p) @ as) (bind (delete_old CACHE names) f s) =
     feed as (f () (s\<lparr>cache_names := filter (\<lambda>(n, _). \<not> (n \<in> set names \<and> is_old CACHE n)) (cache_names s)\<rparr>))"
proof (induction names arbitrary: s)
  case Nil
  show ?case by (intro exI [of _ 0]) (simp add: bind_ret)
next
  case (Cons name names)
  show ?case
  proof (cases "is_old CACHE name")
    case True
    let ?s = "fst (cache_delete name s)"
    from Cons [of ?s] obtain n where n: "\<And>as. feed (replicate n (Inr p) @ as) (bind (delete_old CACHE names) f ?s) =
        feed as (f () (?s\<lparr>cache_names := filter (\<lambda>(n, _). \<not> (n \<in> set names \<and> is_old CACHE n)) (cache_names ?s)\<rparr>))" by blast
    have "feed (replicate (Suc n) (Inr p) @ as) (bind (delete_old CACHE (name # names)) f s) =
        feed (replicate n (Inr p) @ as) (bind (delete_old CACHE names) f ?s)" for as
      using True by (simp add: is_old_def cached_def async_simps split_beta)
    moreover have "?s\<lparr>cache_names := filter (\<lambda>(n, _). \<not> (n \<in> set names \<and> is_old CACHE n)) (cache_names ?s)\<rparr> =
        s\<lparr>cache_names := filter (\<lambda>(n, _). \<not> (n \<in> set (name # names) \<and> is_old CACHE n)) (cache_names s)\<rparr>"
      using True by (auto simp: cache_delete_def intro!: arg_cong [where f = "\<lambda>f. s\<lparr>cache_names := filter f (cache_names s)\<rparr>"])
    ultimately show ?thesis using n by (intro exI [of _ "Suc n"]) simp
  next
    case False
    have "delete_old CACHE (name # names) = seq (ret ()) (delete_old CACHE names)"
      using False by (auto simp: is_old_def)
    then have "bind (delete_old CACHE (name # names)) f s = bind (delete_old CACHE names) f s"
      by (simp add: seq_def bind_ret)
    moreover have "filter (\<lambda>(n, _). \<not> (n \<in> set (name # names) \<and> is_old CACHE n)) (cache_names s) =
        filter (\<lambda>(n, _). \<not> (n \<in> set names \<and> is_old CACHE n)) (cache_names s)"
      using False by (intro filter_cong) auto
    ultimately show ?thesis using Cons [of s] by simp
  qed
qed

text \<open>C24: A page of the interface is the server's answer when there is one, and kept if it is the page itself; offline it is the page
  that was kept last, or the failure.  A page that the cache refuses to keep is treated as no answer
  at all: the one kept before is shown, or none.  A file that was kept is never asked for again.  A worker
  that takes over leaves of altero's caches only its own, and every cache that is not altero's.\<close>

theorem worker_answers:
  fixes s :: caches and CACHE :: string
  defines "s1 \<equiv> fst (open_cache CACHE s)" and "i \<equiv> snd (open_cache CACHE s)"
  shows "feed [Inr p, Inr r, Inr p] (shell origin CACHE req s) = (if is_page r then fst (cache_put i (shell_url origin) r s1) else s1, Done r) \<and>
    feed [Inr p, Inl (), Inr p] (shell origin CACHE req s) =
      (s1, case map_of (cached_at s1 i) (shell_url origin) of Some kept \<Rightarrow> Done kept | None \<Rightarrow> Fail ()) \<and>
    (is_page r \<longrightarrow> feed [Inr p, Inr r, Inl (), Inr p] (shell origin CACHE req s) =
      (s1, case map_of (cached_at s1 i) (shell_url origin) of Some kept \<Rightarrow> Done kept | None \<Rightarrow> Fail ())) \<and>
    (\<forall>kept. map_of (cached_at s1 i) (url_of req) = Some kept \<longrightarrow>
      feed [Inr p, Inr p] (asset CACHE req s) = (s1, Done kept) \<and> sent [Inr p, Inr p] (asset CACHE req s) = [CacheCall, CacheCall]) \<and>
    (\<exists>n. feed (replicate n (Inr p)) (activate CACHE s) =
      (s\<lparr>cache_names := filter (\<lambda>(n, _). \<not> is_old CACHE n) (cache_names s)\<rparr>, Done ()))"
proof -
  have sh: "feed [Inr p, Inr r, Inr p] (shell origin CACHE req s) = (if is_page r then fst (cache_put i (shell_url origin) r s1) else s1, Done r)"
    "feed [Inr p, Inl (), Inr p] (shell origin CACHE req s) =
      (s1, case map_of (cached_at s1 i) (shell_url origin) of Some kept \<Rightarrow> Done kept | None \<Rightarrow> Fail ())"
    "is_page r \<Longrightarrow> feed [Inr p, Inr r, Inl (), Inr p] (shell origin CACHE req s) =
      (s1, case map_of (cached_at s1 i) (shell_url origin) of Some kept \<Rightarrow> Done kept | None \<Rightarrow> Fail ())"
    by (auto simp: shell_def cached_def fetch_def async_simps split_beta s1_def i_def cache_match_def split: option.split)
  have a: "feed [Inr p, Inr p] (asset CACHE req s) = (s1, Done kept) \<and> sent [Inr p, Inr p] (asset CACHE req s) = [CacheCall, CacheCall]"
    if "map_of (cached_at s1 i) (url_of req) = Some kept" for kept
    using that by (simp add: asset_def cached_def async_simps split_beta s1_def i_def cache_match_def)
  let ?f = "\<lambda>_. await id (\<lambda>_. ()) Claim :: unit handler"
  from delete_old_run [of p CACHE "map fst (cache_names s)" ?f s] obtain n where
    n: "\<And>as. feed (replicate n (Inr p) @ as) (bind (delete_old CACHE (map fst (cache_names s))) ?f s) =
      feed as (?f () (s\<lparr>cache_names := filter (\<lambda>(n, _). \<not> (n \<in> set (map fst (cache_names s)) \<and> is_old CACHE n)) (cache_names s)\<rparr>))" by blast
  have "filter (\<lambda>(n, _). \<not> (n \<in> set (map fst (cache_names s)) \<and> is_old CACHE n)) (cache_names s) =
      filter (\<lambda>(n, _). \<not> is_old CACHE n) (cache_names s)" by (intro filter_cong) force+
  with n [of "[Inr p]"] have "feed (Inr p # (replicate n (Inr p) @ [Inr p])) (activate CACHE s) =
      (s\<lparr>cache_names := filter (\<lambda>(n, _). \<not> is_old CACHE n) (cache_names s)\<rparr>, Done ())"
    by (simp add: activate_def seq_def cached_def async_simps split_beta cache_keys_def)
  then have "feed (replicate (n + 2) (Inr p)) (activate CACHE s) =
      (s\<lparr>cache_names := filter (\<lambda>(n, _). \<not> is_old CACHE n) (cache_names s)\<rparr>, Done ())"
    by (simp add: replicate_append_same)
  with sh a show ?thesis by blast
qed

theorem worker_answers_witness:
  "(let s = kept_after; r = sample_html_answer\<lparr>content := ''new page''\<rparr> in
     snd (feed [Inr r, Inl (), Inr r] (shell ''https://a.org'' ''altero-1'' sample_page s)) = Done sample_html_answer \<and>
     snd (feed [Inr r, Inr r, Inl (), Inr r] (shell ''https://a.org'' ''altero-1'' sample_page s)) = Done sample_html_answer)"
proof -
  have o: "open_cache ''altero-1'' kept_after = (kept_after, 0)"
    by (simp add: kept_after_def shell_def void_def cached_def fetch_def async_simps open_cache_def cache_put_def no_caches_def
        is_page_def sample_html_answer_def)
  have "is_page (sample_html_answer\<lparr>content := ''new page''\<rparr>)" by (simp add: is_page_def sample_html_answer_def)
  then show ?thesis
    using worker_answers [where CACHE = "''altero-1''" and s = kept_after and p = "sample_html_answer\<lparr>content := ''new page''\<rparr>"
        and r = "sample_html_answer\<lparr>content := ''new page''\<rparr>" and origin = "''https://a.org''" and req = sample_page]
    by (simp add: o kept_after_eq shell_url_def SHELL_def)
qed

section \<open>The page\<close>

text \<open>Workers are numbers.  What a toast may run is taking an update, or something of another part of the interface.\<close>

datatype toast_run = TakeUpdate nat | OtherRun

record update_page =
  pageBuild :: "string option"
  offered_builds :: "string list"
  updateToast :: "nat option"
  asked :: bool
  bar :: "toast_run toasts"
  asking :: "nat list"
  watched :: "nat list"
  waiting :: "nat option"
  installing :: "nat option"
  controller :: "nat option"
  skip_waiting :: "nat list"
  reloads :: nat

text \<open>\<open>offer\<close> up to its wait for the worker's build, and from there; \<open>None\<close> is no answer in time, or none.\<close>

definition ask_build :: "nat \<Rightarrow> update_page \<Rightarrow> update_page" where
  "ask_build w p = p\<lparr>asking := asking p @ [w]\<rparr>"

definition offer_answered :: "nat \<Rightarrow> string option \<Rightarrow> update_page \<Rightarrow> update_page" where
  "offer_answered w build p =
     (case (given (pageBuild p), given build) of
        (Some page, Some b) \<Rightarrow>
          (if b = page then (if waiting p = Some w then p\<lparr>skip_waiting := skip_waiting p @ [w]\<rparr> else p)
           else if b \<in> set (offered_builds p) then p
           else
             (let bar1 = (case updateToast p of Some i \<Rightarrow> dismiss i (bar p) | None \<Rightarrow> bar p);
                  (bar2, i) = show_toast ''A new version of altero is ready.'' (Some (''Reload'', TakeUpdate w)) bar1
              in p\<lparr>offered_builds := offered_builds p @ [b], bar := bar2, updateToast := Some i\<rparr>))
      | _ \<Rightarrow> p)"

definition take_update :: "nat \<Rightarrow> update_page \<Rightarrow> update_page" where
  "take_update w p =
     (if waiting p = Some w then p\<lparr>asked := True, skip_waiting := skip_waiting p @ [w]\<rparr> else p\<lparr>reloads := reloads p + 1\<rparr>)"

definition worker_ready :: "nat \<Rightarrow> bool \<Rightarrow> update_page \<Rightarrow> update_page" where
  "worker_ready w installed p = (if installed then ask_build w p else p)"

definition observeInstalling :: "bool \<Rightarrow> update_page \<Rightarrow> update_page" where
  "observeInstalling installed p = (case installing p of
     None \<Rightarrow> p
   | Some w \<Rightarrow> if w \<in> set (watched p) then p else worker_ready w installed (p\<lparr>watched := w # watched p\<rparr>))"

definition controllerchange :: "update_page \<Rightarrow> update_page" where
  "controllerchange p =
     (if asked p then p\<lparr>asked := False, reloads := reloads p + 1\<rparr>
      else case controller p of Some w \<Rightarrow> ask_build w p | None \<Rightarrow> p)"

definition registered :: "string option \<Rightarrow> nat option \<Rightarrow> nat option \<Rightarrow> bool \<Rightarrow> toast_run toasts \<Rightarrow> update_page" where
  "registered build waits installs installed b =
     (let p = \<lparr>pageBuild = build, offered_builds = [], updateToast = None, asked = False, bar = b, asking = [], watched = [],
                waiting = waits, installing = installs, controller = None, skip_waiting = [], reloads = 0\<rparr>
      in observeInstalling installed (case waits of Some w \<Rightarrow> ask_build w p | None \<Rightarrow> p))"

text \<open>
  What happens to the page: an answer to a question asked of a worker, the person acting on a toast, the
  events of the browser, and whatever else toasts do.
\<close>

inductive page_step :: "update_page \<Rightarrow> nat \<Rightarrow> update_page \<Rightarrow> bool" where
  answered: "w \<in> set (asking p) \<Longrightarrow> page_step p 0 (offer_answered w build (p\<lparr>asking := remove1 w (asking p)\<rparr>))"
| presses: "act i (bar p) = (b, Some (TakeUpdate w)) \<Longrightarrow> page_step p 1 (take_update w (p\<lparr>bar := b\<rparr>))"
| toasts_go_on: "toast_step (bar p) e b \<Longrightarrow> (\<And>m l w. e \<noteq> Show m (Some (l, TakeUpdate w))) \<Longrightarrow> page_step p 0 (p\<lparr>bar := b\<rparr>)"
| ready: "w \<in> set (watched p) \<Longrightarrow> page_step p 0 (worker_ready w installed p)"
| updatefound: "page_step p 0 (observeInstalling installed p)"
| changes: "page_step p 0 (controllerchange p)"
| browser: "page_step p 0 (p\<lparr>waiting := ws, installing := is, controller := c\<rparr>)"

text \<open>A page with how often its person has pressed \<open>Reload\<close>.\<close>

inductive page_reach :: "update_page \<Rightarrow> nat \<Rightarrow> bool" where
  page_starts: "toast_reach b \<Longrightarrow> (\<forall>t\<in>set (shown b). \<forall>l w. toastAction t \<noteq> Some (l, TakeUpdate w)) \<Longrightarrow>
    page_reach (registered build waits installs installed b) 0"
| page_goes_on: "page_reach p n \<Longrightarrow> page_step p k p' \<Longrightarrow> page_reach p' (n + k)"

fun offers_update :: "toast_run toast \<Rightarrow> bool" where
  "offers_update t = (\<exists>l w. toastAction t = Some (l, TakeUpdate w))"

lemma shown_dismiss: "t \<in> set (shown (dismiss i s)) \<longleftrightarrow> t \<in> set (shown s) \<and> toastId t \<noteq> i"
  by (auto simp: dismiss_def)

lemma shown_drop_oldest: "set (shown (drop_oldest s)) \<subseteq> set (shown s)"
proof (induction s rule: drop_oldest.induct)
  case (1 s)
  have "set (shown (dismiss i s)) \<subseteq> set (shown s)" for i by (auto simp: shown_dismiss)
  with 1 show ?case by (subst drop_oldest.simps) (use subset_trans in auto)
qed

lemma shown_show_toast:
  "t \<in> set (shown (fst (show_toast m a s))) \<Longrightarrow> t \<in> set (shown s) \<or> toastId t = nextToast s \<and> toastAction t = a"
  by (auto simp: show_toast_def Let_def dest!: subsetD [OF shown_drop_oldest])

lemma shown_step:
  assumes "toast_step s e s'" "\<And>m l w. e \<noteq> Show m (Some (l, TakeUpdate w))" "t \<in> set (shown s')" "offers_update t"
  shows "t \<in> set (shown s)"
  using assms
  by (induction rule: toast_step.induct) (auto simp: shown_dismiss act_def dest!: shown_show_toast)

definition page_inv :: "update_page \<Rightarrow> nat \<Rightarrow> bool" where
  "page_inv p n \<longleftrightarrow> reloads p + (if asked p then 1 else 0) \<le> n \<and> distinct (offered_builds p) \<and>
     (\<forall>b. given (pageBuild p) = Some b \<longrightarrow> b \<notin> set (offered_builds p)) \<and> toast_inv (bar p) \<and>
     (\<forall>t\<in>set (shown (bar p)). offers_update t \<longrightarrow> updateToast p = Some (toastId t))"

lemma page_inv_same_toasts:
  "page_inv p n \<Longrightarrow> page_inv (p\<lparr>asking := x\<rparr>) n" "page_inv p n \<Longrightarrow> page_inv (p\<lparr>watched := y\<rparr>) n"
  "page_inv p n \<Longrightarrow> page_inv (p\<lparr>skip_waiting := x\<rparr>) n" "page_inv p n \<Longrightarrow> page_inv (ask_build w p) n"
  "page_inv p n \<Longrightarrow> page_inv (worker_ready w b p) n" "page_inv p n \<Longrightarrow> page_inv (observeInstalling b p) n"
  "page_inv p n \<Longrightarrow> page_inv (p\<lparr>waiting := ws, installing := is, controller := c\<rparr>) n"
  by (auto simp: page_inv_def ask_build_def worker_ready_def observeInstalling_def split: option.split)

lemma page_inv_controllerchange: "page_inv p n \<Longrightarrow> page_inv (controllerchange p) n"
  by (auto simp: page_inv_def controllerchange_def ask_build_def split: option.split)

lemma page_inv_offer:
  assumes "page_inv p n"
  shows "page_inv (offer_answered w build p) n"
proof (cases "\<exists>page b. given (pageBuild p) = Some page \<and> given build = Some b \<and> b \<noteq> page \<and> b \<notin> set (offered_builds p)")
  case True
  then obtain page b where b: "given (pageBuild p) = Some page" "given build = Some b" "b \<noteq> page" "b \<notin> set (offered_builds p)" by blast
  define bar1 where "bar1 = (case updateToast p of Some i \<Rightarrow> dismiss i (bar p) | None \<Rightarrow> bar p)"
  have "toast_inv bar1" using assms by (auto simp: bar1_def page_inv_def dismiss_inv split: option.split)
  moreover have "\<not> offers_update t" if "t \<in> set (shown bar1)" for t
    using assms that by (auto simp: bar1_def page_inv_def shown_dismiss split: option.splits)
  ultimately have "toast_inv (fst (show_toast m a bar1))"
    "\<forall>t\<in>set (shown (fst (show_toast m a bar1))). offers_update t \<longrightarrow> toastId t = snd (show_toast m a bar1)" for m a
    using shown_show_toast [of _ m a bar1] by (simp add: show_inv, auto simp: show_toast_def Let_def)
  then show ?thesis using assms b
    by (auto simp: page_inv_def offer_answered_def bar1_def [symmetric] Let_def split_beta)
next
  case False
  then have "offer_answered w build p = p \<or> offer_answered w build p = p\<lparr>skip_waiting := skip_waiting p @ [w]\<rparr>"
    by (auto simp: offer_answered_def split: option.split)
  with assms show ?thesis by (auto simp: page_inv_same_toasts)
qed

lemma page_step_inv: "page_step p k p' \<Longrightarrow> page_inv p n \<Longrightarrow> page_inv p' (n + k)"
proof (induction rule: page_step.induct)
  case (presses i p b w)
  then have "b = dismiss i (bar p)" by (simp add: act_def)
  with presses.prems show ?case by (auto simp: page_inv_def take_update_def shown_dismiss dismiss_inv)
next
  case (toasts_go_on p e b)
  then show ?case using shown_step [OF toasts_go_on(1,2)] toast_step_inv [OF toasts_go_on(1)] by (simp add: page_inv_def)
qed (simp_all add: page_inv_same_toasts page_inv_controllerchange page_inv_offer del: offers_update.simps)

lemma page_reach_inv: "page_reach p n \<Longrightarrow> page_inv p n"
proof (induction rule: page_reach.induct)
  case (page_starts b build waits installs installed)
  then show ?case unfolding registered_def Let_def
    by (intro page_inv_same_toasts) (auto simp: page_inv_def ask_build_def toast_reach_inv split: option.split)
next
  case (page_goes_on p n k p')
  then show ?case by (simp add: page_step_inv)
qed


text \<open>A page of build \<open>a\<close> that is offered build \<open>b\<close>, whose person presses, and that then reloads.\<close>

definition offered_page :: update_page where
  "offered_page = offer_answered 7 (Some ''b'') ((registered (Some ''a'') (Some 7) None False no_toasts)\<lparr>asking := []\<rparr>)"

definition reloaded_page :: update_page where
  "reloaded_page = controllerchange (take_update 7 (offered_page\<lparr>bar := fst (act 1 (bar offered_page))\<rparr>))"

lemma reloaded_reached: "page_reach reloaded_page 1"
proof -
  let ?p = "registered (Some ''a'') (Some 7) None False no_toasts"
  have r: "page_reach ?p 0" by (rule page_starts [OF toast_init]) (simp add: no_toasts_def)
  have "page_reach offered_page (0 + 0)" unfolding offered_page_def
    using page_goes_on [OF r answered [of 7 ?p "Some ''b''"]]
    by (simp add: registered_def ask_build_def observeInstalling_def Let_def)
  moreover have "act 1 (bar offered_page) = (fst (act 1 (bar offered_page)), Some (TakeUpdate 7))"
    by (simp add: offered_page_def offer_answered_def registered_def ask_build_def observeInstalling_def given_def act_def show_toast_def
        drop_oldest.simps no_toasts_def MAX_TOASTS_def Let_def schedule_def)
  ultimately have "page_reach (take_update 7 (offered_page\<lparr>bar := fst (act 1 (bar offered_page))\<rparr>)) (0 + 0 + 1)"
    by (intro page_goes_on [OF _ presses])
  from page_goes_on [OF this changes] show ?thesis by (simp add: reloaded_page_def)
qed


end
