(* ===== verification/TagEditor.thy ===== *)
theory TagEditor
  imports Items
begin

text \<open>
  The Tags section of the item pane (components/TagEditor.vue): adding, removing and renaming as errands on whatever tags
  the item has when their turn comes, the overlay that shows them at once, the queue that writes them one after
  another, and the box for new tags with its suggestions.  Lower case of the reader's language is an argument.
\<close>

section \<open>Errands\<close>

record Tag =
  name :: string
  auto_kind :: "int option"

definition same_tag :: "Tag \<Rightarrow> Tag \<Rightarrow> bool" where
  "same_tag a b \<longleftrightarrow> name a = name b \<and> (case auto_kind a of Some k \<Rightarrow> k | None \<Rightarrow> 0) = (case auto_kind b of Some k \<Rightarrow> k | None \<Rightarrow> 0)"

definition same :: "Tag list \<Rightarrow> Tag list \<Rightarrow> bool" where
  "same a b \<longleftrightarrow> length a = length b \<and> list_all2 same_tag a b"

definition typed_tag :: "string \<Rightarrow> Tag" where
  "typed_tag t = \<lparr>name = t, auto_kind = None\<rparr>"

datatype errand = Adding "string list" | Removing string | Renaming string string

fun do_errand :: "errand \<Rightarrow> Tag list \<Rightarrow> Tag list" where
  "do_errand (Adding ns) current = current @ map typed_tag (filter (\<lambda>t. t \<notin> set (map name current)) (uniq ns))"
| "do_errand (Removing t) current = filter (\<lambda>g. name g \<noteq> t) current"
| "do_errand (Renaming from to) current =
     (if to \<in> set (map name current) then filter (\<lambda>g. name g \<noteq> from) current
      else map (\<lambda>g. if name g = from then typed_tag to else g) current)"

section \<open>The section\<close>

text \<open>\<open>pending\<close> and \<open>queue\<close> name an edit by its number; those of an earlier generation are skipped.\<close>

record tag_editor =
  item_tags :: "Tag list"
  may_save :: bool
  pending :: "(nat \<times> errand) list"
  queue :: "(nat \<times> nat \<times> errand) list"
  under_way :: "(nat \<times> nat \<times> errand) option"
  next_edit :: nat
  generation :: nat
  failure :: "string option"
  is_open :: bool
  draft :: string
  found :: "string list"
  active :: "int option"

definition shown_tags :: "tag_editor \<Rightarrow> Tag list" where
  "shown_tags p = fold (\<lambda>(_, e) ts. do_errand e ts) (pending p) (item_tags p)"

definition displayed :: "(string \<Rightarrow> bool) \<Rightarrow> (string \<Rightarrow> string \<Rightarrow> int) \<Rightarrow> (string \<times> string \<times> nat) list \<Rightarrow> tag_editor \<Rightarrow> Tag list" where
  "displayed emoji lc colors p = sort_by (\<lambda>a b. compareTags emoji lc colors (name a) (name b)) (shown_tags p)"

definition enqueue :: "bool \<Rightarrow> errand \<Rightarrow> tag_editor \<Rightarrow> tag_editor" where
  "enqueue optimistic e p =
     p\<lparr>pending := (if optimistic then pending p @ [(next_edit p, e)] else pending p),
       queue := queue p @ [(generation p, next_edit p, e)], next_edit := Suc (next_edit p)\<rparr>"

definition settled_edit :: "nat \<Rightarrow> tag_editor \<Rightarrow> tag_editor" where
  "settled_edit i p = p\<lparr>pending := filter (\<lambda>(j, _). j \<noteq> i) (pending p)\<rparr>"

text \<open>The next edit has its turn: nothing to write, or the whole list is sent.\<close>

definition turn :: "tag_editor \<Rightarrow> tag_editor \<times> Tag list option" where
  "turn p = (case (under_way p, queue p) of
     (None, (g, i, e) # rest) \<Rightarrow>
       (let q = p\<lparr>queue := rest\<rparr>; again = do_errand e (item_tags p) in
        if g \<noteq> generation p then (q, None)
        else if \<not> may_save p \<or> same (item_tags p) again then (settled_edit i q, None)
        else (q\<lparr>under_way := Some (g, i, e)\<rparr>, Some again))
   | _ \<Rightarrow> (p, None))"

text \<open>What the store asks of an edit when the tags were changed elsewhere.\<close>

definition rebase_tags :: "errand \<Rightarrow> Tag list \<Rightarrow> Tag list option" where
  "rebase_tags e stored = (if same stored (do_errand e stored) then None else Some (do_errand e stored))"

text \<open>It ended: the item then has the tags the server answered with; or it failed, which is told but for a rename.\<close>

definition turn_ended :: "(Tag list + string) \<Rightarrow> tag_editor \<Rightarrow> tag_editor" where
  "turn_ended r p = (case under_way p of None \<Rightarrow> p
     | Some (g, i, e) \<Rightarrow>
         (let q = (case r of Inl tags \<Rightarrow> p\<lparr>item_tags := tags\<rparr> | Inr m \<Rightarrow> p);
              told = (case (r, e) of (Inr m, Renaming _ _) \<Rightarrow> failure q | (Inr m, _) \<Rightarrow> Some m | _ \<Rightarrow> failure q)
          in if g = generation p then (settled_edit i q)\<lparr>under_way := None, failure := told\<rparr> else q\<lparr>under_way := None\<rparr>))"

definition changeTags :: "errand \<Rightarrow> tag_editor \<Rightarrow> tag_editor" where
  "changeTags e p = enqueue True e (p\<lparr>failure := None\<rparr>)"

definition remove :: "string \<Rightarrow> tag_editor \<Rightarrow> tag_editor" where
  "remove t = changeTags (Removing t)"

definition rename :: "string \<Rightarrow> string \<Rightarrow> tag_editor \<Rightarrow> tag_editor" where
  "rename from to = enqueue False (Renaming from to)"

section \<open>The box\<close>

definition closeSuggestions :: "tag_editor \<Rightarrow> tag_editor" where
  "closeSuggestions p = p\<lparr>found := [], active := None\<rparr>"

definition start_box :: "bool \<Rightarrow> tag_editor \<Rightarrow> tag_editor" where
  "start_box may_edit p = (if \<not> (may_edit \<and> may_save p) then p else closeSuggestions (p\<lparr>is_open := True, draft := ''''\<rparr>))"

definition close_box :: "tag_editor \<Rightarrow> tag_editor" where
  "close_box p = closeSuggestions (p\<lparr>is_open := False, draft := ''''\<rparr>)"

definition commit :: "bool \<Rightarrow> tag_editor \<Rightarrow> tag_editor" where
  "commit stay p =
     (if \<not> is_open p then p
      else let v = trim (draft p); q = (if v \<noteq> '''' then changeTags (Adding [v]) p else p) in
        if stay \<and> v \<noteq> '''' then closeSuggestions (q\<lparr>draft := ''''\<rparr>) else close_box q)"

definition suggestions :: "(string \<Rightarrow> string) \<Rightarrow> tag_editor \<Rightarrow> string list" where
  "suggestions lower p =
     (let t = trim (draft p); starts = (\<lambda>n. Sublist.prefix (lower t) (lower n)); offered = filter (\<lambda>n. n \<notin> set (map name (shown_tags p)) \<and> n \<noteq> t) (found p) in
      if \<not> is_open p \<or> t = '''' then [] else take 10 (filter starts offered @ filter (\<lambda>n. \<not> starts n) offered))"

definition arrow :: "bool \<Rightarrow> nat \<Rightarrow> tag_editor \<Rightarrow> tag_editor" where
  "arrow down n p =
     (if n = 0 then p
      else p\<lparr>active := Some (case active p of
         None \<Rightarrow> if down then 0 else int n - 1
       | Some i \<Rightarrow> (i + (if down then 1 else -1) + int n) mod int n)\<rparr>)"

definition enter :: "(string \<Rightarrow> string) \<Rightarrow> tag_editor \<Rightarrow> tag_editor" where
  "enter lower p = (case active p of
     Some i \<Rightarrow> if 0 \<le> i \<and> nat i < length (suggestions lower p) then commit True (p\<lparr>draft := suggestions lower p ! nat i\<rparr>) else commit True p
   | None \<Rightarrow> commit True p)"

definition escape :: "(string \<Rightarrow> string) \<Rightarrow> tag_editor \<Rightarrow> tag_editor" where
  "escape lower p = (if suggestions lower p \<noteq> [] then closeSuggestions p else close_box p)"

text \<open>The lines of what is pasted; \<open>\r\n\<close>, \<open>\r\<close> and \<open>\n\<close> each end one.\<close>

fun paste_lines :: "string \<Rightarrow> string list" where
  "paste_lines [] = [[]]"
| "paste_lines (c # cs) =
     (if c = CHR 0x0D then (case cs of d # ds \<Rightarrow> if d = CHR 0x0A then [] # paste_lines ds else [] # paste_lines cs | [] \<Rightarrow> [] # paste_lines cs)
      else if c = CHR 0x0A then [] # paste_lines cs
      else (case paste_lines cs of l # ls \<Rightarrow> (c # l) # ls | [] \<Rightarrow> [[c]]))"

definition paste :: "string \<Rightarrow> tag_editor \<Rightarrow> tag_editor" where
  "paste t p = (let ns = filter (\<lambda>l. l \<noteq> '''') (map trim (paste_lines t)) in
     if length ns < 2 then p else close_box (changeTags (Adding ns) p))"

text \<open>Typing: an empty box offers nothing; otherwise the tags looked up 150 ms later are offered, unless the lookup was overtaken.\<close>

definition typed :: "tag_editor \<Rightarrow> tag_editor" where
  "typed p = p\<lparr>active := None, found := (if trim (draft p) = '''' then [] else found p)\<rparr>"

definition looked_up :: "bool \<Rightarrow> string list \<Rightarrow> tag_editor \<Rightarrow> tag_editor" where
  "looked_up overtaken ns p = (if overtaken then p else p\<lparr>found := ns\<rparr>)"

definition pick :: "string \<Rightarrow> tag_editor \<Rightarrow> tag_editor" where
  "pick n p = commit True (p\<lparr>draft := n\<rparr>)"

definition reset :: "tag_editor \<Rightarrow> tag_editor" where
  "reset p = (close_box (p\<lparr>generation := Suc (generation p), pending := [], queue := [], under_way := None\<rparr>))\<lparr>failure := None\<rparr>"

section \<open>What errands come to\<close>

definition plain_tags :: "Tag list \<Rightarrow> (string \<times> int) list" where
  "plain_tags ts = map (\<lambda>t. (name t, case auto_kind t of Some k \<Rightarrow> k | None \<Rightarrow> 0)) ts"

lemma same_iff: "same a b \<longleftrightarrow> plain_tags a = plain_tags b"
  by (auto simp: same_def plain_tags_def same_tag_def list_all2_conv_all_nth list_eq_iff_nth_eq)

lemma plain_names: "map name ts = map fst (plain_tags ts)"
  by (simp add: plain_tags_def comp_def)

lemma plain_simps [simp]:
  "plain_tags [] = []" "plain_tags (t # ts) = (name t, case auto_kind t of Some k \<Rightarrow> k | None \<Rightarrow> 0) # plain_tags ts"
  "plain_tags (xs @ ys) = plain_tags xs @ plain_tags ys"
  by (simp_all add: plain_tags_def)

lemma plain_filter: "plain_tags (filter (\<lambda>g. name g \<noteq> t) ts) = filter (\<lambda>p. fst p \<noteq> t) (plain_tags ts)"
  by (induction ts) auto

lemma plain_replaced: "plain_tags (map (\<lambda>g. if name g = from then typed_tag to else g) ts) = map (\<lambda>p. if fst p = from then (to, 0) else p) (plain_tags ts)"
  by (induction ts) (auto simp: typed_tag_def)

lemma errand_plain: "plain_tags a = plain_tags b \<Longrightarrow> plain_tags (do_errand e a) = plain_tags (do_errand e b)"
proof -
  assume a: "plain_tags a = plain_tags b"
  then have "map name a = map name b" by (simp only: plain_names)
  then have n: "name ` set a = name ` set b" by (metis list.set_map)
  show ?thesis
    by (cases e) (simp_all only: do_errand.simps plain_simps(3) list.set_map n a plain_filter plain_replaced if_distrib [of plain_tags])
qed

lemma errands_plain: "plain_tags a = plain_tags b \<Longrightarrow> plain_tags (fold do_errand es a) = plain_tags (fold do_errand es b)"
proof (induction es arbitrary: a b)
  case (Cons e es)
  from Cons.IH [OF errand_plain [OF Cons.prems]] show ?case by simp
qed simp

text \<open>Each edit in its turn, the server answering with what it was sent.\<close>

definition next_turn :: "tag_editor \<Rightarrow> tag_editor" where
  "next_turn p = (case turn p of (q, None) \<Rightarrow> q | (q, Some ts) \<Rightarrow> turn_ended (Inl ts) q)"

definition idle :: "tag_editor \<Rightarrow> bool" where
  "idle p \<longleftrightarrow> pending p = [] \<and> queue p = [] \<and> under_way p = None \<and> may_save p"

text \<open>An editor with the edits \<open>es\<close> before it, numbered from \<open>i\<close>.\<close>

definition waiting :: "nat \<Rightarrow> errand list \<Rightarrow> tag_editor \<Rightarrow> bool" where
  "waiting i es p \<longleftrightarrow> under_way p = None \<and> may_save p \<and> pending p = zip [i..<i + length es] es \<and>
     queue p = map (\<lambda>(j, e). (generation p, j, e)) (zip [i..<i + length es] es) \<and> next_edit p = i + length es"

lemma waiting_changes: "waiting i es p \<Longrightarrow> waiting i (es @ [e]) (changeTags e p) \<and> item_tags (changeTags e p) = item_tags p"
  by (simp add: waiting_def changeTags_def enqueue_def zip_append1 upt_conv_Cons)

lemma waiting_fold: "waiting i es p \<Longrightarrow> waiting i (es @ fs) (fold changeTags fs p) \<and> item_tags (fold changeTags fs p) = item_tags p"
proof (induction fs arbitrary: es p)
  case (Cons f fs)
  from Cons.IH [of "es @ [f]" "changeTags f p"] waiting_changes [OF Cons.prems, of f] show ?case by simp
qed simp

lemma numbers: "[i..<i + length (e # es)] = i # [Suc i..<Suc i + length es]"
  by (simp add: upt_conv_Cons del: upt_Suc)

lemma fold_snd: "fold (\<lambda>(_, e) ts. do_errand e ts) (zip [i..<i + length es] es) ts = fold do_errand es ts"
proof (induction es arbitrary: i ts)
  case (Cons e es)
  from Cons [of "Suc i"] show ?case unfolding numbers by simp
qed simp

lemma waiting_turn:
  assumes "waiting i (e # es) p"
  shows "waiting (Suc i) es (next_turn p) \<and> plain_tags (item_tags (next_turn p)) = plain_tags (do_errand e (item_tags p))"
proof -
  have f: "filter (\<lambda>(j, _). j \<noteq> i) (zip [Suc i..<Suc i + length es] es) = zip [Suc i..<Suc i + length es] es"
    by (auto simp: filter_id_conv dest!: set_zip_leftD)
  from assms have q: "queue p = (generation p, i, e) # map (\<lambda>(j, e). (generation p, j, e)) (zip [Suc i..<Suc i + length es] es)"
    and pd: "pending p = (i, e) # zip [Suc i..<Suc i + length es] es" and r: "under_way p = None" "may_save p" "next_edit p = i + length (e # es)"
    by (simp_all only: waiting_def numbers zip_Cons_Cons list.map prod.case)
  show ?thesis
  proof (cases "same (item_tags p) (do_errand e (item_tags p))")
    case True
    then have "next_turn p = settled_edit i (p\<lparr>queue := tl (queue p)\<rparr>)" by (simp add: next_turn_def turn_def q r Let_def)
    with True r f show ?thesis by (simp add: waiting_def settled_edit_def q pd same_iff)
  next
    case False
    then have "next_turn p = (settled_edit i (p\<lparr>queue := tl (queue p), item_tags := do_errand e (item_tags p)\<rparr>))\<lparr>under_way := None, failure := failure p\<rparr>"
      by (simp add: next_turn_def turn_def turn_ended_def settled_edit_def q r Let_def)
    with r f show ?thesis by (simp add: waiting_def settled_edit_def q pd)
  qed
qed

lemma waiting_drained:
  "waiting i es p \<Longrightarrow> waiting (i + length es) [] ((next_turn ^^ length es) p) \<and>
     plain_tags (item_tags ((next_turn ^^ length es) p)) = plain_tags (fold do_errand es (item_tags p))"
proof (induction es arbitrary: i p)
  case (Cons e es)
  note t = waiting_turn [OF Cons.prems]
  have "(next_turn ^^ length (e # es)) p = (next_turn ^^ length es) (next_turn p)" by (simp add: funpow_swap1)
  with Cons.IH [OF conjunct1 [OF t]] t errands_plain [of "item_tags (next_turn p)" "do_errand e (item_tags p)" es] show ?case by simp
qed simp

text \<open>C32: What the tags show at once is what they come to: after any additions and removals the section shows the tags with all of
  them done, and when each has had its turn, and the server took it, those are the item's tags and nothing waits.\<close>

theorem shown_at_once_is_saved:
  assumes "idle p"
  shows "let q = fold changeTags es p; r = (next_turn ^^ length es) q in
    shown_tags q = fold do_errand es (item_tags p) \<and> plain_tags (item_tags r) = plain_tags (shown_tags q) \<and>
    pending r = [] \<and> queue r = [] \<and> shown_tags r = item_tags r"
proof -
  have "waiting (next_edit p) [] p" using assms by (simp add: waiting_def idle_def)
  from waiting_fold [OF this, of es] have w: "waiting (next_edit p) es (fold changeTags es p)" and t: "item_tags (fold changeTags es p) = item_tags p" by simp_all
  from w t have s: "shown_tags (fold changeTags es p) = fold do_errand es (item_tags p)" by (simp add: shown_tags_def waiting_def fold_snd)
  from waiting_drained [OF w] t s show ?thesis by (simp add: Let_def waiting_def shown_tags_def)
qed

theorem shown_at_once_is_saved_witness:
  "let p = \<lparr>item_tags = [typed_tag ''whales''], may_save = True, pending = [], queue = [], under_way = None, next_edit = 0, generation = 0,
      failure = None, is_open = False, draft = '''', found = [], active = None\<rparr>;
     q = fold changeTags [Adding [''ships''], Removing ''whales''] p; r = (next_turn ^^ 2) q
   in shown_tags q = [typed_tag ''ships''] \<and> plain_tags (item_tags r) = [(''ships'', 0)] \<and> pending r = []"
proof -
  define p where "p = \<lparr>item_tags = [typed_tag ''whales''], may_save = True, pending = [], queue = [], under_way = None, next_edit = 0, generation = 0,
      failure = None, is_open = False, draft = '''', found = [], active = None\<rparr>"
  have "idle p" by (simp add: p_def idle_def)
  from shown_at_once_is_saved [OF this, of "[Adding [''ships''], Removing ''whales'']"]
  have "let q = fold changeTags [Adding [''ships''], Removing ''whales''] p; r = (next_turn ^^ 2) q
   in shown_tags q = [typed_tag ''ships''] \<and> plain_tags (item_tags r) = [(''ships'', 0)] \<and> pending r = []"
    by (simp add: Let_def p_def typed_tag_def uniq.simps numeral_2_eq_2)
  then show ?thesis unfolding p_def Let_def .
qed

text \<open>An errand touches the tags it names and no other, and makes no name twice; so made again on tags somebody else
  changed it keeps what they added.\<close>

theorem errands_keep_the_rest:
  "(\<forall>g\<in>set ts. name g \<notin> (case e of Adding _ \<Rightarrow> {} | Removing t \<Rightarrow> {t} | Renaming from _ \<Rightarrow> {from}) \<longrightarrow> g \<in> set (do_errand e ts)) \<and>
   (\<forall>g\<in>set (do_errand e ts). g \<in> set ts \<or> g \<in> typed_tag ` (case e of Adding ns \<Rightarrow> set ns | Removing _ \<Rightarrow> {} | Renaming _ to \<Rightarrow> {to})) \<and>
   (distinct (map name ts) \<longrightarrow> distinct (map name (do_errand e ts)))"
proof -
  have d: "distinct (map name (map typed_tag ns)) = distinct ns" for ns by (induction ns) (auto simp: typed_tag_def)
  have r: "distinct (map name (map (\<lambda>g. if name g = old then typed_tag new else g) ts))"
    if "distinct (map name ts)" "new \<notin> name ` set ts" for old new
    using that by (induction ts) (auto simp: typed_tag_def image_iff split: if_splits)
  have f: "distinct (map name ts) \<Longrightarrow> distinct (map name (filter P ts))" for P by (simp add: distinct_map_filter)
  show ?thesis
  proof (cases e)
    case (Adding ns)
    have "distinct (map name ts) \<Longrightarrow> distinct (map name ts @ map name (map typed_tag (filter (\<lambda>t. t \<notin> set (map name ts)) (uniq ns))))"
      unfolding distinct_append d by (auto simp: typed_tag_def)
    with Adding show ?thesis by auto
  next
    case (Removing t)
    with f [of "\<lambda>g. name g \<noteq> t"] show ?thesis by auto
  next
    case (Renaming old new)
    with f [of "\<lambda>g. name g \<noteq> old"] r [of new old] show ?thesis by auto
  qed
qed

end
