(* ===== verification/LibraryScreen.thy ===== *)
theory LibraryScreen
  imports Preferences LibraryEdit
begin

text \<open>
  The library's screen, views/LibraryView.vue: what it keeps beside the store (the search field, the widths of
  the panes, the dialogs and questions that are open) and its handlers as programs over both.  A watcher
  runs when the page is next drawn; \<open>drawn\<close> is that moment.  Focus, drawing and the browser's own dialogs are
  left out; messages are keys of the catalogue.  Titles of items and the numbers in the names of rows
  are arguments.
\<close>

section \<open>Running the store's programs on the screen\<close>

datatype pending =
    Create "CollectionNode option"
  | Settings CollectionNode
  | Remove CollectionNode

datatype FilePlace = Under string | Into "string option" | Replace ItemEnvelope

record ExportChoice =
  choice_id :: string
  choice_label :: string
  choice_keys :: "string list option"
  choice_name :: string
  whole :: bool

record screen =
  store :: lib
  searchText :: string
  searchTimer :: "string option"
  searching :: bool
  sidebarWidth :: rat
  detailWidth :: rat
  widthTimers :: "(string \<times> rat) list"
  kept :: storage
  expandedLibraryId :: "int option"
  watchedLibrary :: "int option"
  watchedView :: "int option \<times> Scope"
  watchedItem :: "ItemEnvelope option"
  pending :: "pending option"
  busy :: bool
  collectionError :: "string option"
  itemError :: "string option"
  itemBusy :: bool
  removing :: "ItemEnvelope list"
  unpublishing :: "ItemEnvelope option"
  emptying :: bool
  moving :: "ItemEnvelope list"
  publishing :: "ItemEnvelope option"
  publishingChildren :: "ItemEnvelope list"
  editingRights :: "ItemEnvelope option"
  linking :: "ItemEnvelope option"
  linkBusy :: bool
  linkError :: "string option"
  picking :: "FilePlace option"
  selecting :: bool
  focusKey :: "string option"
  exporting :: "ExportChoice list option"
  duplicateInspection :: bool
  duplicateMaster :: "string option"
  detailOrigin :: "(int \<times> ItemEnvelope \<times> string) option"

type_synonym 'r sprog = "(screen, call, answer, lib_error, 'r) async"

primrec on_storeO :: "(lib, call, answer, lib_error, 'r) outcome \<Rightarrow> (screen, call, answer, lib_error, 'r) outcome" where
  "on_storeO (Done r) = Done r"
| "on_storeO (Fail e) = Fail e"
| "on_storeO (Wait q k) = Wait q (\<lambda>a z. case map_prod id on_storeO (k a (store z)) of (s, u) \<Rightarrow> (z\<lparr>store := s\<rparr>, u))"

definition on_store :: "'r prog \<Rightarrow> 'r sprog" where
  "on_store m = (\<lambda>z. case m (store z) of (s, u) \<Rightarrow> (z\<lparr>store := s\<rparr>, on_storeO u))"

definition message_of :: "lib_error \<Rightarrow> string" where
  "message_of e = error_message (plain_of e)"

lemma on_storeO_Wait [simp]: "on_storeO (Wait q k) = Wait q (\<lambda>a. on_store (k a))"
  by (simp add: on_store_def map_prod_def fun_eq_iff split: prod.splits)

declare on_storeO.simps(3) [simp del]

lemma on_store_eq: "on_store m z = (z\<lparr>store := fst (m (store z))\<rparr>, on_storeO (snd (m (store z))))"
  by (simp add: on_store_def split_beta)

lemma on_store_feedO:
  "feed as (z\<lparr>store := s\<rparr>, on_storeO u) = (z\<lparr>store := fst (feed as (s, u))\<rparr>, on_storeO (snd (feed as (s, u))))"
proof (induction u arbitrary: as s z rule: outcome_induct)
  case (Wait q k)
  show ?case
  proof (cases as)
    case (Cons a as')
    have "feed as (z\<lparr>store := s\<rparr>, on_storeO (Wait q k)) = feed as' (on_store (k a) (z\<lparr>store := s\<rparr>))" using Cons by simp
    also have "\<dots> = feed as' (z\<lparr>store := fst (k a s)\<rparr>, on_storeO (snd (k a s)))" by (simp add: on_store_eq)
    finally show ?thesis using Cons by (simp add: Wait)
  qed simp
qed simp_all

text \<open>A program of the store runs on the screen as it runs on the store, and changes nothing else.\<close>

lemma on_store_feed:
  "feed as (on_store m z) = (z\<lparr>store := fst (feed as (m (store z)))\<rparr>, on_storeO (snd (feed as (m (store z)))))"
  by (simp add: on_store_eq on_store_feedO)

lemma on_store_sentO: "sent as (z, on_storeO u) = sent as (store z, u)"
proof (induction u arbitrary: as z rule: outcome_induct)
  case (Wait q k)
  show ?case
  proof (cases as)
    case (Cons a as')
    have "sent as' (on_store (k a) z) = sent as' (k a (store z))"
      by (simp add: on_store_eq Wait)
    with Cons show ?thesis by simp
  qed simp
qed simp_all

lemma on_store_sent: "sent as (on_store m z) = sent as (m (store z))"
  by (simp add: on_store_eq on_store_sentO)

lemma on_storeO_behaves: "behavesO P F u \<Longrightarrow> behavesO P F (on_storeO u)"
  by (induction u rule: outcome_induct) (auto simp: behaves_def on_store_eq)

lemma behaves_on_store: "behaves P F m \<Longrightarrow> behaves P F (on_store m)"
  by (simp add: behaves_def on_store_eq on_storeO_behaves)

lemma on_storeO_stretches:
  "stretchesO R u \<Longrightarrow> (\<And>z s. R (store z) s \<Longrightarrow> Q z (z\<lparr>store := s\<rparr>)) \<Longrightarrow> stretchesO Q (on_storeO u)"
  by (induction u rule: outcome_induct) (auto simp: stretches_def on_store_eq)

text \<open>What each stretch of a program does to the store, it does to the screen.\<close>

lemma stretches_on_store:
  "stretches R m \<Longrightarrow> (\<And>z s. R (store z) s \<Longrightarrow> Q z (z\<lparr>store := s\<rparr>)) \<Longrightarrow> stretches Q (on_store m)"
  by (simp add: stretches_def on_store_eq) (metis on_storeO_stretches)

section \<open>The search and the widths\<close>

text \<open>The watcher of the text: whatever is typed waits for a pause.\<close>

definition type_search :: "string \<Rightarrow> screen \<Rightarrow> screen" where
  "type_search v z = (if v = searchText z then z else z\<lparr>searchText := v, searchTimer := Some v\<rparr>)"

definition search_due :: "unit sprog" where
  "search_due = asks searchTimer (\<lambda>t. case t of None \<Rightarrow> ret ()
     | Some v \<Rightarrow> seq (modify (\<lambda>z. z\<lparr>searchTimer := None\<rparr>)) (on_store (setSearch v)))"

definition openSearch :: "screen \<Rightarrow> screen" where
  "openSearch z = z\<lparr>searching := True\<rparr>"

definition closeSearchIfEmpty :: "screen \<Rightarrow> screen" where
  "closeSearchIfEmpty z = (if searchText z = '''' then z\<lparr>searching := False\<rparr> else z)"

text \<open>Emptying the field runs the search at once; its watcher then waits with the empty text as well.\<close>

definition clearSearch :: "unit sprog" where
  "clearSearch = asks searchText (\<lambda>old.
     seq (modify (\<lambda>z. z\<lparr>searchTimer := (if old = '''' then None else Some ''''), searchText := ''''\<rparr>)) (on_store (setSearch '''')))"

definition escapeSearch :: "unit sprog" where
  "escapeSearch = asks searchText (\<lambda>txt. if txt \<noteq> '''' then clearSearch else modify (\<lambda>z. z\<lparr>searching := False\<rparr>))"

text \<open>A width is drawn at once and stored after a pause; one timer for each pane.\<close>

definition remember :: "PaneWidth \<Rightarrow> rat \<Rightarrow> screen \<Rightarrow> screen" where
  "remember p w z = z\<lparr>widthTimers := map_set (pane_key p) w (widthTimers z)\<rparr>"

definition resizeSidebar :: "rat \<Rightarrow> screen \<Rightarrow> screen" where
  "resizeSidebar w z = remember SIDEBAR w (z\<lparr>sidebarWidth := w\<rparr>)"

definition resizeDetail :: "rat \<Rightarrow> screen \<Rightarrow> screen" where
  "resizeDetail w z = remember DETAIL w (z\<lparr>detailWidth := w\<rparr>)"

definition width_due :: "PaneWidth \<Rightarrow> screen \<Rightarrow> screen" where
  "width_due p z = (case map_of (widthTimers z) (pane_key p) of None \<Rightarrow> z
     | Some w \<Rightarrow> z\<lparr>widthTimers := filter (\<lambda>(k, _). k \<noteq> pane_key p) (widthTimers z), kept := storeWidth p w (kept z)\<rparr>)"

definition pane_of :: "string \<Rightarrow> PaneWidth" where
  "pane_of k = (if k = pane_key SIDEBAR then SIDEBAR else DETAIL)"

text \<open>The screen is left: what was typed is dropped, what was sized is kept.\<close>

definition leave :: "screen \<Rightarrow> screen" where
  "leave z = z\<lparr>searchTimer := None, kept := fold (\<lambda>(k, w). storeWidth (pane_of k) w) (widthTimers z) (kept z),
     widthTimers := [], store := unfollow (store z)\<rparr>"

section \<open>The screen is entered\<close>

text \<open>What \<open>setup\<close> makes, over the store as it was left, the immediate watcher included.\<close>

definition setup_screen :: "(string \<Rightarrow> rat option) \<Rightarrow> env \<Rightarrow> storage \<Rightarrow> lib \<Rightarrow> screen" where
  "setup_screen number E k s =
     \<lparr>store = follow E s, searchText = '''', searchTimer = None, searching = False,
      sidebarWidth = of_int (readWidth number SIDEBAR k), detailWidth = of_int (readWidth number DETAIL k), widthTimers = [], kept = k,
      expandedLibraryId = libraryId s, watchedLibrary = libraryId s, watchedView = (libraryId s, scope s), watchedItem = selected s,
      pending = None, busy = False, collectionError = None, itemError = None, itemBusy = False,
      removing = [], unpublishing = None, emptying = False, moving = [], publishing = None, publishingChildren = [],
      editingRights = None, linking = None, linkBusy = False, linkError = None, picking = None,
      selecting = False, focusKey = None, exporting = None,
      duplicateInspection = False, duplicateMaster = None, detailOrigin = None\<rparr>"

definition mounted :: "env \<Rightarrow> int option \<Rightarrow> unit sprog" where
  "mounted E user = seq (modify (\<lambda>z. z\<lparr>store := (store z)\<lparr>viewerId := user\<rparr>\<rparr>))
     (try_catch (on_store (loadLibraries E)) (\<lambda>e. modify (\<lambda>z. z\<lparr>store := (store z)\<lparr>failure := Some (message_of e)\<rparr>\<rparr>)))"

section \<open>What is drawn\<close>

definition showDetail :: "screen \<Rightarrow> bool" where
  "showDetail z \<longleftrightarrow> selection (store z) \<noteq> [] \<and> libraryId (store z) \<noteq> None"

definition emptyMessage :: "lib \<Rightarrow> string" where
  "emptyMessage s =
     (let looking = trim (search s) \<noteq> ''''; tagged = selectedTags s \<noteq> [] in
      if looking \<and> tagged then ''No items match this search and the selected tags.''
      else if looking then ''No items match this search.''
      else if tagged then ''No items carry the selected tags.''
      else if scope s = Trash then ''The trash is empty.''
      else if scope s = Publications then ''Nothing in this library has been published yet.''
      else if scope s = RecentlyRead then ''Nothing has been read here lately.''
      else if scope s = Duplicates then ''No two items here look like the same work.''
      else if scope s = Unfiled then ''Everything here is filed in a collection.''
      else if given (collectionKey s) \<noteq> None then ''This collection is empty.''
      else if (case library s of Some l \<Rightarrow> libType l = ''group'' | None \<Rightarrow> False) then ''Nothing has been added to this group yet.''
      else ''Nothing here yet. Point the Zotero desktop app at this server and sync.'')"

definition heading :: "(LibrarySummary \<Rightarrow> string) \<Rightarrow> lib \<Rightarrow> string" where
  "heading label_of s =
     (case given (collectionName s) of
        Some name \<Rightarrow> name
      | None \<Rightarrow> (case scope s of
          Trash \<Rightarrow> ''Trash''
        | All \<Rightarrow> ''All items''
        | Publications \<Rightarrow> ''My Publications''
        | RecentlyRead \<Rightarrow> ''Recently Read''
        | Duplicates \<Rightarrow> ''Duplicate Items''
        | Unfiled \<Rightarrow> ''Unfiled Items''
        | Top \<Rightarrow> (case library s of Some l \<Rightarrow> label_of l | None \<Rightarrow> ''Library'')))"

definition showingWholeOf :: "int \<Rightarrow> lib \<Rightarrow> bool" where
  "showingWholeOf i s \<longleftrightarrow> Some i = libraryId s \<and> given (collectionKey s) = None \<and> scope s = Top"

definition overviewItems :: "screen \<Rightarrow> ItemEnvelope list" where
  "overviewItems z =
     (let s = store z in
      if scope s \<noteq> Duplicates \<or> duplicateGroups s = [] then items s
      else concat (map (\<lambda>keys.
        let ordered = (case given (duplicateMaster z) of
              Some m \<Rightarrow> if m \<in> set keys then m # filter (\<lambda>k. k \<noteq> m) keys else keys
            | None \<Rightarrow> keys)
        in List.map_filter (\<lambda>k. List.find (\<lambda>i. itemKey i = k) (rev (items s))) ordered) (duplicateGroups s)))"

definition activeDuplicateGroup :: "lib \<Rightarrow> string list option" where
  "activeDuplicateGroup s =
     (if scope s = Duplicates then List.find (\<lambda>keys. \<exists>k\<in>set (selection s). k \<in> set keys) (duplicateGroups s) else None)"

definition duplicateReviewKeys :: "lib \<Rightarrow> string list" where
  "duplicateReviewKeys s = (case activeDuplicateGroup s of Some g \<Rightarrow> g | None \<Rightarrow> selectionKeys s)"

text \<open>The row that Tab lands on.\<close>

definition tabKey :: "screen \<Rightarrow> string option" where
  "tabKey z =
     (let s = store z; keys = map itemKey (items s) in
      case List.find (\<lambda>k. k \<noteq> '''' \<and> k \<in> set keys)
             (List.map_filter id [focusKey z, map_option itemKey (selected s), (case selection s of k # _ \<Rightarrow> Some k | [] \<Rightarrow> None)]) of
        Some k \<Rightarrow> Some k
      | None \<Rightarrow> (case items s of i # _ \<Rightarrow> Some (itemKey i) | [] \<Rightarrow> None))"

definition allSelected :: "lib \<Rightarrow> bool" where
  "allSelected s \<longleftrightarrow> items s \<noteq> [] \<and> length (selection s) = length (items s)"

definition selectionTrashed :: "lib \<Rightarrow> bool" where
  "selectionTrashed s \<longleftrightarrow> scope s = Trash \<or>
     (selectedItems s \<noteq> [] \<and> list_all (\<lambda>i. get_prop (data i) ''deleted'' = Some (JBool True)) (selectedItems s))"

definition offersNewItem :: "lib \<Rightarrow> bool" where
  "offersNewItem s \<longleftrightarrow> writable s \<and> scope s \<noteq> Trash \<and> scope s \<noteq> Publications"

definition regular :: "ItemEnvelope \<Rightarrow> bool" where
  "regular i \<longleftrightarrow> \<not> truthy (get_prop (data i) ''parentItem'') \<and> item_type i \<notin> {''note'', ''attachment'', ''annotation''}"

definition noteParent :: "lib \<Rightarrow> ItemEnvelope option" where
  "noteParent s = (case selected s of Some i \<Rightarrow> if regular i then Some i else None | None \<Rightarrow> None)"

definition newNoteEntries :: "lib \<Rightarrow> (string \<times> string) list" where
  "newNoteEntries s = (''standalone'', ''New Standalone Note'') # (if noteParent s \<noteq> None then [(''child'', ''New Item Note'')] else [])"

definition attachEntries :: "lib \<Rightarrow> (string \<times> string) list" where
  "attachEntries s =
     (if filesEditable s then [(''standalone'', ''Add File'')] else []) @
     (if noteParent s \<noteq> None \<and> filesEditable s then [(''child'', ''Attach File'')] else []) @
     (if noteParent s \<noteq> None then [(''link'', ''Attach Web Link'')] else [])"

definition sortIndicator :: "string \<Rightarrow> lib \<Rightarrow> string" where
  "sortIndicator fld s = (if sort_field s \<noteq> fld then '''' else if ascending s then ''up'' else ''down'')"

definition sortLabel :: "string \<Rightarrow> lib \<Rightarrow> string" where
  "sortLabel fld s =
     (if sort_field s \<noteq> fld then ''Sort by {column}''
      else if ascending s then ''Sort by {column}, currently ascending'' else ''Sort by {column}, currently descending'')"

section \<open>Libraries and collections\<close>

definition open_library :: "env \<Rightarrow> int \<Rightarrow> unit sprog" where
  "open_library E i = seq (modify (\<lambda>z. z\<lparr>expandedLibraryId := Some i\<rparr>))
     (asks (libraryId \<circ> store) (\<lambda>now. if now = Some i then on_store (selectScope Top) else on_store (openLibrary E i)))"

definition toggleLibrary :: "env \<Rightarrow> int \<Rightarrow> unit sprog" where
  "toggleLibrary E i = asks (\<lambda>z. (expandedLibraryId z, libraryId (store z))) (\<lambda>(unfolded, now).
     if unfolded = Some i then modify (\<lambda>z. z\<lparr>expandedLibraryId := None\<rparr>)
     else seq (modify (\<lambda>z. z\<lparr>expandedLibraryId := Some i\<rparr>)) (if now \<noteq> Some i then on_store (openLibrary E i) else ret ()))"

text \<open>What the watchers do with what has changed when the page is drawn, in the order they are declared.\<close>

definition watch_view :: "screen \<Rightarrow> screen" where
  "watch_view z = (let v = (libraryId (store z), scope (store z)) in
     if v = watchedView z then z else z\<lparr>watchedView := v, duplicateInspection := False, duplicateMaster := None\<rparr>)"

definition item_parent :: "ItemEnvelope \<Rightarrow> string option" where
  "item_parent i = Option.bind (get_prop (data i) ''parentItem'') as_string"

definition watch_item :: "screen \<Rightarrow> screen" where
  "watch_item z =
     (let i = libraryId (store z); item = selected (store z) in
      if i = watchedLibrary z \<and> item = watchedItem z then z
      else (case (i, item, watchedItem z) of
          (Some lid, Some it, Some previous) \<Rightarrow>
            if i = watchedLibrary z \<and> item_parent it = Some (itemKey previous) then z\<lparr>detailOrigin := Some (lid, previous, itemKey it)\<rparr>
            else z\<lparr>detailOrigin := (case detailOrigin z of Some (l, p, c) \<Rightarrow> if lid \<noteq> l \<or> itemKey it \<noteq> c then None else Some (l, p, c) | None \<Rightarrow> None)\<rparr>
        | _ \<Rightarrow> z\<lparr>detailOrigin := (case detailOrigin z of
              Some (l, p, c) \<Rightarrow> if i \<noteq> Some l \<or> map_option itemKey item \<noteq> Some c then None else Some (l, p, c) | None \<Rightarrow> None)\<rparr>))"

definition watch_library :: "env \<Rightarrow> screen \<Rightarrow> screen" where
  "watch_library E z =
     (if libraryId (store z) = watchedLibrary z then z
      else z\<lparr>expandedLibraryId := libraryId (store z), store := follow E (store z)\<rparr>)"

definition drawn :: "env \<Rightarrow> screen \<Rightarrow> screen" where
  "drawn E z = (let z' = watch_library E (watch_item (watch_view z)) in
     z'\<lparr>watchedLibrary := libraryId (store z'), watchedItem := selected (store z')\<rparr>)"

definition startNew :: "CollectionNode option \<Rightarrow> screen \<Rightarrow> screen" where
  "startNew parent z = z\<lparr>pending := Some (Create parent), collectionError := None\<rparr>"

definition startSettings :: "CollectionNode \<Rightarrow> screen \<Rightarrow> screen" where
  "startSettings n z = z\<lparr>pending := Some (Settings n), collectionError := None\<rparr>"

definition startDelete :: "CollectionNode \<Rightarrow> screen \<Rightarrow> screen" where
  "startDelete n z = z\<lparr>pending := Some (Remove n), collectionError := None\<rparr>"

definition cancel :: "screen \<Rightarrow> screen" where
  "cancel z = z\<lparr>pending := None, collectionError := None\<rparr>"

definition run_dialog :: "unit sprog \<Rightarrow> unit sprog" where
  "run_dialog action = seq (modify (\<lambda>z. z\<lparr>busy := True, collectionError := None\<rparr>))
     (try_finally
       (try_catch (seq action (modify cancel)) (\<lambda>e. modify (\<lambda>z. z\<lparr>collectionError := Some (message_of e)\<rparr>)))
       (\<lambda>z. z\<lparr>busy := False\<rparr>))"

definition NEEDS_NAME :: string where
  "NEEDS_NAME = ''A collection needs a name.''"

definition submitSettings :: "env \<Rightarrow> string \<Rightarrow> string option \<Rightarrow> unit sprog" where
  "submitSettings E name parent = asks pending (\<lambda>p. case p of
     Some (Settings n) \<Rightarrow>
       if name = '''' then modify (\<lambda>z. z\<lparr>collectionError := Some NEEDS_NAME\<rparr>)
       else run_dialog (on_store (updateCollection E (node_key n) (Some name) (Some parent)))
   | _ \<Rightarrow> ret ())"

definition submitCollection :: "env \<Rightarrow> string \<Rightarrow> unit sprog" where
  "submitCollection E name = asks pending (\<lambda>p. case p of
     Some (Create parent) \<Rightarrow>
       if name = '''' then modify (\<lambda>z. z\<lparr>collectionError := Some NEEDS_NAME\<rparr>)
       else run_dialog (on_store (createCollection E name (map_option node_key parent)))
   | _ \<Rightarrow> ret ())"

definition confirmDelete :: "env \<Rightarrow> unit sprog" where
  "confirmDelete E = asks pending (\<lambda>p. case p of
     Some (Remove n) \<Rightarrow> run_dialog (on_store (deleteCollection E (node_key n)))
   | _ \<Rightarrow> ret ())"

definition creatingPath :: "(LibrarySummary \<Rightarrow> string) \<Rightarrow> screen \<Rightarrow> string list" where
  "creatingPath label_of z =
     (let here = [case library (store z) of Some l \<Rightarrow> label_of l | None \<Rightarrow> ''Library''] in
      case pending z of
        Some (Create (Some parent)) \<Rightarrow> here @ map (colName \<circ> entry) (pathTo (collections (store z)) (Some (node_key parent)))
      | _ \<Rightarrow> here)"

definition places :: "(LibrarySummary \<Rightarrow> string) \<Rightarrow> screen \<Rightarrow> Place list" where
  "places label_of z =
     placesFor (collections (store z)) (case library (store z) of Some l \<Rightarrow> label_of l | None \<Rightarrow> ''Library'')
       (case pending z of Some (Settings n) \<Rightarrow> Some (node_key n) | _ \<Rightarrow> None)"

section \<open>Errands on items\<close>

definition attempt :: "unit sprog \<Rightarrow> bool sprog" where
  "attempt action = seq (modify (\<lambda>z. z\<lparr>itemError := None\<rparr>))
     (try_catch (seq action (ret True)) (\<lambda>e. seq (modify (\<lambda>z. z\<lparr>itemError := Some (message_of e)\<rparr>)) (ret False)))"

definition runOnItem :: "unit sprog \<Rightarrow> unit sprog" where
  "runOnItem action = void (attempt action)"

definition askToRemove :: "ItemEnvelope list \<Rightarrow> screen \<Rightarrow> screen" where
  "askToRemove is z = (if is = [] then z
     else z\<lparr>removing := is, unpublishing := None, emptying := False, itemError := None\<rparr>)"

definition askToUnpublish :: "env \<Rightarrow> ItemEnvelope \<Rightarrow> unit sprog" where
  "askToUnpublish E i =
     (if truthy (get_prop (data i) ''parentItem'') then runOnItem (on_store (unpublishItem E (itemKey i)))
      else modify (\<lambda>z. z\<lparr>unpublishing := Some i, removing := [], emptying := False, itemError := None\<rparr>))"

definition askToEmpty :: "screen \<Rightarrow> screen" where
  "askToEmpty z = z\<lparr>emptying := True, removing := [], unpublishing := None, itemError := None\<rparr>"

definition cancelRemoval :: "screen \<Rightarrow> screen" where
  "cancelRemoval z = z\<lparr>removing := [], unpublishing := None, emptying := False\<rparr>"

definition errand :: "unit sprog \<Rightarrow> unit sprog" where
  "errand action = seq (modify (\<lambda>z. z\<lparr>itemBusy := True\<rparr>))
     (seq (runOnItem action) (modify (\<lambda>z. cancelRemoval (z\<lparr>itemBusy := False\<rparr>))))"

definition delete_items :: "env \<Rightarrow> ItemEnvelope list \<Rightarrow> unit sprog" where
  "delete_items E is = errand (on_store (deleteItems E (map itemKey is)))"

definition empty_trash :: "env \<Rightarrow> unit sprog" where
  "empty_trash E = errand (void (on_store (emptyTrash E)))"

definition unpublish_item :: "env \<Rightarrow> ItemEnvelope \<Rightarrow> unit sprog" where
  "unpublish_item E i = errand (on_store (unpublishItem E (itemKey i)))"

text \<open>The button of the question that is asked.\<close>

definition confirm_question :: "env \<Rightarrow> unit sprog" where
  "confirm_question E = asks (\<lambda>z. (unpublishing z, emptying z, removing z)) (\<lambda>(u, e, r).
     case u of Some i \<Rightarrow> unpublish_item E i | None \<Rightarrow> if e then empty_trash E else delete_items E r)"

definition trashOpenItem :: "env \<Rightarrow> ItemEnvelope \<Rightarrow> unit sprog" where
  "trashOpenItem E i = runOnItem (seq (on_store (trashItems E [itemKey i] True))
     (asks (items \<circ> store) (\<lambda>is. case List.find (\<lambda>e. Some (itemKey e) = item_parent i) is of
        Some p \<Rightarrow> on_store (select (Some p)) | None \<Rightarrow> ret ())))"

definition picked :: "ItemEnvelope \<Rightarrow> lib \<Rightarrow> ItemEnvelope list" where
  "picked i s = (if itemKey i \<in> set (selectionKeys s) then selectedItems s else [i])"

definition removeKey :: "env \<Rightarrow> ItemEnvelope \<Rightarrow> unit sprog" where
  "removeKey E i = asks store (\<lambda>s.
     if \<not> writable s then ret ()
     else if scope s = Publications then askToUnpublish E i
     else if scope s = Trash \<or> list_all (\<lambda>e. truthy (get_prop (data e) ''deleted'')) (picked i s) then modify (askToRemove (picked i s))
     else runOnItem (on_store (trashItems E (map itemKey (picked i s)) True)))"

definition createItem_here :: "env \<Rightarrow> string \<Rightarrow> string option \<Rightarrow> unit sprog" where
  "createItem_here E type parent = runOnItem (void (on_store (createItem E type parent None)))"

subsection \<open>Moving and copying\<close>

record Destination =
  to_library :: "int option"
  to_collection :: "string option"
  takeOut :: bool

definition otherLibraries :: "lib \<Rightarrow> LibrarySummary list" where
  "otherLibraries s = filter (\<lambda>l. Some (libId l) \<noteq> libraryId s \<and> libWritable l) (libraries s)"

definition collections_of :: "ItemEnvelope \<Rightarrow> string list" where
  "collections_of i = (case get_prop (data i) ''collections'' of Some (JArr cs) \<Rightarrow> List.map_filter as_string cs | _ \<Rightarrow> [])"

definition move_changes :: "ItemEnvelope list \<Rightarrow> Destination \<Rightarrow> lib \<Rightarrow> string list \<times> string list" where
  "move_changes is d s =
     (let here = map_option node_key (selectedCollection s);
          remove = (case (takeOut d, here) of (True, Some k) \<Rightarrow> if k \<noteq> '''' \<and> Some k \<noteq> to_collection d then [k] else [] | _ \<Rightarrow> []);
          add = (case given (to_collection d) of Some c \<Rightarrow> [c] | None \<Rightarrow> []);
          clearing = (if given (to_collection d) \<noteq> None then [] else uniq (concat (map collections_of is)))
      in (add, remove @ clearing))"

definition submitDestination :: "env \<Rightarrow> Destination \<Rightarrow> unit sprog" where
  "submitDestination E d = asks moving (\<lambda>is.
     if is = [] then ret ()
     else seq (modify (\<lambda>z. z\<lparr>itemBusy := True, itemError := None\<rparr>))
       (try_finally
         (try_catch
           (seq (case to_library d of
                   Some l \<Rightarrow> on_store (copyItems E (map itemKey is) l None)
                 | None \<Rightarrow> asks (move_changes is d \<circ> store) (\<lambda>(add, remove). on_store (fileItems E (map itemKey is) (Some add) (Some remove))))
             (modify (\<lambda>z. z\<lparr>moving := []\<rparr>)))
           (\<lambda>e. modify (\<lambda>z. z\<lparr>itemError := Some (message_of e)\<rparr>)))
         (\<lambda>z. z\<lparr>itemBusy := False\<rparr>)))"

subsection \<open>Publishing and rights\<close>

definition SHOW_CHILD :: terms where
  "SHOW_CHILD = \<lparr>includeFiles = False, includeNotes = False, license = None, keepRights = True\<rparr>"

definition startPublishing :: "env \<Rightarrow> ItemEnvelope \<Rightarrow> unit sprog" where
  "startPublishing E i =
     (if truthy (get_prop (data i) ''parentItem'') then runOnItem (on_store (publishItem E (itemKey i) SHOW_CHILD))
      else seq (modify (\<lambda>z. z\<lparr>itemError := None\<rparr>))
        (seq (bind (try_catch (on_store (childrenOf (itemKey i))) (\<lambda>_. ret [])) (\<lambda>cs. modify (\<lambda>z. z\<lparr>publishingChildren := cs\<rparr>)))
          (modify (\<lambda>z. z\<lparr>publishing := Some i\<rparr>))))"

definition publishHasFiles :: "screen \<Rightarrow> bool" where
  "publishHasFiles z \<longleftrightarrow> list_ex (\<lambda>c. item_type c = ''attachment'' \<and>
     (case get_prop (data c) ''linkMode'' of Some (JStr m) \<Rightarrow> Sublist.prefix ''imported'' m | _ \<Rightarrow> False)) (publishingChildren z)"

definition publishHasNotes :: "screen \<Rightarrow> bool" where
  "publishHasNotes z \<longleftrightarrow> list_ex (\<lambda>c. item_type c = ''note'') (publishingChildren z)"

definition submitPublication :: "env \<Rightarrow> terms \<Rightarrow> unit sprog" where
  "submitPublication E t = asks publishing (\<lambda>p. case p of None \<Rightarrow> ret ()
   | Some i \<Rightarrow> seq (modify (\<lambda>z. z\<lparr>itemBusy := True, itemError := None\<rparr>))
      (try_finally
        (try_catch (seq (on_store (publishItem E (itemKey i) t)) (modify (\<lambda>z. z\<lparr>publishing := None, publishingChildren := []\<rparr>)))
          (\<lambda>e. modify (\<lambda>z. z\<lparr>itemError := Some (message_of e)\<rparr>)))
        (\<lambda>z. z\<lparr>itemBusy := False\<rparr>)))"

definition submitRights :: "string \<Rightarrow> unit sprog" where
  "submitRights rights = asks editingRights (\<lambda>p. case p of None \<Rightarrow> ret ()
   | Some i \<Rightarrow> seq (modify (\<lambda>z. z\<lparr>itemBusy := True, itemError := None\<rparr>))
      (try_finally
        (try_catch
          (seq (void (on_store (saveItem (itemKey i) (no_changes\<lparr>chFields := Some [(''rights'', rights)]\<rparr>) None)))
            (modify (\<lambda>z. z\<lparr>editingRights := None\<rparr>)))
          (\<lambda>e. modify (\<lambda>z. z\<lparr>itemError := Some (case e of EditConflict _ _ \<Rightarrow> ''Changed elsewhere while you were editing.'' | _ \<Rightarrow> message_of e)\<rparr>)))
        (\<lambda>z. z\<lparr>itemBusy := False\<rparr>)))"

definition saveSelected :: "ItemChanges \<Rightarrow> rebase \<Rightarrow> unit sprog" where
  "saveSelected ch rb = asks (selected \<circ> store) (\<lambda>i. case i of None \<Rightarrow> ret ()
   | Some i \<Rightarrow> void (on_store (saveItem (itemKey i) ch rb)))"

subsection \<open>Files and links\<close>

definition chooseFiles :: "FilePlace \<Rightarrow> screen \<Rightarrow> screen" where
  "chooseFiles p z = z\<lparr>picking := Some p\<rparr>"

definition upload_to :: "env \<Rightarrow> File list \<Rightarrow> string option \<Rightarrow> string option \<Rightarrow> unit sprog" where
  "upload_to E fs parent col = void (on_store (uploadFiles E fs parent col))"

definition chosen :: "env \<Rightarrow> File list \<Rightarrow> unit sprog" where
  "chosen E fs = asks picking (\<lambda>p. seq (modify (\<lambda>z. z\<lparr>picking := None\<rparr>))
     (case p of None \<Rightarrow> ret ()
      | Some place \<Rightarrow> (case fs of [] \<Rightarrow> ret ()
          | f # _ \<Rightarrow> (case place of
              Replace i \<Rightarrow> runOnItem (void (on_store (replaceFile E i f)))
            | Under k \<Rightarrow> runOnItem (upload_to E fs (Some k) None)
            | Into c \<Rightarrow> runOnItem (upload_to E fs None c)))))"

definition chooseAttachment :: "string \<Rightarrow> screen \<Rightarrow> screen" where
  "chooseAttachment i z =
     (if i = ''standalone'' then chooseFiles (Into (collectionKey (store z))) z
      else if i = ''child'' \<and> noteParent (store z) \<noteq> None then chooseFiles (Under (itemKey (the (noteParent (store z))))) z
      else if i = ''link'' \<and> noteParent (store z) \<noteq> None then z\<lparr>linking := noteParent (store z)\<rparr>
      else z)"

definition attachLink :: "env \<Rightarrow> string \<Rightarrow> string \<Rightarrow> unit sprog" where
  "attachLink E u ttl = asks linking (\<lambda>p. case p of None \<Rightarrow> ret ()
   | Some parent \<Rightarrow> seq (modify (\<lambda>z. z\<lparr>linkBusy := True, linkError := None\<rparr>))
      (try_finally
        (try_catch
          (seq (void (on_store (createItem E ''attachment'' (Some (itemKey parent)) (Some (u, ttl))))) (modify (\<lambda>z. z\<lparr>linking := None\<rparr>)))
          (\<lambda>e. modify (\<lambda>z. z\<lparr>linkError := Some (message_of e)\<rparr>)))
        (\<lambda>z. z\<lparr>linkBusy := False\<rparr>)))"

definition closeLink :: "screen \<Rightarrow> screen" where
  "closeLink z = z\<lparr>linking := None, linkError := None\<rparr>"

definition takesFilesUnder :: "ItemEnvelope \<Rightarrow> lib \<Rightarrow> bool" where
  "takesFilesUnder i s \<longleftrightarrow> filesEditable s \<and> \<not> truthy (get_prop (data i) ''deleted'') \<and> regular i"

definition takesStandaloneFiles :: "lib \<Rightarrow> bool" where
  "takesStandaloneFiles s \<longleftrightarrow> offersNewItem s \<and> filesEditable s"

section \<open>Carrying\<close>

datatype Cargo = Items "ItemEnvelope list" | Collection CollectionNode

text \<open>\<open>target.slice(0, target.indexOf(':'))\<close> and what follows the colon.\<close>

definition kind_value :: "string \<Rightarrow> string \<times> string" where
  "kind_value target =
     (if CHR '':'' \<in> set target then (takeWhile (\<lambda>c. c \<noteq> CHR '':'') target, tl (dropWhile (\<lambda>c. c \<noteq> CHR '':'') target))
      else (butlast target, target))"

fun holds :: "CollectionNode \<Rightarrow> string \<Rightarrow> bool" where
  "holds (Node e ch) k \<longleftrightarrow> colKey e = k \<or> list_ex (\<lambda>c. holds c k) ch"

text \<open>\<open>number\<close> reads the id in the name of a library's row.\<close>

definition accepts :: "(string \<Rightarrow> int) \<Rightarrow> Cargo \<Rightarrow> string \<Rightarrow> lib \<Rightarrow> bool" where
  "accepts number cargo target s =
     (if \<not> writable s then False
      else case kind_value target of (kind, v) \<Rightarrow> (case cargo of
        Items is \<Rightarrow>
          if kind = ''library'' then Some (number v) \<noteq> libraryId s \<or> given (collectionKey s) \<noteq> None
          else if kind = ''publications'' then (case is of
              [i] \<Rightarrow> \<not> truthy (get_prop (data i) ''parentItem'') \<and> \<not> truthy (get_prop (data i) ''inPublications'')
                       \<and> \<not> truthy (get_prop (data i) ''deleted'')
            | _ \<Rightarrow> False)
          else kind = ''collection'' \<or> kind = ''trash''
      | Collection n \<Rightarrow>
          if kind = ''library'' then Some (number v) = libraryId s \<and> parentCollection (entry n) \<noteq> None
          else if kind = ''trash'' then True
          else kind = ''collection'' \<and> \<not> holds n v))"

definition drop_on :: "(string \<Rightarrow> int) \<Rightarrow> env \<Rightarrow> Cargo \<Rightarrow> string \<Rightarrow> bool \<Rightarrow> bool sprog" where
  "drop_on number E cargo target modified = (case kind_value target of (kind, v) \<Rightarrow> (case cargo of
     Items is \<Rightarrow>
       (let keys = map itemKey is in
        if kind = ''trash'' then attempt (on_store (trashItems E keys True))
        else if kind = ''publications'' then (case is of i # _ \<Rightarrow> seq (startPublishing E i) (ret False) | [] \<Rightarrow> ret False)
        else asks store (\<lambda>s. let here = given (collectionKey s) in
          if kind = ''collection'' then
            attempt (on_store (fileItems E keys (Some [v])
              (Some (case here of Some c \<Rightarrow> if modified \<and> c \<noteq> v then [c] else [] | None \<Rightarrow> []))))
          else if Some (number v) \<noteq> libraryId s then attempt (on_store (copyItems E keys (number v) None))
          else (case here of Some c \<Rightarrow> attempt (on_store (fileItems E keys None (Some [c]))) | None \<Rightarrow> ret False)))
   | Collection n \<Rightarrow>
       (if kind = ''trash'' then seq (modify (startDelete n)) (ret False)
        else if kind = ''collection'' then attempt (on_store (updateCollection E (node_key n) None (Some (Some v))))
        else attempt (on_store (updateCollection E (node_key n) None (Some None))))))"

text \<open>A row carries the whole selection when it is part of one of several.\<close>

definition carryItem :: "ItemEnvelope \<Rightarrow> lib \<Rightarrow> ItemEnvelope list" where
  "carryItem i s = (if itemKey i \<in> set (selectionKeys s) \<and> 1 < length (selectionKeys s) then selectedItems s else [i])"

definition carriedKeys :: "Cargo option \<Rightarrow> string list" where
  "carriedKeys c = (case c of None \<Rightarrow> [] | Some (Items is) \<Rightarrow> map itemKey is | Some (Collection n) \<Rightarrow> [node_key n])"

definition acceptsFiles :: "(string \<Rightarrow> int) \<Rightarrow> string \<Rightarrow> lib \<Rightarrow> bool" where
  "acceptsFiles number target s =
     (if \<not> filesEditable s then False
      else case kind_value target of (kind, v) \<Rightarrow>
        if kind = ''item'' \<or> kind = ''collection'' then True
        else if kind = ''library'' then Some (number v) = libraryId s
        else if kind = ''list'' then takesStandaloneFiles s
        else False)"

definition dropFiles :: "env \<Rightarrow> string \<Rightarrow> File list \<Rightarrow> nat \<Rightarrow> unit sprog" where
  "dropFiles E target files folders = (case kind_value target of (kind, v) \<Rightarrow>
     seq (modify (\<lambda>z. z\<lparr>itemError := (if folders \<noteq> 0 then Some ''Folders cannot be added. Add the files inside them.'' else None)\<rparr>))
       (if files = [] then ret ()
        else asks (collectionKey \<circ> store) (\<lambda>here.
          if kind = ''item'' then upload_to E files (Some v) None
          else upload_to E files None (if kind = ''collection'' then Some v else if kind = ''list'' then here else None))))"

section \<open>Duplicates and the open item\<close>

definition grouped :: "lib \<Rightarrow> bool" where
  "grouped s \<longleftrightarrow> scope s = Duplicates \<and> duplicateGroups s \<noteq> []"

definition find_row :: "string \<Rightarrow> lib \<Rightarrow> ItemEnvelope option" where
  "find_row k s = List.find (\<lambda>e. itemKey e = k) (items s)"

definition activateDuplicate :: "ItemEnvelope \<Rightarrow> unit sprog" where
  "activateDuplicate i = seq (modify (\<lambda>z. z\<lparr>duplicateInspection := False\<rparr>)) (on_store (select (Some i)))"

definition closeMergeReview :: "unit sprog" where
  "closeMergeReview = asks (activeDuplicateGroup \<circ> store) (\<lambda>g. seq (on_store clearSelection)
     (case Option.bind g (\<lambda>ks. given (case ks of k # _ \<Rightarrow> Some k | [] \<Rightarrow> None)) of
        Some k \<Rightarrow> modify (\<lambda>z. z\<lparr>focusKey := Some k\<rparr>) | None \<Rightarrow> ret ()))"

definition inspectDuplicate :: "string \<Rightarrow> unit sprog" where
  "inspectDuplicate k = asks (find_row k \<circ> store) (\<lambda>r. case r of None \<Rightarrow> ret ()
     | Some i \<Rightarrow> seq (modify (\<lambda>z. z\<lparr>duplicateInspection := True\<rparr>)) (on_store (inspectItem (Some i))))"

definition close_review :: "screen \<Rightarrow> unit sprog" where
  "close_review z = seq (modify (\<lambda>z. z\<lparr>duplicateInspection := False\<rparr>))
     (case (duplicateInspection z, activeDuplicateGroup (store z)) of
        (True, Some g) \<Rightarrow> (case Option.bind (case g of k # _ \<Rightarrow> Some k | [] \<Rightarrow> None) (\<lambda>k. find_row k (store z)) of
            Some i \<Rightarrow> on_store (select (Some i)) | None \<Rightarrow> ret ())
      | _ \<Rightarrow> on_store (select None))"

definition closeItemDetail :: "unit sprog" where
  "closeItemDetail = asks id (\<lambda>z. let s = store z in
     case detailOrigin z of
       Some (lid, parent, child) \<Rightarrow>
         if Some lid = libraryId s \<and> Some child = map_option itemKey (selected s)
         then seq (modify (\<lambda>z. z\<lparr>detailOrigin := None\<rparr>))
           (on_store (inspectItem (Some (case find_row (itemKey parent) s of Some i \<Rightarrow> i | None \<Rightarrow> parent))))
         else close_review z
     | None \<Rightarrow> close_review z)"

definition mergeSelection :: "env \<Rightarrow> MergeSnapshot \<Rightarrow> string \<Rightarrow> json \<Rightarrow> string \<Rightarrow> unit sprog" where
  "mergeSelection E snap master vals lang = asks (find_index (\<lambda>ks. master \<in> set ks) \<circ> duplicateGroups \<circ> store) (\<lambda>pos.
     seq (on_store (mergeItems E snap master vals lang))
       (asks store (\<lambda>s. case pos of
          Some i \<Rightarrow>
            if Some (snapLibrary snap) = libraryId s \<and> selection s = [] \<and> duplicateGroups s \<noteq> [] then
              (case duplicateGroups s ! min i (length (duplicateGroups s) - 1) of
                 k # _ \<Rightarrow> if k \<noteq> '''' then modify (\<lambda>z. z\<lparr>focusKey := Some k\<rparr>) else ret ()
               | [] \<Rightarrow> ret ())
            else ret ()
        | None \<Rightarrow> ret ())))"

section \<open>Rows by mouse and by keyboard\<close>

definition pressRow :: "ItemEnvelope \<Rightarrow> bool \<Rightarrow> bool \<Rightarrow> unit sprog" where
  "pressRow i shifted modified = asks selecting (\<lambda>sel.
     if shifted then on_store (extendSelection i)
     else if modified \<or> sel then on_store (toggleSelected i)
     else on_store (select (Some i)))"

definition selectAllKey :: "bool \<Rightarrow> bool \<Rightarrow> unit sprog" where
  "selectAllKey modified alted = (if \<not> modified \<or> alted then ret () else on_store selectAll)"

definition toggleAll :: "unit sprog" where
  "toggleAll = asks (allSelected \<circ> store) (\<lambda>all. on_store (if all then clearSelection else selectAll))"

definition toggleSelecting :: "screen \<Rightarrow> screen" where
  "toggleSelecting z = z\<lparr>selecting := \<not> selecting z\<rparr>"

definition PAGE_STEP :: int where
  "PAGE_STEP = 10"

definition key_step :: "int \<Rightarrow> int \<Rightarrow> string \<Rightarrow> int option" where
  "key_step pos bottom k = map_of [(''ArrowDown'', pos + 1), (''ArrowUp'', pos - 1), (''PageDown'', pos + PAGE_STEP), (''PageUp'', pos - PAGE_STEP),
     (''Home'', 0), (''End'', bottom)] k"

record list_key =
  pressed :: string
  ctrl_or_meta :: bool
  alt :: bool
  shift :: bool
  at_row :: "string option"

text \<open>The row moved to; with no rows left there is none.\<close>

definition row_at :: "int \<Rightarrow> screen \<Rightarrow> ItemEnvelope option" where
  "row_at i z = (let rows = overviewItems z; j = max 0 (min i (int (length rows) - 1)) in
     if nat j < length rows then Some (rows ! nat j) else None)"

definition move_to :: "list_key \<Rightarrow> ItemEnvelope \<Rightarrow> int \<Rightarrow> unit sprog" where
  "move_to k i n = asks (row_at n) (\<lambda>r. case r of None \<Rightarrow> ret ()
     | Some next_row \<Rightarrow> seq (modify (\<lambda>z. z\<lparr>focusKey := Some (itemKey next_row)\<rparr>))
        (if itemKey next_row = itemKey i \<and> \<not> shift k then ret ()
         else asks id (\<lambda>z.
           if grouped (store z) then (if ctrl_or_meta k then ret () else activateDuplicate next_row)
           else if shift k then on_store (extendSelection next_row)
           else if \<not> ctrl_or_meta k \<and> \<not> selecting z then on_store (select (Some next_row))
           else ret ())))"

definition open_row :: "list_key \<Rightarrow> ItemEnvelope \<Rightarrow> unit sprog" where
  "open_row k i = asks store (\<lambda>s.
     if grouped s then (if pressed k = ''F2'' then inspectDuplicate (itemKey i) else activateDuplicate i)
     else if map_option itemKey (selected s) \<noteq> Some (itemKey i) \<or> length (selection s) \<noteq> 1 then on_store (select (Some i))
     else ret ())"

definition listKey :: "list_key \<Rightarrow> unit sprog" where
  "listKey k = asks id (\<lambda>z.
     case at_row k of None \<Rightarrow> ret ()
     | Some row \<Rightarrow>
       if alt k then ret ()
       else (let rows = overviewItems z in
         case find_index (\<lambda>e. itemKey e = row) rows of None \<Rightarrow> ret ()
         | Some pos \<Rightarrow> (let i = rows ! pos; bottom = int (length rows) - 1 in
             if (pressed k = ''Enter'' \<or> pressed k = ''F2'') \<and> \<not> ctrl_or_meta k \<and> \<not> shift k \<and> \<not> selecting z then open_row k i
             else if pressed k = '' '' \<and> ctrl_or_meta k then on_store (toggleSelected i)
             else (case key_step (int pos) bottom (pressed k) of None \<Rightarrow> ret ()
               | Some n \<Rightarrow> seq (if n > bottom \<and> hasMore (store z) \<and> \<not> loading (store z) then on_store loadMore else ret ()) (move_to k i n)))))"

section \<open>Writing items out\<close>

definition exportableItems :: "ItemEnvelope list \<Rightarrow> ItemEnvelope list" where
  "exportableItems is = filter (\<lambda>i. exportable (item_type i)) is"

definition canExportView :: "lib \<Rightarrow> bool" where
  "canExportView s \<longleftrightarrow> exportableItems (items s) \<noteq> []"

definition narrowed :: "lib \<Rightarrow> bool" where
  "narrowed s \<longleftrightarrow> collectionKey s \<noteq> None \<or> scope s \<noteq> Top \<or> trim (search s) \<noteq> '''' \<or> selectedTags s \<noteq> []"

definition rowsChoice :: "(ItemEnvelope \<Rightarrow> string) \<Rightarrow> ItemEnvelope list \<Rightarrow> ExportChoice" where
  "rowsChoice title is =
     (let name = (case is of [i] \<Rightarrow> Some (title i) | _ \<Rightarrow> None) in
      \<lparr>choice_id = ''selection'',
       choice_label = (case name of Some t \<Rightarrow> t | None \<Rightarrow> show_nat (length is) @ '' items selected''),
       choice_keys = Some (map itemKey is),
       choice_name = (case name of Some t \<Rightarrow> t | None \<Rightarrow> ''Exported Items''), whole = False\<rparr>)"

definition widerChoices :: "(LibrarySummary \<Rightarrow> string) \<Rightarrow> lib \<Rightarrow> ExportChoice list" where
  "widerChoices label_of s =
     (let name = (case library s of Some l \<Rightarrow> label_of l | None \<Rightarrow> ''Library''); view = heading label_of s in
      (if narrowed s then [\<lparr>choice_id = ''view'', choice_label = view, choice_keys = None, choice_name = view, whole = False\<rparr>] else []) @
      [\<lparr>choice_id = ''library'', choice_label = name, choice_keys = None, choice_name = name, whole = True\<rparr>])"

definition exportSelectionOrView :: "(ItemEnvelope \<Rightarrow> string) \<Rightarrow> (LibrarySummary \<Rightarrow> string) \<Rightarrow> screen \<Rightarrow> screen" where
  "exportSelectionOrView title label_of z =
     (let chosen_rows = exportableItems (selectedItems (store z)) in
      z\<lparr>exporting := Some ((if chosen_rows \<noteq> [] then [rowsChoice title chosen_rows] else []) @ widerChoices label_of (store z))\<rparr>)"

definition exportItem :: "(ItemEnvelope \<Rightarrow> string) \<Rightarrow> ItemEnvelope \<Rightarrow> screen \<Rightarrow> screen" where
  "exportItem title i z = (if exportableItems [i] = [] then z else z\<lparr>exporting := Some [rowsChoice title [i]]\<rparr>)"

definition exportLink :: "string \<Rightarrow> string \<Rightarrow> screen \<Rightarrow> params" where
  "exportLink fmt i z =
     (let choices = (case exporting z of Some cs \<Rightarrow> cs | None \<Rightarrow> []);
          c = (case List.find (\<lambda>c. choice_id c = i) choices of Some c \<Rightarrow> Some c
               | None \<Rightarrow> (case choices of c # _ \<Rightarrow> Some c | [] \<Rightarrow> None))
      in exportUrl (store z) fmt (Option.bind c choice_keys) (map_option choice_name c) (case c of Some c \<Rightarrow> whole c | None \<Rightarrow> False))"

end
