(* ===== verification/ScreenProps.thy ===== *)
theory ScreenProps
  imports LibraryScreen LibraryProps
begin

text \<open>
  What holds of the library's screen: its gestures carry out exactly the store's operations they stand
  for, so what holds of the store holds of it on the screen; nothing is deleted for good unless it was asked
  about first; what a drop is accepted for; where the keyboard goes; and what is kept of the search and
  the widths.
\<close>

section \<open>Gestures\<close>

datatype (plugins only: code) quiet_gesture =
    TypeSearch string | CloseSearch | Resize bool rat | WidthDue PaneWidth
  | StartNew "CollectionNode option" | StartSettings CollectionNode | StartDelete CollectionNode | CancelDialog
  | AskToRemove "ItemEnvelope list" | AskToEmpty | CancelRemoval | ChooseAttachment string | CloseLink | ToggleSelecting

datatype (plugins only: code) row_gesture =
    ActivateDuplicate ItemEnvelope | InspectDuplicate string | CloseMergeReview | CloseItemDetail
  | PressRow ItemEnvelope bool bool | SelectAllKey bool bool | ToggleAll
  | SelectScope Scope | SelectCollection "string option" | ToggleTag string | SortBy string | ShowMore

datatype (plugins only: code) gesture =
    Quiet quiet_gesture | Row row_gesture | Drawn
  | SearchDue | ClearSearch | EscapeSearch
  | OpenLibrary int | ToggleLibrary int
  | SubmitSettings string "string option" | SubmitCollection string | ConfirmDelete
  | AskToUnpublish ItemEnvelope | ConfirmQuestion | RemoveKey ItemEnvelope | NewItem string "string option"
  | SubmitDestination Destination | SubmitPublication terms | StartPublishing ItemEnvelope | SubmitRights string
  | SaveSelected ItemChanges rebase
  | Chosen "File list" | AttachLink string string | DropOn Cargo string bool | DropFiles string "File list" nat
  | RenameTag string string | TrashOpenItem ItemEnvelope | MergeSelection MergeSnapshot string json string

text \<open>The first only change the screen.\<close>

primrec quiet_step :: "quiet_gesture \<Rightarrow> screen \<Rightarrow> screen" where
  "quiet_step (TypeSearch v) = type_search v"
| "quiet_step CloseSearch = closeSearchIfEmpty"
| "quiet_step (Resize side w) = (if side then resizeSidebar w else resizeDetail w)"
| "quiet_step (WidthDue p) = width_due p"
| "quiet_step (StartNew p) = startNew p"
| "quiet_step (StartSettings n) = startSettings n"
| "quiet_step (StartDelete n) = startDelete n"
| "quiet_step CancelDialog = cancel"
| "quiet_step (AskToRemove is) = askToRemove is"
| "quiet_step AskToEmpty = askToEmpty"
| "quiet_step CancelRemoval = cancelRemoval"
| "quiet_step (ChooseAttachment i) = chooseAttachment i"
| "quiet_step CloseLink = closeLink"
| "quiet_step ToggleSelecting = toggleSelecting"

primrec row_handle :: "row_gesture \<Rightarrow> unit sprog" where
  "row_handle (ActivateDuplicate i) = activateDuplicate i"
| "row_handle (InspectDuplicate k) = inspectDuplicate k"
| "row_handle CloseMergeReview = closeMergeReview"
| "row_handle CloseItemDetail = closeItemDetail"
| "row_handle (PressRow i s m) = pressRow i s m"
| "row_handle (SelectAllKey m a) = selectAllKey m a"
| "row_handle ToggleAll = toggleAll"
| "row_handle (SelectScope sc) = on_store (selectScope sc)"
| "row_handle (SelectCollection k) = on_store (selectCollection k)"
| "row_handle (ToggleTag t) = on_store (toggleTag t)"
| "row_handle (SortBy f) = on_store (sortBy f)"
| "row_handle ShowMore = on_store loadMore"

primrec handle :: "(string \<Rightarrow> int) \<Rightarrow> env \<Rightarrow> gesture \<Rightarrow> unit sprog" where
  "handle N E (Quiet q) = modify (quiet_step q)"
| "handle N E (Row r) = row_handle r"
| "handle N E SearchDue = search_due"
| "handle N E ClearSearch = clearSearch"
| "handle N E EscapeSearch = escapeSearch"
| "handle N E Drawn = modify (drawn E)"
| "handle N E (OpenLibrary i) = open_library E i"
| "handle N E (ToggleLibrary i) = toggleLibrary E i"
| "handle N E (SubmitSettings n p) = submitSettings E n p"
| "handle N E (SubmitCollection n) = submitCollection E n"
| "handle N E ConfirmDelete = confirmDelete E"
| "handle N E (AskToUnpublish i) = askToUnpublish E i"
| "handle N E ConfirmQuestion = confirm_question E"
| "handle N E (RemoveKey i) = removeKey E i"
| "handle N E (NewItem t p) = createItem_here E t p"
| "handle N E (SubmitDestination d) = submitDestination E d"
| "handle N E (SubmitPublication t) = submitPublication E t"
| "handle N E (StartPublishing i) = startPublishing E i"
| "handle N E (SubmitRights r) = submitRights r"
| "handle N E (SaveSelected ch rb) = saveSelected ch rb"
| "handle N E (Chosen fs) = chosen E fs"
| "handle N E (AttachLink u t) = attachLink E u t"
| "handle N E (DropOn c t m) = void (drop_on N E c t m)"
| "handle N E (DropFiles t fs n) = dropFiles E t fs n"
| "handle N E (RenameTag old t) = void (on_store (renameTag E old t))"
| "handle N E (TrashOpenItem i) = trashOpenItem E i"
| "handle N E (MergeSelection snap k vs lang) = mergeSelection E snap k vs lang"

text \<open>What each gesture means for the library: the operation of the store it stands for.\<close>

definition drop_command :: "(string \<Rightarrow> int) \<Rightarrow> env \<Rightarrow> Cargo \<Rightarrow> string \<Rightarrow> bool \<Rightarrow> lib \<Rightarrow> unit prog" where
  "drop_command N E c t m s = (case (kind_value t, c) of
     ((kind, v), Items is) \<Rightarrow>
       if kind = ''trash'' then trashItems E (map itemKey is) True
       else if kind = ''publications'' then (case is of [] \<Rightarrow> ret ()
         | i # _ \<Rightarrow> if truthy (get_prop (data i) ''parentItem'') then publishItem E (itemKey i) SHOW_CHILD else void (childrenOf (itemKey i)))
       else if kind = ''collection'' then fileItems E (map itemKey is) (Some [v])
         (Some (case given (collectionKey s) of Some c \<Rightarrow> if m \<and> c \<noteq> v then [c] else [] | None \<Rightarrow> []))
       else if Some (N v) \<noteq> libraryId s then copyItems E (map itemKey is) (N v) None
       else (case given (collectionKey s) of Some c \<Rightarrow> fileItems E (map itemKey is) None (Some [c]) | None \<Rightarrow> ret ())
   | ((kind, v), Collection n) \<Rightarrow>
       if kind = ''trash'' then ret ()
       else updateCollection E (node_key n) None (Some (if kind = ''collection'' then Some v else None)))"

definition close_command :: "screen \<Rightarrow> unit prog" where
  "close_command z = (case (duplicateInspection z, activeDuplicateGroup (store z)) of
     (True, Some g) \<Rightarrow> (case Option.bind (case g of k # _ \<Rightarrow> Some k | [] \<Rightarrow> None) (\<lambda>k. find_row k (store z)) of
         Some i \<Rightarrow> select (Some i) | None \<Rightarrow> ret ())
   | _ \<Rightarrow> select None)"

primrec row_command :: "row_gesture \<Rightarrow> screen \<Rightarrow> unit prog" where
  "row_command (ActivateDuplicate i) z = select (Some i)"
| "row_command (InspectDuplicate k) z = (case find_row k (store z) of Some i \<Rightarrow> inspectItem (Some i) | None \<Rightarrow> ret ())"
| "row_command CloseMergeReview z = clearSelection"
| "row_command CloseItemDetail z = (let s = store z in
     case detailOrigin z of
       Some (lid, parent, child) \<Rightarrow>
         if Some lid = libraryId s \<and> Some child = map_option itemKey (selected s)
         then inspectItem (Some (case find_row (itemKey parent) s of Some i \<Rightarrow> i | None \<Rightarrow> parent))
         else close_command z
     | None \<Rightarrow> close_command z)"
| "row_command (PressRow i s m) z =
     (if s then extendSelection i else if m \<or> selecting z then toggleSelected i else select (Some i))"
| "row_command (SelectAllKey m a) z = (if \<not> m \<or> a then ret () else selectAll)"
| "row_command ToggleAll z = (if allSelected (store z) then clearSelection else selectAll)"
| "row_command (SelectScope sc) z = selectScope sc"
| "row_command (SelectCollection k) z = selectCollection k"
| "row_command (ToggleTag t) z = toggleTag t"
| "row_command (SortBy f) z = sortBy f"
| "row_command ShowMore z = loadMore"

primrec command :: "(string \<Rightarrow> int) \<Rightarrow> env \<Rightarrow> gesture \<Rightarrow> screen \<Rightarrow> unit prog" where
  "command N E (Quiet q) z = ret ()"
| "command N E (Row r) z = row_command r z"
| "command N E SearchDue z = (case searchTimer z of Some v \<Rightarrow> setSearch v | None \<Rightarrow> ret ())"
| "command N E ClearSearch z = setSearch ''''"
| "command N E EscapeSearch z = (if searchText z \<noteq> '''' then setSearch '''' else ret ())"
| "command N E Drawn z = (if libraryId (store z) = watchedLibrary z then ret () else modify (follow E))"
| "command N E (OpenLibrary i) z = (if libraryId (store z) = Some i then selectScope Top else openLibrary E i)"
| "command N E (ToggleLibrary i) z =
     (if expandedLibraryId z \<noteq> Some i \<and> libraryId (store z) \<noteq> Some i then openLibrary E i else ret ())"
| "command N E (SubmitSettings n p) z = (case pending z of
     Some (Settings c) \<Rightarrow> if n = '''' then ret () else updateCollection E (node_key c) (Some n) (Some p) | _ \<Rightarrow> ret ())"
| "command N E (SubmitCollection n) z = (case pending z of
     Some (Create c) \<Rightarrow> if n = '''' then ret () else createCollection E n (map_option node_key c) | _ \<Rightarrow> ret ())"
| "command N E ConfirmDelete z = (case pending z of Some (Remove c) \<Rightarrow> deleteCollection E (node_key c) | _ \<Rightarrow> ret ())"
| "command N E (AskToUnpublish i) z = (if truthy (get_prop (data i) ''parentItem'') then unpublishItem E (itemKey i) else ret ())"
| "command N E ConfirmQuestion z = (case unpublishing z of Some i \<Rightarrow> unpublishItem E (itemKey i)
     | None \<Rightarrow> if emptying z then void (emptyTrash E) else deleteItems E (map itemKey (removing z)))"
| "command N E (RemoveKey i) z =
     (if \<not> writable (store z) then ret ()
      else if scope (store z) = Publications then (if truthy (get_prop (data i) ''parentItem'') then unpublishItem E (itemKey i) else ret ())
      else if scope (store z) = Trash \<or> list_all (\<lambda>e. truthy (get_prop (data e) ''deleted'')) (picked i (store z)) then ret ()
      else trashItems E (map itemKey (picked i (store z))) True)"
| "command N E (NewItem t p) z = void (createItem E t p None)"
| "command N E (SubmitDestination d) z =
     (if moving z = [] then ret ()
      else case to_library d of
        Some l \<Rightarrow> copyItems E (map itemKey (moving z)) l None
      | None \<Rightarrow> fileItems E (map itemKey (moving z)) (Some (fst (move_changes (moving z) d (store z)))) (Some (snd (move_changes (moving z) d (store z)))))"
| "command N E (SubmitPublication t) z = (case publishing z of Some i \<Rightarrow> publishItem E (itemKey i) t | None \<Rightarrow> ret ())"
| "command N E (StartPublishing i) z =
     (if truthy (get_prop (data i) ''parentItem'') then publishItem E (itemKey i) SHOW_CHILD else void (childrenOf (itemKey i)))"
| "command N E (SubmitRights r) z = (case editingRights z of
     Some i \<Rightarrow> void (saveItem (itemKey i) (no_changes\<lparr>chFields := Some [(''rights'', r)]\<rparr>) None) | None \<Rightarrow> ret ())"
| "command N E (SaveSelected ch rb) z = (case selected (store z) of Some i \<Rightarrow> void (saveItem (itemKey i) ch rb) | None \<Rightarrow> ret ())"
| "command N E (Chosen fs) z = (case (picking z, fs) of
     (Some (Replace i), f # _) \<Rightarrow> void (replaceFile E i f)
   | (Some (Under k), _ # _) \<Rightarrow> void (uploadFiles E fs (Some k) None)
   | (Some (Into c), _ # _) \<Rightarrow> void (uploadFiles E fs None c)
   | _ \<Rightarrow> ret ())"
| "command N E (AttachLink u t) z = (case linking z of
     Some i \<Rightarrow> void (createItem E ''attachment'' (Some (itemKey i)) (Some (u, t))) | None \<Rightarrow> ret ())"
| "command N E (DropOn c t m) z = drop_command N E c t m (store z)"
| "command N E (DropFiles t fs n) z = (case kind_value t of (kind, v) \<Rightarrow>
     if fs = [] then ret ()
     else if kind = ''item'' then void (uploadFiles E fs (Some v) None)
     else void (uploadFiles E fs None (if kind = ''collection'' then Some v else if kind = ''list'' then collectionKey (store z) else None)))"
| "command N E (RenameTag old t) z = void (renameTag E old t)"
| "command N E (TrashOpenItem i) z = seq (trashItems E [itemKey i] True)
     (asks items (\<lambda>is. case List.find (\<lambda>e. Some (itemKey e) = item_parent i) is of Some p \<Rightarrow> select (Some p) | None \<Rightarrow> ret ()))"
| "command N E (MergeSelection snap k vs lang) z = mergeItems E snap k vs lang"

section \<open>The screen carries out the operations of the store\<close>

text \<open>
  \<open>simulates z m n\<close>: from the screen \<open>z\<close> the program \<open>m\<close> sends what the program \<open>n\<close> of the store sends and does
  to the store what \<open>n\<close> does, whatever is answered and whatever happens meanwhile.  They need not end
  alike: the screen catches what the store throws.
\<close>

primrec over :: "('s, 'q, 'a, 'e, 'r) outcome \<Rightarrow> bool" where
  "over (Done r) = True"
| "over (Fail e) = True"
| "over (Wait q k) = False"

primrec simO :: "(screen, call, answer, lib_error, 'r) outcome \<Rightarrow> (lib, call, answer, lib_error, 't) outcome \<Rightarrow> bool" where
  "simO (Done r) = over"
| "simO (Fail e) = over"
| "simO (Wait q k) = (\<lambda>v. case v of Wait q' k' \<Rightarrow> q = q' \<and>
     (\<forall>a z. case map_prod id simO (k a z) of (z', sim) \<Rightarrow> store z' = fst (k' a (store z)) \<and> sim (snd (k' a (store z)))) | _ \<Rightarrow> False)"

definition simulates :: "screen \<Rightarrow> 'r sprog \<Rightarrow> 't prog \<Rightarrow> bool" where
  "simulates z m n \<longleftrightarrow> store (fst (m z)) = fst (n (store z)) \<and> simO (snd (m z)) (snd (n (store z)))"

lemma simO_Wait [simp]: "simO (Wait q k) v \<longleftrightarrow> (\<exists>k'. v = Wait q k' \<and> (\<forall>a z. simulates z (k a) (k' a)))"
  by (cases v) (auto simp: simulates_def split_beta)

declare simO.simps(3) [simp del]

lemma sim_WaitE:
  assumes "simO (Wait q k) v"
  obtains k' where "v = Wait q k'" "\<And>a z. store (fst (k a z)) = fst (k' a (store z))" "\<And>a z. simO (snd (k a z)) (snd (k' a (store z)))"
  using assms by (auto simp: simulates_def)

lemma over_iff: "over v \<longleftrightarrow> (\<exists>r. v = Done r) \<or> (\<exists>e. v = Fail e)"
  by (cases v) auto

text \<open>Programs of the screen alone: nothing is sent and the store is let be.\<close>

definition silent :: "'r sprog \<Rightarrow> bool" where
  "silent m \<longleftrightarrow> (\<forall>z. store (fst (m z)) = store z \<and> over (snd (m z)))"

named_theorems simulation \<open>programs of the screen and what they carry out\<close>

lemma silent_ret [simulation]: "silent (ret r)" and silent_modify [simulation]: "(\<And>z. store (f z) = store z) \<Longrightarrow> silent (modify f)"
  by (simp_all add: silent_def run_simps)

lemma silent_seq [simulation]: "silent m \<Longrightarrow> silent n \<Longrightarrow> silent (seq m n)"
  by (auto simp: silent_def run_simps bind_eq over_iff) (metis bindO.simps(1,2) fst_conv snd_conv)+

lemma sim_silent: "silent m \<Longrightarrow> simulates z m (ret ())"
  by (cases "snd (m z)") (auto simp: silent_def simulates_def run_simps dest: spec [of _ z])

lemma sim_on_storeO: "simO (on_storeO u) u"
  by (induction u rule: outcome_induct) (auto simp: simulates_def on_store_eq)

lemma sim_on_store [simulation]: "simulates z (on_store m) m"
  by (simp add: simulates_def on_store_eq sim_on_storeO)

lemma sim_bindO:
  assumes "\<And>r. silent (f r)"
  shows "simO u v \<Longrightarrow> store (fst (bindO u f z)) = store z \<and> simO (snd (bindO u f z)) v"
proof (induction u arbitrary: v z rule: outcome_induct)
  case (Done r)
  then show ?case using assms [of r] by (cases "snd (f r z)") (auto simp: silent_def dest: spec [of _ z])
next
  case (Wait q k)
  from Wait.prems obtain k' where k': "v = Wait q k'" "\<And>a z. store (fst (k a z)) = fst (k' a (store z))"
    "\<And>a z. simO (snd (k a z)) (snd (k' a (store z)))" by (rule sim_WaitE) blast
  show ?case using Wait.IH [OF k'(3)] k' by (simp add: simulates_def bind_eq)
qed simp

lemma sim_then: "simulates z m n \<Longrightarrow> (\<And>r. silent (f r)) \<Longrightarrow> simulates z (bind m f) n"
  using sim_bindO [of f "snd (m z)" "snd (n (store z))" "fst (m z)"] by (simp add: simulates_def bind_eq)

lemma sim_seq_then [simulation]: "simulates z m n \<Longrightarrow> silent f \<Longrightarrow> simulates z (seq m f) n"
  by (simp add: seq_def sim_then)

lemma sim_void [simulation]: "simulates z m n \<Longrightarrow> simulates z (void m) n"
  by (simp add: void_def sim_then silent_ret)

lemma simO_right:
  "simO u v \<Longrightarrow> simO u (snd (bindO v (\<lambda>_. ret ()) s)) \<and> fst (bindO v (\<lambda>_. ret ()) s) = s"
proof (induction u arbitrary: v s rule: outcome_induct)
  case (Wait q k)
  from Wait.prems obtain k' where k': "v = Wait q k'" "\<And>a z. store (fst (k a z)) = fst (k' a (store z))"
    "\<And>a z. simO (snd (k a z)) (snd (k' a (store z)))" by (rule sim_WaitE) blast
  show ?case using Wait.IH [OF k'(3)] k' by (simp add: simulates_def bind_eq)
qed (auto simp: over_iff run_simps)

lemma sim_void_right [simulation]: "simulates z m n \<Longrightarrow> simulates z m (void n)"
  using simO_right [of "snd (m z)" "snd (n (store z))" "fst (n (store z))"] by (simp add: simulates_def void_def bind_eq)

lemma sim_before [simulation]:
  "(\<And>z. store (f z) = store z) \<Longrightarrow> simulates (f z) m n \<Longrightarrow> simulates z (seq (modify f) m) n"
  by (simp add: simulates_def run_simps bind_eq)

lemma sim_asks [simulation]: "simulates z (h (g z)) n \<Longrightarrow> simulates z (asks g h) n"
  by (simp add: simulates_def run_simps)

lemma sim_catchO:
  assumes "\<And>e. silent (h e)"
  shows "simO u v \<Longrightarrow> store (fst (catchO u h z)) = store z \<and> simO (snd (catchO u h z)) v"
proof (induction u arbitrary: v z rule: outcome_induct)
  case (Fail e)
  then show ?case using assms [of e] by (cases "snd (h e z)") (auto simp: silent_def dest: spec [of _ z])
next
  case (Wait q k)
  from Wait.prems obtain k' where k': "v = Wait q k'" "\<And>a z. store (fst (k a z)) = fst (k' a (store z))"
    "\<And>a z. simO (snd (k a z)) (snd (k' a (store z)))" by (rule sim_WaitE) blast
  show ?case using Wait.IH [OF k'(3)] k' by (simp add: simulates_def try_catch_eq)
qed simp

lemma sim_catch [simulation]: "simulates z m n \<Longrightarrow> (\<And>e. silent (h e)) \<Longrightarrow> simulates z (try_catch m h) n"
  using sim_catchO [of h "snd (m z)" "snd (n (store z))" "fst (m z)"] by (simp add: simulates_def try_catch_eq)

lemma sim_finallyO:
  assumes "\<And>z. store (f z) = store z"
  shows "simO u v \<Longrightarrow> store (fst (finallyO u f z)) = store z \<and> simO (snd (finallyO u f z)) v"
proof (induction u arbitrary: v z rule: outcome_induct)
  case (Wait q k)
  from Wait.prems obtain k' where k': "v = Wait q k'" "\<And>a z. store (fst (k a z)) = fst (k' a (store z))"
    "\<And>a z. simO (snd (k a z)) (snd (k' a (store z)))" by (rule sim_WaitE) blast
  show ?case using Wait.IH [OF k'(3)] k' by (simp add: simulates_def try_finally_eq)
qed (simp_all add: assms)

lemma sim_finally [simulation]: "simulates z m n \<Longrightarrow> (\<And>z. store (f z) = store z) \<Longrightarrow> simulates z (try_finally m f) n"
  using sim_finallyO [of f "snd (m z)" "snd (n (store z))" "fst (m z)"] by (simp add: simulates_def try_finally_eq)

lemma sim_on_storeO_seq:
  assumes "\<And>z. simulates z m n"
  shows "store (fst (bindO (on_storeO u) (\<lambda>_. m) z)) = fst (bindO u (\<lambda>_. n) (store z)) \<and>
    simO (snd (bindO (on_storeO u) (\<lambda>_. m) z)) (snd (bindO u (\<lambda>_. n) (store z)))"
proof (induction u arbitrary: z rule: outcome_induct)
  case (Done r)
  show ?case using assms [of z] by (simp add: simulates_def)
next
  case (Wait q k)
  have "simulates z (bind (on_store (k a)) (\<lambda>_. m)) (bind (k a) (\<lambda>_. n))" for a z
    using Wait [of a "store z" "z\<lparr>store := fst (k a (store z))\<rparr>"] by (simp add: simulates_def bind_eq on_store_eq)
  then show ?case by simp
qed simp

lemma sim_on_store_seq: "(\<And>z. simulates z m' n') \<Longrightarrow> simulates z (seq (on_store m) m') (seq m n')"
  using sim_on_storeO_seq [of m' n' "snd (m (store z))" "z\<lparr>store := fst (m (store z))\<rparr>"]
  by (simp add: simulates_def run_simps bind_eq on_store_eq)

lemma sim_asks_both: "simulates z (h (g (store z))) (h' (g (store z))) \<Longrightarrow> simulates z (asks (g \<circ> store) h) (asks g h')"
  by (simp add: simulates_def run_simps)

lemma silent_asks [simulation]: "(\<And>r. silent (h r)) \<Longrightarrow> silent (asks g h)"
  by (simp add: silent_def run_simps)

text \<open>So much shows in every run.\<close>

lemma simO_runs:
  "simO u v \<Longrightarrow> store (fst (feed as (z, u))) = fst (feed as (store z, v)) \<and> sent as (z, u) = sent as (store z, v)"
proof (induction u arbitrary: v as z rule: outcome_induct)
  case (Wait q k)
  show ?case
  proof (cases as)
    case (Cons a as')
    from Wait.prems obtain k' where v: "v = Wait q k'" "simulates z (k a) (k' a)" by auto
    then show ?thesis
      using Wait.IH [of a z "snd (k' a (store z))" as' "fst (k a z)"] Cons by (simp add: simulates_def)
  qed (use Wait.prems in auto)
qed (auto simp: over_iff)

lemma simulates_runs:
  "simulates z m n \<Longrightarrow> store (fst (feed as (m z))) = fst (feed as (n (store z))) \<and> sent as (m z) = sent as (n (store z))"
  using simO_runs [of "snd (m z)" "snd (n (store z))" as "fst (m z)"] by (simp add: simulates_def)


lemmas screen_steps = type_search_def closeSearchIfEmpty_def resizeSidebar_def resizeDetail_def remember_def width_due_def
  startNew_def startSettings_def startDelete_def cancel_def askToRemove_def askToEmpty_def cancelRemoval_def chooseAttachment_def
  chooseFiles_def closeLink_def toggleSelecting_def

lemma quiet_store [simp]: "store (quiet_step q z) = store z"
  by (cases q) (auto simp: screen_steps split: option.splits)

lemma sim_attempt [simulation]: "(\<And>z'. store z' = store z \<Longrightarrow> simulates z' m n) \<Longrightarrow> simulates z (attempt m) n"
  unfolding attempt_def by (intro simulation) simp_all

lemma sim_runOnItem [simulation]: "(\<And>z'. store z' = store z \<Longrightarrow> simulates z' m n) \<Longrightarrow> simulates z (runOnItem m) n"
  unfolding runOnItem_def by (intro sim_void sim_attempt)

lemma sim_errand: "simulates z (errand (on_store m)) m"
  unfolding errand_def cancelRemoval_def by (intro simulation) simp_all

lemma sim_run_dialog: "simulates z (run_dialog (on_store m)) m"
  unfolding run_dialog_def cancel_def by (intro simulation) simp_all

lemma sim_if [simulation]:
  "(b \<Longrightarrow> simulates z m n) \<Longrightarrow> (\<not> b \<Longrightarrow> simulates z m' n') \<Longrightarrow> simulates z (if b then m else m') (if b then n else n')"
  by simp

lemma sim_ret [simulation]: "simulates z (ret r) (ret r')"
  by (simp add: simulates_def run_simps)

lemma sim_modify [simulation]: "(\<And>z. store (f z) = store z) \<Longrightarrow> simulates z (modify f) (ret r)"
  by (simp add: simulates_def run_simps)

lemma sim_row: "simulates z (row_handle r) (row_command r z)"
proof (cases r)
  case (InspectDuplicate k)
  then show ?thesis by (auto simp: inspectDuplicate_def intro!: simulation split: option.split)
next
  case CloseMergeReview
  then show ?thesis by (auto simp: closeMergeReview_def intro!: simulation split: option.split)
next
  case CloseItemDetail
  have "simulates z (close_review z) (close_command z)"
    by (auto simp: close_review_def close_command_def intro!: simulation split: option.split bool.split)
  with CloseItemDetail show ?thesis
    by (auto simp: closeItemDetail_def Let_def intro!: simulation split: option.split)
qed (auto simp: activateDuplicate_def pressRow_def selectAllKey_def toggleAll_def intro!: simulation)


lemma sim_startPublishing: "simulates z (startPublishing E i)
    (if truthy (get_prop (data i) ''parentItem'') then publishItem E (itemKey i) SHOW_CHILD else void (childrenOf (itemKey i)))"
  unfolding startPublishing_def by (intro simulation sim_then) simp_all

lemma sim_drop: "simulates z (drop_on N E c t m) (drop_command N E c t m (store z))"
proof (cases "kind_value t")
  case (Pair kind v)
  have "simulates z (seq (startPublishing E i) (ret False))
      (if truthy (get_prop (data i) ''parentItem'') then publishItem E (itemKey i) SHOW_CHILD else void (childrenOf (itemKey i)))" for i
    by (intro simulation sim_startPublishing)
  then show ?thesis
    unfolding drop_on_def drop_command_def Pair prod.case
    by (cases c) (auto simp: Let_def startDelete_def intro!: simulation split: list.split option.split)
qed

lemma sim_moved: "simulates z (submitDestination E d) (command N E (SubmitDestination d) z)"
proof -
  have "simulates z' (asks (move_changes is d \<circ> store) (\<lambda>(add, remove). on_store (fileItems E (map itemKey is) (Some add) (Some remove))))
      (fileItems E (map itemKey is) (Some (fst (move_changes is d (store z')))) (Some (snd (move_changes is d (store z')))))" for z' "is"
    by (rule sim_asks) (simp add: split_beta sim_on_store)
  moreover have "store (z\<lparr>itemBusy := True, itemError := None\<rparr>) = store z" by simp
  ultimately have "simulates (z\<lparr>itemBusy := True, itemError := None\<rparr>)
     (case to_library d of Some l \<Rightarrow> on_store (copyItems E (map itemKey (moving z)) l None)
      | None \<Rightarrow> asks (move_changes (moving z) d \<circ> store) (\<lambda>(add, remove). on_store (fileItems E (map itemKey (moving z)) (Some add) (Some remove))))
     (case to_library d of Some l \<Rightarrow> copyItems E (map itemKey (moving z)) l None
      | None \<Rightarrow> fileItems E (map itemKey (moving z)) (Some (fst (move_changes (moving z) d (store z)))) (Some (snd (move_changes (moving z) d (store z)))))"
    by (cases "to_library d") (simp_all only: option.case sim_on_store, metis)
  then show ?thesis unfolding submitDestination_def command.simps by (intro simulation) simp_all
qed

lemma watch_keeps [simp]:
  "store (watch_view z) = store z" "watchedLibrary (watch_view z) = watchedLibrary z"
  "store (watch_item z) = store z" "watchedLibrary (watch_item z) = watchedLibrary z"
  by (simp_all add: watch_view_def watch_item_def Let_def split: option.split prod.split)

lemma sim_handle: "simulates z (handle N E g) (command N E g z)"
proof (cases g)
  case Drawn
  then show ?thesis by (simp add: simulates_def run_simps drawn_def watch_library_def Let_def)
next
  case SearchDue
  then show ?thesis by (auto simp: search_due_def intro!: simulation split: option.split)
next
  case EscapeSearch
  then show ?thesis by (auto simp: escapeSearch_def clearSearch_def intro!: simulation)
next
  case (SubmitSettings n p)
  then show ?thesis by (auto simp: submitSettings_def intro!: simulation sim_run_dialog split: option.split pending.split)
next
  case (SubmitCollection n)
  then show ?thesis by (auto simp: submitCollection_def intro!: simulation sim_run_dialog split: option.split pending.split)
next
  case ConfirmDelete
  then show ?thesis by (auto simp: confirmDelete_def intro!: simulation sim_run_dialog split: option.split pending.split)
next
  case ConfirmQuestion
  have "simulates z (errand (void (on_store m))) (void m)" for m :: "nat prog"
    unfolding errand_def cancelRemoval_def by (intro simulation) simp_all
  with ConfirmQuestion show ?thesis
    unfolding ConfirmQuestion handle.simps command.simps confirm_question_def unpublish_item_def empty_trash_def delete_items_def
    by (intro sim_asks) (auto simp: sim_errand split: option.split)
next
  case (RemoveKey i)
  then show ?thesis by (auto simp: removeKey_def askToUnpublish_def askToRemove_def intro!: simulation)
next
  case (SubmitDestination d)
  then show ?thesis using sim_moved [of z E d N] by (simp only: handle.simps)
next
  case (Chosen fs)
  show ?thesis
  proof (cases "picking z")
    case (Some p)
    then show ?thesis unfolding \<open>g = Chosen fs\<close> handle.simps command.simps chosen_def upload_to_def
      by (cases fs; cases p) (simp_all only: option.case list.case prod.case FilePlace.case, (intro simulation; simp)+)
  next
    case None
    have "simulates z (asks picking (\<lambda>p. seq (modify (\<lambda>z. z\<lparr>picking := None\<rparr>)) (f p))) (ret ())" if "f None = ret ()" for f
      unfolding simulates_def by (simp add: run_simps bind_eq None that)
    then show ?thesis unfolding Chosen handle.simps command.simps chosen_def using None by simp
  qed
next
  case (DropOn c t m)
  then show ?thesis by (simp add: sim_void sim_drop)
next
  case (DropFiles t fs n)
  then show ?thesis by (auto simp: dropFiles_def upload_to_def split_beta intro!: simulation)
next
  case (OpenLibrary i)
  show ?thesis unfolding OpenLibrary handle.simps command.simps open_library_def
    by (intro sim_before sim_asks) (auto simp: sim_on_store)
next
  case (ToggleLibrary i)
  show ?thesis unfolding ToggleLibrary handle.simps command.simps toggleLibrary_def
    by (intro sim_asks) (auto intro!: simulation)
next
  case (SubmitPublication t)
  show ?thesis unfolding SubmitPublication handle.simps command.simps submitPublication_def
    by (intro sim_asks) (auto intro!: simulation split: option.split)
next
  case (SubmitRights r)
  show ?thesis unfolding SubmitRights handle.simps command.simps submitRights_def
    by (intro sim_asks) (auto intro!: simulation split: option.split)
next
  case (SaveSelected ch rb)
  show ?thesis unfolding SaveSelected handle.simps command.simps saveSelected_def
    by (intro sim_asks) (auto intro!: simulation split: option.split)
next
  case (AttachLink u t)
  show ?thesis unfolding AttachLink handle.simps command.simps attachLink_def
    by (intro sim_asks) (auto intro!: simulation split: option.split)
next
  case (NewItem t p)
  then show ?thesis by (simp add: createItem_here_def) (intro simulation)
next
  case (AskToUnpublish i)
  then show ?thesis by (simp add: askToUnpublish_def) (intro simulation impI conjI; simp)
next
  case (TrashOpenItem i)
  show ?thesis unfolding TrashOpenItem handle.simps command.simps trashOpenItem_def
    by (intro sim_runOnItem sim_on_store_seq sim_asks_both) (auto intro!: simulation split: option.split)
next
  case (RenameTag old t)
  then show ?thesis by (simp add: sim_void sim_void_right sim_on_store)
next
  case (MergeSelection snap k vs lang)
  show ?thesis unfolding MergeSelection handle.simps command.simps mergeSelection_def
    by (intro sim_asks sim_seq_then sim_on_store silent_asks) (auto intro!: simulation split: option.split list.split)
next
  case ClearSearch
  then show ?thesis by (simp add: clearSearch_def) (intro simulation; simp)
qed (simp_all add: sim_row sim_startPublishing sim_modify)

lemmas screen_refines_command = simulates_runs [OF sim_handle]



section \<open>The screen as a system\<close>

lemma simO_stretches: "simO u v \<Longrightarrow> stretchesO R v \<Longrightarrow> stretchesO (\<lambda>z z'. R (store z) (store z')) u"
proof (induction u arbitrary: v rule: outcome_induct)
  case (Wait q k)
  from Wait.prems(1) obtain k' where k': "v = Wait q k'" "\<And>a z. store (fst (k a z)) = fst (k' a (store z))"
    "\<And>a z. simO (snd (k a z)) (snd (k' a (store z)))" by (rule sim_WaitE) blast
  show ?case using Wait.IH [OF k'(3)] Wait.prems(2) k' by (simp add: stretches_def)
qed simp_all

lemma simulates_stretches:
  "(\<And>z. simulates z m (n z)) \<Longrightarrow> (\<And>z. stretches R (n z)) \<Longrightarrow> stretches (\<lambda>z z'. R (store z) (store z')) m"
  by (simp add: stretches_def simulates_def) (metis simO_stretches)

context library_steps
begin

lemma follow_ok: "stretches R (modify (follow E))"
  by (rule quiet_modify) simp

lemma row_command_ok: "stretches R (row_command r z)"
  by (cases r) (auto simp: close_command_def Let_def intro!: rules reading selecting split: option.split bool.split)

lemma command_ok: "stretches R (command N E g z)"
  by (cases g)
    (auto simp: row_command_ok drop_command_def Let_def intro!: rules reading selecting writing follow_ok
       split: option.split pending.split list.split FilePlace.split prod.split Cargo.split)

lemma handle_ok: "stretches (\<lambda>z z'. R (store z) (store z')) (handle N E g)"
  by (rule simulates_stretches [OF sim_handle command_ok])

end

text \<open>The gestures, and whatever else the page runs on the store meanwhile.\<close>

inductive screen_program :: "(string \<Rightarrow> int) \<Rightarrow> env \<Rightarrow> unit sprog \<Rightarrow> bool" for N E where
  "screen_program N E (handle N E g)"
| "screen_program N E (modify leave)"
| "screen_program N E (mounted E user)"
| "library_program E m \<Longrightarrow> screen_program N E (on_store m)"

abbreviation screen_programs :: "(string \<Rightarrow> int) \<Rightarrow> env \<Rightarrow> unit sprog set" where
  "screen_programs N E \<equiv> Collect (screen_program N E)"

text \<open>At most one question is asked.\<close>

definition one_question :: "screen \<Rightarrow> bool" where
  "one_question z \<longleftrightarrow> of_bool (removing z \<noteq> []) + of_bool (emptying z) + of_bool (unpublishing z \<noteq> None) \<le> (1 :: nat)"

definition screen_ok :: "screen \<Rightarrow> bool" where
  "screen_ok z \<longleftrightarrow> one_question z \<and> (searchTimer z = None \<or> searchTimer z = Some (searchText z))"

lemma stretches_any:
  fixes m :: "('s, 'q, 'a, 'e, 'r) async"
  shows "stretches (\<lambda>_ _. True) m"
proof -
  have "stretchesO (\<lambda>_ _. True) u" for u :: "('s, 'q, 'a, 'e, 'r) outcome" by (induction u rule: outcome_induct) (auto simp: stretches_def)
  then show ?thesis by (simp add: stretches_def)
qed

lemma asked_store [simp]: "keeps screen_ok z (z\<lparr>store := s\<rparr>)"
  by (simp add: keeps_def screen_ok_def one_question_def)

lemma asked_on_store: "stretches (keeps screen_ok) (on_store m)"
  by (rule stretches_on_store [OF stretches_any]) simp

lemmas asked_rules = stretches_ret [OF preorder_keeps] stretches_bind [OF preorder_keeps] stretches_catch [OF preorder_keeps]
  stretches_finally [OF preorder_keeps] stretches_void [OF preorder_keeps] stretches_seq [OF preorder_keeps] stretch_shape
  stretches_modify asked_on_store

lemma keeps_one: "removing z' = removing z \<Longrightarrow> emptying z' = emptying z \<Longrightarrow> unpublishing z' = unpublishing z \<Longrightarrow>
    searchTimer z' = searchTimer z \<Longrightarrow> searchText z' = searchText z \<Longrightarrow> keeps screen_ok z z'"
  by (simp add: keeps_def screen_ok_def one_question_def)

lemma asked_attempt: "stretches (keeps screen_ok) m \<Longrightarrow> stretches (keeps screen_ok) (attempt m)"
  unfolding attempt_def by (intro asked_rules) (auto intro: keeps_one)

lemma asked_runOnItem: "stretches (keeps screen_ok) m \<Longrightarrow> stretches (keeps screen_ok) (runOnItem m)"
  unfolding runOnItem_def by (intro asked_rules asked_attempt)

lemma asked_errand: "stretches (keeps screen_ok) m \<Longrightarrow> stretches (keeps screen_ok) (errand m)"
  unfolding errand_def by (intro asked_rules asked_runOnItem) (auto intro: keeps_one simp: keeps_def screen_ok_def one_question_def cancelRemoval_def)

lemma asked_dialog: "stretches (keeps screen_ok) m \<Longrightarrow> stretches (keeps screen_ok) (run_dialog m)"
  unfolding run_dialog_def cancel_def by (intro asked_rules) (auto intro: keeps_one)

lemma asked_quiet: "keeps screen_ok z (quiet_step q z)"
  by (cases q) (auto simp: screen_steps keeps_def screen_ok_def one_question_def split: option.splits)

lemma asked_publishing: "stretches (keeps screen_ok) (startPublishing E i)"
  unfolding startPublishing_def by (intro asked_rules asked_runOnItem) (auto intro: keeps_one)

lemma asked_drop: "stretches (keeps screen_ok) (drop_on N E c t m)"
  unfolding drop_on_def startDelete_def
  by (auto simp: Let_def split_beta intro!: asked_rules asked_attempt asked_publishing keeps_one split: Cargo.split list.split option.split)

lemma asked_row: "stretches (keeps screen_ok) (row_handle r)"
  by (cases r)
    (auto simp: activateDuplicate_def inspectDuplicate_def closeMergeReview_def closeItemDetail_def close_review_def pressRow_def
       selectAllKey_def toggleAll_def Let_def intro!: asked_rules keeps_one split: option.split bool.split)

lemma watch_questions [simp]:
  "removing (watch_view z) = removing z" "emptying (watch_view z) = emptying z" "unpublishing (watch_view z) = unpublishing z"
  "searchTimer (watch_view z) = searchTimer z" "searchText (watch_view z) = searchText z"
  "searchTimer (watch_item z) = searchTimer z" "searchText (watch_item z) = searchText z"
  "removing (watch_item z) = removing z" "emptying (watch_item z) = emptying z" "unpublishing (watch_item z) = unpublishing z"
  "pending (watch_view z) = pending z" "moving (watch_view z) = moving z" "pending (watch_item z) = pending z" "moving (watch_item z) = moving z"
  by (simp_all add: watch_view_def watch_item_def Let_def split: option.split prod.split)

lemma asked_drawn: "keeps screen_ok z (drawn E z)"
  by (rule keeps_one) (simp_all add: drawn_def watch_library_def Let_def)

lemma asked_clear: "stretches (keeps screen_ok) clearSearch"
  unfolding clearSearch_def by (intro asked_rules) (simp_all add: keeps_def screen_ok_def one_question_def)

lemma asked_handle: "stretches (keeps screen_ok) (handle N E g)"
proof (cases g)
  case (AskToUnpublish i)
  then show ?thesis
    by (auto simp: askToUnpublish_def keeps_def screen_ok_def one_question_def intro!: asked_rules asked_runOnItem)
next
  case (RemoveKey i)
  then show ?thesis
    by (auto simp: removeKey_def askToUnpublish_def askToRemove_def keeps_def screen_ok_def one_question_def intro!: asked_rules asked_runOnItem)
next
  case SearchDue
  then show ?thesis by (auto simp: search_due_def keeps_def screen_ok_def one_question_def intro!: asked_rules)
next
  case ClearSearch
  then show ?thesis by (simp add: asked_clear)
next
  case EscapeSearch
  then show ?thesis by (auto simp: escapeSearch_def intro!: asked_rules asked_clear keeps_one)
next
  case (Quiet q)
  then show ?thesis by (simp add: stretches_modify asked_quiet)
next
  case Drawn
  then show ?thesis by (simp add: stretches_modify asked_drawn)
qed (auto simp: asked_row asked_publishing asked_drop search_due_def clearSearch_def escapeSearch_def open_library_def
    toggleLibrary_def submitSettings_def submitCollection_def confirmDelete_def confirm_question_def unpublish_item_def empty_trash_def
    delete_items_def createItem_here_def submitDestination_def submitPublication_def submitRights_def saveSelected_def chosen_def upload_to_def
    attachLink_def dropFiles_def trashOpenItem_def mergeSelection_def Let_def split_beta
    intro!: asked_rules asked_runOnItem asked_errand asked_dialog keeps_one split: option.split pending.split list.split FilePlace.split)

lemma stretchesO_keep_both:
  "stretchesO (\<lambda>z z'. keeps I (f z) (f z')) u \<Longrightarrow> stretchesO (keeps J) u \<Longrightarrow> stretchesO (keeps (\<lambda>z. I (f z) \<and> J z)) u"
  by (induction u rule: outcome_induct) (auto simp: stretches_def keeps_def)

lemma stretches_keep_both:
  "stretches (\<lambda>z z'. keeps I (f z) (f z')) m \<Longrightarrow> stretches (keeps J) m \<Longrightarrow> stretches (keeps (\<lambda>z. I (f z) \<and> J z)) m"
  using stretchesO_keep_both unfolding stretches_def by (metis (mono_tags, lifting) keeps_def)

lemma mounted_ok: "stretches (keeps (\<lambda>z. lib_inv (store z))) (mounted E user)"
proof -
  have quiet: "keeps (\<lambda>z. lib_inv (store z)) z (z\<lparr>store := s\<rparr>)" if "ctl s = ctl (store z)" for z s
    using that lib_inv_quiet by (auto simp: keeps_def)
  have l: "stretches (keeps (\<lambda>z. lib_inv (store z))) (on_store (loadLibraries E))"
    by (rule stretches_on_store [OF inv.loadLibraries_ok]) (simp add: keeps_def)
  show ?thesis
    unfolding mounted_def
    by (intro stretches_seq [OF preorder_keeps] stretches_catch [OF preorder_keeps] stretches_modify l) (auto intro!: quiet simp: ctl_def)
qed

lemma asked_mounted: "stretches (keeps screen_ok) (mounted E user)"
  unfolding mounted_def by (intro asked_rules) auto

lemma screen_program_ok:
  assumes "screen_program N E m"
  shows "stretches (keeps (\<lambda>z. lib_inv (store z) \<and> screen_ok z)) m"
proof (rule stretches_keep_both [of lib_inv store])
  from assms show "stretches (\<lambda>z z'. keeps lib_inv (store z) (store z')) m"
  proof cases
    case 2
    have "keeps lib_inv (store z) (store (leave z))" for z
      by (simp add: leave_def keeps_def) (metis ctl_follow(2) lib_inv_quiet)
    with 2 show ?thesis by (simp add: stretches_modify)
  next
    case (3 user)
    then show ?thesis using mounted_ok [unfolded keeps_def] by (simp add: keeps_def)
  next
    case (4 n)
    then show ?thesis by (auto intro: stretches_on_store [OF inv.program_ok])
  qed (simp add: inv.handle_ok)
next
  from assms show "stretches (keeps screen_ok) m"
    by cases (auto simp: asked_handle asked_on_store asked_mounted leave_def keeps_def screen_ok_def one_question_def intro!: stretches_modify)
qed

interpretation on_screen: store_invariant "\<lambda>z. lib_inv (store z) \<and> screen_ok z" "screen_programs N E" for N E
  by unfold_locales (simp add: screen_program_ok)

text \<open>C7: Whatever the person does on the screen, in whatever order, while anything goes on in the library: at most one
  of the three questions (deleting items for good, emptying the trash, taking a work out of My Publications) is
  being asked, a search that waits for a pause is for what the field holds, and the store keeps its invariant -- it says it is loading exactly while its latest request is
  under way, shows a collection only in the scope of the whole library, and no two uploads share an id.\<close>

theorem screen_always:
  assumes "reachable (screen_programs N E) (setup_screen number E k initial) (z, ps)"
  shows "one_question z \<and> (searchTimer z = None \<or> searchTimer z = Some (searchText z)) \<and> (loading (store z) \<longleftrightarrow> itemsRequest (store z) \<noteq> None) \<and>
    (given (collectionKey (store z)) = None \<or> scope (store z) = Top) \<and> distinct (map upId (uploads (uploadsOf (store z))))"
proof -
  have "lib_inv (follow E initial)" by (rule lib_inv_quiet [OF _ lib_inv_initial]) simp
  then have "lib_inv (store (setup_screen number E k initial)) \<and> screen_ok (setup_screen number E k initial)"
    by (simp add: setup_screen_def screen_ok_def one_question_def)
  with on_screen.always [OF assms] have "lib_inv (store z) \<and> screen_ok z" by blast
  then show ?thesis by (simp add: screen_ok_def lib_inv_def requests_ok_def scope_ok_def uploads_inv_def)
qed

theorem screen_always_witness:
  "\<forall>E. let z = askToEmpty (setup_screen (\<lambda>_. None) E \<lparr>entries = \<lambda>_. None, can_read = True, can_write = True\<rparr> initial)
    in emptying z \<and> one_question z"
proof (unfold Let_def, rule allI)
  fix E
  let ?z0 = "setup_screen (\<lambda>_. None) E \<lparr>entries = \<lambda>_. None, can_read = True, can_write = True\<rparr> initial"
  have "reachable (screen_programs (\<lambda>_. 0) E) ?z0 (fst (feed [] (handle (\<lambda>_. 0) E (Quiet AskToEmpty) ?z0)), [snd (feed [] (handle (\<lambda>_. 0) E (Quiet AskToEmpty) ?z0))])"
    by (rule reachable_feed, unfold mem_Collect_eq, rule screen_program.intros(1))
  then have "reachable (screen_programs (\<lambda>_. 0) E) ?z0 (askToEmpty ?z0, [Done ()])" by (simp add: run_simps)
  from screen_always [OF this] show "emptying (askToEmpty ?z0) \<and> one_question (askToEmpty ?z0)" by (simp add: askToEmpty_def)
qed

text \<open>A screen with a library open, for the examples.\<close>

definition first_screen :: "env \<Rightarrow> screen" where
  "first_screen E = setup_screen (\<lambda>_. None) E \<lparr>entries = \<lambda>_. None, can_read = True, can_write = True\<rparr> (initial\<lparr>libraryId := Some 7\<rparr>)"

section \<open>Questions\<close>

text \<open>What is gone for good: a \<open>DELETE\<close> of anything but a place in My Publications.\<close>

definition destroys :: "call \<Rightarrow> bool" where
  "destroys q \<longleftrightarrow> verb q = ''DELETE'' \<and> \<not> sublist ''/publications/'' (path q)"

abbreviation spares :: "'r prog \<Rightarrow> bool" where
  "spares m \<equiv> behaves (\<lambda>q. \<not> destroys q) (\<lambda>_. True) m"

lemma spares_req: "\<not> destroys q \<Longrightarrow> spares (req pick q)"
  by (simp add: req_def behaves_await)

lemma spares_throw: "spares (throw e)"
  by (simp add: behaves_throw)

lemma destroys_simps [simp]:
  "\<not> destroys (GET p q)" "v \<noteq> ''DELETE'' \<Longrightarrow> \<not> destroys (send_call v p b)" "\<not> destroys (patch_items lid ob)"
  "\<not> destroys (upload_call lid f ttl parent col)" "\<not> destroys (replace_call lid i f)"
  by (simp_all add: destroys_def GET_def send_call_def patch_items_def upload_call_def replace_call_def Let_def)

lemma spares_unpublish: "\<not> destroys (send_call ''DELETE'' (lib_path lid (''/publications/items/'' @ key)) None)"
proof -
  have "lib_path lid (''/publications/items/'' @ key) = (''/web/libraries/'' @ show_int lid) @ ''/publications/'' @ ''items/'' @ key"
    by (simp add: lib_path_def)
  then have "sublist ''/publications/'' (lib_path lid (''/publications/items/'' @ key))" unfolding sublist_def by blast
  then show ?thesis by (simp add: destroys_def send_call_def)
qed

lemmas spare_rules = behaves_rules spares_req spares_throw destroys_simps spares_unpublish

lemma spares_list: "spares (loadItemsWith onto m)" if "spares m"
  unfolding loadItemsWith_def using that by (intro spare_rules)

lemma spares_reading [simp]:
  "spares refresh" "spares (loadItems onto)" "spares loadMore" "spares (loadCollections E)" "spares loadTags" "spares reloadSelected"
  "spares (childrenOf k)" "spares (openLibrary E i)" "spares reloadChildren" "spares refreshLibraries"
proof -
  show r: "spares refresh" unfolding refresh_def by (intro spare_rules spares_list)
  then show l: "spares (loadItems onto)" for onto unfolding loadItems_def by (intro spares_list)
  show "spares loadMore" unfolding loadMore_def by (intro spare_rules l)
  show c: "spares (loadCollections E)" unfolding loadCollections_def by (intro spare_rules)
  show t: "spares loadTags" unfolding loadTags_def by (intro spare_rules)
  show "spares reloadSelected" unfolding reloadSelected_def by (intro spare_rules)
  show k: "spares (childrenOf k)" for k unfolding childrenOf_def by (intro spare_rules)
  show "spares (openLibrary E i)" unfolding openLibrary_def by (intro spare_rules c t l)
  show "spares reloadChildren" unfolding reloadChildren_def by (intro spare_rules k)
  show "spares refreshLibraries" unfolding refreshLibraries_def by (intro spare_rules)
qed

lemma spares_selecting [simp]:
  "spares (openItem it)" "spares (inspectItem it)" "spares (select it)" "spares followSelection" "spares (toggleSelected i)"
  "spares (extendSelection i)" "spares selectAll" "spares clearSelection" "spares (selectScope sc)" "spares (selectCollection k)"
  "spares (toggleTag t)" "spares (setSearch v)" "spares (sortBy f)"
proof -
  show o: "spares (openItem it)" for it unfolding openItem_def by (intro spare_rules)
  show i: "spares (inspectItem it)" for it unfolding inspectItem_def by (intro spare_rules o)
  show s: "spares (select it)" for it unfolding select_def by (intro spare_rules o i)
  show f: "spares followSelection" unfolding followSelection_def by (intro spare_rules o)
  show "spares (toggleSelected j)" for j unfolding toggleSelected_def by (intro spare_rules s f)
  show "spares (extendSelection j)" for j unfolding extendSelection_def by (intro spare_rules s f)
  show "spares selectAll" unfolding selectAll_def by (intro spare_rules s f)
  show "spares clearSelection" unfolding clearSelection_def by (intro spare_rules o)
qed (simp_all add: selectScope_def selectCollection_def toggleTag_def setSearch_def sortBy_def behaves_rules)

lemma spares_after [simp]: "spares (afterItemWrite E)"
  unfolding afterItemWrite_def by (intro spare_rules spares_reading)

lemma spares_in [intro!]: "(\<And>lid. spares (f lid)) \<Longrightarrow> spares (in_library d f)" and spares_when: "spares m \<Longrightarrow> spares (when_in lid m)"
  by (simp_all add: in_library_def when_in_def behaves_rules)

lemma spares_writing [simp]:
  "spares (updateCollection E k n p)" "spares (createCollection E nm pa)" "spares (trashItems E keys del)" "spares (fileItems E keys add rem)"
  "spares (copyItems E keys target col)" "spares (publishItem E k t)" "spares (unpublishItem E k)" "spares (saveItem k ch rb)"
  "spares (createItem E ty pa link)" "spares (renameTag E old nw)" "spares (mergeItems E snap master vals lang)"
proof -
  note r = spare_rules spares_in spares_when spares_reading spares_selecting spares_after
  show "spares (updateCollection E k n p)" unfolding updateCollection_def by (intro r) simp
  show "spares (createCollection E nm pa)" unfolding createCollection_def by (intro r) simp
  show "spares (trashItems E keys del)" unfolding trashItems_def by (intro r)
  show "spares (fileItems E keys add rem)" unfolding fileItems_def by (intro r)
  show "spares (copyItems E keys target col)" unfolding copyItems_def by (intro r) simp
  show "spares (publishItem E k t)" unfolding publishItem_def by (intro r) simp
  show "spares (unpublishItem E k)" unfolding unpublishItem_def by (intro r)
  have c: "spares (send_changes lid k ch v)" for lid k ch v unfolding send_changes_def by (intro r) simp
  show "spares (saveItem k ch rb)" unfolding saveItem_def by (intro r c)
  show "spares (createItem E ty pa link)" unfolding createItem_def by (intro r) simp
  show "spares (renameTag E old nw)" unfolding renameTag_def by (intro r) simp
  show "spares (mergeItems E snap master vals lang)" unfolding mergeItems_def by (intro r) (simp add: destroys_def merge_call_def)
qed

lemma behavesO_mono: "behavesO P F u \<Longrightarrow> (\<And>q. P q \<Longrightarrow> P' q) \<Longrightarrow> behavesO P' F u"
  by (induction u rule: outcome_induct) (auto simp: behaves_def)

lemma behaves_mono: "behaves P F m \<Longrightarrow> (\<And>q. P q \<Longrightarrow> P' q) \<Longrightarrow> behaves P' F m"
  unfolding behaves_def using behavesO_mono by metis

text \<open>One request that destroys, and no other.\<close>

lemma destroys_once:
  assumes "\<And>r. spares (f r)"
  shows "behaves (\<lambda>q'. destroys q' \<longrightarrow> q' = q) (\<lambda>_. True) (bind (req pick q) f)"
  unfolding req_def by (intro behaves_bind behaves_await behaves_mono [OF assms]) simp_all

lemma deleteCollection_once:
  "behaves (\<lambda>q. destroys q \<longrightarrow> (\<exists>lid. path q = lib_path lid (''/collections/'' @ k))) (\<lambda>_. True) (deleteCollection E k)"
proof -
  have "behaves (\<lambda>q. destroys q \<longrightarrow> q = send_call ''DELETE'' (lib_path lid (''/collections/'' @ k)) None) (\<lambda>_. True)
     (seq (req (\<lambda>_. ()) (send_call ''DELETE'' (lib_path lid (''/collections/'' @ k)) None)) m)" if "spares m" for m :: "unit prog" and lid
    unfolding seq_def using that by (rule destroys_once)
  then show ?thesis
    unfolding deleteCollection_def in_library_def
    by (intro behaves_asks behaves_option behaves_ret, rule behaves_mono) (auto simp: send_call_def intro!: spare_rules)
qed

lemma deleteItems_once:
  "behaves (\<lambda>q. destroys q \<longrightarrow> (\<exists>lid. path q = lib_path lid ''/items'' \<and> query q = [(''itemKey'', join_with '','' keys)])) (\<lambda>_. True) (deleteItems E keys)"
proof -
  have "behaves (\<lambda>q. destroys q \<longrightarrow> q = q0) (\<lambda>_. True) (seq (req (\<lambda>_. ()) q0) (afterItemWrite E))" for q0
    unfolding seq_def by (rule destroys_once) simp
  then show ?thesis
    unfolding deleteItems_def in_library_def
    by (intro behaves_asks behaves_option behaves_ret behaves_if, rule behaves_mono) (auto simp: send_call_def)
qed

lemma emptyTrash_once:
  "behaves (\<lambda>q. destroys q \<longrightarrow> (\<exists>lid. path q = lib_path lid ''/trash'')) (\<lambda>_. True) (emptyTrash E)"
proof -
  have "behaves (\<lambda>q. destroys q \<longrightarrow> q = q0) (\<lambda>_. True) (bind (req pDeleted q0) (\<lambda>n. seq (afterItemWrite E) (ret n)))" for q0
    by (rule destroys_once) (simp add: behaves_seq behaves_ret)
  then show ?thesis
    unfolding emptyTrash_def in_library_def
    by (intro behaves_asks behaves_option behaves_ret, rule behaves_mono) (auto simp: send_call_def)
qed

lemma spares_track: "spares m \<Longrightarrow> spares (track_file f m)"
  unfolding track_file_def by (rule behaves_track)

lemma spares_uploads [simp]: "spares (uploadFiles E fs pa col)" "spares (replaceFile E i f)"
proof -
  have each: "spares (upload_each E lid limit pa col xs made)" for lid limit xs made
    by (induction xs arbitrary: made) (auto intro!: spare_rules spares_track)
  show "spares (uploadFiles E fs pa col)"
    unfolding uploadFiles_def by (intro spare_rules spares_in spares_when each spares_reading spares_after)
  show "spares (replaceFile E i f)"
    unfolding replaceFile_def by (intro spare_rules spares_in spares_track) 
qed

lemma spares_row: "spares (row_command r z)"
  by (cases r) (auto simp: close_command_def Let_def behaves_ret split: option.split bool.split)

lemma command_spares: "g \<notin> {ConfirmQuestion, ConfirmDelete} \<Longrightarrow> spares (command N E g z)"
  by (cases g)
    (auto simp: spares_row drop_command_def Let_def split_beta intro!: behaves_seq behaves_asks behaves_ret behaves_void behaves_modify split: option.split pending.split list.split FilePlace.split Cargo.split)

lemma followed [simp]: "libraryId (follow E s) = libraryId s" "search (follow E s) = search s" "libraries (follow E s) = libraries s"
    "collections (follow E s) = collections s"
  by (simp_all add: follow_def unfollow_def Let_def)

lemma sent_emptyTrash: "libraryId s = Some b \<Longrightarrow> sent [] (void (emptyTrash E) s) = [send_call ''DELETE'' (lib_path b ''/trash'') None]"
  by (simp add: emptyTrash_def in_library_def req_def void_def async_simps)

lemma opened_now: "libraryId (fst (openLibrary E b s)) = Some b \<and> search (fst (openLibrary E b s)) = ''''"
  by (simp add: openLibrary_def both_def loadCollections_def loadTags_def loadItems_def loadItemsWith_def req_def void_def async_simps
      begin_items_def forget_library_def split_beta)




text \<open>C27: A question, a dialog and the words in the search field stay when another library is opened, though they were about
  the one before: the trash that \<open>Delete\<close> then empties is that of the library just opened, and the field shows a
  word the list is not narrowed by.\<close>

theorem question_follows_the_library:
  assumes "libraryId (store z) \<noteq> Some b"
  shows "let z' = drawn E (fst (handle N E (OpenLibrary b) (askToEmpty z))) in
    emptying z' \<and> pending z' = pending z \<and> moving z' = moving z \<and>
    searchText z' = searchText z \<and> search (store z') = '''' \<and>
    sent [] (handle N E ConfirmQuestion z') = [send_call ''DELETE'' (lib_path b ''/trash'') None]"
proof -
  let ?z1 = "fst (handle N E (OpenLibrary b) (askToEmpty z))"
  have z1: "?z1 = askToEmpty z\<lparr>expandedLibraryId := Some b, store := fst (openLibrary E b (store z))\<rparr>"
    using assms by (simp add: open_library_def run_simps on_store_eq bind_eq askToEmpty_def)
  define z' where "z' = drawn E ?z1"
  have s: "libraryId (store z') = Some b" "search (store z') = ''''"
    using opened_now [of E b "store z"] unfolding z'_def z1 by (simp_all add: drawn_def watch_library_def Let_def)
  have k: "emptying z'" "unpublishing z' = None" "pending z' = pending z" "moving z' = moving z" "searchText z' = searchText z"
    unfolding z'_def z1 by (simp_all add: drawn_def watch_library_def Let_def askToEmpty_def)
  have "sent [] (handle N E ConfirmQuestion z') = [send_call ''DELETE'' (lib_path b ''/trash'') None]"
    unfolding conjunct2 [OF screen_refines_command] using s k by (simp add: sent_emptyTrash)
  with s k show ?thesis unfolding z'_def Let_def by blast
qed

theorem question_follows_the_library_witness:
  "\<forall>E. emptying (drawn E (fst (handle (\<lambda>_. 0) E (OpenLibrary 9) (askToEmpty (first_screen E)))))"
proof
  fix E
  have "libraryId (store (first_screen E)) \<noteq> Some 9" by (simp add: first_screen_def setup_screen_def)
  from question_follows_the_library [OF this, of E "\<lambda>_. 0"]
  show "emptying (drawn E (fst (handle (\<lambda>_. 0) E (OpenLibrary 9) (askToEmpty (first_screen E)))))"
    unfolding Let_def by blast
qed


text \<open>A search outlives the screen it was typed on: whoever leaves the library for another screen and comes back finds the field
  empty and folded away, no search waiting, and the list still narrowed by what was searched for, for nothing reads it again while
  the libraries are read.\<close>

theorem search_outlives_the_screen:
  assumes "libraryId (store z) = Some i"
  shows "let z' = fst (mounted E user (setup_screen number E k (store (leave z)))) in
    searchText z' = '''' \<and> \<not> searching z' \<and> searchTimer z' = None \<and> search (store z') = search (store z) \<and>
    sent as (mounted E user (setup_screen number E k (store (leave z)))) = [GET ''/web/libraries'' []]"
proof -
  have [simp]: "libraryId (unfollow s) = libraryId s" "search (unfollow s) = search s" for s by (simp_all add: unfollow_def)
  show ?thesis
    by (cases "as") (use assms in \<open>auto simp: mounted_def setup_screen_def leave_def on_store_eq loadLibraries_def refreshLibraries_def req_def
        async_simps Let_def split: sum.split\<close>)
qed

theorem search_outlives_the_screen_witness:
  "\<forall>E. let z = first_screen E\<lparr>store := (store (first_screen E))\<lparr>search := ''whale''\<rparr>, searchText := ''whale''\<rparr>;
    z' = fst (mounted E None (setup_screen (\<lambda>_. None) E (kept z) (store (leave z)))) in searchText z' = '''' \<and> search (store z') = ''whale''"
proof
  fix E
  let ?z = "first_screen E\<lparr>store := (store (first_screen E))\<lparr>search := ''whale''\<rparr>, searchText := ''whale''\<rparr>"
  have "libraryId (store ?z) = Some 7" by (simp add: first_screen_def setup_screen_def)
  from search_outlives_the_screen [OF this, of E None "\<lambda>_. None" "kept ?z" "[]"]
  show "let z = ?z; z' = fst (mounted E None (setup_screen (\<lambda>_. None) E (kept z) (store (leave z)))) in
    searchText z' = '''' \<and> search (store z') = ''whale''" unfolding Let_def by simp
qed


section \<open>Carrying\<close>

lemma holds_keys: "holds n k \<longleftrightarrow> k \<in> set (node_keys n)"
  by (induction n k rule: holds.induct) (auto simp: list_ex_iff)

lemma kind_of_collection: "kind_value (''collection:'' @ v) = (''collection'', v)"
  by (simp add: kind_value_def)

text \<open>C25: A collection that is carried is taken by exactly the collections the settings dialog would offer it a place in:
  those of the tree that are neither it nor anywhere inside it.\<close>

theorem carried_where_offered:
  assumes "writable (store z)" "distinct (tree_keys (collections (store z)))" "node_key n \<noteq> ''''" "v \<in> set (tree_keys (collections (store z)))"
    "pathTo (collections (store z)) (Some (node_key n)) = trail @ [n]" "pending z = Some (Settings n)"
  shows "accepts N (Collection n) (''collection:'' @ v) (store z) \<longleftrightarrow> Some v \<in> set (map placeKey (places label_of z))"
proof -
  let ?cs = "collections (store z)"
  have w: "walk_to (node_key n) ?cs [] = Some (trail @ [n])"
    using assms(3,5) by (simp add: pathTo_def split: option.splits)
  have "set (map placeKey (places label_of z)) = insert None (Some ` set (keys_outside (Some (node_key n)) ?cs))"
    by (simp add: places_def placesFor_def assms(6) place_walk_keys del: set_map) simp
  also have "\<dots> = insert None (Some ` (set (tree_keys ?cs) - set (node_keys n)))"
    using keys_outside_walk [OF w assms(2)] by simp
  finally have "Some v \<in> set (map placeKey (places label_of z)) \<longleftrightarrow> v \<notin> set (node_keys n)"
    using assms(4) by blast
  then show ?thesis using assms(1) unfolding accepts_def kind_of_collection by (simp add: holds_keys)
qed

theorem carried_where_offered_witness:
  "\<forall>E. let e = (\<lambda>k p. \<lparr>colKey = k, colVersion = 1, colName = k, parentCollection = p, numItems = 0\<rparr>);
     n = Node (e ''A'' None) [Node (e ''B'' (Some ''A'')) []];
     z = (first_screen E)\<lparr>store := initial\<lparr>libraryId := Some 7, collections := [n, Node (e ''C'' None) []],
       libraries := [\<lparr>libId = 7, libType = ''user'', libOwner = 1, libName = ''Ada'', libVersion = 3, libWritable = True,
         libPermission = Inherit, libFilesEditable = True, maxUploadBytes = 9\<rparr>]\<rparr>, pending := Some (Settings n)\<rparr>
   in accepts (\<lambda>_. 0) (Collection n) (''collection:'' @ ''C'') (store z) \<and> \<not> accepts (\<lambda>_. 0) (Collection n) (''collection:'' @ ''B'') (store z)"
proof (unfold Let_def, rule allI)
  fix E
  let ?e = "\<lambda>k p. \<lparr>colKey = k, colVersion = 1, colName = k, parentCollection = p, numItems = 0\<rparr>"
  let ?n = "Node (?e ''A'' None) [Node (?e ''B'' (Some ''A'')) []]"
  let ?z = "(first_screen E)\<lparr>store := initial\<lparr>libraryId := Some 7, collections := [?n, Node (?e ''C'' None) []],
       libraries := [\<lparr>libId = 7, libType = ''user'', libOwner = 1, libName = ''Ada'', libVersion = 3, libWritable = True,
         libPermission = Inherit, libFilesEditable = True, maxUploadBytes = 9\<rparr>]\<rparr>, pending := Some (Settings ?n)\<rparr>"
  have w: "writable (store ?z)" by (simp add: writable_def library_def)
  have "accepts (\<lambda>_. 0) (Collection ?n) (''collection:'' @ v) (store ?z) \<longleftrightarrow> Some v \<in> set (map placeKey (places (\<lambda>_. '''') ?z))"
    if "v \<in> {''A'', ''B'', ''C''}" for v
    by (rule carried_where_offered [OF w, where trail = "[]"]) (use that in \<open>auto simp: node_key_def pathTo_def\<close>)
  note offered = this
  show "accepts (\<lambda>_. 0) (Collection ?n) (''collection:'' @ ''C'') (store ?z) \<and> \<not> accepts (\<lambda>_. 0) (Collection ?n) (''collection:'' @ ''B'') (store ?z)"
    by (rule conjI; subst offered, simp, simp add: places_def placesFor_def node_key_def)
qed

section \<open>Rows\<close>

text \<open>The row \<open>Tab\<close> lands on is one of the list, and there is one exactly when the list has rows.\<close>

theorem tab_lands_on_a_row:
  "case tabKey z of Some k \<Rightarrow> k \<in> set (map itemKey (items (store z))) | None \<Rightarrow> items (store z) = []"
  by (auto simp: tabKey_def Let_def dest!: find_Some_iff [THEN iffD1] split: option.splits list.splits)

end
