(* ===== verification/NotePane.thy ===== *)
theory NotePane
  imports ScreenProps
begin

text \<open>
  A note in the item pane, saved as it is typed (components/NotePane.vue): what was typed and not sent, the save
  under way, the flushes that wait for it, the conflict and the failure; and the saves as the screen of the library
  sends them (\<open>saveSelected\<close> of views/LibraryView.vue).  The title of a note is an argument.  The full
  window is left out.
\<close>

section \<open>The pane\<close>

datatype pane_state = Idle | Saving | Saved | Failed | Conflict

text \<open>
  \<open>typed\<close> is the \<open>pending\<close> of the source; \<open>flight\<close> is the text of the save under way and \<open>waiters\<close> how many flushes
  await it.  \<open>in_editor\<close> is what stands in the editor, which is made anew from the item with every generation.
\<close>

record note_pane =
  item_note :: string
  can_save :: bool
  state :: pane_state
  why :: string
  notice :: "(string \<times> string) option"
  typed :: "string option"
  written :: string
  due :: bool
  flight :: "string option"
  waiters :: nat
  generation :: nat
  in_editor :: string

definition new_pane :: "string \<Rightarrow> bool \<Rightarrow> note_pane" where
  "new_pane nt saves = \<lparr>item_note = nt, can_save = saves, state = Idle, why = '''', notice = None, typed = None, written = nt,
     due = False, flight = None, waiters = 0, generation = 0, in_editor = nt\<rparr>"

text \<open>What a step sends to be saved; at most one text.\<close>

type_synonym pane_step = "note_pane \<Rightarrow> note_pane \<times> string option"

definition change :: "string \<Rightarrow> note_pane \<Rightarrow> note_pane" where
  "change html p = p\<lparr>typed := Some html, state := (if state p = Saved then Idle else state p), due := True, in_editor := html\<rparr>"

text \<open>The part of \<open>flush\<close> behind the wait.\<close>

definition start :: pane_step where
  "start p = (case typed p of
     Some html \<Rightarrow>
       if \<not> can_save p \<or> state p = Conflict then (p, None)
       else (p\<lparr>typed := None, state := Saving, flight := Some html\<rparr>, Some html)
   | None \<Rightarrow> (p, None))"

definition flush :: pane_step where
  "flush p = (let q = p\<lparr>due := False\<rparr> in if flight q \<noteq> None then (q\<lparr>waiters := Suc (waiters q)\<rparr>, None) else start q)"

datatype save_result = Ok | Clash string | Refused string

text \<open>How a save under way ends, up to its \<open>finally\<close>.\<close>

definition landed :: "(string \<Rightarrow> string) \<Rightarrow> save_result \<Rightarrow> string \<Rightarrow> note_pane \<Rightarrow> note_pane" where
  "landed title r html p =
     (case r of
        Ok \<Rightarrow> p\<lparr>written := html, state := (if typed p = None then Saved else state p)\<rparr>
      | Clash theirs \<Rightarrow>
          (let mine = (case typed p of None \<Rightarrow> html | Some t \<Rightarrow> t)
           in p\<lparr>typed := Some mine, state := Conflict, notice := Some (title mine, title theirs)\<rparr>)
      | Refused m \<Rightarrow> p\<lparr>typed := Some (case typed p of None \<Rightarrow> html | Some t \<Rightarrow> t), state := Failed, why := m\<rparr>)
     \<lparr>flight := None\<rparr>"

text \<open>The flush that began the save goes on first, then those that waited for it, in their order.\<close>

primrec go_on :: "nat \<Rightarrow> pane_step" where
  "go_on 0 p = (p, None)"
| "go_on (Suc n) p = (case start p of (q, sent1) \<Rightarrow> case go_on n q of (q', sent2) \<Rightarrow> (q', if sent1 \<noteq> None then sent1 else sent2))"

definition answered :: "(string \<Rightarrow> string) \<Rightarrow> save_result \<Rightarrow> pane_step" where
  "answered title r p = (case flight p of None \<Rightarrow> (p, None)
   | Some html \<Rightarrow>
       (let q = landed title r html p; n = waiters q; q0 = q\<lparr>waiters := 0\<rparr>
        in case (if typed q0 \<noteq> None \<and> state q0 = Saving then flush q0 else (q0, None)) of
             (q1, sent1) \<Rightarrow> (case go_on n q1 of (q2, sent2) \<Rightarrow> (q2, if sent1 \<noteq> None then sent1 else sent2))))"

definition keepMine :: pane_step where
  "keepMine p = flush (p\<lparr>notice := None, state := Idle\<rparr>)"

definition keepTheirs :: "note_pane \<Rightarrow> note_pane" where
  "keepTheirs p = p\<lparr>notice := None, state := Idle, typed := None, written := item_note p, generation := Suc (generation p), in_editor := item_note p\<rparr>"

definition retry :: pane_step where
  "retry p = flush (p\<lparr>state := Idle\<rparr>)"

text \<open>The note of the item changed: by the pane's own save, or elsewhere.\<close>

definition note_changed :: "string \<Rightarrow> note_pane \<Rightarrow> note_pane" where
  "note_changed nt p =
     (let q = p\<lparr>item_note := nt\<rparr>
      in if nt = written q \<or> typed q \<noteq> None \<or> flight q \<noteq> None \<or> state q = Conflict then q
         else q\<lparr>written := nt, generation := Suc (generation q), in_editor := nt\<rparr>)"

section \<open>Every sequence of events\<close>

text \<open>The buttons are there for what they answer: \<open>Try Again\<close> of a failure, the two of a conflict.\<close>

datatype pane_event = Type string | Due | Hidden | Answered save_result | Mine | Theirs | Retry | NoteChanged string

fun pane_step :: "(string \<Rightarrow> string) \<Rightarrow> pane_event \<Rightarrow> pane_step" where
  "pane_step title (Type html) p = (change html p, None)"
| "pane_step title Due p = (if due p then flush p else (p, None))"
| "pane_step title Hidden p = flush p"
| "pane_step title (Answered r) p = answered title r p"
| "pane_step title Mine p = (if notice p \<noteq> None then keepMine p else (p, None))"
| "pane_step title Theirs p = (if notice p \<noteq> None then (keepTheirs p, None) else (p, None))"
| "pane_step title Retry p = (if state p = Failed then retry p else (p, None))"
| "pane_step title (NoteChanged n) p = (note_changed n p, None)"

fun pane_run :: "(string \<Rightarrow> string) \<Rightarrow> pane_event list \<Rightarrow> note_pane \<Rightarrow> note_pane \<times> string list" where
  "pane_run title [] p = (p, [])"
| "pane_run title (e # es) p = (case pane_step title e p of (q, s) \<Rightarrow>
     (case pane_run title es q of (q', ss) \<Rightarrow> (q', (case s of None \<Rightarrow> [] | Some html \<Rightarrow> [html]) @ ss)))"

text \<open>The text that is nearest the person: typed, being saved, or saved.\<close>

definition latest :: "note_pane \<Rightarrow> string" where
  "latest p = (case typed p of Some html \<Rightarrow> html | None \<Rightarrow> (case flight p of Some html \<Rightarrow> html | None \<Rightarrow> written p))"

definition pane_ok :: "note_pane \<Rightarrow> bool" where
  "pane_ok p \<longleftrightarrow> in_editor p = latest p \<and> can_save p \<and> (state p = Saving \<longleftrightarrow> flight p \<noteq> None) \<and> (notice p \<noteq> None \<longleftrightarrow> state p = Conflict) \<and>
     (flight p = None \<longrightarrow> waiters p = 0) \<and>
     (typed p \<noteq> None \<longrightarrow> due p \<or> flight p \<noteq> None \<or> state p \<in> {Failed, Conflict})"

lemma go_on_rest: "typed p = None \<or> state p = Conflict \<Longrightarrow> go_on n p = (p, None)"
  by (induction n) (auto simp: start_def split: option.split)

lemma start_typed: "fst (start p) = p \<or> typed (fst (start p)) = None"
  by (auto simp: start_def split: option.split)

lemma start_idle: "typed p = Some html \<Longrightarrow> can_save p \<Longrightarrow> state p \<noteq> Conflict \<Longrightarrow>
    start p = (p\<lparr>typed := None, state := Saving, flight := Some html\<rparr>, Some html)"
  by (simp add: start_def)

lemma go_on_Suc: "typed p = Some html \<Longrightarrow> can_save p \<Longrightarrow> state p \<noteq> Conflict \<Longrightarrow>
    go_on (Suc n) p = (p\<lparr>typed := None, state := Saving, flight := Some html\<rparr>, Some html)"
  by (simp add: start_idle go_on_rest)

lemma flush_ok: "pane_ok p \<Longrightarrow> pane_ok (fst (flush p))"
  by (cases "state p") (auto simp: flush_def start_def pane_ok_def latest_def Let_def split: option.splits)

lemma landed_simps [simp]:
  "flight (landed title r html p) = None" "waiters (landed title r html p) = waiters p" "can_save (landed title r html p) = can_save p"
  "in_editor (landed title r html p) = in_editor p" "due (landed title r html p) = due p"
  by (simp_all add: landed_def Let_def split: save_result.split)

lemma answered_ok:
  assumes "pane_ok p"
  shows "pane_ok (fst (answered title r p))"
proof (cases "flight p")
  case (Some html)
  let ?q = "landed title r html p\<lparr>waiters := 0\<rparr>"
  have st: "state p = Saving" using assms Some by (simp add: pane_ok_def)
  show ?thesis
  proof (cases r)
    case Ok
    show ?thesis
    proof (cases "typed p")
      case None
      with Ok Some st assms show ?thesis
        by (auto simp: answered_def landed_def Let_def go_on_rest pane_ok_def latest_def)
    next
      case (Some t)
      with Ok \<open>flight p = Some html\<close> st assms show ?thesis
        by (auto simp: answered_def landed_def Let_def flush_def start_def go_on_rest pane_ok_def latest_def)
    qed
  next
    case (Clash theirs)
    with Some st assms show ?thesis
      by (auto simp: answered_def landed_def Let_def go_on_rest pane_ok_def latest_def split: option.split)
  next
    case (Refused m)
    with Some st assms show ?thesis
      by (cases "waiters p") (auto simp: answered_def landed_def Let_def go_on_Suc pane_ok_def latest_def simp del: go_on.simps(2) split: option.split)
  qed
qed (use assms in \<open>simp add: answered_def\<close>)

lemma step_ok: "pane_ok p \<Longrightarrow> pane_ok (fst (pane_step title e p))"
proof (cases e)
  case Mine
  have "pane_ok (p\<lparr>notice := None, state := Idle, due := True\<rparr>)" if "pane_ok p" "notice p \<noteq> None"
    using that by (auto simp: pane_ok_def latest_def split: option.split)
  from flush_ok [OF this] show ?thesis if "pane_ok p" using that Mine by (simp add: keepMine_def flush_def)
next
  case Retry
  have "pane_ok (p\<lparr>state := Idle, due := True\<rparr>)" if "pane_ok p" "state p = Failed"
    using that by (auto simp: pane_ok_def latest_def split: option.split)
  from flush_ok [OF this] show ?thesis if "pane_ok p" using that Retry by (simp add: retry_def flush_def)
qed (auto simp: flush_ok answered_ok, auto simp: pane_ok_def change_def keepTheirs_def note_changed_def latest_def Let_def split: option.splits)

lemma run_ok: "pane_ok p \<Longrightarrow> pane_ok (fst (pane_run title es p))"
  by (induction es arbitrary: p) (auto simp: split_beta step_ok)

lemma new_pane_ok: "pane_ok (new_pane nt True)"
  by (simp add: new_pane_def pane_ok_def latest_def)

text \<open>C29: While the note is open no word of it is lost: after whatever is typed, whenever the pauses end and however each save is
  answered, what stands in the editor is what is waiting to be sent, or else what is being saved, or else what was
  saved; text that waits has a pause running or a save to follow, or the person has been told it failed or clashed; and
  the pane says it is saving exactly while a save is under way.\<close>

theorem no_word_is_lost:
  "let p = fst (pane_run title es (new_pane nt True)) in
    in_editor p = (case typed p of Some html \<Rightarrow> html | None \<Rightarrow> (case flight p of Some html \<Rightarrow> html | None \<Rightarrow> written p)) \<and>
    (typed p = None \<or> due p \<or> flight p \<noteq> None \<or> state p \<in> {Failed, Conflict}) \<and> (state p = Saving \<longleftrightarrow> flight p \<noteq> None)"
  using run_ok [OF new_pane_ok, of title es nt] unfolding Let_def pane_ok_def latest_def by blast

theorem no_word_is_lost_witness:
  "let p = fst (pane_run id [Type ''a'', Due, Type ''b''] (new_pane '''' True)) in
    in_editor p = ''b'' \<and> typed p = Some ''b'' \<and> flight p = Some ''a'' \<and> state p = Saving"
proof -
  have p: "fst (pane_run id [Type ''a'', Due, Type ''b''] (new_pane '''' True)) =
      (new_pane '''' True)\<lparr>typed := Some ''b'', state := Saving, due := True, flight := Some ''a'', in_editor := ''b''\<rparr>"
    by (simp add: new_pane_def change_def flush_def start_def)
  from no_word_is_lost [of id "[Type ''a'', Due, Type ''b'']" "''''"] show ?thesis unfolding p Let_def by simp
qed

text \<open>What was typed is saved in the end: from any state of an open note, once the pause ends and the saves under way
  are answered, what stands in the editor is what was written, unless a save was refused or clashed.\<close>

theorem typed_is_saved:
  assumes "state (fst (pane_run title es (new_pane nt True))) \<notin> {Failed, Conflict}"
  shows "let p = fst (pane_run title es (new_pane nt True)); q = fst (pane_run title [Hidden, Answered Ok, Answered Ok] p) in
    typed q = None \<and> flight q = None \<and> written q = in_editor p \<and> in_editor q = in_editor p"
proof -
  let ?p = "fst (pane_run title es (new_pane nt True))"
  have ok: "pane_ok ?p" by (rule run_ok [OF new_pane_ok])
  show ?thesis
  proof (cases "flight ?p")
    case None
    with ok assms show ?thesis
      by (cases "typed ?p")
        (auto simp: Let_def flush_def start_def answered_def landed_def go_on_rest pane_ok_def latest_def)
  next
    case (Some html)
    with ok assms show ?thesis
      by (cases "typed ?p")
        (auto simp: Let_def flush_def start_def answered_def landed_def go_on_rest pane_ok_def latest_def)
  qed
qed

theorem typed_is_saved_witness:
  "let p = fst (pane_run id [Type ''a'', Due, Type ''b''] (new_pane '''' True)); q = fst (pane_run id [Hidden, Answered Ok, Answered Ok] p) in
    written q = ''b'' \<and> flight p = Some ''a''"
proof -
  have p: "fst (pane_run id [Type ''a'', Due, Type ''b''] (new_pane '''' True)) =
      (new_pane '''' True)\<lparr>typed := Some ''b'', state := Saving, due := True, flight := Some ''a'', in_editor := ''b''\<rparr>"
    by (simp add: new_pane_def change_def flush_def start_def)
  from typed_is_saved [of id "[Type ''a'', Due, Type ''b'']" "''''"] show ?thesis unfolding p Let_def by simp
qed

section \<open>Where the note is saved to\<close>

definition save_note :: "string \<Rightarrow> unit sprog" where
  "save_note html = saveSelected (no_changes\<lparr>chNote := Some html\<rparr>) None"

abbreviation note_call :: "int \<Rightarrow> ItemEnvelope \<Rightarrow> string \<Rightarrow> call" where
  "note_call lid i html \<equiv> send_call ''PATCH'' (item_path lid (itemKey i)) (Some (save_body (no_changes\<lparr>chNote := Some html\<rparr>) (Some (itemVersion i))))"

lemma saveSelected_open:
  "libraryId (store z) = Some lid \<Longrightarrow> selected (store z) = Some i \<Longrightarrow>
     sent [] (saveSelected ch rb z) = [send_call ''PATCH'' (item_path lid (itemKey i)) (Some (save_body ch (Some (itemVersion i))))]"
  by (simp add: saveSelected_def run_simps void_def bind_eq on_store_eq saveItem_def in_library_def current_item_def is_open_def
      send_changes_def req_def run_await try_catch_eq)

lemma save_note_open:
  "libraryId (store z) = Some lid \<Longrightarrow> selected (store z) = Some i \<Longrightarrow> sent [] (save_note html z) = [note_call lid i html]"
  by (simp add: save_note_def saveSelected_open)

lemma save_note_closed: "selected (store z) = None \<Longrightarrow> save_note html z = (z, Done ())"
  by (simp add: save_note_def saveSelected_def run_simps)

lemma flush_sends: "typed p = Some html \<Longrightarrow> flight p = None \<Longrightarrow> can_save p \<Longrightarrow> state p \<noteq> Conflict \<Longrightarrow> snd (flush p) = Some html"
  by (simp add: flush_def start_def)

lemma opened_row:
  "scope s \<noteq> Duplicates \<Longrightarrow> selected (fst (select (Some i) s)) = Some i \<and> libraryId (fst (select (Some i) s)) = libraryId s"
  by (auto simp: select_def inspectItem_def openItem_def run_simps bind_eq begin_children_def req_def run_await try_catch_eq try_finally_eq split: option.split)

lemma pressed_row_saves:
  assumes "libraryId (store z) = Some lid" "scope (store z) \<noteq> Duplicates" "\<not> selecting z"
  shows "sent [] (saveSelected ch rb (fst (handle N E (Row (PressRow other False False)) z)))
    = [send_call ''PATCH'' (item_path lid (itemKey other)) (Some (save_body ch (Some (itemVersion other))))]"
proof -
  have "fst (handle N E (Row (PressRow other False False)) z) = z\<lparr>store := fst (select (Some other) (store z))\<rparr>"
    using assms(3) by (simp add: pressRow_def run_simps on_store_eq)
  then show ?thesis using opened_row [OF assms(2), of other] assms(1) by (simp add: saveSelected_open)
qed

text \<open>C30: A note that is left before its save is written over the item gone to: the pane saves on its way out, when the screen has
  opened the other row already, and what it sends names that row and states that row's version; and if
  nothing is open then, nothing is sent at all and the pane takes the text for saved.\<close>

theorem left_note_goes_to_the_next:
  assumes "libraryId (store z) = Some lid" "scope (store z) \<noteq> Duplicates" "\<not> selecting z"
    "typed p = Some html" "flight p = None" "can_save p" "state p \<noteq> Conflict"
  shows "snd (flush p) = Some html \<and>
    sent [] (save_note html (fst (handle N E (Row (PressRow other False False)) z))) = [note_call lid other html] \<and>
    (\<forall>z'. selected (store z') = None \<longrightarrow> save_note html z' = (z', Done ()) \<and> state (fst (answered title Ok (fst (flush p)))) = Saved)"
proof -
  have "sent [] (save_note html (fst (handle N E (Row (PressRow other False False)) z))) = [note_call lid other html]"
    using pressed_row_saves [OF assms(1-3)] by (simp add: save_note_def)
  moreover have "state (fst (answered title Ok (fst (flush p)))) = Saved"
    using assms(4-) by (simp add: flush_def start_def answered_def landed_def Let_def go_on_rest)
  ultimately show ?thesis using flush_sends [OF assms(4-)] save_note_closed by blast
qed

theorem left_note_goes_to_the_next_witness:
  "\<forall>E. let first = \<lparr>itemKey = ''AAAABBBB'', itemVersion = 3, data = [(''itemType'', JStr ''note'')], meta = \<lparr>numChildren = 0, createdByUser = None\<rparr>\<rparr>;
     other = first\<lparr>itemKey := ''CCCCDDDD'', itemVersion := 5\<rparr>;
     z = (first_screen E)\<lparr>store := initial\<lparr>libraryId := Some 7, items := [first, other], selection := [''AAAABBBB''], selected := Some first\<rparr>\<rparr>;
     p = change ''words'' (new_pane '''' True)
   in snd (flush p) = Some ''words'' \<and>
     sent [] (save_note ''words'' (fst (handle (\<lambda>_. 0) E (Row (PressRow other False False)) z))) = [note_call 7 other ''words'']"
proof (unfold Let_def, rule allI)
  fix E
  let ?first = "\<lparr>itemKey = ''AAAABBBB'', itemVersion = 3, data = [(''itemType'', JStr ''note'')], meta = \<lparr>numChildren = 0, createdByUser = None\<rparr>\<rparr>"
  let ?other = "?first\<lparr>itemKey := ''CCCCDDDD'', itemVersion := 5\<rparr>"
  let ?z = "(first_screen E)\<lparr>store := initial\<lparr>libraryId := Some 7, items := [?first, ?other], selection := [''AAAABBBB''], selected := Some ?first\<rparr>\<rparr>"
  let ?p = "change ''words'' (new_pane '''' True)"
  have h: "libraryId (store ?z) = Some 7" "scope (store ?z) \<noteq> Duplicates" "\<not> selecting ?z"
      "typed ?p = Some ''words''" "flight ?p = None" "can_save ?p" "state ?p \<noteq> Conflict"
    by (simp_all add: first_screen_def setup_screen_def initial_def change_def new_pane_def)
  from left_note_goes_to_the_next [OF h, of "\<lambda>_. 0" E ?other]
  show "snd (flush ?p) = Some ''words'' \<and>
     sent [] (save_note ''words'' (fst (handle (\<lambda>_. 0) E (Row (PressRow ?other False False)) ?z))) = [note_call 7 ?other ''words'']"
    by blast
qed

text \<open>C33: A change somebody else made to a note that is being typed in is written over unseen: the pane lets it pass while text
  waits, and the save that follows states the version that change came with, which the server has no cause to refuse.\<close>

theorem change_elsewhere_is_overwritten:
  assumes "libraryId (store z) = Some lid" "is_open (itemKey fresh) (store z)"
    "typed p = Some html" "flight p = None" "can_save p" "state p \<noteq> Conflict"
  shows "let q = note_changed theirs p in in_editor q = in_editor p \<and> notice q = notice p \<and> snd (flush q) = Some html \<and>
    sent [] (save_note html (z\<lparr>store := put fresh (store z)\<rparr>)) = [note_call lid fresh html]"
proof -
  have "libraryId (put fresh s) = libraryId s" for s by (simp add: put_def seen_def Let_def)
  moreover have "selected (put fresh (store z)) = Some fresh"
    using assms(2) by (auto simp: put_def seen_def is_open_def Let_def split: option.splits)
  ultimately have "sent [] (save_note html (z\<lparr>store := put fresh (store z)\<rparr>)) = [note_call lid fresh html]"
    using assms(1) by (intro save_note_open) simp_all
  moreover have "note_changed theirs p = p\<lparr>item_note := theirs\<rparr>" using assms(3) by (simp add: note_changed_def)
  ultimately show ?thesis using flush_sends [of "p\<lparr>item_note := theirs\<rparr>" html] assms(3-) by (simp add: Let_def)
qed

theorem change_elsewhere_is_overwritten_witness:
  "\<forall>E. let old = \<lparr>itemKey = ''AAAABBBB'', itemVersion = 3, data = [(''note'', JStr ''old'')], meta = \<lparr>numChildren = 0, createdByUser = None\<rparr>\<rparr>;
     fresh = old\<lparr>itemVersion := 4, data := [(''note'', JStr ''theirs'')]\<rparr>;
     z = (first_screen E)\<lparr>store := initial\<lparr>libraryId := Some 7, selected := Some old\<rparr>\<rparr>;
     q = note_changed ''theirs'' (change ''mine'' (new_pane ''old'' True))
   in snd (flush q) = Some ''mine'' \<and> sent [] (save_note ''mine'' (z\<lparr>store := put fresh (store z)\<rparr>)) = [note_call 7 fresh ''mine'']"
proof (unfold Let_def, rule allI)
  fix E
  let ?old = "\<lparr>itemKey = ''AAAABBBB'', itemVersion = 3, data = [(''note'', JStr ''old'')], meta = \<lparr>numChildren = 0, createdByUser = None\<rparr>\<rparr>"
  let ?fresh = "?old\<lparr>itemVersion := 4, data := [(''note'', JStr ''theirs'')]\<rparr>"
  let ?z = "(first_screen E)\<lparr>store := initial\<lparr>libraryId := Some 7, selected := Some ?old\<rparr>\<rparr>"
  let ?p = "change ''mine'' (new_pane ''old'' True)"
  have h: "libraryId (store ?z) = Some 7" "is_open (itemKey ?fresh) (store ?z)" "typed ?p = Some ''mine''" "flight ?p = None" "can_save ?p" "state ?p \<noteq> Conflict"
    by (simp_all add: is_open_def change_def new_pane_def)
  from change_elsewhere_is_overwritten [OF h, of "''theirs''"]
  show "snd (flush (note_changed ''theirs'' ?p)) = Some ''mine'' \<and>
      sent [] (save_note ''mine'' (?z\<lparr>store := put ?fresh (store ?z)\<rparr>)) = [note_call 7 ?fresh ''mine'']"
    unfolding Let_def by blast
qed

end
