(* ===== verification/InfoPane.thy ===== *)
theory InfoPane
  imports Items DateText Attachments
begin

text \<open>
  The Info section of the item pane (components/InfoPane.vue): which fields are shown and which are typed into, a field
  edited where it stands, the rules for a file's name and a change of the item's type.  The fields of a type
  are an argument, as they come with the schema; heights and focus are left out.
\<close>

section \<open>What is shown\<close>

definition INFO_HIDDEN :: "string list" where
  "INFO_HIDDEN = [''key'', ''version'', ''itemType'', ''parentItem'', ''tags'', ''collections'', ''relations'', ''creators'', ''deleted'',
     ''inPublications'', ''note'', ''md5'', ''mtime'', ''linkMode'', ''dateAdded'', ''dateModified'']"

definition MULTILINE :: "string list" where
  "MULTILINE = [''abstractNote'', ''extra'']"

definition TIMESTAMPS :: "string list" where
  "TIMESTAMPS = [''dateAdded'', ''dateModified'']"

definition ATTACHMENT_EDITED :: "string list" where
  "ATTACHMENT_EDITED = [''title'', ''filename'']"

definition WITHOUT_RIGHTS :: "string list" where
  "WITHOUT_RIGHTS = [''note'', ''attachment'', ''annotation'']"

record info =
  item :: ItemEnvelope
  may_edit :: bool
  saves :: bool
  outline :: "string list option"
  editing :: "string option"
  draft :: string
  openedWith :: string
  busy :: "string option"
  saved :: "string option"
  mistake :: "(string \<times> string) option"
  clash :: "(string \<times> string) option"
  pendingName :: "(string \<times> string \<times> string) option"
  pendingType :: "(string \<times> string list) option"
  typeFailure :: "string option"

definition value_of :: "string \<Rightarrow> info \<Rightarrow> string" where
  "value_of k p = (case get_prop (data (item p)) k of Some (JStr t) \<Rightarrow> t | _ \<Rightarrow> '''')"

definition isAttachment :: "info \<Rightarrow> bool" where
  "isAttachment p \<longleftrightarrow> item_type (item p) = ''attachment''"

definition edits :: "info \<Rightarrow> bool" where
  "edits p \<longleftrightarrow> may_edit p \<and> saves p \<and> (outline p \<noteq> None \<or> isAttachment p)"

definition fieldEditable :: "string \<Rightarrow> info \<Rightarrow> bool" where
  "fieldEditable k p \<longleftrightarrow> edits p \<and> (\<not> isAttachment p \<or> k \<in> set ATTACHMENT_EDITED)"

definition rightsEditable :: "info \<Rightarrow> bool" where
  "rightsEditable p \<longleftrightarrow> may_edit p \<and> item_type (item p) \<notin> set WITHOUT_RIGHTS"

text \<open>The place of a field in the order of its type; behind all of them when it is not one.\<close>

definition place_in :: "string list \<Rightarrow> string \<Rightarrow> int" where
  "place_in order k = int (case find_index (\<lambda>f. f = k) order of Some i \<Rightarrow> i | None \<Rightarrow> length order)"

definition info_rows :: "info \<Rightarrow> string list" where
  "info_rows p = (let order = (case outline p of Some fs \<Rightarrow> fs | None \<Rightarrow> []) in
     if edits p \<and> isAttachment p then
       ''title'' # (if holdsStoredFile (item p) then [''filename''] else []) @ filter (\<lambda>k. value_of k p \<noteq> '''') [''url'', ''accessDate'']
     else if edits p then filter (\<lambda>k. k \<notin> set INFO_HIDDEN) order
     else
       (let present = filter (\<lambda>k. k \<notin> set INFO_HIDDEN \<and> value_of k p \<noteq> '''') (map fst (data (item p)));
            all = (if rightsEditable p \<and> ''rights'' \<notin> set present then present @ [''rights''] else present)
        in sort_by (\<lambda>a b. place_in order a - place_in order b) all))"

definition creatorsAfter :: "info \<Rightarrow> string option" where
  "creatorsAfter p = (if ''title'' \<in> set (info_rows p) then Some ''title'' else None)"

definition stamps :: "(string \<Rightarrow> string) \<Rightarrow> info \<Rightarrow> (string \<times> string) list" where
  "stamps formatted p = map (\<lambda>k. (k, formatted (value_of k p))) (filter (\<lambda>k. value_of k p \<noteq> '''') TIMESTAMPS)"

definition field_href :: "string \<Rightarrow> string \<Rightarrow> string" where
  "field_href k t = (if k = ''DOI'' then ''https://doi.org/'' @ t else t)"

section \<open>A field\<close>

definition open_field :: "string \<Rightarrow> info \<Rightarrow> info" where
  "open_field k p =
     (if \<not> fieldEditable k p \<or> busy p \<noteq> None then p
      else p\<lparr>editing := Some k, draft := value_of k p, openedWith := value_of k p, mistake := None, clash := None\<rparr>)"

definition cancel :: "info \<Rightarrow> info" where
  "cancel p = p\<lparr>editing := None\<rparr>"

definition LINE_BREAK :: "char regex" where
  "LINE_BREAK = Seq (Opt (Lit CHR 0x0D)) (Lit CHR 0x0A)"

definition one_line :: "string \<Rightarrow> string" where
  "one_line t = replace_all LINE_BREAK (\<lambda>_. '' '') t"

text \<open>A write: the field and its text are sent when there is somewhere to send them.\<close>

type_synonym field_write = "(string \<times> string) option"

definition write_field :: "string \<Rightarrow> string \<Rightarrow> info \<Rightarrow> info \<times> field_write" where
  "write_field k t p = (if \<not> saves p then (p, None) else (p\<lparr>busy := Some k, saved := None, clash := None\<rparr>, Some (k, t)))"

datatype write_result = Written | Conflicting | Failed string

definition write_ended :: "string \<Rightarrow> string \<Rightarrow> write_result \<Rightarrow> info \<Rightarrow> info" where
  "write_ended k t r p = (case r of
       Written \<Rightarrow> p\<lparr>saved := Some k\<rparr>
     | Conflicting \<Rightarrow> p\<lparr>clash := Some (k, t)\<rparr>
     | Failed m \<Rightarrow> p\<lparr>mistake := Some (k, m)\<rparr>)\<lparr>busy := None\<rparr>"

definition saved_shown :: "info \<Rightarrow> info" where
  "saved_shown p = p\<lparr>saved := None\<rparr>"

subsection \<open>The name of a file\<close>

definition EXTENSION :: "char regex" where
  "EXTENSION = seqs [Lit CHR ''.'', between 1 10 (Cls Regex.word_char), End]"

definition extension :: "string \<Rightarrow> string" where
  "extension t = (case exec EXTENSION t of Some (_, p) \<Rightarrow> (case group 0 p of Some e \<Rightarrow> e | None \<Rightarrow> '''') | None \<Rightarrow> '''')"

text \<open>\<open>name.replace(EXTENSION, from)\<close>.\<close>

definition with_extension :: "string \<Rightarrow> string \<Rightarrow> string" where
  "with_extension t e = (case exec EXTENSION t of Some (before, p) \<Rightarrow> before @ e @ ahead p | None \<Rightarrow> t)"

definition renaming :: "info \<Rightarrow> info \<times> bool" where
  "renaming p =
     (let new = trim (draft p); old = value_of ''filename'' p in
      if new = '''' \<or> new = old then (p, False)
      else (let from = extension old; to = extension new;
                q = p\<lparr>draft := (if to = '''' \<and> from \<noteq> '''' then new @ from else new)\<rparr>
            in if to \<noteq> '''' \<and> from \<noteq> '''' \<and> to \<noteq> from then (q\<lparr>pendingName := Some (new, from, to)\<rparr>, False) else (q, True)))"

definition settleName :: "bool \<Rightarrow> info \<Rightarrow> info \<times> field_write" where
  "settleName keep p = (case pendingName p of None \<Rightarrow> (p, None)
     | Some (new, from, to) \<Rightarrow> write_field ''filename'' (if keep then with_extension new from else new) (p\<lparr>pendingName := None\<rparr>))"

definition commit_draft :: "string \<Rightarrow> info \<Rightarrow> info \<times> field_write" where
  "commit_draft k p =
     (if draft p = value_of k p \<or> \<not> saves p then (p, None)
      else if value_of k p \<noteq> openedWith p then (p\<lparr>clash := Some (k, draft p)\<rparr>, None)
      else write_field k (draft p) p)"

definition commit :: "info \<Rightarrow> info \<times> field_write" where
  "commit p = (case editing p of None \<Rightarrow> (p, None)
     | Some k \<Rightarrow>
         (let q = p\<lparr>editing := None, draft := (if k \<in> set MULTILINE then draft p else one_line (draft p))\<rparr> in
          if k = ''filename'' then (case renaming q of (q', go) \<Rightarrow> if go then commit_draft k q' else (q', None))
          else commit_draft k q))"

definition resolve :: "bool \<Rightarrow> info \<Rightarrow> info \<times> field_write" where
  "resolve keepMine p = (case clash p of
       Some (k, mine) \<Rightarrow> if keepMine then write_field k mine (p\<lparr>clash := None\<rparr>) else (p\<lparr>clash := None\<rparr>, None)
     | None \<Rightarrow> (p, None))"

section \<open>The type\<close>

datatype type_result = Changed | Loses "string list" | Clashed | Broken string

definition changeType :: "string \<Rightarrow> string list option \<Rightarrow> info \<Rightarrow> info \<times> (string \<times> string list option) option" where
  "changeType ty discard p =
     (if \<not> saves p \<or> ty = item_type (item p) then (p, None)
      else (p\<lparr>typeFailure := None, busy := Some ''itemType''\<rparr>, Some (ty, discard)))"

definition type_answered :: "string \<Rightarrow> type_result \<Rightarrow> info \<Rightarrow> info" where
  "type_answered ty r p = (case r of
       Changed \<Rightarrow> p\<lparr>pendingType := None\<rparr>
     | Loses fs \<Rightarrow> p\<lparr>pendingType := Some (ty, fs)\<rparr>
     | Clashed \<Rightarrow> p\<lparr>typeFailure := Some ''Changed elsewhere while you were editing.'', pendingType := None\<rparr>
     | Broken m \<Rightarrow> p\<lparr>typeFailure := Some m, pendingType := None\<rparr>)\<lparr>busy := None\<rparr>"

text \<open>Another item is shown.\<close>

definition another_item :: "ItemEnvelope \<Rightarrow> info \<Rightarrow> info" where
  "another_item i p = (if itemKey i = itemKey (item p) then p\<lparr>item := i\<rparr>
     else p\<lparr>item := i, editing := None, mistake := None, clash := None, saved := None, pendingType := None, pendingName := None, typeFailure := None\<rparr>)"

section \<open>Extensions\<close>

definition is_extension :: "string \<Rightarrow> bool" where
  "is_extension e \<longleftrightarrow> (\<exists>w. e = CHR ''.'' # w \<and> list_all Regex.word_char w \<and> 1 \<le> length w \<and> length w \<le> 10)"

lemma exec_from_none: "exec_from e b r = None \<Longrightarrow> r = u @ v \<Longrightarrow> run e (rev u @ b, v, []) = []"
proof (induction e b r arbitrary: u rule: exec_from.induct)
  case (1 e b r)
  from 1(2) have n: "run e (b, r, []) = []" by (simp add: exec_from.simps [of e b r] split: list.splits)
  show ?case
  proof (cases u)
    case (Cons x u')
    with 1(3) obtain xs where r: "r = x # xs" "xs = u' @ v" by auto
    from 1(2) n r have "exec_from e (x # b) xs = None" unfolding exec_from.simps [of e b r] by simp
    with 1(1) [of x xs u'] n r Cons show ?thesis by simp
  qed (use n 1(3) in simp)
qed

lemma exec_from_at: "exec_from e b r = Some (x, p) \<Longrightarrow> \<exists>b' r'. x = rev b' \<and> rev b' @ r' = rev b @ r \<and> p \<in> set (run (Grp 0 e) (b', r', []))"
proof (induction e b r rule: exec_from.induct)
  case (1 e b r)
  show ?case
  proof (cases "run (Grp 0 e) (b, r, [])")
    case Nil
    with 1(2) obtain y ys where r: "r = y # ys" "exec_from e (y # b) ys = Some (x, p)"
      by (auto simp: exec_from.simps [of e b r] split: list.splits)
    with 1(1) [OF Nil r(1)] show ?thesis by auto
  next
    case (Cons q qs)
    with 1(2) have "x = rev b" "p = q" by (auto simp: exec_from.simps [of e b r])
    with Cons show ?thesis by (intro exI [of _ b] exI [of _ r]) (simp del: run.simps)
  qed
qed

lemma lang_class_upto: "lang (upto n (Cls P)) u \<Longrightarrow> list_all P u \<and> length u \<le> n"
proof (induction n arbitrary: u)
  case (Suc n)
  then show ?case by (auto simp: Cons_eq_append_conv)
qed simp

lemma lang_extension: "lang EXTENSION u \<Longrightarrow> is_extension u"
proof -
  assume "lang EXTENSION u"
  then obtain x v where "u = CHR ''.'' # x # v" "Regex.word_char x" "lang (upto 9 (Cls Regex.word_char)) v"
    by (auto simp: EXTENSION_def Lit_def between_def)
  with lang_class_upto [of 9 Regex.word_char v] show ?thesis by (auto simp: is_extension_def)
qed

lemma extension_found:
  assumes "exec EXTENSION t = Some (before, p)"
  shows "\<exists>e. is_extension e \<and> t = before @ e \<and> ahead p = [] \<and> group 0 p = Some e"
proof -
  from exec_from_at [OF assms [unfolded exec_def]] obtain b' r' where
    r': "before = rev b'" "rev b' @ r' = rev [] @ t" "p \<in> set (run (Grp 0 EXTENSION) (b', r', []))" by blast
  from r'(3) obtain b2 r2 c where q: "(b2, r2, c) \<in> set (run EXTENSION (b', r', []))"
    "p = (b2, r2, (0, take (length r' - length r2) r') # c)" by (fastforce simp: ahead_def simp del: run.simps(1,2,3,4,7,8,9))
  have "to_end EXTENSION" by (simp add: EXTENSION_def)
  from run_to_end [OF this q(1)] have r2: "r2 = []" by (simp add: ahead_def)
  from run_lang [OF q(1)] r2 have "lang EXTENSION r'" by (auto simp: ahead_def)
  with r' q(2) r2 lang_extension show ?thesis by (intro exI [of _ r']) (auto simp: ahead_def group_def)
qed

lemma not_word_dot: "\<not> Regex.word_char CHR ''.''"
  by (simp add: Regex.word_char_def)

lemma extension_unique:
  assumes "is_extension e" "is_extension e'" "u @ e = v @ e'"
  shows "e = e'"
proof -
  have k: "takeWhile Regex.word_char (rev (x @ CHR ''.'' # w)) = rev w" if "list_all Regex.word_char w" for x w
    using that not_word_dot by (simp add: takeWhile_append list_all_iff)
  from assms show ?thesis unfolding is_extension_def by (metis k rev_rev_ident)
qed

lemma extension_there: "is_extension e \<Longrightarrow> exec EXTENSION (u @ e) \<noteq> None"
proof
  assume e: "is_extension e" and "exec EXTENSION (u @ e) = None"
  then have none: "run EXTENSION (rev u, e, []) = []" using exec_from_none [of EXTENSION "[]" "u @ e" u e] by (simp add: exec_def)
  from e obtain w where w: "e = CHR ''.'' # w" "list_all Regex.word_char w" "1 \<le> length w" "length w \<le> 10" by (auto simp: is_extension_def)
  have "firstly (between 1 10 (Cls Regex.word_char)) (CHR ''.'' # rev u, w @ [], []) (rev w @ CHR ''.'' # rev u, [], [])"
    by (rule firstly_between) (use w in auto)
  moreover have "firstly End (rev w @ CHR ''.'' # rev u, [], []) (rev w @ CHR ''.'' # rev u, [], [])" by (simp add: firstly_def)
  ultimately have "firstly EXTENSION (rev u, e, []) (rev w @ CHR ''.'' # rev u, [], [])"
    unfolding EXTENSION_def w(1) seqs.simps Lit_def by (intro firstly_Seq) (auto simp: firstly_def)
  with none show False by (auto simp: firstly_def)
qed

lemma extension_eq: "is_extension e \<Longrightarrow> extension (u @ e) = e"
proof -
  assume e: "is_extension e"
  from extension_there [OF this, of u] obtain b p where x: "exec EXTENSION (u @ e) = Some (b, p)" by auto
  from extension_found [OF x] obtain e' where "is_extension e'" "u @ e = b @ e'" "group 0 p = Some e'" by auto
  with extension_unique [OF e, of e' u b] x show ?thesis by (simp add: extension_def)
qed

lemma extension_is: "extension t \<noteq> '''' \<Longrightarrow> is_extension (extension t)"
  using extension_found by (fastforce simp: extension_def split: option.splits prod.splits)

lemma extension_replaced: "extension t \<noteq> '''' \<Longrightarrow> is_extension e \<Longrightarrow> extension (with_extension t e) = e"
proof -
  assume t: "extension t \<noteq> ''''" and e: "is_extension e"
  then obtain b p where x: "exec EXTENSION t = Some (b, p)" by (auto simp: extension_def split: option.splits)
  from extension_found [OF x] x e show ?thesis by (auto simp: with_extension_def extension_eq)
qed

text \<open>A stored file keeps its extension until the person says otherwise: leaving the field sends a name with the file's extension
  or sends none, and a name with another extension is asked about, where keeping puts the file's back and the
  other answer sends the name that was typed.  (A file that had no extension takes any.)\<close>

theorem extension_asked_about:
  assumes "editing p = Some ''filename''" "extension (value_of ''filename'' p) \<noteq> ''''" "commit p = (q, w)"
  shows "(\<forall>k t. w = Some (k, t) \<longrightarrow> k = ''filename'' \<and> extension t = extension (value_of ''filename'' p)) \<and>
    (\<forall>new from to. pendingName q = Some (new, from, to) \<and> pendingName p = None \<and> saves p \<longrightarrow>
       w = None \<and> extension new \<noteq> extension (value_of ''filename'' p) \<and>
       (\<exists>t. snd (settleName True q) = Some (''filename'', t) \<and> extension t = extension (value_of ''filename'' p)) \<and>
       snd (settleName False q) = Some (''filename'', new))"
proof -
  let ?old = "value_of ''filename'' p"
  let ?q = "p\<lparr>editing := None, draft := one_line (draft p)\<rparr>"
  define new where "new = trim (one_line (draft p))"
  have e: "is_extension (extension ?old)" using assms(2) by (rule extension_is)
  have c: "commit p = (case renaming ?q of (q', go) \<Rightarrow> if go then commit_draft ''filename'' q' else (q', None))"
    using assms(1) by (simp add: commit_def MULTILINE_def)
  have v: "value_of k (p\<lparr>editing := a, draft := b\<rparr>) = value_of k p" "value_of k (p\<lparr>editing := a, draft := b, pendingName := d\<rparr>) = value_of k p" for k a b d
    by (simp_all add: value_of_def)
  consider "new = '''' \<or> new = ?old" | "new \<noteq> ''''" "new \<noteq> ?old" "extension new \<noteq> ''''" "extension new \<noteq> extension ?old"
    | "new \<noteq> ''''" "new \<noteq> ?old" "extension new = '''' \<or> extension new = extension ?old" by blast
  then show ?thesis
  proof cases
    case 1
    then have "renaming ?q = (?q, False)" by (auto simp: renaming_def new_def v Let_def)
    with c assms(3) show ?thesis by auto
  next
    case 2
    then have "renaming ?q = (?q\<lparr>draft := new, pendingName := Some (new, extension ?old, extension new)\<rparr>, False)"
      using assms(2) by (simp add: renaming_def new_def [symmetric] v Let_def)
    with c assms(3) 2 extension_replaced [OF 2(3) e] show ?thesis
      by (auto simp: settleName_def write_field_def)
  next
    case 3
    let ?t = "if extension new = '''' then new @ extension ?old else new"
    have "renaming ?q = (?q\<lparr>draft := ?t\<rparr>, True)"
      using 3 assms(2) by (auto simp: renaming_def new_def [symmetric] v Let_def)
    with c assms(3) have w: "commit_draft ''filename'' (?q\<lparr>draft := ?t\<rparr>) = (q, w)" by simp
    have "extension ?t = extension ?old" using 3 e extension_eq by auto
    with w show ?thesis by (auto simp: commit_draft_def write_field_def v split: if_splits)
  qed
qed

theorem extension_asked_about_witness:
  "let p = \<lparr>item = \<lparr>itemKey = ''AAAABBBB'', itemVersion = 3, data = [(''itemType'', JStr ''attachment''), (''filename'', JStr ''a.pdf'')],
         meta = \<lparr>numChildren = 0, createdByUser = None\<rparr>\<rparr>, may_edit = True, saves = True, outline = None, editing = Some ''filename'',
       draft = ''b.txt'', openedWith = ''a.pdf'', busy = None, saved = None, mistake = None, clash = None, pendingName = None,
       pendingType = None, typeFailure = None\<rparr>
   in pendingName (fst (commit p)) = Some (''b.txt'', ''.pdf'', ''.txt'') \<and> snd (commit p) = None \<and>
     snd (settleName False (fst (commit p))) = Some (''filename'', ''b.txt'')"
proof -
  define p where "p = \<lparr>item = \<lparr>itemKey = ''AAAABBBB'', itemVersion = 3, data = [(''itemType'', JStr ''attachment''), (''filename'', JStr ''a.pdf'')],
         meta = \<lparr>numChildren = 0, createdByUser = None\<rparr>\<rparr>, may_edit = True, saves = True, outline = None, editing = Some ''filename'',
       draft = ''b.txt'', openedWith = ''a.pdf'', busy = None, saved = None, mistake = None, clash = None, pendingName = None,
       pendingType = None, typeFailure = None\<rparr>"
  have x: "is_extension ''.pdf''" "is_extension ''.txt''" by (simp_all add: is_extension_def Regex.word_char_def)
  have e: "extension ''a.pdf'' = ''.pdf''" "extension ''b.txt'' = ''.txt''"
    using extension_eq [OF x(1), of "''a''"] extension_eq [OF x(2), of "''b''"] by simp_all
  have l: "one_line ''b.txt'' = ''b.txt''" by code_simp
  have t: "trim ''b.txt'' = ''b.txt''" by code_simp
  have n: "pendingName (fst (commit p)) = Some (''b.txt'', ''.pdf'', ''.txt'')"
    by (simp add: commit_def p_def MULTILINE_def renaming_def value_of_def get_prop_def l t e Let_def)
  have h: "editing p = Some ''filename''" "extension (value_of ''filename'' p) \<noteq> ''''" "commit p = (fst (commit p), snd (commit p))"
    by (simp_all add: p_def value_of_def get_prop_def e)
  from extension_asked_about [OF h] n have "snd (commit p) = None \<and> snd (settleName False (fst (commit p))) = Some (''filename'', ''b.txt'')"
    by (simp add: p_def)
  with n show ?thesis unfolding Let_def p_def by blast
qed

end
