(* ===== verification/CreatorEditor.thy ===== *)
theory CreatorEditor
  imports LibraryData Regex
begin

text \<open>
  The creators of an item as rows of the Info pane (components/CreatorEditor.vue): rows read from the item's list and the list
  the rows say, what is written when a creator is left, a conflict with a list changed elsewhere, and the errands on
  rows.  A creator is an object as the API writes it, so two lists are compared as \<open>JSON.stringify\<close> of them.
  The grip and the menu are left out.
\<close>

section \<open>Rows\<close>

record creator_row =
  row_id :: nat
  creatorType :: string
  single :: bool
  lastName :: string
  firstName :: string
  fresh :: bool

definition creator_prop :: "json \<Rightarrow> string \<Rightarrow> json option" where
  "creator_prop c k = (case c of JObj ob \<Rightarrow> get_prop ob k | _ \<Rightarrow> None)"

definition creator_text :: "json \<Rightarrow> string \<Rightarrow> string" where
  "creator_text c k = (case creator_prop c k of Some (JStr t) \<Rightarrow> t | _ \<Rightarrow> '''')"

definition rowOf :: "nat \<Rightarrow> json \<Rightarrow> creator_row" where
  "rowOf i c = (let one = (creator_prop c ''name'' \<noteq> None) in
     \<lparr>row_id = i, creatorType = creator_text c ''creatorType'', single = one,
      lastName = (if one then creator_text c ''name'' else creator_text c ''lastName''),
      firstName = (if one then '''' else creator_text c ''firstName''), fresh = False\<rparr>)"

definition blank :: "nat \<Rightarrow> string \<Rightarrow> bool \<Rightarrow> creator_row" where
  "blank i role one = \<lparr>row_id = i, creatorType = role, single = one, lastName = '''', firstName = '''', fresh = True\<rparr>"

definition entry_of :: "creator_row \<Rightarrow> json option" where
  "entry_of r = (let family = trim (lastName r); given_name = trim (firstName r) in
     if single r then (if family \<noteq> '''' then Some (JObj [(''creatorType'', JStr (creatorType r)), (''name'', JStr family)]) else None)
     else if family = '''' \<and> given_name = '''' then None
     else Some (JObj [(''creatorType'', JStr (creatorType r)), (''firstName'', JStr given_name), (''lastName'', JStr family)]))"

section \<open>The editor\<close>

record creator_editor =
  item_id :: string
  stored :: "json list"
  roles :: "string list"
  may_edit :: bool
  may_save :: bool
  rows :: "creator_row list"
  next_id :: nat
  base :: "json list"
  failure :: "string option"
  clash :: "json list option"
  busy :: bool

definition reset :: "creator_editor \<Rightarrow> creator_editor" where
  "reset p =
     (let n = length (stored p); rs = map (\<lambda>(i, c). rowOf i c) (zip [next_id p..<next_id p + n] (stored p)) in
      if rs = [] \<and> may_edit p \<and> roles p \<noteq> []
      then p\<lparr>base := stored p, rows := [blank (next_id p) (hd (roles p)) False], next_id := Suc (next_id p)\<rparr>
      else p\<lparr>base := stored p, rows := rs, next_id := next_id p + n\<rparr>)"

definition written :: "creator_editor \<Rightarrow> json list" where
  "written p = List.map_filter entry_of (rows p)"

text \<open>The watchers: another item, or its creators as the store holds them now.\<close>

definition props_changed :: "bool \<Rightarrow> string \<Rightarrow> json list \<Rightarrow> creator_editor \<Rightarrow> creator_editor" where
  "props_changed typing k cs p =
     (let q = (if k = item_id p then p else p\<lparr>clash := None\<rparr>)\<lparr>item_id := k, stored := cs\<rparr>
      in if k = item_id p \<and> typing then q else reset q)"

type_synonym creators_write = "json list option"

definition write_list :: "json list \<Rightarrow> creator_editor \<Rightarrow> creator_editor \<times> creators_write" where
  "write_list cs p = (if \<not> may_save p then (p, None) else (p\<lparr>busy := True, failure := None, clash := None\<rparr>, Some cs))"

definition commit :: "creator_editor \<Rightarrow> creator_editor \<times> creators_write" where
  "commit p =
     (if stored p \<noteq> base p then (reset (if written p \<noteq> base p then p\<lparr>clash := Some (written p)\<rparr> else p), None)
      else if \<not> may_save p \<or> written p = stored p then (p, None)
      else write_list (written p) p)"

datatype write_result = Written | Conflicting | Failed string

definition write_ended :: "json list \<Rightarrow> write_result \<Rightarrow> creator_editor \<Rightarrow> creator_editor" where
  "write_ended cs r p = (case r of
       Written \<Rightarrow> p\<lparr>base := stored p\<rparr>
     | Conflicting \<Rightarrow> reset (p\<lparr>clash := Some cs\<rparr>)
     | Failed m \<Rightarrow> reset (p\<lparr>failure := Some m\<rparr>))\<lparr>busy := False\<rparr>"

definition resolve :: "bool \<Rightarrow> creator_editor \<Rightarrow> creator_editor \<times> creators_write" where
  "resolve keepMine p = (case clash p of
       Some cs \<Rightarrow> if keepMine then write_list cs (p\<lparr>clash := None\<rparr>) else (p\<lparr>clash := None\<rparr>, None)
     | None \<Rightarrow> (p, None))"

definition summary_of :: "json \<Rightarrow> string" where
  "summary_of c = (case creator_prop c ''name'' of
       Some (JStr n) \<Rightarrow> n
     | _ \<Rightarrow> join_with '', '' (filter (\<lambda>t. t \<noteq> '''') [creator_text c ''lastName'', creator_text c ''firstName'']))"

definition summary :: "json list \<Rightarrow> string" where
  "summary cs = join_with ''; '' (map summary_of cs)"

subsection \<open>Names and rows\<close>

definition type_name :: "nat \<Rightarrow> bool \<Rightarrow> string \<Rightarrow> creator_editor \<Rightarrow> creator_editor" where
  "type_name i family t p = p\<lparr>rows := (rows p)[i := (if family then (rows p ! i)\<lparr>lastName := t\<rparr> else (rows p ! i)\<lparr>firstName := t\<rparr>)]\<rparr>"

definition add_row :: "nat \<Rightarrow> creator_editor \<Rightarrow> creator_editor" where
  "add_row after p =
     (let r = (if after < length (rows p) then blank (next_id p) (creatorType (rows p ! after)) (single (rows p ! after))
               else blank (next_id p) (hd (roles p)) False)
      in p\<lparr>rows := take (Suc after) (rows p) @ r # drop (Suc after) (rows p), next_id := Suc (next_id p)\<rparr>)"

definition remove_row :: "nat \<Rightarrow> creator_editor \<Rightarrow> creator_editor \<times> creators_write" where
  "remove_row i p =
     (if i < length (rows p) then
        (let q = p\<lparr>rows := take i (rows p) @ drop (Suc i) (rows p)\<rparr> in
         if fresh (rows p ! i) then (if rows q = [] then reset q else q, None) else commit q)
      else (p, None))"

definition moved :: "nat \<Rightarrow> nat \<Rightarrow> 'a list \<Rightarrow> 'a list" where
  "moved i j xs = (let rest = take i xs @ drop (Suc i) xs in take j rest @ xs ! i # drop j rest)"

definition move_row :: "nat \<Rightarrow> int \<Rightarrow> creator_editor \<Rightarrow> creator_editor \<times> creators_write" where
  "move_row i j p =
     (if j < 0 \<or> int (length (rows p)) \<le> j \<or> int i = j \<or> length (rows p) \<le> i then (p, None)
      else commit (p\<lparr>rows := moved i (nat j) (rows p)\<rparr>))"

definition NAME_PARTS :: "char regex" where
  "NAME_PARTS = seqs [Grp 1 (Star False Any), Many (Lit CHR '' ''),
     Grp 2 (Seq (Many1 (Cls (\<lambda>c. c \<noteq> CHR '' ''))) (Many (Lit CHR '' ''))), End]"

definition switched :: "creator_row \<Rightarrow> creator_row" where
  "switched r =
     (if single r then
        (case exec NAME_PARTS (lastName r) of
           Some (_, p) \<Rightarrow> (case (group 1 p, group 2 p) of
               (Some given_name, Some family) \<Rightarrow>
                 if family \<noteq> '''' \<and> family \<noteq> lastName r then r\<lparr>firstName := given_name, lastName := family, single := False\<rparr> else r\<lparr>single := False\<rparr>
             | _ \<Rightarrow> r\<lparr>single := False\<rparr>)
         | None \<Rightarrow> r\<lparr>single := False\<rparr>)
      else r\<lparr>lastName := (if firstName r \<noteq> '''' then firstName r @ '' '' @ lastName r else lastName r), firstName := '''', single := True\<rparr>)"

definition switchMode :: "nat \<Rightarrow> creator_editor \<Rightarrow> creator_editor \<times> creators_write" where
  "switchMode i p = commit (p\<lparr>rows := (rows p)[i := switched (rows p ! i)]\<rparr>)"

definition changeRole :: "nat \<Rightarrow> string \<Rightarrow> creator_editor \<Rightarrow> creator_editor \<times> creators_write" where
  "changeRole i role p = commit (p\<lparr>rows := (rows p)[i := (rows p ! i)\<lparr>creatorType := role\<rparr>]\<rparr>)"

definition escape :: "creator_editor \<Rightarrow> creator_editor" where
  "escape = reset"

definition shown :: "creator_row \<Rightarrow> string" where
  "shown r = (if single r \<or> firstName r = '''' then lastName r
     else if lastName r \<noteq> '''' then lastName r @ '', '' @ firstName r else firstName r)"

definition rolesFor :: "creator_row \<Rightarrow> creator_editor \<Rightarrow> string list" where
  "rolesFor r p = (if creatorType r \<in> set (roles p) then roles p else creatorType r # roles p)"

section \<open>Reading and writing the list\<close>

text \<open>A creator as the editor writes it.\<close>

definition proper_creator :: "json \<Rightarrow> bool" where
  "proper_creator c \<longleftrightarrow>
     (\<exists>role n. c = JObj [(''creatorType'', JStr role), (''name'', JStr n)] \<and> n \<noteq> '''' \<and> trim n = n) \<or>
     (\<exists>role given_name family. c = JObj [(''creatorType'', JStr role), (''firstName'', JStr given_name), (''lastName'', JStr family)] \<and>
        trim given_name = given_name \<and> trim family = family \<and> (given_name \<noteq> '''' \<or> family \<noteq> ''''))"

lemma proper_again: "proper_creator c \<Longrightarrow> entry_of (rowOf i c) = Some c"
  by (auto simp: proper_creator_def entry_of_def rowOf_def creator_text_def creator_prop_def get_prop_def Let_def)

lemma entry_proper: "entry_of r = Some c \<Longrightarrow> proper_creator c"
  by (auto simp: entry_of_def proper_creator_def Let_def split: if_splits)

lemma map_filter_zip: "length is = length cs \<Longrightarrow> (\<And>i c. c \<in> set cs \<Longrightarrow> f (g i c) = Some c) \<Longrightarrow>
    List.map_filter f (map (\<lambda>(i, c). g i c) (zip is cs)) = cs"
  by (induction "is" cs rule: list_induct2) (simp_all add: map_filter_simps)

lemma written_again: "list_all proper_creator (stored p) \<Longrightarrow> written (reset p) = stored p"
  using map_filter_zip [of "[next_id p..<next_id p + length (stored p)]" "stored p" entry_of rowOf] proper_again
  by (auto simp: reset_def written_def Let_def list_all_iff map_filter_simps entry_of_def blank_def)

text \<open>C34: Reading the creators and leaving them writes nothing: the rows of a list as this editor writes it say that list; and
  whatever it does write is such a list, of the rows that have a name, and differs from the one stored, which is
  still the one the rows were read from.\<close>

theorem creators_come_back:
  assumes "list_all proper_creator (stored p)"
  shows "written (reset p) = stored p \<and> commit (reset p) = (reset p, None) \<and>
    (\<forall>q cs. commit p = (q, Some cs) \<longrightarrow> list_all proper_creator cs \<and> cs = written p \<and> cs \<noteq> stored p \<and> stored p = base p)"
proof -
  have w: "written (reset p) = stored p" by (rule written_again [OF assms])
  moreover have "stored (reset p) = stored p" "base (reset p) = stored p" by (simp_all add: reset_def Let_def)
  moreover have "list_all proper_creator (written p)"
    using entry_proper by (auto simp: written_def list_all_iff map_filter_def)
  ultimately show ?thesis by (auto simp: commit_def write_list_def split: if_splits)
qed

lemma mset_moved: "i < length xs \<Longrightarrow> mset (moved i j xs) = mset xs"
proof -
  assume i: "i < length xs"
  have "mset (moved i j xs) = mset (take i xs @ drop (Suc i) xs) + {#xs ! i#}"
    unfolding moved_def Let_def by (metis append_take_drop_id mset.simps(2) mset_append union_mset_add_mset_left union_mset_add_mset_right add_mset_add_single union_commute union_assoc)
  also have "\<dots> = mset xs" using i by (metis (no_types, lifting) id_take_nth_drop mset.simps(2) mset_append union_mset_add_mset_right add_mset_add_single)
  finally show ?thesis .
qed

lemma moved_nth: "i < length xs \<Longrightarrow> j < length xs \<Longrightarrow> moved i j xs ! j = xs ! i"
proof -
  assume i: "i < length xs" and j: "j < length xs"
  define rest where "rest = take i xs @ drop (Suc i) xs"
  have "length (take j rest) = j" using i j by (auto simp: rest_def)
  then show ?thesis unfolding moved_def rest_def [symmetric] Let_def by (metis nth_append_length)
qed

text \<open>Moving a creator loses and changes none: the rows are the same in another order, with the row moved where it was let go,
  and what is sent names the same creators.\<close>

theorem moving_keeps_creators:
  assumes "move_row i j p = (q, Some cs)"
  shows "mset cs = mset (written p) \<and> mset (rows q) = mset (rows p) \<and> rows q ! nat j = rows p ! i"
proof -
  from assms have g: "0 \<le> j" "j < int (length (rows p))" "i < length (rows p)"
    and c: "commit (p\<lparr>rows := moved i (nat j) (rows p)\<rparr>) = (q, Some cs)" by (auto simp: move_row_def split: if_splits)
  have m: "mset (moved i (nat j) (rows p)) = mset (rows p)" by (rule mset_moved [OF g(3)])
  from c have "rows q = moved i (nat j) (rows p)" "cs = List.map_filter entry_of (moved i (nat j) (rows p))"
    by (auto simp: commit_def write_list_def written_def split: if_splits)
  moreover have "mset (List.map_filter entry_of xs) = image_mset (the \<circ> entry_of) (filter_mset (\<lambda>r. entry_of r \<noteq> None) (mset xs))" for xs
    by (simp add: map_filter_def comp_def)
  moreover have "moved i (nat j) (rows p) ! nat j = rows p ! i" using g by (intro moved_nth) auto
  ultimately show ?thesis using m by (simp add: written_def)
qed

theorem creators_come_back_witness:
  "let ada = JObj [(''creatorType'', JStr ''author''), (''firstName'', JStr ''Ada''), (''lastName'', JStr ''Lovelace'')];
     p = \<lparr>item_id = ''AAAABBBB'', stored = [ada], roles = [''author''], may_edit = True, may_save = True, rows = [], next_id = 0,
       base = [], failure = None, clash = None, busy = False\<rparr>
   in written (reset p) = [ada] \<and> snd (commit (reset p)) = None"
  using creators_come_back [of "\<lparr>item_id = ''AAAABBBB'',
      stored = [JObj [(''creatorType'', JStr ''author''), (''firstName'', JStr ''Ada''), (''lastName'', JStr ''Lovelace'')]], roles = [''author''],
      may_edit = True, may_save = True, rows = [], next_id = 0, base = [], failure = None, clash = None, busy = False\<rparr>"]
  by (simp add: Let_def proper_creator_def trim_def is_space_def)

theorem moving_keeps_creators_witness:
  "let row = (\<lambda>i n. \<lparr>row_id = i, creatorType = ''author'', single = True, lastName = n, firstName = '''', fresh = False\<rparr>);
     named = (\<lambda>n. JObj [(''creatorType'', JStr ''author''), (''name'', JStr n)]);
     p = \<lparr>item_id = ''AAAABBBB'', stored = [named ''A'', named ''B''], roles = [''author''], may_edit = True, may_save = True,
       rows = [row 0 ''A'', row 1 ''B''], next_id = 2, base = [named ''A'', named ''B''], failure = None, clash = None, busy = False\<rparr>
   in mset (the (snd (move_row 0 1 p))) = mset (written p)"
proof -
  let ?row = "\<lambda>i n. \<lparr>row_id = i, creatorType = ''author'', single = True, lastName = n, firstName = '''', fresh = False\<rparr>"
  let ?named = "\<lambda>n. JObj [(''creatorType'', JStr ''author''), (''name'', JStr n)]"
  define p where "p = \<lparr>item_id = ''AAAABBBB'', stored = [?named ''A'', ?named ''B''], roles = [''author''], may_edit = True, may_save = True,
       rows = [?row 0 ''A'', ?row 1 ''B''], next_id = 2, base = [?named ''A'', ?named ''B''], failure = None, clash = None, busy = False\<rparr>"
  have "move_row 0 1 p = (p\<lparr>rows := [?row 1 ''B'', ?row 0 ''A''], busy := True\<rparr>, Some [?named ''B'', ?named ''A''])"
    by (simp add: move_row_def p_def moved_def commit_def written_def write_list_def map_filter_simps entry_of_def trim_def is_space_def)
  from moving_keeps_creators [OF this] this show ?thesis unfolding p_def Let_def by simp
qed

end
