(* ===== verification/PaneProps.thy ===== *)
theory PaneProps
  imports NotePane InfoPane CreatorEditor
begin

text \<open>
  The item pane on the library screen: where what its sections send goes when another row is opened meanwhile.  The
  screen hands every section \<open>saveSelected\<close>, which saves to the item that is selected when it is called.
\<close>

section \<open>What is sent for a field and for the creators\<close>

definition save_field :: "string \<times> string \<Rightarrow> unit sprog" where
  "save_field w = saveSelected (no_changes\<lparr>chFields := Some [w]\<rparr>) None"

definition save_creators :: "json list \<Rightarrow> unit sprog" where
  "save_creators cs = saveSelected (no_changes\<lparr>chCreators := Some (JArr cs)\<rparr>) None"

section \<open>A conflict that comes late\<close>

lemma info_commit_keeps: "InfoPane.commit p = (q, Some w) \<Longrightarrow> item q = item p \<and> saves q"
  by (auto simp: InfoPane.commit_def commit_draft_def write_field_def renaming_def Let_def split: option.splits if_splits prod.splits)

lemma creators_commit_keeps: "CreatorEditor.commit p = (q, Some cs) \<Longrightarrow> item_id q = item_id p \<and> may_save q"
  by (auto simp: CreatorEditor.commit_def write_list_def split: if_splits)

lemma creators_reset_keeps: "clash (CreatorEditor.reset p) = clash p" "may_save (CreatorEditor.reset p) = may_save p"
  by (simp_all add: CreatorEditor.reset_def Let_def)

text \<open>C31: A conflict that is answered after another row was opened is shown on that row, and keeping one's own value then
  writes it over the other item, stating that item's version: so with a field, and so with the whole list of
  creators.\<close>

theorem conflict_goes_to_the_next:
  assumes "libraryId (store z) = Some lid" "scope (store z) \<noteq> Duplicates" "\<not> selecting z"
    "z' = fst (handle N E (Row (PressRow other False False)) z)"
    "itemKey other \<noteq> itemKey (item p)" "InfoPane.commit p = (q, Some (k, t))"
    "itemKey other \<noteq> item_id c" "CreatorEditor.commit c = (d, Some cs)"
  shows "(let r = InfoPane.write_ended k t InfoPane.Conflicting (another_item other q) in
      item r = other \<and> InfoPane.clash r = Some (k, t) \<and> snd (InfoPane.resolve True r) = Some (k, t)) \<and>
    Async.sent [] (save_field (k, t) z') = [send_call ''PATCH'' (item_path lid (itemKey other))
        (Some (save_body (no_changes\<lparr>chFields := Some [(k, t)]\<rparr>) (Some (itemVersion other))))] \<and>
    (let r = CreatorEditor.write_ended cs CreatorEditor.Conflicting (props_changed False (itemKey other) others d) in
      CreatorEditor.clash r = Some cs \<and> snd (CreatorEditor.resolve True r) = Some cs) \<and>
    Async.sent [] (save_creators cs z') = [send_call ''PATCH'' (item_path lid (itemKey other))
        (Some (save_body (no_changes\<lparr>chCreators := Some (JArr cs)\<rparr>) (Some (itemVersion other))))]"
proof -
  note q = info_commit_keeps [OF assms(6)] and d = creators_commit_keeps [OF assms(8)]
  note saved_to = pressed_row_saves [OF assms(1-3)]
  have "saves (another_item other q)" using q by (simp add: another_item_def)
  then show ?thesis
    using q d saved_to assms(4,5,7)
    by (auto simp: another_item_def InfoPane.write_ended_def InfoPane.resolve_def write_field_def Let_def save_field_def save_creators_def
        CreatorEditor.write_ended_def CreatorEditor.resolve_def write_list_def props_changed_def creators_reset_keeps)
qed

text \<open>A title being changed on one row and a creator being named, when another row is opened.\<close>

definition one_row :: ItemEnvelope where
  "one_row = \<lparr>itemKey = ''AAAABBBB'', itemVersion = 3, data = [(''itemType'', JStr ''book''), (''title'', JStr ''Old'')],
     meta = \<lparr>numChildren = 0, createdByUser = None\<rparr>\<rparr>"

definition another_row :: ItemEnvelope where
  "another_row = one_row\<lparr>itemKey := ''CCCCDDDD'', itemVersion := 5\<rparr>"

definition typed_title :: info where
  "typed_title = \<lparr>item = one_row, may_edit = True, saves = True, outline = Some [''title''], editing = Some ''title'', draft = ''New'',
     openedWith = ''Old'', busy = None, saved = None, mistake = None, clash = None, pendingName = None, pendingType = None, typeFailure = None\<rparr>"

definition named_creator :: creator_editor where
  "named_creator = \<lparr>item_id = ''AAAABBBB'', stored = [], roles = [''author''], may_edit = True, may_save = True,
     rows = [\<lparr>row_id = 0, creatorType = ''author'', single = True, lastName = ''A'', firstName = '''', fresh = False\<rparr>], next_id = 1,
     base = [], failure = None, clash = None, busy = False\<rparr>"

theorem conflict_goes_to_the_next_witness:
  "\<forall>E. let z = (first_screen E)\<lparr>store := initial\<lparr>libraryId := Some 7, items := [one_row, another_row], selected := Some one_row\<rparr>\<rparr>;
     z' = fst (handle (\<lambda>_. 0) E (Row (PressRow another_row False False)) z)
   in Async.sent [] (save_field (''title'', ''New'') z') = [send_call ''PATCH'' (item_path 7 ''CCCCDDDD'')
        (Some (save_body (no_changes\<lparr>chFields := Some [(''title'', ''New'')]\<rparr>) (Some 5)))]"
proof (unfold Let_def, rule allI)
  fix E
  let ?z = "(first_screen E)\<lparr>store := initial\<lparr>libraryId := Some 7, items := [one_row, another_row], selected := Some one_row\<rparr>\<rparr>"
  have h: "libraryId (store ?z) = Some 7" "scope (store ?z) \<noteq> Duplicates" "\<not> selecting ?z"
    by (simp_all add: first_screen_def setup_screen_def initial_def)
  have p: "itemKey another_row \<noteq> itemKey (item typed_title)" "itemKey another_row \<noteq> item_id named_creator"
    by (simp_all add: another_row_def one_row_def typed_title_def named_creator_def)
  have l: "one_line ''New'' = ''New''" by code_simp
  have f: "InfoPane.commit typed_title = (fst (InfoPane.commit typed_title), Some (''title'', ''New''))"
    by (simp add: InfoPane.commit_def typed_title_def MULTILINE_def l commit_draft_def value_of_def get_prop_def one_row_def write_field_def Let_def)
  have c: "CreatorEditor.commit named_creator = (fst (CreatorEditor.commit named_creator), Some [JObj [(''creatorType'', JStr ''author''), (''name'', JStr ''A'')]])"
    by (simp add: CreatorEditor.commit_def named_creator_def written_def map_filter_simps entry_of_def trim_def is_space_def write_list_def)
  from conflict_goes_to_the_next [OF h refl p(1) f p(2) c, of "\<lambda>_. 0" E]
  show "Async.sent [] (save_field (''title'', ''New'') (fst (handle (\<lambda>_. 0) E (Row (PressRow another_row False False)) ?z))) =
      [send_call ''PATCH'' (item_path 7 ''CCCCDDDD'') (Some (save_body (no_changes\<lparr>chFields := Some [(''title'', ''New'')]\<rparr>) (Some 5)))]"
    by (simp add: another_row_def one_row_def)
qed

end
