(* ===== verification/Dialogs.thy ===== *)
theory Dialogs
  imports LibraryScreen
begin

text \<open>
  Three dialogs that decide something: the consent an application asks for (views/AuthorizeView.vue), the pages of
  publishing a work (components/PublicationsDialog.vue) and where items go (components/ItemDestinationDialog.vue).
  A control that is drawn disabled takes no press.
\<close>

section \<open>The consent\<close>

record OfferedCollection =
  oc_key :: string
  oc_name :: string
  oc_parent :: "string option"

record OfferedLibrary =
  ol_id :: string
  ol_name :: string
  ol_collections :: "OfferedCollection list"

record PendingAuthorization =
  pa_scopes :: "string list"
  newScopes :: "string list"
  reachesLibraries :: bool
  pa_libraries :: "OfferedLibrary list"

datatype consent_state = Loading | Asking | Leaving | Failed

record consent =
  handle_text :: string
  asked :: "PendingAuthorization option"
  consent_state :: consent_state
  consent_failure :: "string option"
  consent_busy :: bool
  narrowing :: bool
  ticked :: "string list"
  leaves_for :: "string option"

definition new_consent :: "string \<Rightarrow> consent" where
  "new_consent h = \<lparr>handle_text = h, asked = None, consent_state = Loading, consent_failure = None, consent_busy = False, narrowing = False,
     ticked = [], leaves_for = None\<rparr>"

definition DESCRIPTIONS :: "(string \<times> string) list" where
  "DESCRIPTIONS =
     [(''openid'', ''Know who you are''), (''profile'', ''See your name and username''), (''email'', ''See your email address''),
      (''groups'', ''See which groups you belong to''), (''library.read'', ''Read everything in your library''),
      (''library.write'', ''Add, change and remove things in your library''), (''notes.read'', ''Read your notes''),
      (''files.read'', ''Download your attachments''), (''groups.read'', ''Read the group libraries you belong to''),
      (''groups.write'', ''Change the group libraries you belong to'')]"

definition describe :: "string \<Rightarrow> string" where
  "describe sc = (case map_of DESCRIPTIONS sc of Some d \<Rightarrow> d | None \<Rightarrow> sc)"

definition identityOnly :: "consent \<Rightarrow> bool" where
  "identityOnly c \<longleftrightarrow> (case asked c of Some p \<Rightarrow> list_all (\<lambda>sc. sc \<in> {''openid'', ''profile'', ''email'', ''groups''}) (pa_scopes p) | None \<Rightarrow> False)"

definition toggle :: "string \<Rightarrow> consent \<Rightarrow> consent" where
  "toggle r c =
     (if r \<in> set (ticked c) then c\<lparr>ticked := filter (\<lambda>e. e \<noteq> r) (ticked c)\<rparr>
      else c\<lparr>ticked := (let next = ticked c @ [r] in
        if sublist ''/collections/'' r then next else filter (\<lambda>e. \<not> prefix (r @ ''/collections/'') e) next)\<rparr>)"

definition shown_parent :: "OfferedLibrary \<Rightarrow> OfferedCollection \<Rightarrow> string option" where
  "shown_parent l e = (case oc_parent e of Some k \<Rightarrow> if k \<in> oc_key ` set (ol_collections l) then Some k else None | None \<Rightarrow> None)"

text \<open>As many levels as there are collections, as deep as a chain of parents can be when no two share a key.\<close>

fun offered_tree :: "nat \<Rightarrow> OfferedLibrary \<Rightarrow> string option \<Rightarrow> nat \<Rightarrow> (OfferedCollection \<times> nat) list" where
  "offered_tree 0 l parent depth = []"
| "offered_tree (Suc n) l parent depth =
     concat (map (\<lambda>e. (e, depth) # offered_tree n l (Some (oc_key e)) (Suc depth)) (filter (\<lambda>e. shown_parent l e = parent) (ol_collections l)))"

definition consent_tree :: "OfferedLibrary \<Rightarrow> (OfferedCollection \<times> nat) list" where
  "consent_tree l = offered_tree (length (ol_collections l)) l None 0"

definition nothingChosen :: "consent \<Rightarrow> bool" where
  "nothingChosen c \<longleftrightarrow> narrowing c \<and> ticked c = []"

definition consent_path :: "(string \<Rightarrow> string) \<Rightarrow> string \<Rightarrow> string" where
  "consent_path encode h = ''/web/oauth/pending/'' @ encode h"

text \<open>An opened page reads what is asked; \<open>Inl\<close> is an error of the request.\<close>

definition open_consent :: "(string \<Rightarrow> string) \<Rightarrow> (consent, call, thrown + PendingAuthorization, thrown, unit) async" where
  "open_consent encode = asks handle_text (\<lambda>h.
     if h = '''' then modify (\<lambda>c. c\<lparr>consent_failure := Some ''That link is missing its request.'', consent_state := Failed\<rparr>)
     else try_catch
       (bind (await id id (GET (consent_path encode h) [])) (\<lambda>p. modify (\<lambda>c. c\<lparr>asked := Some p, consent_state := Asking\<rparr>)))
       (\<lambda>e. modify (\<lambda>c. c\<lparr>consent_failure := Some (if has_status e 404
           then ''That request has expired or was never started. Start again in the application.'' else error_message e), consent_state := Failed\<rparr>)))"

definition answer_body :: "bool \<Rightarrow> consent \<Rightarrow> json" where
  "answer_body approve c = JObj ((''approve'', JBool approve) #
     (if approve \<and> narrowing c then [(''resources'', JArr (map JStr (ticked c)))] else []))"

definition decide :: "(string \<Rightarrow> string) \<Rightarrow> bool \<Rightarrow> (consent, call, thrown + string, thrown, unit) async" where
  "decide encode approve = seq (modify (\<lambda>c. c\<lparr>consent_busy := True, consent_failure := None\<rparr>))
     (try_catch
       (asks (\<lambda>c. (handle_text c, answer_body approve c)) (\<lambda>(h, b).
          bind (await id id (send_call ''POST'' (consent_path encode h) (Some b)))
            (\<lambda>to. modify (\<lambda>c. c\<lparr>consent_state := Leaving, leaves_for := Some to\<rparr>))))
       (\<lambda>e. modify (\<lambda>c. c\<lparr>consent_failure := Some (error_message e), consent_busy := False\<rparr>)))"

text \<open>The boxes: that of a library, and those of its collections while it is not ticked whole.\<close>

datatype consent_press = Whole string | Part string string | Narrow bool

fun pressed_box :: "consent_press \<Rightarrow> consent \<Rightarrow> consent" where
  "pressed_box (Whole l) c = toggle l c"
| "pressed_box (Part l k) c = (if l \<in> set (ticked c) then c else toggle (l @ ''/collections/'' @ k) c)"
| "pressed_box (Narrow b) c = c\<lparr>narrowing := b\<rparr>"

section \<open>Publishing\<close>

datatype publish_page = Intro | Sharing | Licence
datatype sharing = Reserved | CC | CC0

record publishing =
  page :: publish_page
  with_files :: bool
  with_notes :: bool
  confirmed :: bool
  keeps_rights :: bool
  shares :: sharing
  adaptations :: Adaptations
  commercial :: bool

text \<open>What the work has: files, notes, something in its Rights field.\<close>

record work =
  hasFiles :: bool
  hasNotes :: bool
  hasRights :: bool

definition new_publishing :: publishing where
  "new_publishing = \<lparr>page = Intro, with_files = False, with_notes = False, confirmed = False, keeps_rights = False, shares = Reserved,
     adaptations = No, commercial = False\<rparr>"

definition rightsStand :: "work \<Rightarrow> publishing \<Rightarrow> bool" where
  "rightsStand w p \<longleftrightarrow> hasRights w \<and> keeps_rights p"

definition publish_license :: "work \<Rightarrow> publishing \<Rightarrow> string option" where
  "publish_license w p =
     (if \<not> with_files p \<or> rightsStand w p then None
      else case shares p of Reserved \<Rightarrow> Some ''reserved'' | CC0 \<Rightarrow> Some ''cc0''
        | CC \<Rightarrow> if page p \<noteq> Licence then None else Some (creativeCommonsLicense (adaptations p) (commercial p)))"

definition chosen_license :: "work \<Rightarrow> publishing \<Rightarrow> License option" where
  "chosen_license w p = (if page p \<noteq> Intro then Option.bind (publish_license w p) licenseFor else None)"

definition finishes :: "work \<Rightarrow> publishing \<Rightarrow> bool" where
  "finishes w p = (case page p of Licence \<Rightarrow> True | Sharing \<Rightarrow> rightsStand w p \<or> shares p \<noteq> CC | Intro \<Rightarrow> \<not> with_files p)"

definition nextLabel :: "work \<Rightarrow> publishing \<Rightarrow> string" where
  "nextLabel w p = (if finishes w p then ''Add to My Publications'' else if page p = Intro then ''Next: Sharing'' else ''Next: Choose a License'')"

definition back_page :: "publishing \<Rightarrow> publishing" where
  "back_page p = p\<lparr>page := (if page p = Licence then Sharing else Intro)\<rparr>"

definition advance :: "work \<Rightarrow> publishing \<Rightarrow> publishing \<times> terms option" where
  "advance w p =
     (if \<not> finishes w p then (p\<lparr>page := (if page p = Intro then Sharing else Licence)\<rparr>, None)
      else (p, Some \<lparr>includeFiles = with_files p, includeNotes = with_notes p, license = publish_license w p, keepRights = keeps_rights p\<rparr>))"

text \<open>The controls, each on the page it is drawn on; the button waits for the claim.\<close>

datatype publish_press =
    TickFiles bool | TickNotes bool | Claim bool | KeepRights bool | Share sharing | Adapt Adaptations | Commercial bool | Back | Next

fun press_publish :: "work \<Rightarrow> publish_press \<Rightarrow> publishing \<Rightarrow> publishing \<times> terms option" where
  "press_publish w (TickFiles b) p = (if page p = Intro \<and> hasFiles w then p\<lparr>with_files := b\<rparr> else p, None)"
| "press_publish w (TickNotes b) p = (if page p = Intro \<and> hasNotes w then p\<lparr>with_notes := b\<rparr> else p, None)"
| "press_publish w (Claim b) p = (if page p = Intro then p\<lparr>confirmed := b\<rparr> else p, None)"
| "press_publish w (KeepRights b) p = (if page p = Sharing \<and> hasRights w then p\<lparr>keeps_rights := b\<rparr> else p, None)"
| "press_publish w (Share s) p = (if page p = Sharing \<and> \<not> rightsStand w p then p\<lparr>shares := s\<rparr> else p, None)"
| "press_publish w (Adapt a) p = (if page p = Licence then p\<lparr>adaptations := a\<rparr> else p, None)"
| "press_publish w (Commercial b) p = (if page p = Licence then p\<lparr>commercial := b\<rparr> else p, None)"
| "press_publish w Back p = (if page p \<noteq> Intro then back_page p else p, None)"
| "press_publish w Next p = (if confirmed p then advance w p else (p, None))"

definition publish_presses :: "work \<Rightarrow> publish_press list \<Rightarrow> publishing" where
  "publish_presses w es = fold (\<lambda>e p. fst (press_publish w e p)) es new_publishing"

section \<open>Where items go\<close>

definition place_value :: "string option \<Rightarrow> string" where
  "place_value k = ''place:'' @ (case k of Some t \<Rightarrow> t | None \<Rightarrow> '''')"

definition destination_of :: "(string \<Rightarrow> int) \<Rightarrow> string \<Rightarrow> bool \<Rightarrow> Destination" where
  "destination_of number chosen_value takes = (case kind_value chosen_value of (kind, v) \<Rightarrow>
     if kind = ''library'' then \<lparr>to_library = Some (number v), to_collection = None, takeOut = False\<rparr>
     else \<lparr>to_library = None, to_collection = (if v = '''' then None else Some v), takeOut = takes \<and> prefix ''place:'' chosen_value\<rparr>)"


section \<open>What is sent\<close>

definition addressed :: "consent_press \<Rightarrow> bool" where
  "addressed e \<longleftrightarrow> (case e of Whole l \<Rightarrow> \<not> sublist ''/collections/'' l
     | Part l k \<Rightarrow> \<not> sublist ''/collections/'' l \<and> CHR ''/'' \<notin> set k | Narrow b \<Rightarrow> True)"

definition part_of :: "string \<Rightarrow> string \<Rightarrow> string" where
  "part_of l k = l @ ''/collections/'' @ k"

definition a_resource :: "string \<Rightarrow> bool" where
  "a_resource r \<longleftrightarrow> \<not> sublist ''/collections/'' r \<or> (\<exists>l k. r = part_of l k \<and> \<not> sublist ''/collections/'' l \<and> CHR ''/'' \<notin> set k)"

lemma part_inside [simp]: "sublist ''/collections/'' (part_of l k)"
  unfolding part_of_def by (metis append.assoc sublist_appendI)

lemma part_inj: "part_of l k = part_of l' k' \<Longrightarrow> CHR ''/'' \<notin> set k \<Longrightarrow> CHR ''/'' \<notin> set k' \<Longrightarrow> l = l' \<and> k = k'"
proof -
  assume eq: "part_of l k = part_of l' k'" and k: "CHR ''/'' \<notin> set k" "CHR ''/'' \<notin> set k'"
  have take_k: "takeWhile (\<lambda>c. c \<noteq> CHR ''/'') (rev (part_of a b)) = rev b" if "CHR ''/'' \<notin> set b" for a b
    using that by (simp add: part_of_def takeWhile_append2 takeWhile_eq_all_conv takeWhile_append)
  have "rev k = rev k'" using take_k k eq by metis
  then show ?thesis using eq by (simp add: part_of_def)
qed

definition one_answer :: "string list \<Rightarrow> bool" where
  "one_answer rs \<longleftrightarrow> list_all a_resource rs \<and> (\<forall>l k. CHR ''/'' \<notin> set k \<longrightarrow> l \<in> set rs \<longrightarrow> part_of l k \<notin> set rs)"

lemma one_answer_less: "one_answer rs \<Longrightarrow> set qs \<subseteq> set rs \<Longrightarrow> one_answer qs"
  unfolding one_answer_def list_all_iff by blast

lemma one_answer_whole:
  assumes "one_answer rs" "\<not> sublist ''/collections/'' l"
  shows "one_answer (filter (\<lambda>e. \<not> prefix (l @ ''/collections/'') e) (rs @ [l]))"
proof -
  have "part_of l k \<notin> set (filter (\<lambda>e. \<not> prefix (l @ ''/collections/'') e) (rs @ [l]))" for k
    by (simp add: part_of_def)
  moreover have "part_of m k \<noteq> l" for m k using assms(2) part_inside by metis
  ultimately show ?thesis using assms by (auto simp: one_answer_def list_all_iff a_resource_def)
qed

lemma one_answer_part:
  assumes "one_answer rs" "\<not> sublist ''/collections/'' l" "CHR ''/'' \<notin> set k" "l \<notin> set rs"
  shows "one_answer (rs @ [part_of l k])"
proof -
  have deep: "part_of (part_of l k) j \<noteq> r" if "r \<in> set (rs @ [part_of l k])" "CHR ''/'' \<notin> set j" for j r
  proof
    assume e: "part_of (part_of l k) j = r"
    have "a_resource r" using that(1) assms(1-3) by (auto simp: one_answer_def list_all_iff a_resource_def)
    then obtain m i where "r = part_of m i" "\<not> sublist ''/collections/'' m" "CHR ''/'' \<notin> set i"
      using e part_inside by (auto simp: a_resource_def)
    then show False using e part_inj that(2) part_inside by metis
  qed
  have "part_of m j \<noteq> part_of l k" if "m \<in> set rs" "CHR ''/'' \<notin> set j" for m j
    using that assms(3,4) part_inj by metis
  then show ?thesis using assms deep by (auto simp: one_answer_def list_all_iff a_resource_def)
qed

lemma pressed_one_answer:
  assumes "one_answer (ticked c)" "addressed e"
  shows "one_answer (ticked (pressed_box e c))"
proof (cases e)
  case (Whole l)
  then show ?thesis using assms one_answer_whole [of "ticked c" l] one_answer_less [OF assms(1)]
    by (auto simp: toggle_def addressed_def Let_def)
next
  case (Part l k)
  then show ?thesis
    using assms one_answer_part [of "ticked c" l k] one_answer_less [OF assms(1), of "filter (\<lambda>e. e \<noteq> part_of l k) (ticked c)"]
      part_inside [of l k]
    by (auto simp: toggle_def addressed_def Let_def part_of_def)
next
  case (Narrow b)
  then show ?thesis using assms by simp
qed

lemma pressed_all: "list_all addressed ps \<Longrightarrow> one_answer (ticked c) \<Longrightarrow> one_answer (ticked (fold pressed_box ps c))"
  by (induction ps arbitrary: c) (simp_all add: pressed_one_answer)

text \<open>C36: 
  C0: However the boxes of a consent are pressed, no library is ticked together with a collection of its own, and an
  approval sends exactly what is ticked when the grant is narrowed and names no resources when it is not; a refusal
  names none.
\<close>

theorem consent_as_ticked:
  fixes c :: consent
  assumes "list_all addressed ps" "ticked c = []" "d = fold pressed_box ps c"
    and "CHR ''/'' \<notin> set k"
  shows "\<not> {l, l @ ''/collections/'' @ k} \<subseteq> set (ticked d)
    \<and> sent [] (decide encode approve d) = [send_call ''POST'' (consent_path encode (handle_text d))
        (Some (if approve \<and> narrowing d then JObj [(''approve'', JBool True), (''resources'', JArr (map JStr (ticked d)))]
               else JObj [(''approve'', JBool approve)]))]"
proof -
  have "one_answer (ticked d)" using assms(1-3) pressed_all [of ps c] by (simp add: one_answer_def)
  then show ?thesis using assms(4)
    by (auto simp: one_answer_def part_of_def decide_def answer_body_def async_simps bind_eq try_catch_eq)
qed

lemma consent_as_ticked_witness:
  "sent [] (decide id True (fold pressed_box [Narrow True, Part ''users/1'' ''AAAA2222'', Whole ''groups/7'', Whole ''users/1''] (new_consent ''h'')))
    = [send_call ''POST'' ''/web/oauth/pending/h''
        (Some (JObj [(''approve'', JBool True), (''resources'', JArr [JStr ''groups/7'', JStr ''users/1''])]))]"
proof -
  let ?ps = "[Narrow True, Part ''users/1'' ''AAAA2222'', Whole ''groups/7'', Whole ''users/1'']"
  let ?d = "(new_consent ''h'')\<lparr>narrowing := True, ticked := [''groups/7'', ''users/1'']\<rparr>"
  have steps: "fold pressed_box ?ps (new_consent ''h'') = ?d" by code_simp
  have boxes: "list_all addressed ?ps" by code_simp
  have "ticked (new_consent ''h'') = []" "CHR ''/'' \<notin> set ''AAAA2222''" by (simp_all add: new_consent_def)
  from consent_as_ticked [OF boxes this(1) steps [symmetric] this(2), of "''users/1''" id True]
  show ?thesis unfolding steps by (simp add: new_consent_def consent_path_def)
qed

section \<open>What is published\<close>

definition publishing_sound :: "work \<Rightarrow> publishing \<Rightarrow> bool" where
  "publishing_sound w p \<longleftrightarrow> (with_files p \<longrightarrow> hasFiles w) \<and> (with_notes p \<longrightarrow> hasNotes w) \<and> (keeps_rights p \<longrightarrow> hasRights w)
    \<and> (page p \<noteq> Intro \<longrightarrow> with_files p) \<and> (page p = Licence \<longrightarrow> shares p = CC \<and> \<not> rightsStand w p)"

lemma press_sound: "publishing_sound w p \<Longrightarrow> publishing_sound w (fst (press_publish w e p))"
  by (cases e; cases "page p")
     (auto simp: publishing_sound_def rightsStand_def back_page_def advance_def finishes_def split: if_splits)

lemma presses_sound: "publishing_sound w (publish_presses w es)"
proof -
  have "publishing_sound w p \<Longrightarrow> publishing_sound w (fold (\<lambda>e p. fst (press_publish w e p)) es p)" for p
    by (induction es arbitrary: p) (simp_all add: press_sound)
  moreover have "publishing_sound w new_publishing" by (simp add: publishing_sound_def new_publishing_def)
  ultimately show ?thesis by (simp add: publish_presses_def)
qed

lemma licence_known: "licenseFor (creativeCommonsLicense a b) \<noteq> None"
  by (cases a; cases b) (simp_all add: creativeCommonsLicense_def licenseFor_def LICENSES_def cc_def)

text \<open>C35: 
  C0: Whatever is pressed in the pages of publishing, terms are sent only with the claim made; they include only files
  and notes the work has, keep only rights it has, and name a licence exactly when files go along and the rights do not
  stand, one the list of licences knows.
\<close>

theorem publish_terms:
  assumes "p = publish_presses w es" "snd (press_publish w e p) = Some t"
  shows "confirmed p \<and> (includeFiles t \<longrightarrow> hasFiles w) \<and> (includeNotes t \<longrightarrow> hasNotes w) \<and> (keepRights t \<longrightarrow> hasRights w)
    \<and> (license t = None \<longleftrightarrow> \<not> includeFiles t \<or> keepRights t)
    \<and> (\<forall>l. license t = Some l \<longrightarrow> licenseFor l \<noteq> None)"
proof -
  have sound: "publishing_sound w p" using assms(1) presses_sound by simp
  have known: "licenseFor ''reserved'' \<noteq> None" "licenseFor ''cc0'' \<noteq> None"
    by (simp_all add: licenseFor_def LICENSES_def cc_def)
  obtain "e = Next" "confirmed p" "finishes w p" "t = \<lparr>includeFiles = with_files p, includeNotes = with_notes p, license = publish_license w p, keepRights = keeps_rights p\<rparr>"
    using assms(2) by (cases e) (auto simp: advance_def split: if_splits)
  then show ?thesis using sound known licence_known
    by (cases "page p"; cases "shares p") (auto simp: publishing_sound_def publish_license_def finishes_def rightsStand_def)
qed

lemma publish_terms_witness:
  "snd (press_publish \<lparr>hasFiles = True, hasNotes = False, hasRights = True\<rparr> Next
      (publish_presses \<lparr>hasFiles = True, hasNotes = False, hasRights = True\<rparr> [TickFiles True, Claim True, Next, Share CC, Next, Adapt Yes]))
    = Some \<lparr>includeFiles = True, includeNotes = False, license = Some ''cc-by-nc'', keepRights = False\<rparr>
   \<and> licenseFor ''cc-by-nc'' \<noteq> None"
  (is "snd (press_publish ?w Next (publish_presses ?w ?es)) = Some ?t \<and> _")
proof -
  have run: "snd (press_publish ?w Next (publish_presses ?w ?es)) = Some ?t" by code_simp
  show ?thesis using publish_terms [OF refl run] run by simp
qed

end
