(* ===== verification/MergePane.thy ===== *)
theory MergePane
  imports Items LibraryWrite
begin

text \<open>
  The review of duplicates before they are merged (components/MergePane.vue): reading the items, which of them are
  included, the master, the choice of each field they differ in, and the confirmation.  A load that was overtaken
  is known by its number, as the source knows it by its aborted signal.  \<open>Date.parse\<close>, \<open>localeCompare\<close>,
  \<open>String\<close> and the fields of a type are arguments; focus and the inspection of one item are left out.
\<close>

section \<open>The review\<close>

record kit =
  parse_date :: "string \<Rightarrow> int option"
  compare_keys :: "string \<Rightarrow> string \<Rightarrow> int"
  to_text :: "json \<Rightarrow> string"
  outline_of :: "string \<Rightarrow> TypeOutline option"

record review =
  keys :: "string list"
  chosen_keys :: "string list option"
  may_write :: bool
  may_remove :: bool
  snapshot :: "MergeSnapshot option"
  master :: string
  choices :: "(string \<times> int) list"
  run_no :: nat
  loading :: bool
  busy :: bool
  problem :: string
  stale :: bool
  confirming :: bool
  adjusting :: bool

definition review_items :: "kit \<Rightarrow> review \<Rightarrow> ItemEnvelope list" where
  "review_items K p = oldestFirst (parse_date K) (compare_keys K) (case snapshot p of Some s \<Rightarrow> snapItems s | None \<Rightarrow> [])"

definition included :: "review \<Rightarrow> string list" where
  "included p = (case chosen_keys p of Some ks \<Rightarrow> ks | None \<Rightarrow> keys p)"

definition selectedItems :: "kit \<Rightarrow> review \<Rightarrow> ItemEnvelope list" where
  "selectedItems K p = filter (\<lambda>i. itemKey i \<in> set (included p)) (review_items K p)"

definition sameType :: "kit \<Rightarrow> review \<Rightarrow> bool" where
  "sameType K p \<longleftrightarrow> list_all (\<lambda>i. item_type i = item_type (hd (selectedItems K p))) (selectedItems K p)"

definition outline :: "kit \<Rightarrow> review \<Rightarrow> TypeOutline option" where
  "outline K p = outline_of K (case selectedItems K p of i # is \<Rightarrow> item_type i | [] \<Rightarrow> '''')"

definition alternatives :: "kit \<Rightarrow> review \<Rightarrow> (string \<times> json list) list" where
  "alternatives K p = (case outline K p of Some fs \<Rightarrow> if sameType K p then mergeFields (to_text K) (selectedItems K p) fs else [] | None \<Rightarrow> [])"

definition canMerge :: "kit \<Rightarrow> review \<Rightarrow> bool" where
  "canMerge K p \<longleftrightarrow> 1 < length (selectedItems K p) \<and> sameType K p \<and> outline K p \<noteq> None \<and> may_write p \<and> may_remove p"

text \<open>\<open>findIndex\<close>: the place of a value among those offered, or \<open>-1\<close>.\<close>

definition index_of :: "json \<Rightarrow> json list \<Rightarrow> int" where
  "index_of v vs = (case find_index (\<lambda>u. stringify u = stringify v) vs of Some i \<Rightarrow> int i | None \<Rightarrow> -1)"

definition chooseMaster :: "kit \<Rightarrow> string \<Rightarrow> review \<Rightarrow> review" where
  "chooseMaster K k p =
     (let q = p\<lparr>master := k, confirming := False\<rparr> in
      case List.find (\<lambda>i. itemKey i = k) (selectedItems K q) of
        None \<Rightarrow> q
      | Some i \<Rightarrow> q\<lparr>choices := map (\<lambda>(n, vs). (n, index_of (mergeValue (to_text K) i n) vs)) (alternatives K q)\<rparr>)"

definition first_key :: "kit \<Rightarrow> review \<Rightarrow> string" where
  "first_key K p = (case selectedItems K p of i # is \<Rightarrow> itemKey i | [] \<Rightarrow> '''')"

section \<open>Reading\<close>

definition reload :: "review \<Rightarrow> review" where
  "reload p = p\<lparr>run_no := Suc (run_no p), loading := True, problem := '''', stale := False, confirming := False, snapshot := None\<rparr>"

definition loaded :: "kit \<Rightarrow> nat \<Rightarrow> (thrown + MergeSnapshot) \<Rightarrow> review \<Rightarrow> review" where
  "loaded K n r p =
     (if n \<noteq> run_no p then p
      else (case r of
          Inl e \<Rightarrow> p\<lparr>snapshot := None, problem := error_message e, stale := has_status e 412\<rparr>
        | Inr s \<Rightarrow>
            (let q = p\<lparr>snapshot := Some s\<rparr> in
             if sameType K q \<and> outline K q = None then q\<lparr>snapshot := None, problem := ''Could not load the item fields.'', stale := False\<rparr>
             else chooseMaster K (first_key K q) q))\<lparr>loading := False\<rparr>)"

text \<open>What the screen passes in changed: other keys are read anew, another selection among them chooses its master.\<close>

definition passed :: "kit \<Rightarrow> string list \<Rightarrow> string list option \<Rightarrow> bool \<Rightarrow> bool \<Rightarrow> review \<Rightarrow> review" where
  "passed K ks sel w r p =
     (let q = p\<lparr>keys := ks, chosen_keys := sel, may_write := w, may_remove := r\<rparr> in
      if mset ks \<noteq> mset (keys p) then reload q
      else if set (included q) = set (included p) \<or> snapshot q = None then q
      else chooseMaster K (if master q \<in> set (included q) then master q else first_key K q) q)"

definition opened :: "string list \<Rightarrow> string list option \<Rightarrow> bool \<Rightarrow> bool \<Rightarrow> review" where
  "opened ks sel w r = reload \<lparr>keys = ks, chosen_keys = sel, may_write = w, may_remove = r, snapshot = None, master = '''', choices = [],
     run_no = 0, loading = False, busy = False, problem = '''', stale = False, confirming = False, adjusting = False\<rparr>"

section \<open>Deciding\<close>

text \<open>The selection a pressed box asks the screen for.\<close>

definition toggleItem :: "kit \<Rightarrow> string \<Rightarrow> review \<Rightarrow> string list" where
  "toggleItem K k p =
     (let ks = (if k \<in> set (included p) then filter (\<lambda>e. e \<noteq> k) (included p) else included p @ [k])
      in map itemKey (filter (\<lambda>i. itemKey i \<in> set ks) (review_items K p)))"

definition choose_field :: "string \<Rightarrow> int \<Rightarrow> review \<Rightarrow> review" where
  "choose_field n i p = p\<lparr>choices := map_set n i (choices p), confirming := False\<rparr>"

definition confirmation :: "bool \<Rightarrow> review \<Rightarrow> review" where
  "confirmation b p = p\<lparr>confirming := b\<rparr>"

text \<open>\<open>values[i]!\<close>: a place that is not there is \<open>undefined\<close>, which JSON leaves out.\<close>

definition field_value :: "review \<Rightarrow> string \<times> json list \<Rightarrow> (string \<times> json) option" where
  "field_value p f = (case f of (n, vs) \<Rightarrow>
     (let i = (case map_of (choices p) n of Some i \<Rightarrow> i | None \<Rightarrow> 0)
      in if 0 \<le> i \<and> nat i < length vs then Some (n, vs ! nat i) else None))"

type_synonym merge_order = "MergeSnapshot \<times> string \<times> (string \<times> json) list"

definition submit :: "kit \<Rightarrow> review \<Rightarrow> review \<times> merge_order option" where
  "submit K p = (case snapshot p of
     None \<Rightarrow> (p, None)
   | Some s \<Rightarrow>
       if busy p \<or> stale p \<or> \<not> confirming p \<or> \<not> canMerge K p then (p, None)
       else (p\<lparr>busy := True, problem := ''''\<rparr>,
         Some (s\<lparr>snapItems := filter (\<lambda>i. itemKey i \<in> set (included p)) (snapItems s)\<rparr>, master p,
           List.map_filter (field_value p) (alternatives K p))))"

definition merge_ended :: "thrown option \<Rightarrow> review \<Rightarrow> review" where
  "merge_ended r p = (case r of
       None \<Rightarrow> p
     | Some e \<Rightarrow> p\<lparr>stale := has_status e 412,
         problem := (if has_status e 412 then ''Changed elsewhere while you were editing.'' else error_message e),
         confirming := False\<rparr>)\<lparr>busy := False\<rparr>"

section \<open>Every sequence of events\<close>

text \<open>The controls, each drawn and enabled as the template says: a master and the values are picked from what is listed.\<close>

datatype review_event =
    Passed "string list" "string list option" bool bool | PressReload | Loaded nat "thrown + MergeSnapshot" | Master string
  | Field string nat | Review | CancelReview | Submit | MergeEnded "thrown option"

definition in_review :: "kit \<Rightarrow> review \<Rightarrow> bool" where
  "in_review K p \<longleftrightarrow> \<not> loading p \<and> snapshot p \<noteq> None \<and> selectedItems K p \<noteq> []"

fun review_step :: "kit \<Rightarrow> review_event \<Rightarrow> review \<Rightarrow> review \<times> merge_order option" where
  "review_step K (Passed ks sel w r) p = (passed K ks sel w r p, None)"
| "review_step K PressReload p = (if busy p then p else reload p, None)"
| "review_step K (Loaded n r) p = (loaded K n r p, None)"
| "review_step K (Master k) p =
     (if in_review K p \<and> \<not> busy p \<and> \<not> stale p \<and> k \<in> itemKey ` set (selectedItems K p) then chooseMaster K k p else p, None)"
| "review_step K (Field n i) p =
     (if in_review K p \<and> \<not> busy p \<and> \<not> stale p \<and> list_ex (\<lambda>(m, vs). m = n \<and> i < length vs) (alternatives K p)
      then choose_field n (int i) p else p, None)"
| "review_step K Review p = (if in_review K p \<and> \<not> stale p \<and> canMerge K p then confirmation True p else p, None)"
| "review_step K CancelReview p = (if in_review K p \<and> \<not> stale p \<and> confirming p \<and> \<not> busy p then confirmation False p else p, None)"
| "review_step K Submit p = (if in_review K p then submit K p else (p, None))"
| "review_step K (MergeEnded r) p = (if busy p then merge_ended r p else p, None)"

definition reviewed :: "kit \<Rightarrow> review_event list \<Rightarrow> review \<Rightarrow> review" where
  "reviewed K es p = fold (\<lambda>e p. fst (review_step K e p)) es p"

section \<open>What is merged\<close>

lemma selected_update [simp]:
  "selectedItems K (p\<lparr>master := a\<rparr>) = selectedItems K p" "selectedItems K (p\<lparr>confirming := b\<rparr>) = selectedItems K p"
  "selectedItems K (p\<lparr>choices := c\<rparr>) = selectedItems K p" "selectedItems K (p\<lparr>busy := b\<rparr>) = selectedItems K p"
  "selectedItems K (p\<lparr>problem := e\<rparr>) = selectedItems K p" "selectedItems K (p\<lparr>stale := b\<rparr>) = selectedItems K p"
  "selectedItems K (p\<lparr>loading := b\<rparr>) = selectedItems K p" "selectedItems K (p\<lparr>may_write := b\<rparr>) = selectedItems K p"
  "selectedItems K (p\<lparr>may_remove := b\<rparr>) = selectedItems K p"
  by (simp_all add: selectedItems_def review_items_def included_def cong: option.case_cong)

lemma alternatives_same: "selectedItems K p = selectedItems K q \<Longrightarrow> alternatives K p = alternatives K q"
  by (simp only: alternatives_def outline_def sameType_def)

text \<open>The master is one of the items to be merged and every field has a value; with none to be merged there is no master.\<close>

definition all_chosen :: "kit \<Rightarrow> review \<Rightarrow> bool" where
  "all_chosen K p \<longleftrightarrow> (\<forall>(n, vs)\<in>set (alternatives K p). \<exists>i<length vs. map_of (choices p) n = Some (int i))"

definition master_in :: "kit \<Rightarrow> review \<Rightarrow> bool" where
  "master_in K p \<longleftrightarrow> snapshot p = None \<or> (if selectedItems K p = [] then master p = ''''
     else master p \<in> itemKey ` set (selectedItems K p) \<and> all_chosen K p)"

lemma all_chosen_same: "selectedItems K p = selectedItems K q \<Longrightarrow> choices p = choices q \<Longrightarrow> all_chosen K p = all_chosen K q"
  using alternatives_same [of K p q] by (simp add: all_chosen_def)

lemma master_in_same:
  "selectedItems K p = selectedItems K q \<Longrightarrow> master p = master q \<Longrightarrow> choices p = choices q \<Longrightarrow> snapshot p = snapshot q \<Longrightarrow> master_in K p = master_in K q"
  using all_chosen_same [of K p q] by (simp add: master_in_def)

lemma alternative_values: "(n, vs) \<in> set (alternatives K p) \<Longrightarrow> vs = distinct_values (map (\<lambda>i. mergeValue (to_text K) i n) (selectedItems K p))"
  by (auto simp: alternatives_def mergeFields_def Let_def split: option.splits if_splits)

lemma index_of_there: "v \<in> set vs \<Longrightarrow> \<exists>i<length vs. index_of v vs = int i"
proof (cases "find_index (\<lambda>u. stringify u = stringify v) vs")
  case (Some i)
  with find_index_Some [OF this] show ?thesis by (auto simp: index_of_def)
qed (auto simp: find_index_None)

lemma map_of_map_pair: "(n, vs) \<in> set xs \<Longrightarrow> (\<And>ws. (n, ws) \<in> set xs \<Longrightarrow> ws = vs) \<Longrightarrow> map_of (map (\<lambda>(n, vs). (n, f n vs)) xs) n = Some (f n vs)"
  by (induction xs) fastforce+

lemma chosen_rest:
  "snapshot (chooseMaster K k p) = snapshot p" "selectedItems K (chooseMaster K k p) = selectedItems K p"
  "loading (chooseMaster K k p) = loading p" "confirming (chooseMaster K k p) = False" "master (chooseMaster K k p) = k"
  by (simp_all add: chooseMaster_def Let_def split: option.split)

lemma chosen_all: "k \<in> itemKey ` set (selectedItems K p) \<Longrightarrow> all_chosen K (chooseMaster K k p)"
proof -
  assume k: "k \<in> itemKey ` set (selectedItems K p)"
  let ?q = "p\<lparr>master := k, confirming := False\<rparr>"
  from k obtain i where f: "List.find (\<lambda>i. itemKey i = k) (selectedItems K p) = Some i"
    by (cases "List.find (\<lambda>i. itemKey i = k) (selectedItems K p)") (auto simp: find_None_iff)
  then have i: "i \<in> set (selectedItems K p)" by (auto simp: find_Some_iff)
  have a: "alternatives K ?q = alternatives K p" by (rule alternatives_same) simp
  have c: "chooseMaster K k p = ?q\<lparr>choices := map (\<lambda>(n, vs). (n, index_of (mergeValue (to_text K) i n) vs)) (alternatives K p)\<rparr>"
    using f by (simp add: chooseMaster_def a)
  have "\<exists>j<length vs. map_of (choices (chooseMaster K k p)) n = Some (int j)" if n: "(n, vs) \<in> set (alternatives K p)" for n vs
  proof -
    from alternative_values [OF n] i have "mergeValue (to_text K) i n \<in> set vs" by (auto simp: distinct_values)
    from index_of_there [OF this] obtain j where j: "j < length vs" "index_of (mergeValue (to_text K) i n) vs = int j" by blast
    have "ws = vs" if "(n, ws) \<in> set (alternatives K p)" for ws using alternative_values [OF that] alternative_values [OF n] by simp
    from map_of_map_pair [OF n this, of "\<lambda>n vs. index_of (mergeValue (to_text K) i n) vs"] j c show ?thesis by auto
  qed
  moreover have "alternatives K (chooseMaster K k p) = alternatives K p" by (rule alternatives_same) (simp add: chosen_rest)
  ultimately show ?thesis by (auto simp: all_chosen_def)
qed

lemma chosen_master_in: "k \<in> itemKey ` set (selectedItems K p) \<or> selectedItems K p = [] \<and> k = '''' \<Longrightarrow> master_in K (chooseMaster K k p)"
  using chosen_all [of k K p] by (auto simp: master_in_def chosen_rest)

lemma first_key_in: "first_key K p \<in> itemKey ` set (selectedItems K p) \<or> selectedItems K p = [] \<and> first_key K p = ''''"
  by (simp add: first_key_def split: list.split)

lemma selected_by_set: "set (included q) = set (included p) \<Longrightarrow> snapshot q = snapshot p \<Longrightarrow> selectedItems K q = selectedItems K p"
  by (simp add: selectedItems_def review_items_def)

lemma master_selected:
  assumes "master_in K p" "snapshot q = snapshot p" "snapshot p \<noteq> None" "master p \<in> set (included q)" "master p \<noteq> ''''"
  shows "master p \<in> itemKey ` set (selectedItems K q)"
proof -
  from assms(1,3,5) obtain i where i: "i \<in> set (selectedItems K p)" "itemKey i = master p" by (auto simp: master_in_def split: if_splits)
  then have "i \<in> set (review_items K q)" using assms(2) by (simp add: selectedItems_def review_items_def)
  with i assms(4) have "i \<in> set (selectedItems K q)" by (auto simp: selectedItems_def)
  with i(2) show ?thesis by (metis rev_image_eqI)
qed

text \<open>No item has the empty key.\<close>

fun keyed :: "review_event \<Rightarrow> bool" where
  "keyed (Passed ks sel w r) = ('''' \<notin> set (case sel of Some ks \<Rightarrow> ks | None \<Rightarrow> ks))"
| "keyed _ = True"

lemma passed_master_in:
  assumes "master_in K p" "keyed (Passed ks sel w r)"
  shows "master_in K (passed K ks sel w r p)"
proof -
  let ?q = "p\<lparr>keys := ks, chosen_keys := sel, may_write := w, may_remove := r\<rparr>"
  let ?k = "if master ?q \<in> set (included ?q) then master ?q else first_key K ?q"
  consider "mset ks \<noteq> mset (keys p)" | "mset ks = mset (keys p)" "set (included ?q) = set (included p)" | "mset ks = mset (keys p)" "snapshot p = None"
    | "mset ks = mset (keys p)" "set (included ?q) \<noteq> set (included p)" "snapshot p \<noteq> None" by blast
  then show ?thesis
  proof cases
    case 1
    then show ?thesis by (simp add: passed_def reload_def master_in_def Let_def)
  next
    case 2
    then have "master_in K ?q = master_in K p" by (intro master_in_same selected_by_set) simp_all
    with 2 assms show ?thesis by (simp add: passed_def Let_def)
  next
    case 3
    then show ?thesis by (simp add: passed_def master_in_def Let_def)
  next
    case 4
    have "passed K ks sel w r p = chooseMaster K ?k ?q" using 4 by (auto simp: passed_def Let_def)
    moreover have "'''' \<notin> set (included ?q)" using assms(2) by (simp add: included_def cong: option.case_cong)
    then have "master p \<in> itemKey ` set (selectedItems K ?q)" if "master p \<in> set (included ?q)"
      using that 4(3) by (intro master_selected [OF assms(1)]) auto
    then have "?k \<in> itemKey ` set (selectedItems K ?q) \<or> selectedItems K ?q = [] \<and> ?k = ''''"
      using first_key_in [of K ?q] by simp
    ultimately show ?thesis using chosen_master_in by simp
  qed
qed

lemma field_all_chosen:
  assumes "all_chosen K p" "list_ex (\<lambda>(m, vs). m = n \<and> i < length vs) (alternatives K p)"
  shows "all_chosen K (choose_field n (int i) p)"
proof -
  have a: "alternatives K (choose_field n (int i) p) = alternatives K p" by (rule alternatives_same) (simp add: choose_field_def)
  from assms(2) obtain vs where vs: "(n, vs) \<in> set (alternatives K p)" "i < length vs" by (auto simp: list_ex_iff)
  have "i < length ws" if "(n, ws) \<in> set (alternatives K p)" for ws
    using alternative_values [OF that] alternative_values [OF vs(1)] vs(2) by simp
  with assms(1) show ?thesis unfolding all_chosen_def a by (auto simp: choose_field_def)
qed

lemma step_master_in:
  assumes "master_in K p" "keyed e"
  shows "master_in K (fst (review_step K e p))"
proof (cases e)
  case (Passed ks sel w r)
  then show ?thesis using passed_master_in [OF assms(1)] assms(2) by simp
next
  case PressReload
  have "master_in K (reload p)" by (simp add: reload_def master_in_def)
  then show ?thesis using PressReload assms by simp
next
  case (Loaded n r)
  have l: "master_in K (p\<lparr>loading := b\<rparr>) = master_in K p" for b p by (rule master_in_same) simp_all
  have c: "master_in K (chooseMaster K (first_key K q) q)" for q by (rule chosen_master_in [OF first_key_in])
  have "master_in K q" if "snapshot q = None" for q using that by (simp add: master_in_def)
  then have "master_in K (loaded K n r p)"
    using assms(1) by (simp add: loaded_def Let_def l c split: sum.split)
  then show ?thesis using Loaded by simp
next
  case (Master k)
  then show ?thesis using assms by (auto intro!: chosen_master_in)
next
  case (Field n i)
  have "selectedItems K (choose_field n (int i) p) = selectedItems K p" by (simp add: choose_field_def)
  then show ?thesis using Field assms field_all_chosen [of K p n i]
    by (auto simp: master_in_def in_review_def) (auto simp: choose_field_def)
next
  case Submit
  have "master_in K (p\<lparr>busy := b, problem := e\<rparr>) = master_in K p" for b e by (rule master_in_same) simp_all
  then show ?thesis using Submit assms by (auto simp: submit_def split: option.split)
next
  case (MergeEnded r)
  have "master_in K (p\<lparr>stale := a, problem := e, confirming := b, busy := c\<rparr>) = master_in K p" "master_in K (p\<lparr>busy := c\<rparr>) = master_in K p" for a b c e
    by (rule master_in_same; simp)+
  then show ?thesis using MergeEnded assms by (auto simp: merge_ended_def split: option.split)
next
  case Review
  have "master_in K (p\<lparr>confirming := b\<rparr>) = master_in K p" for b by (rule master_in_same) simp_all
  then show ?thesis using Review assms by (simp add: confirmation_def)
next
  case CancelReview
  have "master_in K (p\<lparr>confirming := b\<rparr>) = master_in K p" for b by (rule master_in_same) simp_all
  then show ?thesis using CancelReview assms by (simp add: confirmation_def)
qed


lemma reviewed_master_in: "list_all keyed es \<Longrightarrow> master_in K p \<Longrightarrow> master_in K (reviewed K es p)"
  unfolding reviewed_def by (induction es arbitrary: p) (simp_all add: step_master_in)

lemma opened_master_in: "master_in K (opened ks sel w r)"
  by (simp add: opened_def reload_def master_in_def)



text \<open>Two books read for review, the newer chosen as master, the older one's title kept.\<close>

definition two_books :: "ItemEnvelope list" where
  "two_books = (let book = (\<lambda>k n d. \<lparr>itemKey = k, itemVersion = 3, data = [(''itemType'', JStr ''book''), (''title'', JStr n), (''dateAdded'', JStr d)],
       meta = \<lparr>numChildren = 0, createdByUser = None\<rparr>\<rparr>)
     in [book ''AAAABBBB'' ''Whales'' ''1'', book ''CCCCDDDD'' ''whales'' ''2''])"

definition books_kit :: kit where
  "books_kit = \<lparr>parse_date = (\<lambda>t. if t = ''1'' then Some 1 else Some 2), compare_keys = (\<lambda>_ _. 0),
     to_text = (\<lambda>j. case j of JStr t \<Rightarrow> t | _ \<Rightarrow> ''''), outline_of = (\<lambda>_. Some \<lparr>outline_fields = [''title''], outline_creators = []\<rparr>)\<rparr>"

definition book_events :: "review_event list" where
  "book_events = [Loaded 1 (Inr \<lparr>snapLibrary = 7, snapVersion = 9, snapItems = two_books\<rparr>), Master ''CCCCDDDD'', Field ''title'' 0, Review]"


end
