(* ===== verification/Related.thy ===== *)
theory Related
  imports LibraryData Async
begin

text \<open>
  The Related section of the item pane (components/RelatedSection.vue): the items the open one names, taking one off, and the
  search for another.  Loads, searches and writes in flight are kept in lists, each known by what it was asked with; the names
  items are sorted by and their order are arguments, and the focus is left out.
\<close>

section \<open>The section\<close>

datatype relate_write = Relate string string | Unrelate string string

record related_section =
  item :: ItemEnvelope
  editable :: bool
  related :: "ItemEnvelope list"
  failure :: "string option"
  busy :: bool
  searching :: bool
  query :: string
  results :: "ItemEnvelope list option"
  search_timer :: bool
  searchRun :: nat
  loads :: "string list"
  searches :: "(nat \<times> string) list"
  writes :: "relate_write list"

definition keys_of :: "ItemEnvelope list \<Rightarrow> string list" where
  "keys_of = map itemKey"

text \<open>\<open>title\<close> is the title of an item, where it has one; \<open>t\<close> the word of the interface.\<close>

definition titleOf :: "(ItemEnvelope \<Rightarrow> string) \<Rightarrow> (string \<Rightarrow> string) \<Rightarrow> ItemEnvelope \<Rightarrow> string" where
  "titleOf title t i = (if title i \<noteq> [] then title i
     else case get_prop (data i) ''filename'' of
       Some (JStr f) \<Rightarrow> if f \<noteq> [] then f else t (if get_prop (data i) ''itemType'' = Some (JStr ''note'') then ''Note'' else ''(untitled)'')
     | _ \<Rightarrow> t (if get_prop (data i) ''itemType'' = Some (JStr ''note'') then ''Note'' else ''(untitled)''))"

definition shown_related :: "(ItemEnvelope \<Rightarrow> 'k::linorder) \<Rightarrow> related_section \<Rightarrow> ItemEnvelope list" where
  "shown_related rank s = sort_key rank (related s)"

definition offered :: "related_section \<Rightarrow> ItemEnvelope list" where
  "offered s = (case results s of None \<Rightarrow> []
     | Some found \<Rightarrow> filter (\<lambda>i. itemKey i \<notin> set (itemKey (item s) # keys_of (related s))) found)"

section \<open>Its operations\<close>

definition start_load :: "related_section \<Rightarrow> related_section" where
  "start_load s = s\<lparr>loads := itemKey (item s) # loads s\<rparr>"

definition loaded :: "string \<Rightarrow> (thrown + ItemEnvelope list) \<Rightarrow> related_section \<Rightarrow> related_section" where
  "loaded key a s = (let s = s\<lparr>loads := remove1 key (loads s)\<rparr> in case a of
     Inl e \<Rightarrow> s | Inr found \<Rightarrow> if key = itemKey (item s) then s\<lparr>related := found\<rparr> else s)"

definition closeSearch :: "related_section \<Rightarrow> related_section" where
  "closeSearch s = s\<lparr>searching := False, query := [], results := None, search_timer := False\<rparr>"

definition openSearch :: "related_section \<Rightarrow> related_section" where
  "openSearch s = s\<lparr>searching := True, failure := None\<rparr>"

text \<open>The pane hands the section another item, or the same one as it is now: the first watcher is on the key, the second on the
  keys named too.\<close>

definition pass_item :: "ItemEnvelope \<Rightarrow> related_section \<Rightarrow> related_section" where
  "pass_item i s = (let s' = s\<lparr>item := i\<rparr>;
       s'' = (if itemKey i \<noteq> itemKey (item s) then closeSearch (s'\<lparr>related := [], failure := None\<rparr>) else s') in
     if itemKey i \<noteq> itemKey (item s) \<or> relatedKeys i \<noteq> relatedKeys (item s) then start_load s'' else s'')"

definition typed :: "string \<Rightarrow> related_section \<Rightarrow> related_section" where
  "typed q s = (if trim q = [] then s\<lparr>query := q, search_timer := False, results := None\<rparr> else s\<lparr>query := q, search_timer := True\<rparr>)"

definition search :: "related_section \<Rightarrow> related_section" where
  "search s = s\<lparr>search_timer := False, searchRun := Suc (searchRun s), searches := (Suc (searchRun s), query s) # searches s\<rparr>"

definition found_items :: "nat \<times> string \<Rightarrow> (thrown + ItemEnvelope list) \<Rightarrow> related_section \<Rightarrow> related_section" where
  "found_items r a s = (let s = s\<lparr>searches := remove1 r (searches s)\<rparr> in
     if fst r \<noteq> searchRun s then s
     else case a of Inl e \<Rightarrow> s\<lparr>failure := Some (error_message e)\<rparr> | Inr found \<Rightarrow> s\<lparr>results := Some found\<rparr>)"

definition start_write :: "relate_write \<Rightarrow> related_section \<Rightarrow> related_section" where
  "start_write w s = s\<lparr>busy := True, failure := None, writes := w # writes s\<rparr>"

definition written :: "relate_write \<Rightarrow> thrown option \<Rightarrow> related_section \<Rightarrow> related_section" where
  "written w a s = (let s = s\<lparr>writes := remove1 w (writes s), busy := False, failure := (case a of None \<Rightarrow> failure s | Some e \<Rightarrow> Some (error_message e))\<rparr> in
     case w of Relate k k' \<Rightarrow> if failure s = None then closeSearch s else s | Unrelate k k' \<Rightarrow> s)"

definition new_related :: "ItemEnvelope \<Rightarrow> bool \<Rightarrow> related_section" where
  "new_related i e = start_load \<lparr>item = i, editable = e, related = [], failure = None, busy = False, searching = False, query = [], results = None,
     search_timer = False, searchRun = 0, loads = [], searches = [], writes = []\<rparr>"

datatype related_event =
    PassItem ItemEnvelope | Loaded string "thrown + ItemEnvelope list" | OpenSearch | CloseSearch | Typed string | TimerFires
  | FoundItems "nat \<times> string" "thrown + ItemEnvelope list" | RemoveRelated string | AddRelated string | Written relate_write "thrown option"

text \<open>The buttons the section draws, and those that are disabled.\<close>

fun related_step :: "related_event \<Rightarrow> related_section \<Rightarrow> related_section option" where
  "related_step (PassItem i) s = Some (pass_item i s)"
| "related_step (Loaded k a) s = (if k \<in> set (loads s) then Some (loaded k a s) else None)"
| "related_step OpenSearch s = (if editable s \<and> \<not> searching s \<and> \<not> busy s then Some (openSearch s) else None)"
| "related_step CloseSearch s = (if searching s then Some (closeSearch s) else None)"
| "related_step (Typed q) s = (if searching s then Some (typed q s) else None)"
| "related_step TimerFires s = (if search_timer s then Some (search s) else None)"
| "related_step (FoundItems r a) s = (if r \<in> set (searches s) then Some (found_items r a s) else None)"
| "related_step (RemoveRelated k) s = (if editable s \<and> \<not> busy s \<and> k \<in> set (keys_of (related s)) then Some (start_write (Unrelate (itemKey (item s)) k) s) else None)"
| "related_step (AddRelated k) s = (if searching s \<and> \<not> busy s \<and> k \<in> set (keys_of (offered s)) then Some (start_write (Relate (itemKey (item s)) k) s) else None)"
| "related_step (Written w a) s = (if w \<in> set (writes s) then Some (written w a s) else None)"

inductive related_run :: "related_section \<Rightarrow> related_event list \<Rightarrow> related_section \<Rightarrow> bool" for s0 where
  start: "related_run s0 [] s0"
| step: "related_run s0 es s \<Longrightarrow> related_step e s = Some s' \<Longrightarrow> related_run s0 (e # es) s'"

section \<open>What it shows and writes\<close>

text \<open>The list is empty, or what was found for the item that is open.\<close>

definition list_of_item :: "related_event list \<Rightarrow> related_section \<Rightarrow> bool" where
  "list_of_item es s \<longleftrightarrow> related s = [] \<or> Loaded (itemKey (item s)) (Inr (related s)) \<in> set es"

text \<open>The writes name two different items, the second not related yet or related as the list has it.\<close>

definition sent_from :: "related_event \<Rightarrow> related_section \<Rightarrow> related_section \<Rightarrow> bool" where
  "sent_from e s s' \<longleftrightarrow> (case e of
     AddRelated k \<Rightarrow> writes s' = Relate (itemKey (item s)) k # writes s \<and> k \<noteq> itemKey (item s) \<and> k \<notin> set (keys_of (related s))
   | RemoveRelated k \<Rightarrow> writes s' = Unrelate (itemKey (item s)) k # writes s \<and> k \<in> set (keys_of (related s))
   | _ \<Rightarrow> set (writes s') \<subseteq> set (writes s))"

lemma close_keeps [simp]: "related (closeSearch s) = related s" "item (closeSearch s) = item s" "writes (closeSearch s) = writes s"
  by (simp_all add: closeSearch_def)

lemmas related_operations = pass_item_def loaded_def start_load_def openSearch_def typed_def search_def found_items_def start_write_def written_def

lemma step_keeps_list: "related_step e s = Some s' \<Longrightarrow> list_of_item es s \<Longrightarrow> list_of_item (e # es) s'"
  by (cases e) (auto simp: list_of_item_def related_operations Let_def split: if_splits sum.splits relate_write.splits)

lemma step_sends: "related_step e s = Some s' \<Longrightarrow> sent_from e s s'"
  by (cases e) (auto simp: sent_from_def offered_def keys_of_def related_operations Let_def dest: set_remove1_subset [THEN subsetD]
      split: if_splits sum.splits relate_write.splits option.splits)

inductive_simps related_run_simps: "related_run s0 [] s" "related_run s0 (e # es) s"

lemma run_keeps_list: "related_run s0 es s \<Longrightarrow> related s0 = [] \<Longrightarrow> list_of_item es s"
proof (induction rule: related_run.induct)
  case start
  then show ?case by (simp add: list_of_item_def)
next
  case (step es s e s')
  then show ?case by (blast intro: step_keeps_list)
qed

text \<open>Whatever is opened meanwhile and in whatever order the answers come, the section lists nothing or what was found for the item it
  shows; what it writes relates two different items that are not related on its list, or takes off one that is.\<close>

theorem related_of_the_item:
  assumes "related_run (new_related i e) es s"
  shows "(related s = [] \<or> Loaded (itemKey (item s)) (Inr (related s)) \<in> set es) \<and> (\<forall>x s'. related_step x s = Some s' \<longrightarrow> sent_from x s s')"
  using run_keeps_list [OF assms] step_sends by (simp add: list_of_item_def new_related_def start_load_def)

text \<open>The field is closed and the search it made last is still under way.\<close>

definition closed_waiting :: "nat \<times> string \<Rightarrow> related_section \<Rightarrow> bool" where
  "closed_waiting r s \<longleftrightarrow> r \<in> set (searches s) \<and> fst r = searchRun s \<and> query s = [] \<and> \<not> searching s \<and> editable s \<and> \<not> busy s"

lemma comes_back: "closed_waiting r s \<Longrightarrow> \<exists>t s'. related_step (FoundItems r (Inr found)) s = Some t \<and> related_step OpenSearch t = Some s' \<and>
    searching s' \<and> query s' = [] \<and> results s' = Some found"
  by (simp add: closed_waiting_def found_items_def openSearch_def Let_def)

text \<open>A search under way outlives its field: closed, emptied or left for another item, what it finds is shown in the field opened next,
  under no query at all.\<close>

theorem closed_search_comes_back:
  assumes "searching s" "editable s" "\<not> busy s" "trim q \<noteq> []" "itemKey i \<noteq> itemKey (item s)"
  shows "(\<forall>e\<in>{CloseSearch, PassItem i}. \<exists>s'. related_run s [OpenSearch, FoundItems (Suc (searchRun s), q) (Inr found), e, TimerFires, Typed q] s' \<and>
      searching s' \<and> query s' = [] \<and> results s' = Some found) \<and>
    (\<exists>s'. related_run s [FoundItems (Suc (searchRun s), q) (Inr found), Typed [], TimerFires, Typed q] s' \<and> query s' = [] \<and> results s' = Some found)"
proof -
  let ?t = "search (typed q s)" and ?f = "FoundItems (Suc (searchRun s), q) (Inr found)"
  have t: "related_run s [TimerFires, Typed q] ?t" using assms by (simp add: related_run_simps typed_def)
  have c: "searching ?t" "editable ?t" "\<not> busy ?t" "(Suc (searchRun s), q) \<in> set (searches ?t)" "searchRun ?t = Suc (searchRun s)" "item ?t = item s"
    using assms by (simp_all add: typed_def search_def)
  have more: "related_run s (es @ [TimerFires, Typed q]) s'" if "related_run ?t es s'" for es s'
    using that by (induction rule: related_run.induct) (auto simp: t intro: related_run.step)
  have "\<exists>s'. related_run ?t [OpenSearch, ?f, e] s' \<and> searching s' \<and> query s' = [] \<and> results s' = Some found"
    if "related_step e ?t = Some u" "closed_waiting (Suc (searchRun s), q) u" for e u
    using comes_back [OF that(2)] related_run.step [OF related_run.step [OF related_run.step [OF related_run.start that(1)]]] by blast
  moreover have "related_step CloseSearch ?t = Some (closeSearch ?t)" "related_step (PassItem i) ?t = Some (pass_item i ?t)"
      "closed_waiting (Suc (searchRun s), q) (closeSearch ?t)" "closed_waiting (Suc (searchRun s), q) (pass_item i ?t)"
    using c assms(5) by (simp_all add: closed_waiting_def closeSearch_def pass_item_def start_load_def Let_def)
  ultimately have "\<forall>e\<in>{CloseSearch, PassItem i}. \<exists>s'. related_run ?t [OpenSearch, ?f, e] s' \<and> searching s' \<and> query s' = [] \<and> results s' = Some found"
    by blast
  moreover have "\<exists>s'. related_run ?t [?f, Typed []] s' \<and> query s' = [] \<and> results s' = Some found"
    using c by (simp add: related_run_simps typed_def found_items_def Let_def trim_def)
  ultimately show ?thesis by (fastforce dest!: more)
qed

text \<open>An item with one of the same library, on a page.\<close>

definition some_item :: "string \<Rightarrow> ItemEnvelope" where
  "some_item k = \<lparr>itemKey = k, itemVersion = 1, data = [(''itemType'', JStr ''book'')], meta = \<lparr>numChildren = 0, createdByUser = None\<rparr>\<rparr>"

definition searching_page :: related_section where
  "searching_page = openSearch (new_related (some_item ''AAAA2222'') True)"

theorem related_of_the_item_witness:
  "\<exists>s. related_run (new_related (some_item ''AAAA2222'') True)
      [Loaded ''AAAA2222'' (Inr [some_item ''CCCC4444'']), PassItem (some_item ''BBBB3333'')] s \<and> related s = []"
proof -
  obtain s where s: "related_run (new_related (some_item ''AAAA2222'') True)
      [Loaded ''AAAA2222'' (Inr [some_item ''CCCC4444'']), PassItem (some_item ''BBBB3333'')] s" "itemKey (item s) = ''BBBB3333''"
    by (simp add: related_run_simps new_related_def start_load_def pass_item_def loaded_def closeSearch_def some_item_def)
  from related_of_the_item [OF s(1)] have "related s = []" by (simp add: s(2))
  with s(1) show ?thesis by blast
qed

theorem closed_search_comes_back_witness:
  "\<exists>s'. related_run searching_page [OpenSearch, FoundItems (1, ''whales'') (Inr [some_item ''CCCC4444'']), CloseSearch, TimerFires, Typed ''whales''] s' \<and>
      searching s' \<and> query s' = [] \<and> results s' = Some [some_item ''CCCC4444'']"
proof -
  have h: "searching searching_page" "editable searching_page" "\<not> busy searching_page" "trim ''whales'' \<noteq> []"
      "itemKey (some_item ''BBBB3333'') \<noteq> itemKey (item searching_page)" "searchRun searching_page = 0"
    by (simp_all add: searching_page_def openSearch_def new_related_def start_load_def some_item_def) (simp add: trim_def is_space_def)
  from closed_search_comes_back [OF h(1-5), of "[some_item ''CCCC4444'']"] show ?thesis by (simp add: h(6))
qed

end
