(* ===== verification/Splitter.thy ===== *)
theory Splitter
  imports Preferences
begin

text \<open>
  The grip between two panes (components/PaneSplitter.vue): dragging it, the keys, and putting the width back.  The width is the
  parent's, which keeps what the grip reports.  Every press adds listeners to the window that a release takes away.
\<close>

record drag =
  originX :: rat
  originWidth :: rat
  drag_rtl :: bool

record splitter =
  width :: rat
  pane :: PaneWidth
  trailing :: bool
  rtl :: bool
  drags :: "drag list"

definition STEP :: rat where
  "STEP = 16"

definition reported :: "rat \<Rightarrow> splitter \<Rightarrow> splitter" where
  "reported w s = s\<lparr>width := of_int (clampWidth (pane s) w)\<rparr>"

definition dragging :: "splitter \<Rightarrow> bool" where
  "dragging s \<longleftrightarrow> drags s \<noteq> []"

definition startDrag :: "nat \<Rightarrow> rat \<Rightarrow> splitter \<Rightarrow> splitter" where
  "startDrag button x s = (if button \<noteq> 0 then s
     else s\<lparr>drags := drags s @ [\<lparr>originX = x, originWidth = width s, drag_rtl = rtl s\<rparr>]\<rparr>)"

definition pointer_moved :: "rat \<Rightarrow> splitter \<Rightarrow> splitter" where
  "pointer_moved x s = fold (\<lambda>d. reported (originWidth d + paneWidthDelta (x - originX d) (trailing s) (drag_rtl d))) (drags s) s"

definition stop_drag :: "splitter \<Rightarrow> splitter" where
  "stop_drag s = s\<lparr>drags := []\<rparr>"

definition towards :: "rat \<Rightarrow> splitter \<Rightarrow> rat" where
  "towards grip s = paneWidthDelta grip (trailing s) (rtl s)"

definition grip_key :: "string \<Rightarrow> splitter \<Rightarrow> rat option" where
  "grip_key key s = (let growsRight = towards 1 s > 0 in
     if key = ''ArrowLeft'' then Some (width s + towards (- STEP) s)
     else if key = ''ArrowRight'' then Some (width s + towards STEP s)
     else if key = ''Home'' then Some (of_int (if growsRight then pane_min (pane s) else pane_max (pane s)))
     else if key = ''End'' then Some (of_int (if growsRight then pane_max (pane s) else pane_min (pane s)))
     else if key = ''Backspace'' then Some (of_int (preferred (pane s)))
     else None)"

definition grip_keydown :: "string \<Rightarrow> splitter \<Rightarrow> splitter" where
  "grip_keydown key s = (case grip_key key s of None \<Rightarrow> s | Some w \<Rightarrow> reported w s)"

definition double_click :: "splitter \<Rightarrow> splitter" where
  "double_click s = reported (of_int (preferred (pane s))) s"

datatype grip_event = Press nat rat | Moved rat | Released | GripKey string | DoubleClick

fun grip_step :: "grip_event \<Rightarrow> splitter \<Rightarrow> splitter" where
  "grip_step (Press b x) s = startDrag b x s"
| "grip_step (Moved x) s = pointer_moved x s"
| "grip_step Released s = stop_drag s"
| "grip_step (GripKey k) s = grip_keydown k s"
| "grip_step DoubleClick s = double_click s"

section \<open>Where the divide comes to stand\<close>

definition in_range :: "splitter \<Rightarrow> bool" where
  "in_range s \<longleftrightarrow> of_int (pane_min (pane s)) \<le> width s \<and> width s \<le> of_int (pane_max (pane s))"

lemma reported_simps [simp]: "drags (reported w s) = drags s" "pane (reported w s) = pane s" "trailing (reported w s) = trailing s" "rtl (reported w s) = rtl s"
  by (simp_all add: reported_def)

lemma reported_reported [simp]: "reported v (reported w s) = reported v s"
  by (simp add: reported_def)

lemma reported_range: "proper_pane (pane s) \<Longrightarrow> in_range (reported w s)"
  using clamp_range [of "pane s" w] by (simp add: in_range_def reported_def)

lemma fold_reported: "proper_pane (pane s) \<Longrightarrow> in_range s \<Longrightarrow> in_range (fold (\<lambda>d. reported (f d)) ds s) \<and> pane (fold (\<lambda>d. reported (f d)) ds s) = pane s"
  by (induction ds arbitrary: s) (simp_all add: reported_range)

lemma step_range: "proper_pane (pane s) \<Longrightarrow> in_range s \<Longrightarrow> in_range (grip_step e s) \<and> pane (grip_step e s) = pane s"
  by (cases e) (auto simp: startDrag_def pointer_moved_def stop_drag_def grip_keydown_def double_click_def fold_reported reported_range in_range_def [of "_\<lparr>drags := _\<rparr>"]
      in_range_def [of s] split: option.split)

lemma moves_run: "drags s = [d] \<Longrightarrow> fold grip_step (map Moved (xs @ [x])) s =
    reported (originWidth d + paneWidthDelta (x - originX d) (trailing s) (drag_rtl d)) s"
  by (induction xs arbitrary: s) (simp_all add: pointer_moved_def)

text \<open>The width stays between the least and the greatest of the pane whatever is done to the grip; a drag leaves the divide where the
  pointer was last, whatever way it went there, and moves nothing once it was released.\<close>

theorem divide_follows_the_pointer:
  assumes "proper_pane (pane s)" "in_range s"
  shows "in_range (fold grip_step es s) \<and>
    (drags s = [] \<longrightarrow> width (fold grip_step (Press 0 x # map Moved (xs @ [y]) @ Released # map Moved zs) s) =
       of_int (clampWidth (pane s) (width s + (if trailing s \<noteq> rtl s then x - y else y - x))))"
proof -
  have "in_range (fold grip_step es s) \<and> pane (fold grip_step es s) = pane s"
    using assms by (induction es arbitrary: s) (simp_all add: step_range)
  moreover have "fold grip_step (map Moved zs) (stop_drag u) = stop_drag u" for u
    by (induction zs) (simp_all add: pointer_moved_def stop_drag_def)
  moreover have "fold grip_step (map Moved (xs @ [y])) (startDrag 0 x s) =
      reported (width s + paneWidthDelta (y - x) (trailing s) (rtl s)) (startDrag 0 x s)" if "drags s = []"
    using moves_run [of "startDrag 0 x s"] that by (simp add: startDrag_def)
  ultimately show ?thesis
    by (simp del: map_append) (simp add: stop_drag_def reported_def startDrag_def paneWidthDelta_def)
qed

definition sidebar_grip :: splitter where
  "sidebar_grip = \<lparr>width = of_int (preferred SIDEBAR), pane = SIDEBAR, trailing = False, rtl = False, drags = []\<rparr>"

theorem divide_follows_the_pointer_witness:
  "width (fold grip_step [Press 0 100, Moved 900, Moved 110, Released, Moved 500] sidebar_grip) = of_int (clampWidth SIDEBAR (of_int (preferred SIDEBAR) + 10))"
proof -
  have h: "proper_pane (pane sidebar_grip)" "in_range sidebar_grip"
    by (simp_all add: sidebar_grip_def panes_proper) (simp add: in_range_def SIDEBAR_def)
  from divide_follows_the_pointer [OF h, of _ 100 "[900]" 110 "[500]"] show ?thesis by (simp add: sidebar_grip_def)
qed

end
