(* ===== verification/Settings.thy ===== *)
theory Settings
  imports Reporting
begin

text \<open>
  The settings of an account: the panel its sections share (views/settings/panel.ts, components/sectionmessages.ts), that of
  the administration (views/admin/panel.ts), and what the sections for the name and address, for signing in, for API
  keys, for connected applications and for taking a library out and putting one back do (ProfileSection.vue, SecuritySection.vue,
  KeysSection.vue, ApplicationsSection.vue and TransferSection.vue of views/settings).  Every action runs through the panel's \<open>attempt\<close>.
  Adding a passkey is a ceremony of its own (Passkeys) and left out.  Of reading the session again behind a new name only the request is
  here: it throws nothing, and what it changes is the store of AuthStore.
\<close>

section \<open>The panel\<close>

record session_entry =
  session_id :: int
  userAgent :: string
  current :: bool

record account_payload =
  account_name :: string
  account_visibility :: string
  totpEnabled :: bool
  emailCodesEnabled :: bool
  sessions :: "session_entry list"

record library_entry =
  library_id :: int
  is_personal :: bool

record group_entry =
  entry_id :: int
  entry_role :: string
  entry_owner :: bool

record settings = reporting_store +
  notice :: "string option"
  account :: "account_payload option"
  displayName :: string
  visibility :: string
  newEmail :: string
  emailPassword :: string
  currentPassword :: string
  newPassword :: string
  disablePassword :: string
  emailCodePassword :: string
  passkeyPassword :: string
  enrolment :: "(string \<times> string) option"
  enrolmentCode :: string
  connections :: "int list"
  passkey_list :: "int list"
  api_keys :: "int list"
  newKeyName :: string
  newKeyPassword :: string
  newKeyWrite :: bool
  newKeyGroups :: bool
  issuedKey :: "string option"
  applications :: "int list"
  libraries :: "library_entry list"
  group_roles :: "group_entry list"
  target :: "int option"
  archive :: "string option"
  replaces :: bool
  archivePassword :: string
  restored :: "string option"

record settings_payload =
  pAccount :: account_payload
  pEnrolment :: "string \<times> string"
  pConnections :: "int list option"
  pPasskeys :: "int list option"
  pKey :: string
  pKeys :: "int list"
  pApplications :: "int list"
  pLibraries :: "library_entry list"
  pGroupRoles :: "group_entry list"
  pRestored :: string

type_synonym 'r settings_run = "(settings, settings_payload, 'r) action"

definition clear_messages :: "settings \<Rightarrow> settings" where
  "clear_messages s = s\<lparr>notice := None, failure := None\<rparr>"

text \<open>Another section is chosen: the route changes, and with it both messages go.\<close>

definition another_section :: "settings \<Rightarrow> settings" where
  "another_section = clear_messages"

definition panel_begin :: "settings \<Rightarrow> settings" where
  "panel_begin s = clear_messages (s\<lparr>busy := True\<rparr>)"

definition panel_bad :: "thrown \<Rightarrow> settings \<Rightarrow> settings" where
  "panel_bad e s = s\<lparr>failure := Some (message e)\<rparr>"

definition panel_end :: "settings \<Rightarrow> settings" where
  "panel_end s = s\<lparr>busy := False\<rparr>"

text \<open>The fields that follow the account: the section of the name watches it.\<close>

definition take_account :: "account_payload \<Rightarrow> settings \<Rightarrow> settings" where
  "take_account a s = s\<lparr>account := Some a, displayName := account_name a, visibility := account_visibility a\<rparr>"

definition reload :: "unit settings_run" where
  "reload = try_catch (bind (req pAccount (GET ''/web/account'' [])) (\<lambda>a. modify (take_account a))) (\<lambda>e. modify (panel_bad e))"

definition attempt :: "string \<Rightarrow> unit settings_run \<Rightarrow> unit settings_run" where
  "attempt success work = void (attempt_with panel_begin id panel_bad panel_end
     (seq work (seq (modify (\<lambda>s. s\<lparr>notice := Some success\<rparr>)) reload)))"

text \<open>The administration's has no account to read again.\<close>

definition admin_attempt :: "string \<Rightarrow> unit settings_run \<Rightarrow> unit settings_run" where
  "admin_attempt success work = void (attempt_with panel_begin id panel_bad panel_end
     (seq work (modify (\<lambda>s. s\<lparr>notice := Some success\<rparr>))))"

section \<open>The sections\<close>

text \<open>A list read again; one that is not there is the empty one.\<close>

definition loadPasskeys :: "unit settings_run" where
  "loadPasskeys = bind (req pPasskeys (GET ''/web/account/passkeys'' [])) (\<lambda>k. modify (\<lambda>s. s\<lparr>passkey_list := (case k of Some ks \<Rightarrow> ks | None \<Rightarrow> [])\<rparr>))"

definition loadConnections :: "unit settings_run" where
  "loadConnections = bind (req pConnections (GET ''/web/account/identities'' [])) (\<lambda>k. modify (\<lambda>s. s\<lparr>connections := (case k of Some ks \<Rightarrow> ks | None \<Rightarrow> [])\<rparr>))"

definition load_keys :: "unit settings_run" where
  "load_keys = try_catch (bind (req pKeys (GET ''/web/account/keys'' [])) (\<lambda>k. modify (\<lambda>s. s\<lparr>api_keys := k\<rparr>))) (\<lambda>e. modify (panel_bad e))"

definition load_applications :: "unit settings_run" where
  "load_applications = try_catch (bind (req pApplications (GET ''/web/oauth/authorizations'' [])) (\<lambda>k. modify (\<lambda>s. s\<lparr>applications := k\<rparr>)))
     (\<lambda>e. modify (panel_bad e))"

definition group_of :: "settings \<Rightarrow> library_entry \<Rightarrow> group_entry option" where
  "group_of s l = List.find (\<lambda>g. entry_id g = library_id l) (group_roles s)"

definition mayExport :: "settings \<Rightarrow> library_entry \<Rightarrow> bool" where
  "mayExport s l \<longleftrightarrow> is_personal l \<or> map_option entry_role (group_of s l) = Some ''admin''"

definition mayImport :: "settings \<Rightarrow> library_entry \<Rightarrow> bool" where
  "mayImport s l \<longleftrightarrow> is_personal l \<or> map_option entry_owner (group_of s l) = Some True"

definition importable :: "settings \<Rightarrow> library_entry list" where
  "importable s = filter (mayImport s) (libraries s)"

definition chosen_library :: "settings \<Rightarrow> library_entry option" where
  "chosen_library s = List.find (\<lambda>l. Some (library_id l) = target s) (libraries s)"

definition archiveUrl :: "library_entry \<Rightarrow> string" where
  "archiveUrl l = ''/web/libraries/'' @ show_int (library_id l) @ ''/archive''"

definition load_transfer :: "unit settings_run" where
  "load_transfer = try_catch
     (bind (req pLibraries (GET ''/web/libraries'' [])) (\<lambda>ls. seq (modify (\<lambda>s. s\<lparr>libraries := ls\<rparr>))
       (bind (req pGroupRoles (GET ''/web/groups'' [])) (\<lambda>gs. modify (\<lambda>s. let s' = s\<lparr>group_roles := gs\<rparr> in
          s'\<lparr>target := (case importable s' of l # ls \<Rightarrow> Some (library_id l) | [] \<Rightarrow> None)\<rparr>)))))
     (\<lambda>e. modify (panel_bad e))"

definition password_body :: "string \<Rightarrow> json" where
  "password_body p = JObj [(''currentPassword'', JStr p)]"

datatype settings_action =
    SaveName | SaveVisibility string | SaveEmail | SavePassword | StartEnrolment | ConfirmEnrolment | DisableTotp | EnableEmailCodes | DisableEmailCodes
  | RevokeOthers | Revoke int | Disconnect int | RemovePasskey int | CreateKey | RevokeKey int string | DisconnectApplication int string | Restore

text \<open>What is sent first: the fields of the form are read as it is pressed.  A restore sends a form, its fields written as JSON here.\<close>

fun main_call :: "settings_action \<Rightarrow> settings \<Rightarrow> call" where
  "main_call SaveName s = send_call ''PATCH'' ''/web/account'' (Some (JObj [(''displayName'', JStr (displayName s))]))"
| "main_call (SaveVisibility v) s = send_call ''PATCH'' ''/web/account'' (Some (JObj [(''profileVisibility'', JStr v)]))"
| "main_call SaveEmail s = send_call ''POST'' ''/web/account/email'' (Some (JObj [(''email'', JStr (newEmail s)), (''currentPassword'', JStr (emailPassword s))]))"
| "main_call SavePassword s = send_call ''POST'' ''/web/account/password''
     (Some (JObj [(''currentPassword'', JStr (currentPassword s)), (''newPassword'', JStr (newPassword s))]))"
| "main_call StartEnrolment s = send_call ''POST'' ''/web/account/totp'' None"
| "main_call ConfirmEnrolment s = send_call ''POST'' ''/web/account/totp/confirm'' (Some (JObj [(''code'', JStr (enrolmentCode s))]))"
| "main_call DisableTotp s = send_call ''POST'' ''/web/account/totp/disable'' (Some (password_body (disablePassword s)))"
| "main_call EnableEmailCodes s = send_call ''POST'' ''/web/account/email-codes'' (Some (password_body (emailCodePassword s)))"
| "main_call DisableEmailCodes s = send_call ''DELETE'' ''/web/account/email-codes'' (Some (password_body (emailCodePassword s)))"
| "main_call RevokeOthers s = send_call ''POST'' ''/web/account/sessions/revoke-others'' None"
| "main_call (Revoke i) s = send_call ''DELETE'' (''/web/account/sessions/'' @ show_int i) None"
| "main_call (Disconnect i) s = send_call ''DELETE'' (''/web/account/identities/'' @ show_int i) None"
| "main_call (RemovePasskey i) s = send_call ''DELETE'' (''/web/account/passkeys/'' @ show_int i) (Some (password_body (passkeyPassword s)))"
| "main_call CreateKey s = send_call ''POST'' ''/web/account/keys'' (Some (JObj [(''name'', JStr (newKeyName s)),
     (''currentPassword'', JStr (newKeyPassword s)), (''write'', JBool (newKeyWrite s)), (''groups'', JBool (newKeyGroups s))]))"
| "main_call (RevokeKey i n) s = send_call ''DELETE'' (''/web/account/keys/'' @ show_int i) None"
| "main_call (DisconnectApplication i n) s = send_call ''DELETE'' (''/web/oauth/authorizations/'' @ show_int i) None"
| "main_call Restore s = send_call ''POST'' (case chosen_library s of Some l \<Rightarrow> archiveUrl l | None \<Rightarrow> '''')
     (Some (JObj [(''archive'', JStr (case archive s of Some f \<Rightarrow> f | None \<Rightarrow> '''')), (''currentPassword'', JStr (archivePassword s)),
       (''replace'', JStr (if replaces s then ''true'' else ''false''))]))"

text \<open>What is done with its answer, and what is read again.\<close>

fun accepted :: "settings_action \<Rightarrow> settings_payload \<Rightarrow> settings \<Rightarrow> settings" where
  "accepted SaveEmail p s = s\<lparr>emailPassword := ''''\<rparr>"
| "accepted SavePassword p s = s\<lparr>currentPassword := '''', newPassword := ''''\<rparr>"
| "accepted StartEnrolment p s = s\<lparr>enrolment := Some (pEnrolment p)\<rparr>"
| "accepted ConfirmEnrolment p s = s\<lparr>enrolment := None, enrolmentCode := ''''\<rparr>"
| "accepted DisableTotp p s = s\<lparr>disablePassword := ''''\<rparr>"
| "accepted EnableEmailCodes p s = s\<lparr>emailCodePassword := ''''\<rparr>"
| "accepted DisableEmailCodes p s = s\<lparr>emailCodePassword := ''''\<rparr>"
| "accepted (RemovePasskey i) p s = s\<lparr>passkeyPassword := ''''\<rparr>"
| "accepted CreateKey p s = s\<lparr>issuedKey := Some (pKey p), newKeyName := '''', newKeyPassword := ''''\<rparr>"
| "accepted Restore p s = s\<lparr>restored := Some (pRestored p), archivePassword := '''', replaces := False, archive := None\<rparr>"
| "accepted _ p s = s"

fun read_again :: "settings_action \<Rightarrow> unit settings_run" where
  "read_again SaveName = settled (send (GET ''/web/auth/session'' []))"
| "read_again (SaveVisibility v) = settled (send (GET ''/web/auth/session'' []))"
| "read_again (Disconnect i) = loadConnections"
| "read_again (RemovePasskey i) = loadPasskeys"
| "read_again CreateKey = load_keys"
| "read_again (RevokeKey i n) = load_keys"
| "read_again (DisconnectApplication i n) = load_applications"
| "read_again Restore = bind (req pLibraries (GET ''/web/libraries'' [])) (\<lambda>ls. modify (\<lambda>s. s\<lparr>libraries := ls\<rparr>))"
| "read_again _ = ret ()"

text \<open>A visibility is shown at once and put back when it was refused; a restore without a library or an archive throws.\<close>

definition work :: "settings_action \<Rightarrow> unit settings_run" where
  "work a = asks id (\<lambda>s.
     if a = Restore \<and> (archive s = None \<or> chosen_library s = None) then throw (JsError ''Choose a library and an archive first.'')
     else bind (case a of
         SaveVisibility v \<Rightarrow> seq (modify (\<lambda>s. s\<lparr>visibility := v\<rparr>))
           (try_catch (req id (main_call a s)) (\<lambda>e. seq (modify (\<lambda>t. t\<lparr>visibility := visibility s\<rparr>)) (throw e)))
       | _ \<Rightarrow> req id (main_call a s))
       (\<lambda>p. seq (modify (accepted a p)) (read_again a)))"

text \<open>\<open>t\<close> is the acknowledgement in the language of the reader.\<close>

definition act :: "(settings_action \<Rightarrow> string) \<Rightarrow> settings_action \<Rightarrow> unit settings_run" where
  "act t a = attempt (t a) (work a)"

section \<open>What becomes of an action\<close>

interpretation panel: reporting panel_begin "\<lambda>_. id" panel_bad panel_end
  by unfold_locales (simp_all add: panel_begin_def clear_messages_def panel_bad_def panel_end_def)

lemma reload_sound: "sound 1 reload"
  unfolding reload_def by (intro sound_catch_map within_map req_within behaves_bind req_behaves behaves_modify within_modify sound_simple)

text \<open>A list read again, on its own or with what goes wrong reported.\<close>

lemma load_within: "within 1 (bind (req pick q) (\<lambda>k. modify (f k)))" "within 1 (try_catch (bind (req pick q) (\<lambda>k. modify (f k))) (\<lambda>e. modify (h e)))"
  using within_catch [of 1 "bind (req pick q) (\<lambda>k. modify (f k))" 0 "\<lambda>e. modify (h e)"] by (simp_all add: within_map req_within del: One_nat_def)

lemma load_behaves: "behaves (\<lambda>_. True) (\<lambda>_. True) (bind (req pick q) (\<lambda>k. modify (f k)))"
    "behaves (\<lambda>_. True) (\<lambda>_. True) (try_catch (bind (req pick q) (\<lambda>k. modify (f k))) (\<lambda>e. modify (h e)))"
  by (intro behaves_catch behaves_bind req_behaves behaves_modify)+

lemmas loads = loadConnections_def loadPasskeys_def load_keys_def load_applications_def

lemma read_again_within: "within 1 (read_again a)"
  by (cases a) (simp_all add: loads load_within within_settled req_within del: One_nat_def)

lemma read_again_behaves: "behaves (\<lambda>_. True) (\<lambda>_. True) (read_again a)"
  by (cases a) (simp_all add: loads load_behaves behaves_ret behaves_settled req_behaves)

text \<open>What is shown while the answer is awaited, and what a refusal puts back.\<close>

fun tried :: "settings_action \<Rightarrow> settings \<Rightarrow> settings" where
  "tried (SaveVisibility v) s = s\<lparr>visibility := v\<rparr>"
| "tried _ s = s"

fun put_back :: "settings_action \<Rightarrow> settings \<Rightarrow> settings \<Rightarrow> settings" where
  "put_back (SaveVisibility v) s t = t\<lparr>visibility := visibility s\<rparr>"
| "put_back _ s t = t"

definition ready_to :: "settings_action \<Rightarrow> settings \<Rightarrow> bool" where
  "ready_to a s \<longleftrightarrow> a = Restore \<longrightarrow> archive s \<noteq> None \<and> chosen_library s \<noteq> None"

lemma work_runs: "work a s = (if ready_to a s then (tried a s, Wait (main_call a s) (\<lambda>x z. case x of
    Inl e \<Rightarrow> (put_back a s z, Fail e) | Inr p \<Rightarrow> read_again a (accepted a p z)))
    else (s, Fail (JsError ''Choose a library and an archive first.'')))"
  by (cases a) (auto simp: work_def ready_to_def req_def async_simps fun_eq_iff split: sum.splits)

lemma work_within: "within 2 (work a)"
  using read_again_within [of a] by (auto simp: within_def work_runs fun_eq_iff map_prod_def split: sum.splits prod.splits)

lemma work_behaves: "behaves (\<lambda>_. True) (\<lambda>_. True) (work a)"
  using read_again_behaves [of a] by (auto simp: behaves_def work_runs fun_eq_iff map_prod_def split: sum.splits prod.splits)

lemma reload_parts: "within 1 reload" "behaves (\<lambda>_. True) (\<lambda>_. True) reload"
  using reload_sound by (auto simp: sound_def intro: behaves_weaken)

lemma act_sound: "sound 3 (act t a)"
proof -
  have "within (2 + (0 + 1)) (seq (work a) (seq (modify (\<lambda>s. s\<lparr>notice := Some (t a)\<rparr>)) reload))"
    by (intro within_seq work_within within_modify reload_parts)
  then have "within 3 (seq (work a) (seq (modify (\<lambda>s. s\<lparr>notice := Some (t a)\<rparr>)) reload))" by simp
  then show ?thesis unfolding act_def attempt_def
    by (intro sound_void panel.attempt_sound behaves_seq work_behaves behaves_modify reload_parts)
qed

text \<open>The program behind an accepted request.\<close>

definition after_work :: "string \<Rightarrow> settings_action \<Rightarrow> unit settings_run" where
  "after_work t a = void (try_finally (try_catch
     (bind (seq (read_again a) (seq (modify (\<lambda>s. s\<lparr>notice := Some t\<rparr>)) reload)) (\<lambda>v. seq (modify id) (ret (Some v))))
     (\<lambda>e. seq (modify (panel_bad e)) (ret None))) panel_end)"

lemma panel_begin_keeps: "main_call a (panel_begin s) = main_call a s" "ready_to a (panel_begin s) = ready_to a s"
    "put_back a (panel_begin s) z = put_back a s z"
  by (cases a; simp add: panel_begin_def clear_messages_def chosen_library_def ready_to_def)+

lemma act_runs: "act t a s = (if ready_to a s then (tried a (panel_begin s), Wait (main_call a s) (\<lambda>x z. case x of
      Inl e \<Rightarrow> (panel_end (panel_bad e (put_back a s z)), Done ()) | Inr p \<Rightarrow> after_work (t a) a (accepted a p z)))
    else (panel_end (panel_bad (JsError ''Choose a library and an archive first.'') (panel_begin s)), Done ()))"
  by (auto simp: act_def attempt_def attempt_with_def after_work_def void_def async_simps work_runs panel_begin_keeps fun_eq_iff split: sum.splits)

section \<open>Passwords\<close>

text \<open>Those on the page, and where in that list are those of the form an action sends.\<close>

definition secrets :: "settings \<Rightarrow> string list" where
  "secrets s = [emailPassword s, currentPassword s, newPassword s, disablePassword s, emailCodePassword s, passkeyPassword s,
     newKeyPassword s, archivePassword s]"

fun form_boxes :: "settings_action \<Rightarrow> nat list" where
  "form_boxes SaveEmail = [0]"
| "form_boxes SavePassword = [1, 2]"
| "form_boxes DisableTotp = [3]"
| "form_boxes EnableEmailCodes = [4]"
| "form_boxes DisableEmailCodes = [4]"
| "form_boxes (RemovePasskey i) = [5]"
| "form_boxes CreateKey = [6]"
| "form_boxes Restore = [7]"
| "form_boxes _ = []"

abbreviation keeps_secrets :: "settings \<Rightarrow> settings \<Rightarrow> bool" where
  "keeps_secrets \<equiv> \<lambda>s t. secrets t = secrets s"

lemma preorder_secrets [simp]: "preorder_rel keeps_secrets"
  by (auto simp: preorder_rel_def)

lemma panel_secrets [simp]: "secrets (panel_begin s) = secrets s" "secrets (panel_end s) = secrets s" "secrets (panel_bad e s) = secrets s"
    "secrets (take_account p s) = secrets s" "secrets (tried a s) = secrets s" "secrets (put_back a s z) = secrets z"
  by (simp_all add: secrets_def panel_begin_def panel_end_def panel_bad_def clear_messages_def take_account_def)
    (cases a; simp)+

lemma accepted_secrets: "secrets (accepted a p s) = map (\<lambda>i. if i \<in> set (form_boxes a) then '''' else secrets s ! i) [0..<8]"
  by (cases a) (simp_all add: secrets_def upt_rec)

lemma list_secrets [simp]: "secrets (passkey_list_update f s) = secrets s" "secrets (connections_update g s) = secrets s"
    "secrets (api_keys_update h s) = secrets s" "secrets (applications_update k s) = secrets s" "secrets (libraries_update l s) = secrets s"
    "secrets (notice_update n s) = secrets s"
  by (simp_all add: secrets_def)

lemma load_keeps:
  assumes "\<And>x s. secrets (f x s) = secrets s"
  shows "stretches keeps_secrets (bind (req pick q) (\<lambda>k. modify (f k)))"
    "stretches keeps_secrets (try_catch (bind (req pick q) (\<lambda>k. modify (f k))) (\<lambda>e. modify (panel_bad e)))"
  unfolding req_def by (auto intro!: stretch_rules stretches_modify simp: assms)

lemma after_work_keeps: "stretches keeps_secrets (after_work t a)"
proof -
  have r: "stretches keeps_secrets (read_again a)"
    by (cases a) (simp_all add: loads load_keeps stretches_ret stretches_settled stretches_await send_def req_def [of "\<lambda>_. ()"])
  have "stretches keeps_secrets reload" unfolding reload_def by (intro load_keeps) simp
  with r show ?thesis unfolding after_work_def by (auto intro!: stretch_rules stretches_seq stretches_modify)
qed

lemma ends_finallyO: "(\<And>s. \<not> busy (f s)) \<Longrightarrow> endsO (\<lambda>_ s. \<not> busy s) (snd (finallyO u f s)) (fst (finallyO u f s))"
proof (induction u arbitrary: s rule: outcome_induct)
  case (Wait q k)
  then show ?case by (simp add: ends_def try_finally_eq)
qed simp_all

lemma ends_void: "ends (\<lambda>_. P) m \<Longrightarrow> ends (\<lambda>_. P) (void m)"
proof -
  have "endsO (\<lambda>_. P) u s \<Longrightarrow> endsO (\<lambda>_. P) (snd (bindO u (\<lambda>_. ret ()) s)) (fst (bindO u (\<lambda>_. ret ()) s))" for u s
  proof (induction u arbitrary: s rule: outcome_induct)
    case (Wait q k)
    then show ?case by (simp add: ends_def bind_eq)
  qed (simp_all add: ret_def)
  then show "ends (\<lambda>_. P) m \<Longrightarrow> ends (\<lambda>_. P) (void m)" unfolding ends_def void_def bind_eq by blast
qed

lemma act_ends: "ends (\<lambda>_ s. \<not> busy s) (act t a)"
  unfolding act_def attempt_def attempt_with_def
  by (intro ends_void ends_seq ends_state) (simp add: try_finally_eq ends_finallyO panel_end_def)

text \<open>Every action of the settings has returned after at most three answers, whatever they are: it never throws, and the panel is not
  busy any more.\<close>

theorem settings_actions_return:
  shows "\<exists>z. feed [x, y, w] (act t a s) = (z, Done ()) \<and> \<not> busy z"
proof -
  obtain z r where z: "feed [x, y, w] (act t a s) = (z, Done r)" using sound_returns [OF act_sound, of "[x, y, w]" t a s] by auto
  have "\<not> busy z" using act_ends [of t a] z ends_feed [of "\<lambda>_ s. \<not> busy s" "snd (act t a s)" "fst (act t a s)"] by (simp add: ends_def)
  with z show ?thesis by simp
qed

text \<open>C39: A refused action leaves every password where it was typed, with the reason; an accepted one empties exactly the boxes of the form it
  sent, whatever becomes of what is read behind it.\<close>

theorem passwords_kept_or_emptied:
  assumes "ready_to a s"
  shows "(let z = fst (feed [Inl e] (act t a s)) in secrets z = secrets s \<and> failure z = Some (message e) \<and> visibility z = visibility s) \<and>
    secrets (fst (feed (Inr p # as) (act t a s))) = map (\<lambda>i. if i \<in> set (form_boxes a) then '''' else secrets s ! i) [0..<8]"
proof -
  have "secrets (fst (feed as (after_work (t a) a z))) = secrets z" for z
    using feed_stretches [OF preorder_secrets after_work_keeps] by simp
  moreover have "visibility (put_back a s (tried a (panel_begin s))) = visibility s"
    by (cases a) (simp_all add: panel_begin_def clear_messages_def)
  ultimately show ?thesis using assms by (simp add: act_runs accepted_secrets Let_def) (simp add: panel_bad_def panel_end_def)
qed

text \<open>An action that ends when another section was chosen meanwhile reports on the section shown by then: choosing forgets the messages
  there are, and the refusal, or the acknowledgement, is written behind it.\<close>

theorem late_message_over_another_section:
  assumes "ready_to a s" "read_again a = ret ()"
  shows "(let (z, u) = act t a s in failure (fst (feed [Inl e] (another_section z, u))) = Some (message e) \<and>
      notice (fst (feed [Inr p, Inr p'] (another_section z, u))) = Some (t a))"
proof -
  have "notice (fst (feed [Inr p'] (after_work (t a) a z))) = Some (t a)" for z
    by (simp add: after_work_def assms(2) reload_def req_def void_def async_simps ret_def take_account_def panel_end_def)
  then show ?thesis using assms(1) by (simp add: act_runs) (simp add: panel_bad_def panel_end_def)
qed

section \<open>On concrete accounts\<close>

definition some_settings :: settings where
  "some_settings = \<lparr>busy = False, failure = None, notice = None, account = None, displayName = ''Ada'', visibility = ''private'',
     newEmail = ''ada@example.org'', emailPassword = ''one'', currentPassword = ''two'', newPassword = ''three'', disablePassword = ''four'',
     emailCodePassword = ''five'', passkeyPassword = ''six'', enrolment = None, enrolmentCode = '''', connections = [], passkey_list = [],
     api_keys = [], newKeyName = '''', newKeyPassword = ''seven'', newKeyWrite = False, newKeyGroups = False, issuedKey = None,
     applications = [], libraries = [], group_roles = [], target = None, archive = None, replaces = False, archivePassword = ''eight'', restored = None\<rparr>"

theorem passwords_kept_or_emptied_witness:
  "secrets (fst (feed [Inl (ApiError ''Wrong password'' 403 None False)] (act (\<lambda>_. ''Password changed.'') SavePassword some_settings))) =
      [''one'', ''two'', ''three'', ''four'', ''five'', ''six'', ''seven'', ''eight''] \<and>
   (\<forall>p. secrets (fst (feed [Inr p, Inl (JsError ''offline'')] (act (\<lambda>_. ''Password changed.'') SavePassword some_settings))) =
      [''one'', '''', '''', ''four'', ''five'', ''six'', ''seven'', ''eight''])"
proof -
  have h: "ready_to SavePassword some_settings" by (simp add: ready_to_def)
  have s: "secrets some_settings = [''one'', ''two'', ''three'', ''four'', ''five'', ''six'', ''seven'', ''eight'']"
    by (simp add: some_settings_def secrets_def)
  from passwords_kept_or_emptied [OF h] show ?thesis by (simp add: Let_def s upt_rec)
qed

theorem late_message_over_another_section_witness:
  "let (z, u) = act (\<lambda>_. ''Saved.'') RevokeOthers some_settings in
    failure (fst (feed [Inl (ApiError ''Refused'' 403 None False)] (another_section z, u))) = Some ''Refused''"
proof -
  have h: "ready_to RevokeOthers some_settings" "read_again RevokeOthers = ret ()" by (simp_all add: ready_to_def)
  from late_message_over_another_section [OF h, where e = "ApiError ''Refused'' 403 None False"]
  show ?thesis by (simp add: Let_def split_beta message_def)
qed

end
