(* ===== verification/Migration.thy ===== *)
theory Migration
  imports Reporting
begin

text \<open>
  Copying a library in from zotero.org (views/settings/MigrateSection.vue): the form that starts the copy, and the polling of how far
  it is.  A timer is a number; \<open>timer\<close> is the variable of the section, which holds the one armed last, \<open>armed\<close> those the browser will
  still fire.  Requests in flight outlive the section.
\<close>

section \<open>The section\<close>

record Status =
  running_copy :: bool
  stage :: string
  done_count :: nat
  total :: "nat option"

record migrate_section =
  apiKey :: string
  password :: string
  replace_library :: bool
  starting :: bool
  status :: "Status option"
  timer :: "nat option"
  armed :: "nat list"
  next_timer :: nat
  polls :: nat
  starts :: nat
  mounted :: bool
  page_visible :: bool
  notice :: "string option"
  failure :: "string option"

definition new_migrate :: migrate_section where
  "new_migrate = \<lparr>apiKey = '''', password = '''', replace_library = False, starting = False, status = None, timer = None, armed = [], next_timer = 0,
     polls = 0, starts = 0, mounted = False, page_visible = True, notice = None, failure = None\<rparr>"

definition copy_running :: "migrate_section \<Rightarrow> bool" where
  "copy_running m \<longleftrightarrow> (case status m of Some s \<Rightarrow> running_copy s | None \<Rightarrow> False)"

text \<open>The stages the interface has a name for, by their name at the server; any other is said as the server spells it.\<close>

definition STAGES :: "string list" where
  "STAGES = [''connecting'', ''items'', ''collections'', ''searches'', ''tags'', ''settings'', ''full text'', ''deleted'', ''files'',
     ''restoring'', ''done'', ''failed'']"

text \<open>\<open>t\<close> is what the interface calls a stage it knows.\<close>

definition stageLabel :: "(string \<Rightarrow> string) \<Rightarrow> migrate_section \<Rightarrow> string" where
  "stageLabel t m = (case status m of None \<Rightarrow> [] | Some s \<Rightarrow> if stage s \<in> set STAGES then t (stage s) else stage s)"

definition counted :: "migrate_section \<Rightarrow> string" where
  "counted m = (case status m of None \<Rightarrow> ''''
     | Some s \<Rightarrow> if done_count s = 0 then ''''
         else (case total s of Some n \<Rightarrow> if n = 0 then show_int (int (done_count s)) else show_int (int (done_count s)) @ '' / '' @ show_int (int n)
                | None \<Rightarrow> show_int (int (done_count s))))"

section \<open>Polling\<close>

definition poll :: "migrate_section \<Rightarrow> migrate_section" where
  "poll m = m\<lparr>polls := Suc (polls m)\<rparr>"

definition clearTimeout :: "migrate_section \<Rightarrow> migrate_section" where
  "clearTimeout m = (case timer m of None \<Rightarrow> m | Some i \<Rightarrow> m\<lparr>armed := filter (\<lambda>j. j \<noteq> i) (armed m)\<rparr>)"

definition setTimeout :: "migrate_section \<Rightarrow> migrate_section" where
  "setTimeout m = m\<lparr>timer := Some (next_timer m), armed := armed m @ [next_timer m], next_timer := Suc (next_timer m)\<rparr>"

definition polled :: "(thrown + Status option) \<Rightarrow> migrate_section \<Rightarrow> migrate_section" where
  "polled a m = (let m = m\<lparr>polls := polls m - 1\<rparr> in case a of
     Inl e \<Rightarrow> m\<lparr>failure := Some (message e)\<rparr>
   | Inr s \<Rightarrow> (let m = m\<lparr>status := s\<rparr> in if copy_running m \<and> page_visible m then setTimeout m else m))"

definition resume :: "migrate_section \<Rightarrow> migrate_section" where
  "resume m = (if page_visible m \<and> copy_running m then poll (clearTimeout m) else m)"

definition begin_call :: "migrate_section \<Rightarrow> call" where
  "begin_call m = send_call ''POST'' ''/web/migrate/zotero'' (Some (JObj [(''apiKey'', JStr (trim (apiKey m))),
     (''currentPassword'', JStr (password m)), (''replace'', JBool (replace_library m))]))"

definition begin_copy :: "migrate_section \<Rightarrow> migrate_section" where
  "begin_copy m = m\<lparr>starting := True, notice := None, failure := None, starts := Suc (starts m)\<rparr>"

definition begun :: "(thrown + Status) \<Rightarrow> migrate_section \<Rightarrow> migrate_section" where
  "begun a m = (let m = m\<lparr>starts := starts m - 1\<rparr> in (case a of
     Inl e \<Rightarrow> m\<lparr>failure := Some (message e)\<rparr>
   | Inr s \<Rightarrow> poll (m\<lparr>status := Some s, apiKey := '''', password := ''''\<rparr>))\<lparr>starting := False\<rparr>)"

datatype migrate_event = Fires nat | Polled "thrown + Status option" | Visibility bool | Start | Begun "thrown + Status" | Leave

text \<open>The section as it is opened.\<close>

definition mount :: "migrate_section \<Rightarrow> migrate_section" where
  "mount m = poll (m\<lparr>mounted := True\<rparr>)"

text \<open>The button that starts is there while no copy runs, and not to be pressed twice; the listener is there while the section is.\<close>

fun migrate_step :: "migrate_event \<Rightarrow> migrate_section \<Rightarrow> migrate_section option" where
  "migrate_step (Fires i) m = (if i \<in> set (armed m) then Some (poll (m\<lparr>armed := remove1 i (armed m)\<rparr>)) else None)"
| "migrate_step (Polled a) m = (if polls m = 0 then None else Some (polled a m))"
| "migrate_step (Visibility v) m = (let m = m\<lparr>page_visible := v\<rparr> in Some (if mounted m then resume m else m))"
| "migrate_step Start m = (if mounted m \<and> \<not> copy_running m \<and> \<not> starting m \<and> trim (apiKey m) \<noteq> [] then Some (begin_copy m) else None)"
| "migrate_step (Begun a) m = (if starts m = 0 then None else Some (begun a m))"
| "migrate_step Leave m = (if mounted m then Some ((clearTimeout m)\<lparr>mounted := False\<rparr>) else None)"

fun migrate_run :: "migrate_event list \<Rightarrow> migrate_section \<Rightarrow> migrate_section option" where
  "migrate_run [] m = Some m"
| "migrate_run (e # es) m = (case migrate_step e m of None \<Rightarrow> None | Some m' \<Rightarrow> migrate_run es m')"

section \<open>When polling stops\<close>

text \<open>The polls in flight and the timers that will start one.\<close>

definition chains :: "migrate_section \<Rightarrow> nat" where
  "chains m = polls m + length (armed m)"

definition due :: "migrate_section \<Rightarrow> nat" where
  "due m = polls m + 2 * length (armed m)"

lemma polled_hidden: "\<not> page_visible m \<Longrightarrow> 0 < polls m \<Longrightarrow> Suc (due (polled a m)) = due m \<and> \<not> page_visible (polled a m)"
  by (cases a) (simp_all add: polled_def due_def Let_def)

lemma fires_due: "migrate_step (Fires i) m = Some m' \<Longrightarrow> Suc (due m') = due m \<and> page_visible m' = page_visible m"
proof -
  assume h: "migrate_step (Fires i) m = Some m'"
  then have "i \<in> set (armed m)" by (simp split: if_splits)
  then have "length (armed m) = Suc (length (remove1 i (armed m)))" using length_pos_if_in_set [of i "armed m"] by (simp add: length_remove1)
  with h show ?thesis by (auto simp: due_def poll_def split: if_splits)
qed

text \<open>A hidden page stops asking: whatever answers come and timers fire, there are no more of them than two for each timer armed as it
  was hidden and one for each poll that was under way.\<close>

theorem hidden_page_stops_asking:
  assumes "\<not> page_visible m" "migrate_run es m = Some m'" "set es \<subseteq> range Fires \<union> range Polled"
  shows "length es \<le> polls m + 2 * length (armed m)"
proof -
  have "length es \<le> due m" using assms
  proof (induction es arbitrary: m)
    case (Cons e es)
    then obtain n where n: "migrate_step e m = Some n" "migrate_run es n = Some m'" by (auto split: option.splits)
    have "Suc (due n) = due m \<and> \<not> page_visible n"
    proof (cases e)
      case (Polled a)
      with n Cons.prems(1) show ?thesis using polled_hidden [of m a] by (auto split: if_splits)
    next
      case (Fires i)
      with n Cons.prems(1) show ?thesis using fires_due [of i m n] by auto
    qed (use Cons.prems(3) in auto)
    with Cons.IH [of n] n Cons.prems show ?case by auto
  qed simp
  then show ?thesis by (simp add: due_def)
qed

text \<open>What a section does that was left with a poll under way: the answer arms a timer, and the timer asks again.\<close>

abbreviation round :: "Status \<Rightarrow> nat \<Rightarrow> migrate_event list" where
  "round s i \<equiv> [Polled (Inr (Some s)), Fires i]"

lemma round_runs:
  assumes "running_copy s" "page_visible m" "0 < polls m" "next_timer m \<notin> set (armed m)"
  shows "migrate_run (round s (next_timer m)) m = Some (m\<lparr>status := Some s, timer := Some (next_timer m), next_timer := Suc (next_timer m)\<rparr>)"
  using assms by (simp add: polled_def copy_running_def setTimeout_def poll_def remove1_append)

lemma migrate_run_append: "migrate_run (es @ fs) m = (case migrate_run es m of None \<Rightarrow> None | Some n \<Rightarrow> migrate_run fs n)"
  by (induction es arbitrary: m) (auto split: option.splits)

lemma rounds_run:
  assumes "running_copy s" "page_visible m" "0 < polls m" "\<forall>i\<in>set (armed m). i < next_timer m"
  shows "\<exists>t u. migrate_run (concat (map (round s) [next_timer m..<next_timer m + n])) m =
    Some (m\<lparr>status := u, timer := t, next_timer := next_timer m + n\<rparr>)"
  using assms
proof (induction n arbitrary: m)
  case 0
  show ?case by (intro exI [of _ "timer m"] exI [of _ "status m"]) simp
next
  case (Suc n)
  let ?m = "m\<lparr>status := Some s, timer := Some (next_timer m), next_timer := Suc (next_timer m)\<rparr>"
  have "\<exists>t u. migrate_run (concat (map (round s) [next_timer ?m..<next_timer ?m + n])) ?m =
    Some (?m\<lparr>status := u, timer := t, next_timer := next_timer ?m + n\<rparr>)"
    using Suc.prems by (intro Suc.IH) auto
  moreover have "migrate_run (round s (next_timer m)) m = Some ?m" using Suc.prems by (intro round_runs) auto
  moreover have "concat (map (round s) [next_timer m..<next_timer m + Suc n]) =
      round s (next_timer m) @ concat (map (round s) [next_timer ?m..<next_timer ?m + n])"
    by (simp add: upt_conv_Cons del: upt_Suc)
  ultimately show ?case by (simp only: migrate_run_append option.case) simp
qed

text \<open>A section left between two polls, with its one timer armed, asks for nothing any more.\<close>

lemma left_between_polls:
  assumes "migrate_step Leave m = Some m'" "set (armed m) \<subseteq> set_option (timer m)"
  shows "armed m' = []"
  using assms by (auto simp: clearTimeout_def filter_empty_conv split: if_splits option.splits)

text \<open>C40: Leaving the section does not stop the polling: with a poll under way it goes on as long as the copy runs, a poll behind every
  answer.  And where the page was hidden and shown again during a poll, two chains of polls run from then on, of which leaving stops one.\<close>

theorem polling_outlives_the_section:
  assumes "mounted m" "page_visible m" "0 < polls m" "running_copy s" "\<forall>i\<in>set (armed m). i < next_timer m"
  shows "\<exists>m1 m2. migrate_run (Leave # concat (map (round s) [next_timer m..<next_timer m + n])) m = Some m1 \<and> \<not> mounted m1 \<and> polls m1 = polls m \<and>
    migrate_run [Polled (Inr (Some s)), Fires (next_timer m), Visibility False, Visibility True, Polled (Inr (Some s)), Polled (Inr (Some s)), Leave] m = Some m2 \<and>
    \<not> mounted m2 \<and> Suc (next_timer m) \<in> set (armed m2)"
proof -
  let ?m = "(clearTimeout m)\<lparr>mounted := False\<rparr>"
  have c: "page_visible ?m = page_visible m" "polls ?m = polls m" "next_timer ?m = next_timer m" "set (armed ?m) \<subseteq> set (armed m)"
    by (auto simp: clearTimeout_def split: option.splits)
  then have "\<exists>t u. migrate_run (concat (map (round s) [next_timer ?m..<next_timer ?m + n])) ?m = Some (?m\<lparr>status := u, timer := t, next_timer := next_timer ?m + n\<rparr>)"
    using assms by (intro rounds_run) auto
  then obtain t u where t: "migrate_run (concat (map (round s) [next_timer m..<next_timer m + n])) ?m = Some (?m\<lparr>status := u, timer := t, next_timer := next_timer m + n\<rparr>)"
    using c by auto
  have "migrate_run (round s (next_timer m)) m = Some (m\<lparr>status := Some s, timer := Some (next_timer m), next_timer := Suc (next_timer m)\<rparr>)"
    using assms by (intro round_runs) auto
  then have "\<exists>m2. migrate_run (round s (next_timer m) @ [Visibility False, Visibility True, Polled (Inr (Some s)), Polled (Inr (Some s)), Leave]) m = Some m2 \<and>
      \<not> mounted m2 \<and> Suc (next_timer m) \<in> set (armed m2)"
    using assms by (simp only: migrate_run_append option.case)
      (simp add: resume_def copy_running_def poll_def clearTimeout_def polled_def setTimeout_def Let_def)
  with t assms(1) c show ?thesis by (simp add: clearTimeout_def split: option.splits)
qed

definition copying :: migrate_section where
  "copying = mount new_migrate"

definition reading_items :: Status where
  "reading_items = \<lparr>running_copy = True, stage = ''items'', done_count = 3, total = Some 9\<rparr>"

theorem hidden_page_stops_asking_witness:
  "(\<exists>m'. migrate_run [Polled (Inr (Some reading_items)), Fires 0, Polled (Inr (Some reading_items))] (copying\<lparr>page_visible := False, armed := [0]\<rparr>) = Some m') \<and>
   length [Polled (Inr (Some reading_items)), Fires 0, Polled (Inr (Some reading_items))] \<le> polls copying + 2"
proof -
  let ?es = "[Polled (Inr (Some reading_items)), Fires 0, Polled (Inr (Some reading_items))]"
  let ?m = "copying\<lparr>page_visible := False, armed := [0]\<rparr>"
  obtain m' where r: "migrate_run ?es ?m = Some m'" by (simp add: copying_def mount_def new_migrate_def poll_def polled_def Let_def)
  have "\<not> page_visible ?m" "set ?es \<subseteq> range Fires \<union> range Polled" by simp_all
  from hidden_page_stops_asking [OF this(1) r this(2)] r show ?thesis by simp
qed

theorem polling_outlives_the_section_witness:
  "\<exists>m'. migrate_run [Leave, Polled (Inr (Some reading_items)), Fires 0, Polled (Inr (Some reading_items)), Fires 1] copying = Some m' \<and> polls m' = 1"
proof -
  have h: "mounted copying" "page_visible copying" "0 < polls copying" "running_copy reading_items" "\<forall>i\<in>set (armed copying). i < next_timer copying"
    by (simp_all add: copying_def mount_def new_migrate_def poll_def reading_items_def)
  have n: "next_timer copying = 0" "polls copying = 1" by (simp_all add: copying_def mount_def new_migrate_def poll_def)
  have r: "concat (map (round reading_items) [0..<0 + 2]) = [Polled (Inr (Some reading_items)), Fires 0, Polled (Inr (Some reading_items)), Fires 1]"
    by (simp add: upt_rec)
  from polling_outlives_the_section [OF h, of 2] show ?thesis unfolding n r by blast
qed

end
