(* ===== verification/Spec2Isabelle.thy ===== *)
theory Spec2Isabelle
  imports LibraryView Router GroupScreen Shares Notifications PublicPages Sanitize Carry Modal PageEvents Preferences Dates Items DateText
    NoteEditor ServiceWorker TagEditor PaneProps Dialogs MergePane Related Splitter Settings Migration
begin

text \<open>
  The browser side of altero, a reference manager: the TypeScript and Vue sources under web/src.  The names of files below are
  relative to that directory.  The server and the libraries the sources call are not modelled; what they answer is an
  argument of the definitions, or an answer fed to a program.

  \<^bold>\<open>The parts of the program, and how they interact.\<close>  Views and components call stores; a store keeps the state of one
  subject, sends requests through the API client and shows what came of them, in toasts or in a message of its own.  The library
  store is the largest: libraries, collections, tags, the list with its pages, the selection and the open item, edits, and the
  undo of each write.  The library screen keeps the open dialogs and questions beside it and turns gestures into its operations;
  the sections of the item pane edit one item and save through the screen.  The router's guard asks the account store before a
  page is shown, the account store hands its language to the locale store, and the service worker answers the page's own
  requests.  Notes are HTML read into a document of the editor, edited by commands, and written back.

  \<^bold>\<open>How code is modelled.\<close>  A store is a record with its refs as fields; a component likewise.  A function is a function of
  the record, and an \<open>async\<close> function is a program (Async): it runs to the next request and continues with the answer on whatever
  state there is by then, so every interleaving of pending operations is a run of the step relation at the end of that
  theory.  A thrown error is an outcome of a program or the left of a sum.  Strings are lists of \<open>char\<close>, or of code points (Codes)
  where the program's own characters lie outside Latin-1; what \<open>Intl\<close>, DOMPurify, the parsers of the browser and ProseMirror return
  is an argument.  Numbers of the program that count or index are \<open>nat\<close> or \<open>int\<close>; none of them comes near the bounds of
  a double.

  \<^bold>\<open>The base.\<close>  Prelude: the pieces of the JavaScript library the sources call, and lemmas on lists and maps that the others
  share.  Json: values and \<open>JSON.stringify\<close>.  Codes, Urls and Regex: code points, \<open>encodeURIComponent\<close>, and regular expressions as
  the specification runs them.  Async: programs, their step relation, and the rules by which a property of every stretch between
  two waits (\<open>stretches\<close>), of every request and rejection (\<open>behaves\<close>) or a bound on the number of answers (\<open>within\<close>) is proved by
  following the text of the program; the locales \<open>store_programs\<close> and \<open>store_invariant\<close> carry such a property to every reachable
  system of pending programs.  Reporting: the \<open>attempt\<close> of stores that report instead of throwing, as a locale.  Zoom: a store's
  program run by a screen that keeps the store.

  \<^bold>\<open>Talking to the server, messages, preferences.\<close>  Client (api/client.ts), Toasts (stores/toasts.ts), Uploads (stores/uploads.ts),
  Preferences (panewidths.ts, exportformats.ts, stores/theme.ts, items/newitemtypes.ts, publications/licenses.ts), DateText
  (formats.ts), Dates (items/dates.ts), Items (items/labels.ts, items/titles.ts, items/tags.ts, items/merging.ts, librarylabel.ts,
  icons.ts).  Shown: requests carry the token exactly when they change something; at most three toasts with a timer for each that
  nobody is at; what a date in three numbers is read as.

  \<^bold>\<open>The library.\<close>  LibraryData, Collections and Attachments hold the data of stores/library.ts, web/src/items/attachments.ts and
  the tree of collections; LibraryStore its state and its reading, LibrarySelect what is looked at, LibraryWrite and LibraryEdit its
  writes.  LibrarySteps shows what each program does between two waits; LibraryInv and LibraryProps draw from it the invariant of the store
  in every reachable system, that an overtaken answer changes nothing, that a committed write is neither repeated nor reported as
  failed, and every way an edit can end.  LibraryView: the one row that is selected is the open one.  LibraryScreen and ScreenProps
  (views/LibraryView.vue): the screen's gestures refine the store's operations, nothing is deleted for good unasked, and at most
  one question is open.

  \<^bold>\<open>The item pane and the dialogs.\<close>  NotePane, InfoPane, TagEditor, CreatorEditor and MergePane model the components of these names, Related
  components/RelatedSection.vue;
  PaneProps what becomes of a save when another row is opened meanwhile; Dialogs the consent to an application
  (views/AuthorizeView.vue), publishing and destinations (components/PublicationsDialog.vue, components/ItemDestinationDialog.vue).  Shown: no typed word
  is lost by the pane itself, what the tags show at once is what is saved, a merge is what was reviewed, an approval sends what is
  ticked.  Modal (modal.ts), Carry (dragging.ts) and PageEvents (retiring.ts, rowtransitions.ts, filedrop.ts, touchpress.ts) are the
  state machines of the page, and Splitter (components/PaneSplitter.vue) the grip between its panes.

  \<^bold>\<open>Accounts, groups, public pages.\<close>  AuthStore (stores/auth.ts), Passkeys (passkeys.ts), Router (router/index.ts), I18n (i18n.ts,
  stores/locale.ts), GroupStore (stores/groups.ts), GroupScreen (views/GroupsView.vue), Shares (stores/shares.ts), Notifications
  (stores/notifications.ts), PublicPages (stores/profile.ts, stores/shared.ts), Settings (views/settings, its panel and five of its
  sections) and Migration (views/settings/MigrateSection.vue).  Shown: the guard decides and protects; the language is that of whoever
  is signed in; a sign-in ends in one of the ways listed; the actions of settings return and keep or empty passwords.

  \<^bold>\<open>Notes and the service worker.\<close>  Sanitize (sanitize.ts), NoteCitations (notes/citations.ts, notes/context.ts), NoteNodes (notes/nodes.ts,
  notes/marks.ts), NoteHtml (notes/html.ts), NoteCommands (notes/commands.ts, notes/slash.ts, notes/direction.ts) and NoteEditor (notes/editor.ts,
  notes/behaviour.ts, notes/formatting.ts): the upgrade of old notes loses nothing, a saved note opens again, marks come back, and
  blocks stay well typed under every command.  ServiceWorker (serviceworker): the caches hold only the page and the built files,
  a page reloads only when its person asks, and what a page is answered online and offline.

  \<^bold>\<open>Bounds.\<close>  No program runs on fuel: loops of the sources are recursions on their data.  Two trees are built to a depth, the tree of
  collections (Collections) and that of the consent (Dialogs): as many levels as there are collections, which a chain of parents
  cannot exceed where keys are distinct.  The bounds of \<open>within\<close> are the numbers of requests a program can wait for.

  \<^bold>\<open>Findings.\<close>  Some of the properties are of behaviour that its comments deny or nobody can want: an answer after signing out fills the list
  again (LibraryProps), the collections of a library left behind replace those of the open one (LibraryProps), a question asked in
  one library is answered for another (ScreenProps), a note or a conflict goes to the row opened next (NotePane, PaneProps), a change
  elsewhere is written over (NotePane), a refusal is wiped and late answers take the panel (GroupScreen), polling outlives its section
  (Migration), and a search its field (Related).

  \<^bold>\<open>Not modelled.\<close>  The catalogues of words (locales), templates, styles, focus and drawing, the views and dialogs that only show a store
  or send one form, the sections of the administration (their panel is in Settings), the schema as Tiptap is handed it, mounting
  and the build, the tests, and the server.
\<close>

end
